(* ===== verification/Prelude.thy ===== *)
theory Prelude
  imports Complex_Main "HOL-Library.AList" "HOL-Library.Extended_Nat"
begin

text \<open>
  What the components share.  A Python \<open>dict\<close> is an association list with the update and
  delete of \<^verbatim>\<open>HOL-Library.AList\<close>: \<open>update\<close> replaces a key in place and appends a new one,
  which is the insertion order of the language.  A raw configuration or wire value is a
  \<open>pyval\<close>.  The named collections gather the simplification rules of the access model and
  the rules by which operations keep their invariants.
\<close>

named_theorems access_simps \<open>equations of the access-control vocabulary\<close>
named_theorems preserves \<open>operations keep the invariants of their component\<close>
named_theorems frames \<open>what an operation leaves untouched\<close>

section \<open>Dictionaries\<close>

type_synonym ('k, 'v) pydict = "('k \<times> 'v) list"

abbreviation dict_get :: "('k, 'v) pydict \<Rightarrow> 'k \<Rightarrow> 'v option" where
  "dict_get d k \<equiv> map_of d k"

abbreviation dict_set :: "'k \<Rightarrow> 'v \<Rightarrow> ('k, 'v) pydict \<Rightarrow> ('k, 'v) pydict" where
  "dict_set k v d \<equiv> AList.update k v d"

abbreviation dict_del :: "'k \<Rightarrow> ('k, 'v) pydict \<Rightarrow> ('k, 'v) pydict" where
  "dict_del k d \<equiv> AList.delete k d"

definition dict_has :: "('k, 'v) pydict \<Rightarrow> 'k \<Rightarrow> bool" where
  "dict_has d k \<longleftrightarrow> map_of d k \<noteq> None"

definition dict_wf :: "('k, 'v) pydict \<Rightarrow> bool" where
  "dict_wf d \<longleftrightarrow> distinct (map fst d)"

lemma dict_get_set [simp]: "dict_get (dict_set k v d) k' = (if k' = k then Some v else dict_get d k')"
  by (simp add: update_conv')

lemma dict_get_del [simp]: "dict_get (dict_del k d) k' = (if k' = k then None else dict_get d k')"
  by (simp add: delete_conv')

lemma dict_wf_Nil [simp, intro]: "dict_wf []"
  by (simp add: dict_wf_def)

lemma dict_wf_set [preserves, intro]: "dict_wf d \<Longrightarrow> dict_wf (dict_set k v d)"
  by (simp add: dict_wf_def distinct_update)

lemma dict_wf_del [preserves, intro]: "dict_wf d \<Longrightarrow> dict_wf (dict_del k d)"
  by (simp add: dict_wf_def distinct_delete)

lemma dict_mem_iff: "dict_wf d \<Longrightarrow> (k, v) \<in> set d \<longleftrightarrow> dict_get d k = Some v"
  by (simp add: dict_wf_def)

definition dict_keys :: "('k, 'v) pydict \<Rightarrow> 'k set" where
  "dict_keys d = fst ` set d"

lemma dict_keys_Nil [simp]: "dict_keys [] = {}"
  by (simp add: dict_keys_def)

lemma dict_keys_set [simp]: "dict_keys (dict_set k v d) = insert k (dict_keys d)"
  by (simp add: dict_keys_def dom_update)

lemma dict_keys_del [simp]: "dict_keys (dict_del k d) = dict_keys d - {k}"
  using delete_keys[of k d] unfolding dict_keys_def
  by (metis image_set set_removeAll)

lemma dict_has_iff: "dict_has d k \<longleftrightarrow> k \<in> dict_keys d"
  by (simp add: dict_has_def dict_keys_def map_of_eq_None_iff)

definition dict_all :: "('v \<Rightarrow> bool) \<Rightarrow> ('k, 'v) pydict \<Rightarrow> bool" where
  "dict_all P d \<longleftrightarrow> (\<forall>kv \<in> set d. P (snd kv))"

lemma dict_all_Nil [simp]: "dict_all P []"
  by (simp add: dict_all_def)

lemma dict_all_set [intro]: "dict_all P d \<Longrightarrow> P v \<Longrightarrow> dict_all P (dict_set k v d)"
  unfolding dict_all_def by (induction d) auto

lemma dict_all_del [intro]: "dict_all P d \<Longrightarrow> dict_all P (dict_del k d)"
  unfolding dict_all_def by (induction d) auto

text \<open>A loop that rewrites every value of a dictionary in place.\<close>

lemma dict_map_values [simp]:
  "dict_keys (map (\<lambda>(k, v). (k, f v)) d) = dict_keys d"
  "dict_wf (map (\<lambda>(k, v). (k, f v)) d) = dict_wf d"
  "dict_all P (map (\<lambda>(k, v). (k, f v)) d) = dict_all (\<lambda>v. P (f v)) d"
  "dict_get (map (\<lambda>(k, v). (k, f v)) d) k = map_option f (dict_get d k)"
  by (induction d) (auto simp: dict_keys_def dict_wf_def dict_all_def image_iff)

lemma dict_all_mono: "dict_all P d \<Longrightarrow> (\<And>v. P v \<Longrightarrow> Q v) \<Longrightarrow> dict_all Q d"
  by (simp add: dict_all_def)

lemma dict_all_get: "dict_all P d \<Longrightarrow> dict_get d k = Some v \<Longrightarrow> P v"
  unfolding dict_all_def by (force dest: map_of_SomeD)

section \<open>Values as the configuration files and the wire carry them\<close>

text \<open>A finite Python \<open>float\<close> is a rational number; the others are the two infinities and
  the not-a-number value.\<close>

datatype pyfloat = Finite rat | PosInf | NegInf | NotANumber

datatype pyval =
    PNone
  | PBool bool
  | PInt int
  | PFloat pyfloat
  | PStr string
  | PList "pyval list"
  | PDict "(pyval \<times> pyval) list"

text \<open>The truth value of a Python object (\<open>if x\<close>, \<open>x or y\<close>).\<close>

fun truthy :: "pyval \<Rightarrow> bool" where
  "truthy PNone = False"
| "truthy (PBool b) = b"
| "truthy (PInt i) = (i \<noteq> 0)"
| "truthy (PFloat f) = (f \<noteq> Finite 0)"
| "truthy (PStr s) = (s \<noteq> [])"
| "truthy (PList xs) = (xs \<noteq> [])"
| "truthy (PDict d) = (d \<noteq> [])"

datatype py_error = ValueError string | KeyError string | TypeError string | RuntimeError string

section \<open>Lists of records\<close>

text \<open>The first element that satisfies a test, and an update of that element only: the two
  shapes of a Python loop that searches a list and returns from its body.\<close>

lemma find_Some_mem: "find P xs = Some x \<Longrightarrow> x \<in> set xs \<and> P x"
  by (auto simp: find_Some_iff)

lemma find_None_not: "find P xs = None \<longleftrightarrow> (\<forall>x \<in> set xs. \<not> P x)"
  by (auto simp: find_None_iff)

fun update_first :: "('a \<Rightarrow> bool) \<Rightarrow> ('a \<Rightarrow> 'a) \<Rightarrow> 'a list \<Rightarrow> 'a list" where
  "update_first P f [] = []"
| "update_first P f (x # xs) = (if P x then f x # xs else x # update_first P f xs)"

fun remove_first :: "('a \<Rightarrow> bool) \<Rightarrow> 'a list \<Rightarrow> 'a list" where
  "remove_first P [] = []"
| "remove_first P (x # xs) = (if P x then xs else x # remove_first P xs)"

definition count_of :: "('a \<Rightarrow> bool) \<Rightarrow> 'a list \<Rightarrow> nat" where
  "count_of P xs = length (filter P xs)"

lemma count_of_Nil [simp]: "count_of P [] = 0"
  by (simp add: count_of_def)

lemma count_of_Cons [simp]: "count_of P (x # xs) = (if P x then Suc (count_of P xs) else count_of P xs)"
  by (simp add: count_of_def)

lemma count_of_append [simp]: "count_of P (xs @ ys) = count_of P xs + count_of P ys"
  by (simp add: count_of_def)

lemma count_of_0_iff: "count_of P xs = 0 \<longleftrightarrow> (\<forall>x \<in> set xs. \<not> P x)"
  by (auto simp: count_of_def filter_empty_conv)

lemma update_first_none: "\<forall>x \<in> set xs. \<not> P x \<Longrightarrow> update_first P f xs = xs"
  by (induction xs) auto

lemma map_update_first: "(\<And>x. P x \<Longrightarrow> g (f x) = g x) \<Longrightarrow> map g (update_first P f xs) = map g xs"
  by (induction xs) auto

lemma length_update_first [simp]: "length (update_first P f xs) = length xs"
  by (induction xs) auto

lemma remove_first_none: "\<forall>x \<in> set xs. \<not> P x \<Longrightarrow> remove_first P xs = xs"
  by (induction xs) auto

lemma set_remove_first_subset: "set (remove_first P xs) \<subseteq> set xs"
  by (induction xs) auto

lemma distinct_map_remove_first: "distinct (map g xs) \<Longrightarrow> distinct (map g (remove_first P xs))"
proof (induction xs)
  case (Cons x xs)
  have "set (map g (remove_first P xs)) \<subseteq> set (map g xs)"
    using set_remove_first_subset[of P xs] by auto
  with Cons show ?case by auto
qed simp

lemma count_of_remove_first_le: "count_of Q (remove_first P xs) \<le> count_of Q xs"
  by (induction xs) auto

end
