(* ===== verification/PyText.thy ===== *)
theory PyText
  imports Prelude
begin

text \<open>
  The text operations of the Python standard library that the modelled code uses.  A \<open>str\<close>
  is a \<open>string\<close> whose characters are the code points below 256; over these the character
  classes below are those of the language (\<open>str.isspace\<close>, \<open>str.isdecimal\<close>,
  \<open>str.isdigit\<close>, \<open>str.lower\<close>).  \<open>int()\<close> accepts surrounding white space, one sign and
  single underscores between digits; its limit on the number of digits is not modelled.
\<close>

abbreviation code :: "char \<Rightarrow> nat" where
  "code c \<equiv> of_char c"

definition isspace :: "char \<Rightarrow> bool" where
  "isspace c \<longleftrightarrow> (9 \<le> code c \<and> code c \<le> 13) \<or> (28 \<le> code c \<and> code c \<le> 32) \<or> code c = 133 \<or> code c = 160"

definition isdecimal :: "char \<Rightarrow> bool" where
  "isdecimal c \<longleftrightarrow> 48 \<le> code c \<and> code c \<le> 57"

text \<open>\<open>str.isdigit\<close> also accepts the three superscript digits, which \<open>int()\<close> refuses.\<close>

definition isdigit :: "char \<Rightarrow> bool" where
  "isdigit c \<longleftrightarrow> isdecimal c \<or> code c = 178 \<or> code c = 179 \<or> code c = 185"

definition lower_char :: "char \<Rightarrow> char" where
  "lower_char c = (if (65 \<le> code c \<and> code c \<le> 90) \<or> (192 \<le> code c \<and> code c \<le> 222 \<and> code c \<noteq> 215)
     then char_of (code c + 32) else c)"

definition upper_ascii_char :: "char \<Rightarrow> char" where
  "upper_ascii_char c = (if 97 \<le> code c \<and> code c \<le> 122 then char_of (code c - 32) else c)"

definition lower :: "string \<Rightarrow> string" where
  "lower s = map lower_char s"

definition lstrip :: "string \<Rightarrow> string" where
  "lstrip s = dropWhile isspace s"

definition rstrip :: "string \<Rightarrow> string" where
  "rstrip s = rev (dropWhile isspace (rev s))"

definition strip :: "string \<Rightarrow> string" where
  "strip s = rstrip (lstrip s)"

definition startswith :: "string \<Rightarrow> string \<Rightarrow> bool" where
  "startswith p s \<longleftrightarrow> take (length p) s = p"

fun join :: "string \<Rightarrow> string list \<Rightarrow> string" where
  "join sep [] = []"
| "join sep [x] = x"
| "join sep (x # xs) = x @ sep @ join sep xs"

fun split_on :: "char \<Rightarrow> string \<Rightarrow> string list" where
  "split_on d [] = [[]]"
| "split_on d (c # cs) =
     (if c = d then [] # split_on d cs
      else (case split_on d cs of [] \<Rightarrow> [[c]] | w # ws \<Rightarrow> (c # w) # ws))"

section \<open>Decimal numbers\<close>

definition digit_val :: "char \<Rightarrow> nat" where
  "digit_val c = code c - 48"

definition digit_char :: "nat \<Rightarrow> char" where
  "digit_char n = char_of (48 + n)"

fun py_digits :: "nat \<Rightarrow> string \<Rightarrow> nat option" where
  "py_digits acc [] = Some acc"
| "py_digits acc (c # cs) =
     (if isdecimal c then py_digits (acc * 10 + digit_val c) cs
      else if c = CHR ''_'' then
        (case cs of [] \<Rightarrow> None
         | d # ds \<Rightarrow> if isdecimal d then py_digits (acc * 10 + digit_val d) ds else None)
      else None)"

definition py_unsigned :: "string \<Rightarrow> nat option" where
  "py_unsigned s = (case s of [] \<Rightarrow> None
     | c # cs \<Rightarrow> if isdecimal c then py_digits (digit_val c) cs else None)"

definition py_int :: "string \<Rightarrow> int option" where
  "py_int s = (case strip s of
      [] \<Rightarrow> None
    | c # cs \<Rightarrow>
        if c = CHR ''+'' then map_option int (py_unsigned cs)
        else if c = CHR ''-'' then map_option (\<lambda>n. - int n) (py_unsigned cs)
        else map_option int (py_unsigned (c # cs)))"

fun nat_str :: "nat \<Rightarrow> string" where
  "nat_str n = (if n < 10 then [digit_char n] else nat_str (n div 10) @ [digit_char (n mod 10)])"

declare nat_str.simps [simp del]

definition int_str :: "int \<Rightarrow> string" where
  "int_str i = (if i < 0 then CHR ''-'' # nat_str (nat (- i)) else nat_str (nat i))"

section \<open>Facts\<close>

lemma code_digit_char [simp]: "n < 10 \<Longrightarrow> code (digit_char n) = 48 + n"
  by (simp add: digit_char_def)

lemma isdecimal_digit_char [simp]: "n < 10 \<Longrightarrow> isdecimal (digit_char n)"
  by (simp add: isdecimal_def)

lemma digit_val_digit_char [simp]: "n < 10 \<Longrightarrow> digit_val (digit_char n) = n"
  by (simp add: digit_val_def)

lemma isdecimal_not_space: "isdecimal c \<Longrightarrow> \<not> isspace c"
  by (auto simp: isdecimal_def isspace_def)

lemma isdecimal_not_sign: "isdecimal c \<Longrightarrow> c \<noteq> CHR ''+'' \<and> c \<noteq> CHR ''-'' \<and> c \<noteq> CHR '':'' \<and> c \<noteq> CHR ''#''"
  by (auto simp: isdecimal_def)

lemma nat_str_decimal: "\<forall>c \<in> set (nat_str n). isdecimal c"
proof (induction n rule: nat_str.induct)
  case (1 n)
  then show ?case by (cases "n < 10") (simp_all add: nat_str.simps[of n])
qed

lemma nat_str_nonempty [simp]: "nat_str n \<noteq> []"
  by (subst nat_str.simps) simp

lemma py_digits_append:
  "\<forall>c \<in> set xs. isdecimal c \<Longrightarrow>
     py_digits acc (xs @ ys) = py_digits (foldl (\<lambda>a c. a * 10 + digit_val c) acc xs) ys"
  by (induction xs arbitrary: acc) auto

lemma py_unsigned_digits:
  assumes "xs \<noteq> []" "\<forall>c \<in> set xs. isdecimal c"
  shows "py_unsigned xs = Some (foldl (\<lambda>a c. a * 10 + digit_val c) 0 xs)"
  using assms py_digits_append[of "tl xs" "digit_val (hd xs)" "[]"]
  by (cases xs) (auto simp: py_unsigned_def)

lemma foldl_nat_str: "foldl (\<lambda>a c. a * 10 + digit_val c) 0 (nat_str n) = n"
proof (induction n rule: nat_str.induct)
  case (1 n)
  show ?case
  proof (cases "n < 10")
    case True
    then show ?thesis by (simp add: nat_str.simps[of n])
  next
    case False
    with 1 show ?thesis by (simp add: nat_str.simps[of n])
  qed
qed

lemma py_unsigned_nat_str [simp]: "py_unsigned (nat_str n) = Some n"
  by (simp add: py_unsigned_digits nat_str_decimal foldl_nat_str)

lemma dropWhile_no_space: "\<forall>c \<in> set s. \<not> isspace c \<Longrightarrow> dropWhile isspace s = s"
  by (cases s) auto

lemma strip_id: "\<forall>c \<in> set s. \<not> isspace c \<Longrightarrow> strip s = s"
  by (simp add: strip_def lstrip_def rstrip_def dropWhile_no_space)

lemma strip_empty [simp]: "strip [] = []"
  by (simp add: strip_def lstrip_def rstrip_def)

lemma nat_str_Cons: "\<exists>c cs. nat_str n = c # cs \<and> isdecimal c"
  using nat_str_decimal[of n] by (cases "nat_str n") auto

lemma int_str_no_space: "c \<in> set (int_str i) \<Longrightarrow> \<not> isspace c"
proof (cases "i < 0")
  case True
  assume "c \<in> set (int_str i)"
  with True have "c = CHR ''-'' \<or> c \<in> set (nat_str (nat (- i)))"
    by (simp add: int_str_def)
  then show ?thesis
    using nat_str_decimal isdecimal_not_space by (auto simp: isspace_def)
next
  case False
  assume "c \<in> set (int_str i)"
  with False show ?thesis
    using nat_str_decimal[of "nat i"] isdecimal_not_space by (simp add: int_str_def)
qed

lemma py_int_int_str [simp]: "py_int (int_str i) = Some i"
proof -
  have s: "strip (int_str i) = int_str i"
    by (rule strip_id) (blast dest: int_str_no_space)
  show ?thesis
  proof (cases "i < 0")
    case True
    then show ?thesis by (simp add: py_int_def s) (simp add: int_str_def)
  next
    case False
    obtain c cs where c: "nat_str (nat i) = c # cs" "isdecimal c"
      using nat_str_Cons by blast
    have "py_unsigned (c # cs) = Some (nat i)"
      using c(1) py_unsigned_nat_str[of "nat i"] by simp
    with False c show ?thesis
      using isdecimal_not_sign[OF c(2)] by (simp add: py_int_def s) (simp add: int_str_def)
  qed
qed

lemma startswith_append [simp]: "startswith p (p @ s)"
  by (simp add: startswith_def)

lemma startswith_iff: "startswith p s \<longleftrightarrow> (\<exists>r. s = p @ r)"
proof
  assume "startswith p s"
  then have "s = p @ drop (length p) s"
    by (metis startswith_def append_take_drop_id)
  then show "\<exists>r. s = p @ r" ..
qed (auto simp: startswith_def)

lemma split_on_nonempty [simp]: "split_on d s \<noteq> []"
  by (induction s) (auto split: list.splits)

lemma split_on_no_sep: "d \<notin> set s \<Longrightarrow> split_on d s = [s]"
  by (induction s) auto

lemma split_on_sep: "d \<notin> set w \<Longrightarrow> split_on d (w @ d # s) = w # split_on d s"
  by (induction w) auto

lemma join_split: "join [d] (split_on d s) = s"
proof (induction s)
  case (Cons c cs)
  show ?case
  proof (cases "split_on d cs")
    case (Cons w ws)
    with Cons.IH show ?thesis by (cases ws) auto
  qed simp
qed simp

end
