(* ===== verification/AccessControl.thy ===== *)
theory AccessControl
  imports PyText
begin

text \<open>
  \<^verbatim>\<open>openmux/server/access_control.py\<close>: the write capacity of a console port.  A raw
  \<open>max_read_write_users\<close> value (a mode name, a legacy integer, a numeric string, or anything a
  file or a peer holds) resolves to one of three modes; a mode is a capacity, the number of
  clients that may write at once.  \<open>math.inf\<close> is the top element of \<^typ>\<open>enat\<close>.  The log
  lines about legacy integers are not modelled.
\<close>

section \<open>Write-capacity modes\<close>

datatype write_mode = ModeNone | ModeOne | ModeMultiple

fun write_mode_str :: "write_mode \<Rightarrow> string" where
  "write_mode_str ModeNone = ''none''"
| "write_mode_str ModeOne = ''one''"
| "write_mode_str ModeMultiple = ''multiple''"

definition WRITE_MODES :: "(string \<times> write_mode) list" where
  "WRITE_MODES = [(''none'', ModeNone), (''one'', ModeOne), (''multiple'', ModeMultiple)]"

definition WIRE_MULTIPLE :: int where
  "WIRE_MULTIPLE = 2147483647"

fun WIRE_CAPACITY :: "write_mode \<Rightarrow> int" where
  "WIRE_CAPACITY ModeNone = 0"
| "WIRE_CAPACITY ModeOne = 1"
| "WIRE_CAPACITY ModeMultiple = WIRE_MULTIPLE"

text \<open>The modes are ordered by how many writers they admit.\<close>

fun mode_rank :: "write_mode \<Rightarrow> nat" where
  "mode_rank ModeNone = 0"
| "mode_rank ModeOne = 1"
| "mode_rank ModeMultiple = 2"

instantiation write_mode :: linorder
begin

definition less_eq_write_mode :: "write_mode \<Rightarrow> write_mode \<Rightarrow> bool" where
  "less_eq_write_mode a b \<longleftrightarrow> mode_rank a \<le> mode_rank b"

definition less_write_mode :: "write_mode \<Rightarrow> write_mode \<Rightarrow> bool" where
  "less_write_mode a b \<longleftrightarrow> mode_rank a < mode_rank b"

instance
proof
  fix x y z :: write_mode
  show "x < y \<longleftrightarrow> x \<le> y \<and> \<not> y \<le> x"
    by (auto simp: less_eq_write_mode_def less_write_mode_def)
  show "x \<le> x" by (simp add: less_eq_write_mode_def)
  show "x \<le> y \<Longrightarrow> y \<le> z \<Longrightarrow> x \<le> z" by (simp add: less_eq_write_mode_def)
  show "x \<le> y \<Longrightarrow> y \<le> x \<Longrightarrow> x = y"
    by (cases x; cases y) (simp_all add: less_eq_write_mode_def)
  show "x \<le> y \<or> y \<le> x" by (auto simp: less_eq_write_mode_def)
qed

end

definition legacy_int_to_mode :: "int \<Rightarrow> write_mode" where
  "legacy_int_to_mode value =
     (if value = 0 then ModeNone else if value = 1 then ModeOne else ModeMultiple)"

definition invalid_write_mode :: py_error where
  "invalid_write_mode = ValueError ''Invalid max_read_write_users''"

fun parse_write_mode :: "pyval \<Rightarrow> py_error + write_mode" where
  "parse_write_mode PNone = Inr ModeOne"
| "parse_write_mode (PBool b) = Inl invalid_write_mode"
| "parse_write_mode (PInt i) =
     (if i \<ge> 0 then Inr (legacy_int_to_mode i) else Inl invalid_write_mode)"
| "parse_write_mode (PStr s) =
     (let text = lower (strip s) in
      case map_of WRITE_MODES text of
        Some m \<Rightarrow> Inr m
      | None \<Rightarrow>
          (case py_int text of
             Some v \<Rightarrow> if v \<ge> 0 then Inr (legacy_int_to_mode v) else Inl invalid_write_mode
           | None \<Rightarrow> Inl invalid_write_mode))"
| "parse_write_mode _ = Inl invalid_write_mode"

definition wire_float_to_mode :: "pyfloat \<Rightarrow> write_mode" where
  "wire_float_to_mode f =
     (case f of
        Finite q \<Rightarrow> if of_int \<lfloor>q\<rfloor> = q \<and> q \<ge> 0 then legacy_int_to_mode \<lfloor>q\<rfloor> else ModeOne
      | _ \<Rightarrow> ModeOne)"

fun wire_to_mode :: "pyval \<Rightarrow> write_mode" where
  "wire_to_mode (PStr s) =
     (let text = lower (strip s) in
      case map_of WRITE_MODES text of
        Some m \<Rightarrow> m
      | None \<Rightarrow> (case py_int text of Some v \<Rightarrow> legacy_int_to_mode v | None \<Rightarrow> ModeOne))"
| "wire_to_mode (PBool b) = ModeOne"
| "wire_to_mode (PInt i) = (if i \<ge> 0 then legacy_int_to_mode i else ModeOne)"
| "wire_to_mode (PFloat f) = wire_float_to_mode f"
| "wire_to_mode _ = ModeOne"

definition compare_write_mode :: "pyval \<Rightarrow> pyval" where
  "compare_write_mode value =
     (case parse_write_mode value of Inr m \<Rightarrow> PStr (write_mode_str m) | Inl _ \<Rightarrow> value)"

fun mode_capacity :: "write_mode \<Rightarrow> enat" where
  "mode_capacity ModeNone = 0"
| "mode_capacity ModeOne = 1"
| "mode_capacity ModeMultiple = \<infinity>"

definition write_capacity :: "pyval \<Rightarrow> enat" where
  "write_capacity mode =
     (case parse_write_mode mode of Inl _ \<Rightarrow> 1 | Inr normalized \<Rightarrow> mode_capacity normalized)"

definition capacity_to_wire :: "pyval \<Rightarrow> int" where
  "capacity_to_wire mode =
     (case parse_write_mode mode of Inl _ \<Rightarrow> 1 | Inr normalized \<Rightarrow> WIRE_CAPACITY normalized)"

text \<open>The value passed on is the mode string that \<open>wire_to_mode\<close> returns.\<close>

definition capacity_from_wire :: "pyval \<Rightarrow> enat" where
  "capacity_from_wire value = write_capacity (PStr (write_mode_str (wire_to_mode value)))"

definition holder_id_short :: "string \<Rightarrow> string" where
  "holder_id_short client_id =
     (if startswith ''fed:'' client_id then client_id
      else if length client_id > 8 then drop (length client_id - 8) client_id
      else client_id)"

section \<open>Facts about modes\<close>

declare parse_write_mode.simps(4) [simp del]
declare wire_to_mode.simps(1) [simp del]

lemma strip_lower_mode_str [simp]: "lower (strip (write_mode_str m)) = write_mode_str m"
  by (cases m) (simp_all add: lower_def strip_def lstrip_def rstrip_def isspace_def lower_char_def)

lemma lookup_mode_str [simp]: "map_of WRITE_MODES (write_mode_str m) = Some m"
  by (cases m) (simp_all add: WRITE_MODES_def)

lemma parse_mode_str [access_simps, simp]: "parse_write_mode (PStr (write_mode_str m)) = Inr m"
  by (simp add: parse_write_mode.simps(4))

lemma wire_to_mode_str [access_simps, simp]: "wire_to_mode (PStr (write_mode_str m)) = m"
  by (simp add: wire_to_mode.simps(1))

lemma capacity_from_wire_mode [access_simps, simp]:
  "capacity_from_wire value = mode_capacity (wire_to_mode value)"
  by (simp add: capacity_from_wire_def write_capacity_def)

lemma legacy_wire_capacity [access_simps, simp]: "legacy_int_to_mode (WIRE_CAPACITY m) = m"
  by (cases m) (simp_all add: legacy_int_to_mode_def WIRE_MULTIPLE_def)

lemma wire_capacity_nonneg [simp]: "WIRE_CAPACITY m \<ge> 0"
  by (cases m) (simp_all add: WIRE_MULTIPLE_def)

lemma mode_capacity_0_iff [access_simps, simp]: "mode_capacity m = 0 \<longleftrightarrow> m = ModeNone"
  by (cases m) simp_all

lemma mode_capacity_inf_iff [access_simps, simp]: "mode_capacity m = \<infinity> \<longleftrightarrow> m = ModeMultiple"
  by (cases m) simp_all

lemma mode_capacity_mono: "a \<le> b \<longleftrightarrow> mode_capacity a \<le> mode_capacity b"
  by (cases a; cases b) (simp_all add: less_eq_write_mode_def)

lemma parse_Inr_wire: "parse_write_mode v = Inr m \<Longrightarrow> wire_to_mode v = m"
  by (cases v) (auto simp: Let_def parse_write_mode.simps(4) wire_to_mode.simps(1)
      split: if_splits option.splits)

lemma mode_capacity_cases: "mode_capacity m = 0 \<or> mode_capacity m = 1 \<or> mode_capacity m = \<infinity>"
  by (cases m) simp_all

lemma write_capacity_cases:
  "write_capacity v = 0 \<or> write_capacity v = 1 \<or> write_capacity v = \<infinity>"
  using mode_capacity_cases by (auto simp: write_capacity_def split: sum.splits)

text \<open>A value the configuration parser accepts means the same to the wire reader.\<close>

lemma write_capacity_wire: "parse_write_mode v = Inr m \<Longrightarrow> write_capacity v = capacity_from_wire v"
  by (simp add: write_capacity_def parse_Inr_wire)

lemma startswith_fed_short: "startswith ''fed:'' cid \<Longrightarrow> holder_id_short cid = cid"
  by (simp add: holder_id_short_def)

lemma holder_id_short_length:
  "length (holder_id_short cid) \<le> 8 \<or> startswith ''fed:'' (holder_id_short cid)"
  by (auto simp: holder_id_short_def)

lemma holder_id_short_suffix: "\<exists>pre. cid = pre @ holder_id_short cid"
proof (cases "holder_id_short cid = cid")
  case False
  then have "holder_id_short cid = drop (length cid - 8) cid"
    by (auto simp: holder_id_short_def split: if_splits)
  then show ?thesis by (metis append_take_drop_id)
qed simp

section \<open>Properties\<close>

text \<open>A capacity survives the wire: whatever raw value a port is configured with, the integer that
  \<open>capacity_to_wire\<close> sends means the same number of writers to \<open>capacity_from_wire\<close>.\<close>

theorem capacity_wire_roundtrip: "capacity_from_wire (PInt (capacity_to_wire v)) = write_capacity v"
proof (cases "parse_write_mode v")
  case (Inl e)
  then show ?thesis by (simp add: capacity_to_wire_def write_capacity_def legacy_int_to_mode_def one_enat_def)
qed (simp add: capacity_to_wire_def write_capacity_def)

lemma lower_no_upper: "(\<And>c. c \<in> set s \<Longrightarrow> lower_char c = c) \<Longrightarrow> lower s = s"
  by (simp add: lower_def map_idI)

lemma int_str_char: "c \<in> set (int_str i) \<Longrightarrow> isdecimal c \<or> c = CHR ''-''"
  using nat_str_decimal by (auto simp: int_str_def split: if_splits)

lemma int_str_lower: "lower (strip (int_str i)) = int_str i"
proof -
  have "strip (int_str i) = int_str i"
    using int_str_no_space by (intro strip_id) blast
  moreover have "lower_char c = c" if "c \<in> set (int_str i)" for c
    using int_str_char[OF that] by (auto simp: lower_char_def isdecimal_def)
  ultimately show ?thesis by (simp add: lower_no_upper)
qed

lemma int_str_no_mode: "map_of WRITE_MODES (int_str i) = None"
proof -
  have "CHR ''n'' \<notin> set (int_str i)" "CHR ''m'' \<notin> set (int_str i)"
    using int_str_char by (auto simp: isdecimal_def dest: int_str_char)
  then have "int_str i \<noteq> ''none''" "int_str i \<noteq> ''one''" "int_str i \<noteq> ''multiple''" by auto
  then show ?thesis by (simp add: WRITE_MODES_def)
qed

text \<open>\<open>wire_to_mode\<close> has no lower bound on a numeric string: a negative number spelled as a string
  reads as unlimited writers, while the same number as an integer reads as one, and the strict
  parser rejects both.\<close>

theorem negative_string_is_unlimited:
  "capacity_from_wire (PStr (int_str (- int n - 1))) = \<infinity>
   \<and> capacity_from_wire (PInt (- int n - 1)) = 1
   \<and> parse_write_mode (PStr (int_str (- int n - 1))) = Inl invalid_write_mode"
proof -
  let ?i = "- int n - 1"
  have "wire_to_mode (PStr (int_str ?i)) = ModeMultiple"
    by (simp add: wire_to_mode.simps(1) int_str_lower int_str_no_mode legacy_int_to_mode_def)
  moreover have "parse_write_mode (PStr (int_str ?i)) = Inl invalid_write_mode"
    by (simp add: parse_write_mode.simps(4) int_str_lower int_str_no_mode)
  ultimately show ?thesis by simp
qed

end
