(* ===== verification/Utf8.thy ===== *)
theory Utf8
  imports PyText
begin

text \<open>
  \<open>str.encode("utf-8")\<close> and \<open>bytes.decode("utf-8", "ignore")\<close>.  A byte is a \<^typ>\<open>char\<close>;
  text is given as its list of code points, so that the sequences of every length are covered.
  With the \<open>ignore\<close> handler an ill-formed sequence contributes nothing; skipping its first
  byte and going on gives the same result as skipping the whole of it, because its other bytes
  are continuation bytes and are skipped in turn.
\<close>

type_synonym bytes = "char list"

definition is_cont :: "char \<Rightarrow> bool" where
  "is_cont b \<longleftrightarrow> 128 \<le> code b \<and> code b < 192"

definition valid_cp :: "nat \<Rightarrow> bool" where
  "valid_cp c \<longleftrightarrow> c < 55296 \<or> (57344 \<le> c \<and> c < 1114112)"

definition utf8_cp :: "nat \<Rightarrow> bytes" where
  "utf8_cp c =
     (if c < 128 then [char_of c]
      else if c < 2048 then [char_of (192 + c div 64), char_of (128 + c mod 64)]
      else if c < 65536 then
        [char_of (224 + c div 4096), char_of (128 + (c div 64) mod 64), char_of (128 + c mod 64)]
      else
        [char_of (240 + c div 262144), char_of (128 + (c div 4096) mod 64),
         char_of (128 + (c div 64) mod 64), char_of (128 + c mod 64)])"

definition utf8_encode :: "nat list \<Rightarrow> bytes" where
  "utf8_encode cs = concat (map utf8_cp cs)"

definition cont_val :: "char \<Rightarrow> nat" where
  "cont_val b = code b - 128"

definition dec2 :: "char \<Rightarrow> bytes \<Rightarrow> nat option" where
  "dec2 b bs = (case bs of
      b1 # _ \<Rightarrow> if 194 \<le> code b \<and> code b < 224 \<and> is_cont b1
        then Some ((code b - 192) * 64 + cont_val b1) else None
    | _ \<Rightarrow> None)"

definition dec3 :: "char \<Rightarrow> bytes \<Rightarrow> nat option" where
  "dec3 b bs = (case bs of
      b1 # b2 # _ \<Rightarrow>
        (let c = (code b - 224) * 4096 + cont_val b1 * 64 + cont_val b2 in
         if 224 \<le> code b \<and> code b < 240 \<and> is_cont b1 \<and> is_cont b2 \<and> 2048 \<le> c \<and> valid_cp c
         then Some c else None)
    | _ \<Rightarrow> None)"

definition dec4 :: "char \<Rightarrow> bytes \<Rightarrow> nat option" where
  "dec4 b bs = (case bs of
      b1 # b2 # b3 # _ \<Rightarrow>
        (let c = (code b - 240) * 262144 + cont_val b1 * 4096 + cont_val b2 * 64 + cont_val b3 in
         if 240 \<le> code b \<and> code b < 248 \<and> is_cont b1 \<and> is_cont b2 \<and> is_cont b3
            \<and> 65536 \<le> c \<and> valid_cp c
         then Some c else None)
    | _ \<Rightarrow> None)"

fun utf8_decode_ignore :: "bytes \<Rightarrow> nat list" where
  "utf8_decode_ignore [] = []"
| "utf8_decode_ignore (b # bs) =
     (if code b < 128 then code b # utf8_decode_ignore bs
      else case dec2 b bs of Some c \<Rightarrow> c # utf8_decode_ignore (drop 1 bs)
      | None \<Rightarrow> (case dec3 b bs of Some c \<Rightarrow> c # utf8_decode_ignore (drop 2 bs)
      | None \<Rightarrow> (case dec4 b bs of Some c \<Rightarrow> c # utf8_decode_ignore (drop 3 bs)
      | None \<Rightarrow> utf8_decode_ignore bs)))"

lemma code_less_256: "code c < 256"
  by simp

lemma valid_cp_char [simp]: "valid_cp (code c)"
  unfolding valid_cp_def by (rule disjI1, rule less_trans [OF code_less_256]) simp

lemma utf8_encode_Nil [simp]: "utf8_encode [] = []"
  by (simp add: utf8_encode_def)

lemma utf8_encode_Cons [simp]: "utf8_encode (c # cs) = utf8_cp c @ utf8_encode cs"
  by (simp add: utf8_encode_def)

lemma utf8_encode_append [simp]: "utf8_encode (xs @ ys) = utf8_encode xs @ utf8_encode ys"
  by (simp add: utf8_encode_def)

lemma utf8_cp_nonempty [simp]: "utf8_cp c \<noteq> []"
  by (simp add: utf8_cp_def)

text \<open>The two halves of decoding a sequence: a complete one gives its code point, a proper
  prefix of one gives nothing.\<close>

lemma cont_byte [simp]:
  "is_cont (char_of (128 + x mod 64))" "cont_val (char_of (128 + x mod 64)) = x mod 64"
proof -
  have "x mod 64 < 64" by simp
  then show "is_cont (char_of (128 + x mod 64))" "cont_val (char_of (128 + x mod 64)) = x mod 64"
    by (simp_all add: is_cont_def cont_val_def)
qed

lemma dec_None:
  "code b < 194 \<or> 224 \<le> code b \<or> bs = [] \<Longrightarrow> dec2 b bs = None"
  "code b < 224 \<or> 240 \<le> code b \<or> length bs < 2 \<Longrightarrow> dec3 b bs = None"
  "code b < 240 \<or> 248 \<le> code b \<or> length bs < 3 \<Longrightarrow> dec4 b bs = None"
  by (auto simp: dec2_def dec3_def dec4_def Let_def split: list.splits)

declare utf8_decode_ignore.simps(2) [simp del]

lemma decode_skip:
  assumes "128 \<le> code b" "dec2 b bs = None" "dec3 b bs = None" "dec4 b bs = None"
  shows "utf8_decode_ignore (b # bs) = utf8_decode_ignore bs"
  using assms by (simp add: utf8_decode_ignore.simps(2))

lemma decode_cont:
  assumes "is_cont b" shows "utf8_decode_ignore (b # bs) = utf8_decode_ignore bs"
  using assms by (intro decode_skip dec_None) (auto simp: is_cont_def)

lemma decode_all_cont: "\<forall>b \<in> set bs. is_cont b \<Longrightarrow> utf8_decode_ignore bs = []"
  by (induction bs) (auto simp: decode_cont)

lemma div_digits:
  fixes c :: nat
  shows "c div 64 * 64 + c mod 64 = c"
    "c div 4096 * 4096 + (c div 64 mod 64) * 64 + c mod 64 = c"
    "c div 262144 * 262144 + (c div 4096 mod 64) * 4096 + (c div 64 mod 64) * 64 + c mod 64 = c"
proof -
  have q: "c div 4096 = c div 64 div 64" "c div 262144 = c div 64 div 64 div 64"
    by (simp_all add: div_mult2_eq [symmetric])
  show "c div 64 * 64 + c mod 64 = c" by simp
  show "c div 4096 * 4096 + (c div 64 mod 64) * 64 + c mod 64 = c"
    using div_mult_mod_eq[of "c div 64" 64] div_mult_mod_eq[of c 64] unfolding q by linarith
  show "c div 262144 * 262144 + (c div 4096 mod 64) * 4096 + (c div 64 mod 64) * 64 + c mod 64 = c"
    using div_mult_mod_eq[of "c div 64 div 64" 64] div_mult_mod_eq[of "c div 64" 64]
      div_mult_mod_eq[of c 64] unfolding q by linarith
qed

lemma decode_cp:
  assumes "valid_cp c"
  shows "utf8_decode_ignore (utf8_cp c @ bs) = c # utf8_decode_ignore bs"
proof -
  consider "c < 128" | "128 \<le> c" "c < 2048" | "2048 \<le> c" "c < 65536" | "65536 \<le> c"
    by linarith
  then show ?thesis
  proof cases
    case 1
    then show ?thesis by (simp add: utf8_cp_def utf8_decode_ignore.simps(2))
  next
    case 2
    then have "c div 64 < 32" "2 \<le> c div 64" by auto
    with 2 show ?thesis by (simp add: utf8_cp_def utf8_decode_ignore.simps(2) dec2_def div_digits)
  next
    case 3
    then have "c div 4096 < 16" by auto
    with 3 assms show ?thesis
      by (simp add: utf8_cp_def utf8_decode_ignore.simps(2) dec_None dec3_def div_digits)
  next
    case 4
    have "c div 262144 < 5" using assms 4 by (auto simp: valid_cp_def)
    with 4 assms show ?thesis
      by (simp add: utf8_cp_def utf8_decode_ignore.simps(2) dec_None dec4_def div_digits)
  qed
qed

lemma utf8_cp_tail_cont: "b \<in> set (tl (utf8_cp c)) \<Longrightarrow> is_cont b"
  by (auto simp: utf8_cp_def split: if_splits)

lemma utf8_lead:
  assumes "valid_cp c" "\<not> c < 128"
  obtains b t where "utf8_cp c = b # t" "192 \<le> code b" "code b < 248"
    "length t = (if code b < 224 then 1 else if code b < 240 then 2 else 3)"
proof -
  consider "c < 2048" | "2048 \<le> c" "c < 65536" | "65536 \<le> c"
    by linarith
  then show thesis
  proof cases
    case 1
    then have "c div 64 < 32" by auto
    with 1 assms(2) show thesis by (intro that) (auto simp: utf8_cp_def)
  next
    case 2
    then have "c div 4096 < 16" by auto
    with 2 show thesis by (intro that) (auto simp: utf8_cp_def)
  next
    case 3
    have "c div 262144 < 5" using assms 3 by (auto simp: valid_cp_def)
    with 3 show thesis by (intro that) (auto simp: utf8_cp_def)
  qed
qed

lemma decode_lead_short:
  assumes "192 \<le> code b" "length t < (if code b < 224 then 1 else if code b < 240 then 2 else 3)"
    and "\<forall>x \<in> set t. is_cont x"
  shows "utf8_decode_ignore (b # t) = []"
proof -
  have "utf8_decode_ignore (b # t) = utf8_decode_ignore t"
    using assms(1,2) by (intro decode_skip dec_None) (auto split: if_splits)
  then show ?thesis using assms(3) by (simp add: decode_all_cont)
qed

lemma decode_cp_prefix:
  assumes "valid_cp c" "k < length (utf8_cp c)"
  shows "utf8_decode_ignore (take k (utf8_cp c)) = []"
proof (cases k)
  case (Suc j)
  have "\<not> c < 128" using assms(2) Suc by (auto simp: utf8_cp_def)
  with assms(1) obtain b t where b: "utf8_cp c = b # t" "192 \<le> code b"
    "length t = (if code b < 224 then 1 else if code b < 240 then 2 else 3)"
    by (rule utf8_lead)
  have "\<forall>x \<in> set (take j t). is_cont x"
    using utf8_cp_tail_cont[of _ c] b(1) by (auto dest: in_set_takeD)
  moreover have "length (take j t) < (if code b < 224 then 1 else if code b < 240 then 2 else 3)"
    using assms(2) Suc b by auto
  ultimately show ?thesis using Suc b by (simp add: decode_lead_short)
qed simp

text \<open>Cutting an encoding at \<open>n\<close> bytes and decoding it keeps exactly the longest prefix of the
  text whose encoding fits.\<close>

fun fitting :: "nat \<Rightarrow> nat list \<Rightarrow> nat list" where
  "fitting n [] = []"
| "fitting n (c # cs) =
     (if length (utf8_cp c) \<le> n then c # fitting (n - length (utf8_cp c)) cs else [])"

lemma decode_take_encode:
  assumes "\<forall>c \<in> set cs. valid_cp c"
  shows "utf8_decode_ignore (take n (utf8_encode cs)) = fitting n cs"
  using assms
proof (induction cs arbitrary: n)
  case (Cons c cs)
  then show ?case
    using decode_cp[of c] decode_cp_prefix[of c n]
    by auto
qed simp

lemma fitting_prefix: "\<exists>r. cs = fitting n cs @ r"
  by (induction n cs rule: fitting.induct) auto

lemma fitting_length: "length (utf8_encode (fitting n cs)) \<le> n"
  by (induction n cs rule: fitting.induct) auto

lemma fitting_longest:
  "cs = p @ r \<Longrightarrow> length (utf8_encode p) \<le> n \<Longrightarrow> \<exists>q. fitting n cs = p @ q"
proof (induction n cs arbitrary: p rule: fitting.induct)
  case (2 n c cs)
  then show ?case by (cases p) auto
qed simp

lemma fitting_all: "length (utf8_encode cs) \<le> n \<Longrightarrow> fitting n cs = cs"
  by (induction n cs rule: fitting.induct) auto

lemma decode_encode: "\<forall>c \<in> set cs. valid_cp c \<Longrightarrow> utf8_decode_ignore (utf8_encode cs) = cs"
  using decode_take_encode[of cs "length (utf8_encode cs)"] fitting_all[of cs] by simp

section \<open>Text\<close>

definition encode_text :: "string \<Rightarrow> bytes" where
  "encode_text s = utf8_encode (map code s)"

definition decode_text_ignore :: "bytes \<Rightarrow> string" where
  "decode_text_ignore b = map char_of (utf8_decode_ignore b)"

lemma encode_text_append [simp]: "encode_text (a @ b) = encode_text a @ encode_text b"
  by (simp add: encode_text_def)

lemma encode_text_Nil [simp]: "encode_text [] = []"
  by (simp add: encode_text_def)

lemma encode_text_Cons: "encode_text (c # s) = utf8_cp (code c) @ encode_text s"
  by (simp add: encode_text_def)

lemma decode_encode_text [simp]: "decode_text_ignore (encode_text s) = s"
  by (simp add: decode_text_ignore_def encode_text_def decode_encode)

lemma encode_ascii: "\<forall>c \<in> set s. code c < 128 \<Longrightarrow> encode_text s = s"
  by (induction s) (simp_all add: encode_text_Cons utf8_cp_def)

lemma truncated_text:
  "\<exists>r. s = decode_text_ignore (take n (encode_text s)) @ r"
  "length (encode_text (decode_text_ignore (take n (encode_text s)))) \<le> n"
proof -
  have f: "utf8_decode_ignore (take n (encode_text s)) = fitting n (map code s)"
    by (simp add: encode_text_def decode_take_encode)
  obtain r where r: "map code s = fitting n (map code s) @ r"
    using fitting_prefix by blast
  define p where "p = take (length (fitting n (map code s))) s"
  have p: "fitting n (map code s) = map code p"
    by (metis append_eq_conv_conj p_def r take_map)
  then have d: "decode_text_ignore (take n (encode_text s)) = p"
    by (simp add: decode_text_ignore_def f)
  show "\<exists>r. s = decode_text_ignore (take n (encode_text s)) @ r"
    unfolding d p_def by (metis append_take_drop_id)
  show "length (encode_text (decode_text_ignore (take n (encode_text s)))) \<le> n"
    unfolding d using fitting_length[of n "map code s"] by (simp add: p encode_text_def)
qed

end
