(* ===== verification/AccessDecision.thy ===== *)
theory AccessDecision
  imports AccessControl Utf8
begin

text \<open>
  \<^verbatim>\<open>openmux/server/access_decision.py\<close> and \<^verbatim>\<open>openmux/common/access_wire.py\<close>: the outcome
  vocabulary of every access request, its table of wording, the result value and its wire
  payload.  A row's templates are the strings of the table, filled by \<open>py_format\<close>, the part of
  \<open>str.format\<close> they use.  JSON payloads are dictionaries of \<^typ>\<open>pyval\<close>.  Client records carry
  the fields that \<open>PortManager\<close> writes; \<open>ip_of\<close>, the caller's address resolver, may raise.
\<close>

section \<open>Modes, kinds and codes\<close>

datatype amode = ReadWrite | ReadOnly

fun mode_value :: "amode \<Rightarrow> string" where
  "mode_value ReadWrite = ''read-write''"
| "mode_value ReadOnly = ''read-only''"

fun mode_wire :: "amode \<Rightarrow> string" where
  "mode_wire ReadWrite = ''READ_WRITE''"
| "mode_wire ReadOnly = ''READ_ONLY''"

datatype kind = KGrant | KRefusal | KUnavailable | KNotice

datatype acode =
    Attached | ReadOnlyStanding | CapacityFull | CapacityNone
  | Granted | AlreadyRw | Released
  | NoPermissions | DeniedByGroupAcl | DeniedByAccessDefault | NotEntitled | InvalidTarget
  | DemoteFailed
  | PortUnavailable | NotAttached | PortMissing | NoHolder | VictimNotCurrent | TakeWithoutSlot
  | NoWriteSlot | PromoteFailed | FederationDenied | Internal | UnsupportedRequest
  | Demoted | ActionSelfDemoted | ActionRestored | ActionRestoreDenied

fun code_value :: "acode \<Rightarrow> string" where
  "code_value Attached = ''attached''"
| "code_value ReadOnlyStanding = ''read_only_standing''"
| "code_value CapacityFull = ''capacity_full''"
| "code_value CapacityNone = ''capacity_none''"
| "code_value Granted = ''ok''"
| "code_value AlreadyRw = ''already_rw''"
| "code_value Released = ''released''"
| "code_value NoPermissions = ''no_permissions''"
| "code_value DeniedByGroupAcl = ''denied_by_group_acl''"
| "code_value DeniedByAccessDefault = ''denied_by_access_default''"
| "code_value NotEntitled = ''not_entitled''"
| "code_value InvalidTarget = ''invalid_target''"
| "code_value DemoteFailed = ''demote_failed''"
| "code_value PortUnavailable = ''port_unavailable''"
| "code_value NotAttached = ''not_attached''"
| "code_value PortMissing = ''port_missing''"
| "code_value NoHolder = ''no_holder''"
| "code_value VictimNotCurrent = ''victim_not_current''"
| "code_value TakeWithoutSlot = ''take_without_slot''"
| "code_value NoWriteSlot = ''no_write_slot''"
| "code_value PromoteFailed = ''promote_failed''"
| "code_value FederationDenied = ''federation_denied''"
| "code_value Internal = ''error''"
| "code_value UnsupportedRequest = ''unsupported_request''"
| "code_value Demoted = ''demoted''"
| "code_value ActionSelfDemoted = ''action_self_demoted''"
| "code_value ActionRestored = ''action_restored''"
| "code_value ActionRestoreDenied = ''action_restore_denied''"

section \<open>The outcome table\<close>

record row =
  row_kind :: kind
  row_ok :: bool
  row_sentence :: string
  row_lines :: "string list"
  row_capacity_none :: "string option"
  row_capacity_multiple :: "string option"
  row_notice_mode :: "amode option"

definition mk_row :: "kind \<Rightarrow> bool \<Rightarrow> string \<Rightarrow> string list \<Rightarrow> row" where
  "mk_row k b s ls = \<lparr>row_kind = k, row_ok = b, row_sentence = s, row_lines = ls,
     row_capacity_none = None, row_capacity_multiple = None, row_notice_mode = None\<rparr>"

definition same_row :: "kind \<Rightarrow> bool \<Rightarrow> string \<Rightarrow> row" where
  "same_row k b s = mk_row k b s [s]"

definition notice_row :: "bool \<Rightarrow> string \<Rightarrow> amode \<Rightarrow> row" where
  "notice_row b s m = (same_row KNotice b s)\<lparr>row_notice_mode := Some m\<rparr>"

fun row_of :: "acode \<Rightarrow> row" where
  "row_of Attached = mk_row KGrant True ''Connected with read-write access'' []"
| "row_of ReadOnlyStanding = mk_row KGrant True ''Connected read-only: you may not drive this port'' []"
| "row_of CapacityFull = mk_row KGrant True ''Connected read-only: the read-write seat is taken'' []"
| "row_of CapacityNone = mk_row KGrant True ''Connected read-only: this port has no write slot'' []"
| "row_of Granted = mk_row KGrant True ''Read-write access granted''
     [''Read-write access granted'', ''{victim_line}'']"
| "row_of AlreadyRw = same_row KGrant True ''You already hold read-write access''"
| "row_of Released = same_row KGrant True ''Switched to read-only mode''"
| "row_of NoPermissions = same_row KRefusal False ''No permissions assigned to this account''"
| "row_of DeniedByGroupAcl = same_row KRefusal False ''Access denied to this port''"
| "row_of DeniedByAccessDefault = same_row KRefusal False ''Access denied to this port by server policy''"
| "row_of NotEntitled = same_row KRefusal False ''You are not entitled to drive this port''"
| "row_of InvalidTarget = same_row KRefusal False
     ''Take refused: that user does not hold read-write access (check the id in the holders list)''"
| "row_of DemoteFailed = same_row KRefusal False
     ''Release failed: you do not hold the read-write slot on this port''"
| "row_of PortUnavailable = same_row KUnavailable False ''No console seat is free on this port''"
| "row_of NotAttached = same_row KUnavailable False ''You are not attached to this port''"
| "row_of PortMissing = same_row KUnavailable False ''This port does not exist''"
| "row_of NoHolder = same_row KUnavailable False
     ''Take refused: this port has no read-write holder to take from''"
| "row_of VictimNotCurrent = same_row KUnavailable False
     ''Take refused: that holder no longer holds read-write access''"
| "row_of PromoteFailed = same_row KUnavailable False ''The server failed to grant read-write access''"
| "row_of NoWriteSlot = mk_row KUnavailable False
     ''Read-write is not available on this port: it has no write slot''
     [''Read-write is not available on this port'', ''This port has no write slots (capacity: none)'']"
| "row_of TakeWithoutSlot = mk_row KUnavailable False
     ''This port has no single seat to take: every write-entitled client may hold write at once''
     [''This port has no single write seat to take'',
      ''Every write-entitled client may hold write here at the same time'']"
| "row_of FederationDenied = same_row KUnavailable False
     ''Take refused: the origin server did not grant the takeover''"
| "row_of Internal = same_row KUnavailable False ''The server could not complete the request''"
| "row_of UnsupportedRequest = same_row KUnavailable False
     ''This server does not support that control request''"
| "row_of Demoted = notice_row False ''Your read-write access was taken by {actor}'' ReadOnly"
| "row_of ActionSelfDemoted = notice_row False
     ''Your read-write access was set aside to run a Port Action'' ReadOnly"
| "row_of ActionRestored = notice_row True
     ''Read-write access restored after the Port Action finished'' ReadWrite"
| "row_of ActionRestoreDenied = notice_row False
     ''Read-write not restored after the Port Action: another client holds the slot'' ReadOnly"

definition code_kind :: "acode \<Rightarrow> kind" where
  "code_kind c = row_kind (row_of c)"

definition all_codes :: "acode list" where
  "all_codes =
     [Attached, ReadOnlyStanding, CapacityFull, CapacityNone, Granted, AlreadyRw, Released,
      NoPermissions, DeniedByGroupAcl, DeniedByAccessDefault, NotEntitled, InvalidTarget,
      DemoteFailed, PortUnavailable, NotAttached, PortMissing, NoHolder, VictimNotCurrent,
      TakeWithoutSlot, NoWriteSlot, PromoteFailed, FederationDenied, Internal,
      UnsupportedRequest, Demoted, ActionSelfDemoted, ActionRestored, ActionRestoreDenied]"

text \<open>\<open>Code(value)\<close>: the member with that spelling, or \<open>ValueError\<close>.\<close>

definition as_code :: "string \<Rightarrow> py_error + acode" where
  "as_code s = (case find (\<lambda>c. code_value c = s) all_codes of
      Some c \<Rightarrow> Inr c | None \<Rightarrow> Inl (ValueError s))"

fun as_mode :: "pyval \<Rightarrow> py_error + amode" where
  "as_mode (PStr s) =
     (if s = ''read-write'' then Inr ReadWrite else if s = ''read-only'' then Inr ReadOnly
      else Inl (ValueError s))"
| "as_mode PNone = Inl (ValueError ''An access decision must state the mode'')"
| "as_mode _ = Inl (ValueError ''Unknown access mode'')"

fun mode_or_read_only :: "pyval \<Rightarrow> amode" where
  "mode_or_read_only (PStr s) = (if s = ''read-write'' then ReadWrite else ReadOnly)"
| "mode_or_read_only _ = ReadOnly"

section \<open>Holders and entitlements\<close>

record holder =
  h_client_id :: string
  h_username :: string
  h_ip :: string

definition holder_label :: "holder \<Rightarrow> string" where
  "holder_label h = ''['' @ holder_id_short (h_client_id h) @ ''] '' @ h_username h @ ''@'' @ h_ip h @ '' (rw)''"

datatype entitlement = EWrite | EReadOnly | EDenied acode

definition may_drive :: "entitlement \<Rightarrow> bool" where
  "may_drive e \<longleftrightarrow> e = EWrite"

fun entitlement_code :: "entitlement \<Rightarrow> acode option" where
  "entitlement_code (EDenied c) = Some c"
| "entitlement_code _ = None"

definition denied :: "acode \<Rightarrow> py_error + entitlement" where
  "denied c = (if code_kind c \<noteq> KRefusal then Inl (ValueError (code_value c)) else Inr (EDenied c))"

record client_rec =
  cr_client_id :: string
  cr_username :: string
  cr_mode :: amode
  cr_connected_at :: int

definition or_unknown :: "string \<Rightarrow> string" where
  "or_unknown s = (if s = [] then ''unknown'' else s)"

definition holder_of_rec :: "(string \<Rightarrow> py_error + string) \<Rightarrow> client_rec \<Rightarrow> holder" where
  "holder_of_rec ip_of c =
     \<lparr>h_client_id = cr_client_id c, h_username = or_unknown (cr_username c),
      h_ip = (case ip_of (cr_client_id c) of Inr ip \<Rightarrow> or_unknown ip | Inl _ \<Rightarrow> ''unknown'')\<rparr>"

definition is_rw :: "client_rec \<Rightarrow> bool" where
  "is_rw c \<longleftrightarrow> cr_mode c = ReadWrite"

definition holders_of :: "client_rec list \<Rightarrow> (string \<Rightarrow> py_error + string) \<Rightarrow> holder list" where
  "holders_of records ip_of = map (holder_of_rec ip_of) (filter is_rw records)"

section \<open>Filling a template\<close>

text \<open>\<open>f\<close> is the field name being read, reversed; \<open>None\<close> outside a field.\<close>

fun py_format :: "(string \<Rightarrow> string option) \<Rightarrow> string option \<Rightarrow> string \<Rightarrow> py_error + string" where
  "py_format env None [] = Inr []"
| "py_format env None (c # cs) =
     (if c = CHR ''{'' then py_format env (Some []) cs
      else if c = CHR ''}'' then Inl (ValueError ''Single close brace in format string'')
      else (case py_format env None cs of Inl e \<Rightarrow> Inl e | Inr r \<Rightarrow> Inr (c # r)))"
| "py_format env (Some f) [] = Inl (ValueError ''expected close brace before end of string'')"
| "py_format env (Some f) (c # cs) =
     (if c = CHR ''}'' then
        (case env (rev f) of
           None \<Rightarrow> Inl (KeyError (rev f))
         | Some v \<Rightarrow> (case py_format env None cs of Inl e \<Rightarrow> Inl e | Inr r \<Rightarrow> Inr (v @ r)))
      else py_format env (Some (c # f)) cs)"

section \<open>The decision\<close>

record decision =
  d_code :: acode
  d_mode :: amode
  d_client_id :: string
  d_port_name :: string
  d_actor :: string
  d_victim :: "holder option"
  d_holders :: "holder list"
  d_capacity :: "write_mode option"

text \<open>A decision with its mandatory parts; the optional ones are set by record update.\<close>

definition mk_decision :: "acode \<Rightarrow> amode \<Rightarrow> decision" where
  "mk_decision c m = \<lparr>d_code = c, d_mode = m, d_client_id = [], d_port_name = [], d_actor = [],
     d_victim = None, d_holders = [], d_capacity = None\<rparr>"

definition norm_capacity :: "pyval \<Rightarrow> write_mode option" where
  "norm_capacity c = (if c = PNone then None else Some (wire_to_mode c))"

text \<open>\<open>__post_init__\<close>: a notice whose mode is not the one its row fixes is refused.\<close>

definition post_init :: "decision \<Rightarrow> py_error + decision" where
  "post_init d =
     (let r = row_of (d_code d) in
      if row_kind r = KNotice \<and> Some (d_mode d) \<noteq> row_notice_mode r
      then Inl (ValueError (code_value (d_code d) @ '' is a notice: its mode is fixed''))
      else Inr d)"

definition decide :: "decision \<Rightarrow> py_error + decision" where
  "decide d =
     (if row_kind (row_of (d_code d)) = KNotice
      then Inl (ValueError (code_value (d_code d) @ '' is a notice: build it with notice(), not decide().''))
      else post_init d)"

text \<open>\<open>notice\<close> takes no mode: the row's own is used whatever \<open>d\<close> holds.\<close>

definition notice :: "decision \<Rightarrow> py_error + decision" where
  "notice d =
     (let r = row_of (d_code d) in
      if row_kind r \<noteq> KNotice
      then Inl (ValueError (code_value (d_code d) @ '' answers a request: build it with decide(), not notice().''))
      else (case row_notice_mode r of
              None \<Rightarrow> Inl (ValueError ''An access decision must state the mode'')
            | Some m \<Rightarrow> post_init (d\<lparr>d_mode := m\<rparr>)))"

definition d_ok :: "decision \<Rightarrow> bool" where
  "d_ok d = row_ok (row_of (d_code d))"

definition d_kind :: "decision \<Rightarrow> kind" where
  "d_kind d = row_kind (row_of (d_code d))"

definition d_is_notice :: "decision \<Rightarrow> bool" where
  "d_is_notice d \<longleftrightarrow> d_kind d = KNotice"

definition d_values :: "decision \<Rightarrow> string \<Rightarrow> string option" where
  "d_values d = map_of
     [(''victim_line'', case d_victim d of Some h \<Rightarrow> ''Taken from: '' @ holder_label h | None \<Rightarrow> []),
      (''holders'', join '', '' (map holder_label (d_holders d))),
      (''actor'', if d_actor d = [] then ''another user'' else d_actor d),
      (''port'', if d_port_name d = [] then ''this port'' else d_port_name d)]"

definition d_fill :: "decision \<Rightarrow> string \<Rightarrow> py_error + string" where
  "d_fill d template = py_format (d_values d) None template"

definition d_wording :: "decision \<Rightarrow> string \<times> string list" where
  "d_wording d =
     (let r = row_of (d_code d) in
      case (d_capacity d, row_capacity_none r, row_capacity_multiple r) of
        (Some ModeNone, Some t, _) \<Rightarrow> (t, [t])
      | (Some ModeMultiple, _, Some t) \<Rightarrow> (t, [t])
      | _ \<Rightarrow> (row_sentence r, row_lines r))"

definition MESSAGE_LIMIT :: nat where
  "MESSAGE_LIMIT = 123"

definition unwrap_char :: "char \<Rightarrow> char" where
  "unwrap_char c = (if code c = 13 \<or> code c = 10 then CHR '' '' else c)"

definition d_message :: "decision \<Rightarrow> py_error + string" where
  "d_message d = map_sum id
     (\<lambda>filled. decode_text_ignore (take MESSAGE_LIMIT (encode_text (map unwrap_char filled))))
     (d_fill d (fst (d_wording d)))"

fun fill_all :: "decision \<Rightarrow> string list \<Rightarrow> py_error + string list" where
  "fill_all d [] = Inr []"
| "fill_all d (t # ts) =
     (case d_fill d t of Inl e \<Rightarrow> Inl e
      | Inr filled \<Rightarrow>
          (case fill_all d ts of Inl e \<Rightarrow> Inl e
           | Inr rest \<Rightarrow> Inr (if filled = [] then rest else (''['' @ filled @ '']'') # rest)))"

definition d_lines :: "decision \<Rightarrow> py_error + string list" where
  "d_lines d = fill_all d (snd (d_wording d))"

definition CRLF :: string where
  "CRLF = [char_of (13::nat), char_of (10::nat)]"

definition render_terminal_text :: "string list \<Rightarrow> string" where
  "render_terminal_text lines =
     (let text = filter (\<lambda>l. l \<noteq> []) lines in
      if text = [] then [] else CRLF @ join CRLF text @ CRLF)"

definition d_text :: "decision \<Rightarrow> py_error + string" where
  "d_text d = map_sum id render_terminal_text (d_lines d)"

definition holders_text :: "string list \<Rightarrow> int option \<Rightarrow> string" where
  "holders_text holders capacity =
     (if capacity = Some 0 then ''Read-write is not available on this port (it has no write slot)''
      else if holders \<noteq> [] then ''Read-write held by: '' @ join '', '' holders
      else ''No client currently holds read-write access'')"

text \<open>The \<open>client_mode\<close> payload: the wording only when there is a line to show.\<close>

definition frame_head :: "decision \<Rightarrow> (string \<times> pyval) list" where
  "frame_head d =
     [(''type'', PStr ''client_mode''), (''ok'', PBool (d_ok d)),
      (''mode'', PStr (mode_value (d_mode d))), (''code'', PStr (code_value (d_code d)))]"

definition frame_tail :: "decision \<Rightarrow> (string \<times> pyval) list" where
  "frame_tail d =
     (if d_client_id d = [] then [] else [(''client_id'', PStr (d_client_id d))])
     @ (if d_holders d = [] then []
        else [(''rw_holders'', PList (map (PStr \<circ> holder_label) (d_holders d)))])
     @ (case d_capacity d of None \<Rightarrow> []
        | Some m \<Rightarrow> [(''max_rw_users'', PInt (capacity_to_wire (PStr (write_mode_str m))))])"

definition d_frame :: "decision \<Rightarrow> py_error + (string \<times> pyval) list" where
  "d_frame d =
     (case d_lines d of
        Inl e \<Rightarrow> Inl e
      | Inr ls \<Rightarrow>
          if ls = [] then Inr (frame_head d @ frame_tail d)
          else (case d_message d of
                  Inl e \<Rightarrow> Inl e
                | Inr msg \<Rightarrow> Inr (frame_head d
                    @ [(''lines'', PList (map PStr ls)), (''message'', PStr msg)] @ frame_tail d)))"

definition holders_frame :: "holder list \<Rightarrow> pyval \<Rightarrow> (string \<times> pyval) list" where
  "holders_frame holders capacity =
     [(''type'', PStr ''rw_holders''), (''holders'', PList (map (PStr \<circ> holder_label) holders))]
     @ (if capacity = PNone then [] else [(''max_rw_users'', PInt (capacity_to_wire capacity))])"

definition presence_frame :: "(pyval \<times> pyval) list list \<Rightarrow> (string \<times> pyval) list" where
  "presence_frame viewers = [(''type'', PStr ''presence''), (''viewers'', PList (map PDict viewers))]"

end
