(* ===== verification/DeliveryQueue.thy ===== *)
theory DeliveryQueue
  imports Utf8
begin

text \<open>
  The bounded buffers of \<^verbatim>\<open>openmux/server/port_manager.py\<close>: the delivery queues, where a full
  queue drops its oldest chunk, and the scrollback ring of bytes.  Both keep the newest part of
  what was fed to them; \<open>newest_log\<close> states that contract and what follows from it for any
  sequence of chunks.
\<close>

definition newest :: "nat \<Rightarrow> 'a list \<Rightarrow> 'a list" where
  "newest n xs = drop (length xs - n) xs"

lemma length_newest [simp]: "length (newest n xs) = min n (length xs)"
  by (simp add: newest_def)

lemma newest_all: "length xs \<le> n \<Longrightarrow> newest n xs = xs"
  by (simp add: newest_def)

lemma newest_append_newest [simp]: "newest n (newest n xs @ ys) = newest n (xs @ ys)"
proof (cases "length xs \<le> n")
  case True
  then show ?thesis by (simp add: newest_all)
next
  case False
  then show ?thesis by (simp add: newest_def add.commute)
qed

lemma newest_suffix: "\<exists>old. xs = old @ newest n xs"
  unfolding newest_def by (metis append_take_drop_id)

locale newest_log =
  fixes push :: "'c \<Rightarrow> 'q \<Rightarrow> 'q"
    and items :: "'c \<Rightarrow> 'x list"
    and content :: "'q \<Rightarrow> 'x list"
    and bound :: "'q \<Rightarrow> nat"
    and usable :: "'q \<Rightarrow> bool"
  assumes content_push: "usable q \<Longrightarrow> content (push c q) = newest (bound q) (content q @ items c)"
    and bound_push: "usable q \<Longrightarrow> bound (push c q) = bound q"
    and usable_push: "usable q \<Longrightarrow> usable (push c q)"
    and content_bounded: "usable q \<Longrightarrow> length (content q) \<le> bound q"
begin

lemma bound_fold: "usable q \<Longrightarrow> bound (fold push cs q) = bound q"
  by (induction cs arbitrary: q) (auto simp: bound_push usable_push)

lemma usable_fold: "usable q \<Longrightarrow> usable (fold push cs q)"
  by (induction cs arbitrary: q) (auto simp: usable_push)

text \<open>After any feed the log holds the newest part of everything it was given.\<close>

lemma content_fold:
  "usable q \<Longrightarrow> content (fold push cs q) = newest (bound q) (content q @ concat (map items cs))"
proof (induction cs arbitrary: q)
  case Nil
  then show ?case by (simp add: newest_all content_bounded)
next
  case (Cons c cs)
  then show ?case
    by (simp add: usable_push bound_push content_push)
qed

text \<open>Nothing is lost while what was fed still fits, and nothing is ever reordered.\<close>

lemma lossless_fold:
  "usable q \<Longrightarrow> length (content q) + length (concat (map items cs)) \<le> bound q \<Longrightarrow>
     content (fold push cs q) = content q @ concat (map items cs)"
  by (simp add: content_fold newest_all)

lemma suffix_fold:
  "usable q \<Longrightarrow> \<exists>old. content q @ concat (map items cs) = old @ content (fold push cs q)"
  by (simp add: content_fold newest_suffix)

end

section \<open>Delivery queues\<close>

text \<open>An \<open>asyncio.Queue\<close>: its chunks and its \<open>maxsize\<close>, where 0 means unbounded.\<close>

record chunk_queue =
  q_items :: "bytes list"
  q_max :: nat

definition new_queue :: "nat \<Rightarrow> chunk_queue" where
  "new_queue m = \<lparr>q_items = [], q_max = m\<rparr>"

definition q_full :: "chunk_queue \<Rightarrow> bool" where
  "q_full q \<longleftrightarrow> 0 < q_max q \<and> q_max q \<le> length (q_items q)"

text \<open>\<open>put_nowait\<close>, and on \<open>QueueFull\<close> drop the oldest chunk and put again.\<close>

definition put_drop_oldest :: "bytes \<Rightarrow> chunk_queue \<Rightarrow> chunk_queue" where
  "put_drop_oldest data q =
     q\<lparr>q_items := (if q_full q then tl (q_items q) else q_items q) @ [data]\<rparr>"

definition get_nowait :: "chunk_queue \<Rightarrow> (bytes \<times> chunk_queue) option" where
  "get_nowait q = (case q_items q of [] \<Rightarrow> None | x # xs \<Rightarrow> Some (x, q\<lparr>q_items := xs\<rparr>))"

definition queue_ok :: "chunk_queue \<Rightarrow> bool" where
  "queue_ok q \<longleftrightarrow> q_max q = 0 \<or> length (q_items q) \<le> q_max q"

definition bounded_ok :: "chunk_queue \<Rightarrow> bool" where
  "bounded_ok q \<longleftrightarrow> 0 < q_max q \<and> queue_ok q"

lemma new_queue_ok [simp]: "queue_ok (new_queue m)"
  by (simp add: queue_ok_def new_queue_def)

lemma put_queue_ok [preserves]: "queue_ok q \<Longrightarrow> queue_ok (put_drop_oldest data q)"
  by (auto simp: queue_ok_def put_drop_oldest_def q_full_def)

lemma get_queue_ok [preserves]: "queue_ok q \<Longrightarrow> get_nowait q = Some (x, q') \<Longrightarrow> queue_ok q'"
  by (auto simp: queue_ok_def get_nowait_def split: list.splits)

lemma put_bounded_items:
  "bounded_ok q \<Longrightarrow> q_items (put_drop_oldest c q) = newest (q_max q) (q_items q @ [c])"
  by (auto simp: bounded_ok_def queue_ok_def put_drop_oldest_def q_full_def newest_def drop_Suc
      Suc_diff_le)

interpretation delivery: newest_log put_drop_oldest "\<lambda>c. [c]" q_items q_max bounded_ok
proof unfold_locales
  fix q c
  assume q: "bounded_ok q"
  show "q_items (put_drop_oldest c q) = newest (q_max q) (q_items q @ [c])"
    using q by (rule put_bounded_items)
  show m: "q_max (put_drop_oldest c q) = q_max q"
    by (simp add: put_drop_oldest_def)
  show "bounded_ok (put_drop_oldest c q)"
    using q m by (simp add: bounded_ok_def put_queue_ok)
  show "length (q_items q) \<le> q_max q"
    using q by (auto simp: bounded_ok_def queue_ok_def)
qed

section \<open>The scrollback ring\<close>

record scroll =
  sb_size :: int
  sb_bytes :: bytes

definition scroll_append :: "bytes \<Rightarrow> scroll \<Rightarrow> scroll" where
  "scroll_append data sb =
     (if sb_size sb > 0 then
        (let buf = sb_bytes sb @ data; excess = int (length buf) - sb_size sb in
         sb\<lparr>sb_bytes := if excess > 0 then drop (nat excess) buf else buf\<rparr>)
      else sb)"

definition scroll_ok :: "scroll \<Rightarrow> bool" where
  "scroll_ok sb \<longleftrightarrow> length (sb_bytes sb) \<le> nat (sb_size sb)"

lemma scroll_append_bytes:
  "scroll_ok sb \<Longrightarrow> sb_bytes (scroll_append data sb) = newest (nat (sb_size sb)) (sb_bytes sb @ data)"
proof (cases "sb_size sb > 0")
  case True
  then have "nat (int (length (sb_bytes sb @ data)) - sb_size sb) =
      length (sb_bytes sb @ data) - nat (sb_size sb)" by simp
  with True show ?thesis
    by (auto simp: scroll_append_def Let_def newest_def)
next
  case False
  moreover assume "scroll_ok sb"
  ultimately show ?thesis
    by (simp add: scroll_append_def scroll_ok_def newest_def)
qed

interpretation scrollback: newest_log scroll_append "\<lambda>c. c" sb_bytes "\<lambda>sb. nat (sb_size sb)" scroll_ok
proof unfold_locales
  fix q c
  assume q: "scroll_ok q"
  show b: "sb_bytes (scroll_append c q) = newest (nat (sb_size q)) (sb_bytes q @ c)"
    using q by (rule scroll_append_bytes)
  show s: "nat (sb_size (scroll_append c q)) = nat (sb_size q)"
    by (simp add: scroll_append_def Let_def)
  show "scroll_ok (scroll_append c q)"
    by (simp add: scroll_ok_def b s)
  show "length (sb_bytes q) \<le> nat (sb_size q)"
    using q by (simp add: scroll_ok_def)
qed

end
