(* ===== verification/PortManager.thy ===== *)
theory PortManager
  imports AccessDecision DeliveryQueue
begin

text \<open>
  \<^verbatim>\<open>openmux/server/port_manager.py\<close>: the ports a server exposes, the clients attached to
  each, the write slot, and the routing of device data.  A \<open>port\<close> is a
  \<open>UnifiedPortWrapper\<close> over an adapter's port (\<open>Local\<close>) or a MuxCon proxy (\<open>Remote\<close>).  The
  state is passed explicitly; what the code sends elsewhere (log records, listener
  notifications, the adapter's client-count hook, remote streams) is appended to
  \<open>pm_events\<close> in the order of the calls.  What a device or a peer answers to a write is an
  argument.  Best-effort blocks that only log are taken to succeed.
\<close>

section \<open>Ports\<close>

record uport =
  u_max_rw :: "pyval option"
  u_rw_groups :: "string list"
  u_ro_groups :: "string list"
  u_scroll_size :: int
  u_has_hook :: bool

record rproxy =
  r_origin :: "string option"
  r_rw_groups :: "string list"
  r_ro_groups :: "string list"
  r_connected :: bool
  r_server_adapter :: bool

datatype backing = Local uport | Remote rproxy

record port =
  p_name :: string
  p_backing :: backing
  p_clients :: "client_rec list"
  p_max_rw :: pyval
  p_queues :: "(string, chunk_queue) pydict"
  p_queue :: chunk_queue
  p_dropped :: nat
  p_fed_viewers :: int
  p_scroll :: scroll

definition new_wrapper :: "string \<Rightarrow> uport \<Rightarrow> port" where
  "new_wrapper n u =
     \<lparr>p_name = n, p_backing = Local u, p_clients = [],
      p_max_rw = (case u_max_rw u of Some v \<Rightarrow> v | None \<Rightarrow> PInt 5),
      p_queues = [], p_queue = new_queue 100, p_dropped = 0, p_fed_viewers = 0,
      p_scroll = \<lparr>sb_size = u_scroll_size u, sb_bytes = []\<rparr>\<rparr>"

fun p_rw_groups :: "port \<Rightarrow> string list" where
  "p_rw_groups p = (case p_backing p of Local u \<Rightarrow> u_rw_groups u | Remote r \<Rightarrow> r_rw_groups r)"

fun p_ro_groups :: "port \<Rightarrow> string list" where
  "p_ro_groups p = (case p_backing p of Local u \<Rightarrow> u_ro_groups u | Remote r \<Rightarrow> r_ro_groups r)"

definition is_remote :: "port \<Rightarrow> bool" where
  "is_remote p \<longleftrightarrow> (case p_backing p of Remote _ \<Rightarrow> True | Local _ \<Rightarrow> False)"

definition remote_connected :: "port \<Rightarrow> bool" where
  "remote_connected p \<longleftrightarrow> (case p_backing p of Remote r \<Rightarrow> r_connected r | Local _ \<Rightarrow> False)"

section \<open>The manager\<close>

datatype pm_event =
    EvRecord string string string
  | EvMeta string string "string option"
  | EvHook string nat
  | EvOpen string string
  | EvClose string string
  | EvSessionClose string
  | EvData string string "string option" bytes

record pm =
  pm_ports :: "(string, port) pydict"
  pm_adapters :: "(string, uport) pydict list"
  pm_clock :: int
  pm_events :: "pm_event list"

definition emit :: "pm_event list \<Rightarrow> pm \<Rightarrow> pm" where
  "emit es s = s\<lparr>pm_events := pm_events s @ es\<rparr>"

definition put_port :: "string \<Rightarrow> port \<Rightarrow> pm \<Rightarrow> pm" where
  "put_port n p s = s\<lparr>pm_ports := dict_set n p (pm_ports s)\<rparr>"

abbreviation lookup_port :: "pm \<Rightarrow> string \<Rightarrow> port option" where
  "lookup_port s n \<equiv> dict_get (pm_ports s) n"

fun find_unified :: "(string, uport) pydict list \<Rightarrow> string \<Rightarrow> uport option" where
  "find_unified [] n = None"
| "find_unified (a # as) n = (case dict_get a n of Some u \<Rightarrow> Some u | None \<Rightarrow> find_unified as n)"

definition ensure_unified_wrapper :: "string \<Rightarrow> pm \<Rightarrow> bool \<times> pm" where
  "ensure_unified_wrapper n s =
     (if lookup_port s n \<noteq> None then (True, s)
      else case find_unified (pm_adapters s) n of
             Some u \<Rightarrow> (True, put_port n (new_wrapper n u) s)
           | None \<Rightarrow> (False, s))"

definition get_port :: "string \<Rightarrow> pm \<Rightarrow> port option \<times> pm" where
  "get_port n s =
     (case lookup_port s n of
        Some p \<Rightarrow> (Some p, s)
      | None \<Rightarrow> (case find_unified (pm_adapters s) n of
            Some u \<Rightarrow> (let w = new_wrapper n u in (Some w, put_port n w s))
          | None \<Rightarrow> (None, s)))"

definition port_exists :: "string \<Rightarrow> pm \<Rightarrow> bool \<times> pm" where
  "port_exists n s = (if lookup_port s n \<noteq> None then (True, s) else ensure_unified_wrapper n s)"

section \<open>Clients on a port\<close>

definition has_id :: "string \<Rightarrow> client_rec \<Rightarrow> bool" where
  "has_id cid c \<longleftrightarrow> cr_client_id c = cid"

fun index_of :: "('a \<Rightarrow> bool) \<Rightarrow> 'a list \<Rightarrow> nat option" where
  "index_of P [] = None"
| "index_of P (x # xs) = (if P x then Some 0 else map_option Suc (index_of P xs))"

definition find_existing_client_idx :: "port \<Rightarrow> string \<Rightarrow> nat option" where
  "find_existing_client_idx p cid = index_of (has_id cid) (p_clients p)"

definition rw_counts :: "port \<Rightarrow> string \<Rightarrow> nat \<times> enat" where
  "rw_counts p cid =
     (count_of (\<lambda>c. is_rw c \<and> \<not> has_id cid c) (p_clients p), write_capacity (p_max_rw p))"

definition attach_client_record ::
  "port \<Rightarrow> string \<Rightarrow> string \<Rightarrow> amode \<Rightarrow> int \<Rightarrow> nat option \<Rightarrow> port" where
  "attach_client_record p cid username mode now existing =
     (let info = \<lparr>cr_client_id = cid, cr_username = username, cr_mode = mode, cr_connected_at = now\<rparr> in
      case existing of
        Some i \<Rightarrow> p\<lparr>p_clients := (p_clients p)[i := info],
                    p_queues := (if dict_has (p_queues p) cid then p_queues p
                                 else dict_set cid (new_queue 100) (p_queues p))\<rparr>
      | None \<Rightarrow> p\<lparr>p_clients := p_clients p @ [info],
                   p_queues := dict_set cid (new_queue 100) (p_queues p)\<rparr>)"

definition hook_events :: "string \<Rightarrow> port \<Rightarrow> pm_event list" where
  "hook_events n p = (case p_backing p of
      Local u \<Rightarrow> if u_has_hook u then [EvHook n (length (p_clients p))] else []
    | Remote _ \<Rightarrow> [])"

definition connected_events :: "string \<Rightarrow> port \<Rightarrow> string \<Rightarrow> pm_event list" where
  "connected_events n p cid =
     [EvRecord n ''client_connected'' cid, EvMeta n ''client_connected'' (Some cid)] @ hook_events n p"

definition remote_open_events :: "string \<Rightarrow> port \<Rightarrow> string \<Rightarrow> pm_event list" where
  "remote_open_events n p cid = (if is_remote p \<and> remote_connected p then [EvOpen n cid] else [])"

definition add_client_to_port ::
  "string \<Rightarrow> string \<Rightarrow> string \<Rightarrow> amode \<Rightarrow> pm \<Rightarrow> bool \<times> pm" where
  "add_client_to_port n cid username mode s0 =
     (let s = snd (ensure_unified_wrapper n s0) in
      case lookup_port s n of
        None \<Rightarrow> (False, s)
      | Some p \<Rightarrow>
          (let existing = find_existing_client_idx p cid;
               (current, capacity) = rw_counts p cid in
           if mode = ReadWrite \<and> capacity \<le> enat current then (False, s)
           else
             (let p' = attach_client_record p cid username mode (pm_clock s) existing in
              (True, emit (connected_events n p' cid @ remote_open_events n p' cid)
                       (put_port n p' s)))))"

definition federated_port_empty :: "port \<Rightarrow> bool" where
  "federated_port_empty p \<longleftrightarrow> is_remote p \<and> p_clients p = []"

definition removal_events :: "string \<Rightarrow> port \<Rightarrow> string \<Rightarrow> pm_event list" where
  "removal_events n p cid =
     [EvRecord n ''client_disconnected'' cid]
     @ (if is_remote p then [EvClose n cid] else [])
     @ [EvMeta n ''client_disconnected'' (Some cid)]
     @ (if federated_port_empty p then [EvSessionClose n] else [])
     @ hook_events n p"

definition remove_client_from_port :: "string \<Rightarrow> string \<Rightarrow> pm \<Rightarrow> bool \<times> pm" where
  "remove_client_from_port n cid s =
     (case lookup_port s n of
        Some p \<Rightarrow>
          if find (has_id cid) (p_clients p) = None then (False, s)
          else
            (let p' = p\<lparr>p_clients := remove_first (has_id cid) (p_clients p),
                        p_queues := dict_del cid (p_queues p)\<rparr> in
             (True, emit (removal_events n p' cid) (put_port n p' s)))
      | None \<Rightarrow> (False, snd (get_port n s)))"

definition set_mode :: "string \<Rightarrow> amode \<Rightarrow> port \<Rightarrow> port" where
  "set_mode cid m p = p\<lparr>p_clients := update_first (has_id cid) (cr_mode_update (\<lambda>_. m)) (p_clients p)\<rparr>"

definition promote_client :: "string \<Rightarrow> string \<Rightarrow> pm \<Rightarrow> bool \<times> pm" where
  "promote_client n cid s =
     (case lookup_port s n of
        None \<Rightarrow> (False, s)
      | Some p \<Rightarrow>
          (let already_rw = (\<exists>c \<in> set (p_clients p). has_id cid c \<and> is_rw c);
               current_rw = count_of is_rw (p_clients p) in
           if \<not> already_rw \<and> write_capacity (p_max_rw p) \<le> enat current_rw then (False, s)
           else if find (has_id cid) (p_clients p) = None then (False, s)
           else (True, emit [EvRecord n ''client_promoted'' cid]
                         (put_port n (set_mode cid ReadWrite p) s))))"

definition demote_client :: "string \<Rightarrow> string \<Rightarrow> pm \<Rightarrow> bool \<times> pm" where
  "demote_client n cid s =
     (case lookup_port s n of
        None \<Rightarrow> (False, s)
      | Some p \<Rightarrow>
          if find (has_id cid) (p_clients p) = None then (False, s)
          else (True, emit [EvRecord n ''client_demoted'' cid]
                         (put_port n (set_mode cid ReadOnly p) s)))"

definition pm_client_mode :: "string \<Rightarrow> string \<Rightarrow> pm \<Rightarrow> amode option" where
  "pm_client_mode cid n s =
     (case lookup_port s n of
        None \<Rightarrow> None
      | Some p \<Rightarrow> map_option cr_mode (find (has_id cid) (p_clients p)))"

definition has_free_write_slot :: "port \<Rightarrow> string \<Rightarrow> bool" where
  "has_free_write_slot p cid \<longleftrightarrow>
     enat (count_of (\<lambda>c. is_rw c \<and> \<not> has_id cid c) (p_clients p)) < write_capacity (p_max_rw p)"

definition pm_connect_client :: "string \<Rightarrow> string \<Rightarrow> string \<Rightarrow> pm \<Rightarrow> bool \<times> pm" where
  "pm_connect_client n username permissions s =
     (let mode =
        (if permissions = ''read-write'' \<or> permissions = ''admin''
         then (case lookup_port s n of
                 Some p \<Rightarrow> if has_free_write_slot p username then ReadWrite else ReadOnly
               | None \<Rightarrow> ReadOnly)
         else ReadOnly)
      in add_client_to_port n username username mode s)"

definition pm_disconnect_client :: "string \<Rightarrow> string \<Rightarrow> pm \<Rightarrow> bool \<times> pm" where
  "pm_disconnect_client n username s = remove_client_from_port n username s"

section \<open>Writing to a port\<close>

definition client_write_mode :: "port \<Rightarrow> string \<Rightarrow> bool \<times> amode option" where
  "client_write_mode p cid =
     (case find (has_id cid) (p_clients p) of
        Some c \<Rightarrow> (cr_mode c = ReadWrite, Some (cr_mode c))
      | None \<Rightarrow> (False, None))"

text \<open>What the adapter or the proxy returns from the write; an exception is a value.\<close>

datatype dev_result = DevBool bool | DevInt int | DevOther | DevRaises

fun wrapper_write_data :: "dev_result \<Rightarrow> bool" where
  "wrapper_write_data (DevBool b) = b"
| "wrapper_write_data (DevInt i) = (i > 0)"
| "wrapper_write_data DevOther = True"
| "wrapper_write_data DevRaises = False"

fun proxy_write_ok :: "dev_result \<Rightarrow> bool" where
  "proxy_write_ok (DevBool b) = b"
| "proxy_write_ok DevRaises = False"
| "proxy_write_ok _ = True"

definition write_to_port ::
  "(string \<Rightarrow> bytes \<Rightarrow> dev_result) \<Rightarrow> string \<Rightarrow> bytes \<Rightarrow> string \<Rightarrow> pm \<Rightarrow> bool \<times> pm" where
  "write_to_port dev n data cid s0 =
     (let s = snd (ensure_unified_wrapper n s0) in
      case lookup_port s n of
        None \<Rightarrow> (False, s)
      | Some p \<Rightarrow>
          if \<not> fst (client_write_mode p cid) then (False, s)
          else
            (let s' = emit [EvData n ''out'' (Some cid) data] s in
             if is_remote p then
               (if \<not> remote_connected p then (False, s') else (proxy_write_ok (dev n data), s'))
             else (wrapper_write_data (dev n data), s')))"

section \<open>Data from a port\<close>

definition fan_out :: "bytes \<Rightarrow> port \<Rightarrow> port" where
  "fan_out data p =
     p\<lparr>p_queues := map (\<lambda>(cid, q). (cid, put_drop_oldest data q)) (p_queues p),
       p_dropped := p_dropped p + count_of (q_full \<circ> snd) (p_queues p)\<rparr>"

definition should_enqueue :: "bool option \<Rightarrow> port \<Rightarrow> bool" where
  "should_enqueue require_clients p \<longleftrightarrow>
     require_clients = Some False \<or> p_clients p \<noteq> [] \<or> p_fed_viewers p > 0"

definition enqueue_shared :: "bytes \<Rightarrow> port \<Rightarrow> port" where
  "enqueue_shared data p =
     p\<lparr>p_queue := put_drop_oldest data (p_queue p),
       p_dropped := p_dropped p + (if q_full (p_queue p) then 1 else 0)\<rparr>"

definition receive_chunk :: "bool option \<Rightarrow> bytes \<Rightarrow> port \<Rightarrow> port" where
  "receive_chunk require_clients data p =
     (let p1 = fan_out data (p\<lparr>p_scroll := scroll_append data (p_scroll p)\<rparr>)
      in if should_enqueue require_clients p1 then enqueue_shared data p1 else p1)"

definition handle_incoming_port_data :: "string \<Rightarrow> bytes \<Rightarrow> bool option \<Rightarrow> pm \<Rightarrow> bool \<times> pm" where
  "handle_incoming_port_data n data require_clients s =
     (case lookup_port s n of
        None \<Rightarrow> (False, s)
      | Some p \<Rightarrow> (True, put_port n (receive_chunk require_clients data p)
                          (emit [EvData n ''in'' None data] s)))"

definition get_scrollback :: "string \<Rightarrow> pm \<Rightarrow> bytes" where
  "get_scrollback n s = (case lookup_port s n of Some p \<Rightarrow> sb_bytes (p_scroll p) | None \<Rightarrow> [])"

definition get_port_data :: "string \<Rightarrow> pm \<Rightarrow> bytes option \<times> pm" where
  "get_port_data n s0 =
     (let s = snd (ensure_unified_wrapper n s0) in
      case lookup_port s n of
        None \<Rightarrow> (None, s)
      | Some p \<Rightarrow> (case get_nowait (p_queue p) of
            None \<Rightarrow> (None, s)
          | Some (x, q) \<Rightarrow> (Some x, put_port n (p\<lparr>p_queue := q\<rparr>) s)))"

text \<open>A forwarding task takes the next chunk of its client's queue.\<close>

definition take_client_chunk :: "string \<Rightarrow> string \<Rightarrow> pm \<Rightarrow> bytes option \<times> pm" where
  "take_client_chunk n cid s =
     (case lookup_port s n of
        None \<Rightarrow> (None, s)
      | Some p \<Rightarrow> (case dict_get (p_queues p) cid of
            None \<Rightarrow> (None, s)
          | Some q \<Rightarrow> (case get_nowait q of
                None \<Rightarrow> (None, s)
              | Some (x, q') \<Rightarrow> (Some x, put_port n (p\<lparr>p_queues := dict_set cid q' (p_queues p)\<rparr>) s))))"

definition add_federation_buffering_hold :: "string \<Rightarrow> pm \<Rightarrow> pm" where
  "add_federation_buffering_hold n s0 =
     (let s = snd (ensure_unified_wrapper n s0) in
      case lookup_port s n of
        None \<Rightarrow> s
      | Some p \<Rightarrow> put_port n (p\<lparr>p_fed_viewers := p_fed_viewers p + 1\<rparr>) s)"

definition remove_federation_buffering_hold :: "string \<Rightarrow> pm \<Rightarrow> pm" where
  "remove_federation_buffering_hold n s =
     (case lookup_port s n of
        None \<Rightarrow> s
      | Some p \<Rightarrow>
          (let held = max 0 (p_fed_viewers p - 1);
               p' = p\<lparr>p_fed_viewers := held\<rparr> in
           put_port n (if held = 0 then p'\<lparr>p_queue := (p_queue p)\<lparr>q_items := []\<rparr>\<rparr> else p') s))"

section \<open>Registration\<close>

definition register_unified_port :: "string \<Rightarrow> uport \<Rightarrow> pm \<Rightarrow> bool \<times> pm" where
  "register_unified_port n u s =
     (True, emit [EvMeta n ''port_registered'' None] (put_port n (new_wrapper n u) s))"

definition del_port :: "string \<Rightarrow> pm \<Rightarrow> pm" where
  "del_port n s = s\<lparr>pm_ports := dict_del n (pm_ports s)\<rparr>"

definition unregister_unified_port :: "string \<Rightarrow> pm \<Rightarrow> bool \<times> pm" where
  "unregister_unified_port n s =
     (if lookup_port s n = None then (False, s)
      else (True, emit [EvMeta n ''port_unregistered'' None] (del_port n s)))"

definition register_federated_port :: "string \<Rightarrow> port \<Rightarrow> pm \<Rightarrow> string option \<times> pm" where
  "register_federated_port n proxy s =
     (Some n, emit [EvMeta n ''federated_port_registered'' None] (put_port n proxy s))"

definition from_server :: "string \<Rightarrow> port \<Rightarrow> bool" where
  "from_server sid p \<longleftrightarrow> (case p_backing p of
      Remote r \<Rightarrow> r_server_adapter r \<and> r_origin r = Some sid
    | Local _ \<Rightarrow> False)"

definition unregister_federated_ports :: "string \<Rightarrow> pm \<Rightarrow> string list \<times> pm" where
  "unregister_federated_ports sid s =
     (let names = map fst (filter (\<lambda>(n, p). from_server sid p) (pm_ports s)) in
      (names, fold (\<lambda>n s. emit [EvMeta n ''federated_port_unregistered'' None] (del_port n s)) names s))"

end
