(* ===== verification/PortInvariant.thy ===== *)
theory PortInvariant
  imports PortManager
begin

text \<open>
  The invariant of the port manager and its write-slot contract.  \<open>port_ok\<close>: the client ids on
  a port are distinct, its writers never exceed its capacity, it has one delivery queue of at
  most 100 chunks per attached client and for nobody else, and its scrollback fits.
  \<open>write_slots\<close> is the contract \<open>ConsoleManager\<close> relies on: what promote, demote, attach and
  detach do to the mode of every client; the takeover lemmas are proved once from it.
\<close>

section \<open>Searching and updating client lists\<close>

lemma has_id_self [simp]: "has_id (cr_client_id c) c"
  by (simp add: has_id_def)

lemma has_id_mode_update [simp]: "has_id cid (cr_mode_update f c) = has_id cid c"
  by (simp add: has_id_def)

lemma is_rw_mode_update [simp]: "is_rw (cr_mode_update (\<lambda>_. m) c) = (m = ReadWrite)"
  by (simp add: is_rw_def)

lemma index_of_None: "index_of P xs = None \<longleftrightarrow> (\<forall>x \<in> set xs. \<not> P x)"
  by (induction xs) auto

lemma index_of_Some: "index_of P xs = Some i \<Longrightarrow> i < length xs \<and> P (xs ! i)"
  by (induction xs arbitrary: i) (auto split: if_splits)

definition ids :: "client_rec list \<Rightarrow> string list" where
  "ids cs = map cr_client_id cs"

lemma ids_simps [simp]: "ids [] = []" "ids (c # cs) = cr_client_id c # ids cs" "ids (a @ b) = ids a @ ids b"
  by (simp_all add: ids_def)

lemma find_id_None_iff: "find (has_id cid) cs = None \<longleftrightarrow> cid \<notin> set (ids cs)"
  by (auto simp: find_None_iff has_id_def ids_def)

lemma find_id_mem: "distinct (ids cs) \<Longrightarrow> c \<in> set cs \<Longrightarrow> find (has_id (cr_client_id c)) cs = Some c"
proof (induction cs)
  case (Cons d cs)
  then show ?case
    by (auto simp: has_id_def ids_def)
qed simp

lemma index_of_id_None_iff: "index_of (has_id cid) cs = None \<longleftrightarrow> cid \<notin> set (ids cs)"
  by (auto simp: index_of_None has_id_def ids_def)

lemma ids_update_first [simp]: "ids (update_first P (cr_mode_update f) cs) = ids cs"
  unfolding ids_def by (rule map_update_first) simp

lemma ids_list_update:
  "index_of (has_id cid) cs = Some i \<Longrightarrow> cr_client_id info = cid \<Longrightarrow> ids (cs[i := info]) = ids cs"
  by (induction cs arbitrary: i) (auto simp: has_id_def split: if_splits)

lemma distinct_ids_remove_first: "distinct (ids cs) \<Longrightarrow> distinct (ids (remove_first P cs))"
  unfolding ids_def by (rule distinct_map_remove_first)

lemma ids_remove_first:
  "distinct (ids cs) \<Longrightarrow> set (ids (remove_first (has_id cid) cs)) = set (ids cs) - {cid}"
  by (induction cs) (auto simp: has_id_def)

lemma find_remove_first:
  "distinct (ids cs) \<Longrightarrow> find (has_id c) (remove_first (has_id cid) cs) =
     (if c = cid then None else find (has_id c) cs)"
  by (induction cs) (auto simp: has_id_def find_id_None_iff)

lemma find_update_first:
  "find (has_id c) (update_first (has_id cid) (cr_mode_update (\<lambda>_. m)) cs) =
     (if c = cid then map_option (cr_mode_update (\<lambda>_. m)) (find (has_id c) cs)
      else find (has_id c) cs)"
  by (induction cs) (auto simp: has_id_def [abs_def])

lemma find_list_update:
  "index_of (has_id cid) cs = Some i \<Longrightarrow> cr_client_id info = cid \<Longrightarrow>
     find (has_id c) (cs[i := info]) = (if c = cid then Some info else find (has_id c) cs)"
  by (induction cs arbitrary: i) (auto simp: has_id_def split: if_splits)

lemma find_append_id: "find P (xs @ ys) = (case find P xs of Some x \<Rightarrow> Some x | None \<Rightarrow> find P ys)"
  by (induction xs) auto

lemma count_list_update:
  "distinct (ids cs) \<Longrightarrow> index_of (has_id cid) cs = Some i \<Longrightarrow>
     count_of is_rw (cs[i := info]) =
     count_of (\<lambda>c. is_rw c \<and> \<not> has_id cid c) cs + (if is_rw info then 1 else 0)"
proof (induction cs arbitrary: i)
  case (Cons d cs)
  show ?case
  proof (cases "has_id cid d")
    case True
    then have "cid \<notin> set (ids cs)" using Cons.prems by (auto simp: has_id_def)
    then have "count_of is_rw cs = count_of (\<lambda>c. is_rw c \<and> \<not> has_id cid c) cs"
      unfolding count_of_def by (intro arg_cong [of _ _ length] filter_cong) (auto simp: has_id_def ids_def)
    with True Cons.prems show ?thesis by auto
  next
    case False
    with Cons show ?thesis by (auto split: if_splits)
  qed
qed simp

lemma count_without_absent:
  "cid \<notin> set (ids cs) \<Longrightarrow> count_of (\<lambda>c. is_rw c \<and> \<not> has_id cid c) cs = count_of is_rw cs"
  unfolding count_of_def by (intro arg_cong [of _ _ length] filter_cong) (auto simp: has_id_def ids_def)

lemma count_promote:
  "count_of is_rw (update_first (has_id cid) (cr_mode_update (\<lambda>_. ReadWrite)) cs) \<le>
     (if \<exists>c \<in> set cs. has_id cid c \<and> is_rw c then max (count_of is_rw cs) (count_of is_rw cs)
      else Suc (count_of is_rw cs))" if "distinct (ids cs)"
  using that
proof (induction cs)
  case (Cons d cs)
  then show ?case by (auto simp: has_id_def ids_def split: if_splits)
qed simp

lemma count_demote:
  "count_of is_rw (update_first P (cr_mode_update (\<lambda>_. ReadOnly)) cs) \<le> count_of is_rw cs"
  by (induction cs) auto

section \<open>The invariant\<close>

definition queues_ok :: "port \<Rightarrow> bool" where
  "queues_ok p \<longleftrightarrow> dict_wf (p_queues p) \<and> dict_keys (p_queues p) = set (ids (p_clients p))
     \<and> dict_all (\<lambda>q. q_max q = 100 \<and> bounded_ok q) (p_queues p)"

definition seats_ok :: "port \<Rightarrow> bool" where
  "seats_ok p \<longleftrightarrow> distinct (ids (p_clients p))
     \<and> enat (count_of is_rw (p_clients p)) \<le> write_capacity (p_max_rw p)"

definition port_ok :: "port \<Rightarrow> bool" where
  "port_ok p \<longleftrightarrow> seats_ok p \<and> queues_ok p \<and> queue_ok (p_queue p) \<and> scroll_ok (p_scroll p)"

definition pm_ok :: "pm \<Rightarrow> bool" where
  "pm_ok s \<longleftrightarrow> dict_wf (pm_ports s) \<and> (\<forall>n p. lookup_port s n = Some p \<longrightarrow> port_ok p)"

lemma pm_okD: "pm_ok s \<Longrightarrow> lookup_port s n = Some p \<Longrightarrow> port_ok p"
  by (simp add: pm_ok_def)

lemma lookup_put_port [simp]:
  "lookup_port (put_port n p s) m = (if m = n then Some p else lookup_port s m)"
  by (simp add: put_port_def)

lemma lookup_emit [simp]: "lookup_port (emit es s) m = lookup_port s m"
  by (simp add: emit_def)

lemma pm_fields [simp]:
  "pm_adapters (put_port n p s) = pm_adapters s" "pm_clock (put_port n p s) = pm_clock s"
  "pm_adapters (emit es s) = pm_adapters s" "pm_clock (emit es s) = pm_clock s"
  "pm_ports (emit es s) = pm_ports s"
  by (simp_all add: put_port_def emit_def)

lemma emit_ok [preserves, simp]: "pm_ok (emit es s) = pm_ok s"
  by (simp add: pm_ok_def)

lemma put_port_ok [preserves]: "pm_ok s \<Longrightarrow> port_ok p \<Longrightarrow> pm_ok (put_port n p s)"
  by (auto simp: pm_ok_def put_port_def dict_wf_set)

lemma del_port_ok [preserves]: "pm_ok s \<Longrightarrow> pm_ok (del_port n s)"
  by (auto simp: pm_ok_def del_port_def dict_wf_del)

lemma new_wrapper_ok [simp]: "port_ok (new_wrapper n u)"
  by (simp add: port_ok_def seats_ok_def queues_ok_def new_wrapper_def scroll_ok_def
      flip: zero_enat_def)

lemma new_queue_bounded [simp]: "bounded_ok (new_queue 100)"
  by (simp add: bounded_ok_def) (simp add: new_queue_def)

lemma queue_fields [simp]:
  "q_max (new_queue m) = m" "q_max (put_drop_oldest d q) = q_max q"
  by (simp_all add: new_queue_def put_drop_oldest_def)

lemma bounded_put [preserves]: "bounded_ok q \<Longrightarrow> bounded_ok (put_drop_oldest d q)"
  by (simp add: bounded_ok_def put_queue_ok)

section \<open>Every operation keeps it\<close>

lemma ensure_unified_wrapper_ok [preserves]: "pm_ok s \<Longrightarrow> pm_ok (snd (ensure_unified_wrapper n s))"
  by (auto simp: ensure_unified_wrapper_def put_port_ok split: option.splits)

lemma get_port_ok [preserves]: "pm_ok s \<Longrightarrow> pm_ok (snd (get_port n s))"
  by (auto simp: get_port_def Let_def put_port_ok split: option.splits)

lemma attach_seats_ok:
  assumes "seats_ok p"
    and "mode = ReadWrite \<Longrightarrow> enat (fst (rw_counts p cid)) < write_capacity (p_max_rw p)"
  shows "seats_ok (attach_client_record p cid u mode now (find_existing_client_idx p cid))"
proof (cases "find_existing_client_idx p cid")
  case None
  then have i: "cid \<notin> set (ids (p_clients p))"
    by (simp add: find_existing_client_idx_def index_of_id_None_iff)
  have "mode = ReadWrite \<Longrightarrow> eSuc (enat (count_of is_rw (p_clients p))) \<le> write_capacity (p_max_rw p)"
    using assms(2) by (simp add: rw_counts_def count_without_absent[OF i] ileI1)
  then show ?thesis
    using assms(1) i None
    by (cases mode) (auto simp: seats_ok_def attach_client_record_def Let_def is_rw_def eSuc_enat)
next
  case (Some i)
  then have i: "index_of (has_id cid) (p_clients p) = Some i"
    by (simp add: find_existing_client_idx_def)
  let ?info = "\<lparr>cr_client_id = cid, cr_username = u, cr_mode = mode, cr_connected_at = now\<rparr>"
  have d: "distinct (ids (p_clients p))" using assms(1) by (simp add: seats_ok_def)
  have c: "count_of is_rw ((p_clients p)[i := ?info]) =
      fst (rw_counts p cid) + (if mode = ReadWrite then 1 else 0)"
    using count_list_update[OF d i, of ?info] by (simp add: rw_counts_def is_rw_def)
  have le: "fst (rw_counts p cid) \<le> count_of is_rw (p_clients p)"
    unfolding rw_counts_def count_of_def by (simp add: filter_filter[symmetric] del: filter_filter)
  have "enat (count_of is_rw ((p_clients p)[i := ?info])) \<le> write_capacity (p_max_rw p)"
  proof (cases mode)
    case ReadWrite
    then show ?thesis using assms(2) c by (simp add: ileI1 flip: eSuc_enat)
  next
    case ReadOnly
    then show ?thesis using assms(1) c le
      by (auto simp: seats_ok_def intro: order_trans[of _ "enat (count_of is_rw (p_clients p))"])
  qed
  with Some d show ?thesis
    by (simp add: seats_ok_def attach_client_record_def Let_def ids_list_update[OF i])
qed

lemma attach_queues_ok:
  assumes "queues_ok p"
  shows "queues_ok (attach_client_record p cid u mode now (find_existing_client_idx p cid))"
proof (cases "find_existing_client_idx p cid")
  case None
  with assms show ?thesis
    by (auto simp: queues_ok_def attach_client_record_def Let_def)
next
  case (Some i)
  then have i: "index_of (has_id cid) (p_clients p) = Some i"
    by (simp add: find_existing_client_idx_def)
  then have "cid \<in> set (ids (p_clients p))"
    using index_of_id_None_iff[of cid "p_clients p"] by auto
  then have "dict_has (p_queues p) cid"
    using assms by (simp add: queues_ok_def dict_has_iff)
  with Some i assms show ?thesis
    by (simp add: queues_ok_def attach_client_record_def Let_def ids_list_update[OF i])
qed

lemma attach_port_ok:
  assumes "port_ok p"
    and "mode = ReadWrite \<Longrightarrow> enat (fst (rw_counts p cid)) < write_capacity (p_max_rw p)"
  shows "port_ok (attach_client_record p cid u mode now (find_existing_client_idx p cid))"
proof -
  have "p_queue (attach_client_record p cid u mode now e) = p_queue p"
    "p_scroll (attach_client_record p cid u mode now e) = p_scroll p" for e
    by (simp_all add: attach_client_record_def Let_def split: option.splits)
  with assms show ?thesis
    by (simp add: port_ok_def attach_seats_ok attach_queues_ok)
qed

lemma add_client_ok [preserves]: "pm_ok s \<Longrightarrow> pm_ok (snd (add_client_to_port n cid u mode s))"
  using ensure_unified_wrapper_ok[of s n]
  by (auto simp: add_client_to_port_def Let_def rw_counts_def not_le
      intro!: put_port_ok attach_port_ok dest: pm_okD split: option.splits)

lemma remove_port_ok:
  "port_ok p \<Longrightarrow> port_ok (p\<lparr>p_clients := remove_first (has_id cid) (p_clients p),
                        p_queues := dict_del cid (p_queues p)\<rparr>)"
  using count_of_remove_first_le[of is_rw "has_id cid" "p_clients p"]
  by (auto simp: port_ok_def seats_ok_def queues_ok_def distinct_ids_remove_first ids_remove_first
      intro: order_trans[of _ "enat (count_of is_rw (p_clients p))"])

lemma remove_client_ok [preserves]: "pm_ok s \<Longrightarrow> pm_ok (snd (remove_client_from_port n cid s))"
  by (auto simp: remove_client_from_port_def Let_def get_port_ok
      intro!: put_port_ok remove_port_ok dest: pm_okD split: option.splits)

lemma set_mode_fields [simp]:
  "p_queues (set_mode cid m p) = p_queues p" "p_queue (set_mode cid m p) = p_queue p"
  "p_scroll (set_mode cid m p) = p_scroll p" "p_max_rw (set_mode cid m p) = p_max_rw p"
  "ids (p_clients (set_mode cid m p)) = ids (p_clients p)" "p_backing (set_mode cid m p) = p_backing p"
  by (simp_all add: set_mode_def)

lemma set_mode_queues_ok: "queues_ok (set_mode cid m p) = queues_ok p"
  by (simp add: queues_ok_def)

lemma demote_port_ok: "port_ok p \<Longrightarrow> port_ok (set_mode cid ReadOnly p)"
  using count_demote[of "has_id cid" "p_clients p"]
  by (auto simp: port_ok_def seats_ok_def set_mode_queues_ok) (auto simp: set_mode_def
      intro: order_trans[of _ "enat (count_of is_rw (p_clients p))"])

lemma promote_port_ok:
  assumes "port_ok p"
    and "(\<exists>c \<in> set (p_clients p). has_id cid c \<and> is_rw c) \<or>
      enat (count_of is_rw (p_clients p)) < write_capacity (p_max_rw p)"
  shows "port_ok (set_mode cid ReadWrite p)"
proof -
  have d: "distinct (ids (p_clients p))" using assms(1) by (simp add: port_ok_def seats_ok_def)
  have "enat (count_of is_rw (p_clients (set_mode cid ReadWrite p))) \<le> write_capacity (p_max_rw p)"
  proof (cases "\<exists>c \<in> set (p_clients p). has_id cid c \<and> is_rw c")
    case True
    then show ?thesis
      using count_promote[OF d, of cid] assms(1)
      by (auto simp: port_ok_def seats_ok_def set_mode_def
          intro: order_trans[of _ "enat (count_of is_rw (p_clients p))"])
  next
    case False
    then have "enat (Suc (count_of is_rw (p_clients p))) \<le> write_capacity (p_max_rw p)"
      using assms(2) by (metis eSuc_enat ileI1 False)
    then show ?thesis
      using count_promote[OF d, of cid] False
      by (auto simp: set_mode_def intro: order_trans[of _ "enat (Suc (count_of is_rw (p_clients p)))"])
  qed
  with assms(1) show ?thesis by (simp add: port_ok_def seats_ok_def set_mode_queues_ok)
qed

lemma promote_ok [preserves]: "pm_ok s \<Longrightarrow> pm_ok (snd (promote_client n cid s))"
  by (auto simp: promote_client_def Let_def not_le
      intro!: put_port_ok promote_port_ok dest: pm_okD split: option.splits)

lemma demote_ok [preserves]: "pm_ok s \<Longrightarrow> pm_ok (snd (demote_client n cid s))"
  by (auto simp: demote_client_def
      intro!: put_port_ok demote_port_ok dest: pm_okD split: option.splits)

lemma write_ok [preserves]: "pm_ok s \<Longrightarrow> pm_ok (snd (write_to_port dev n data cid s))"
  using ensure_unified_wrapper_ok[of s n]
  by (auto simp: write_to_port_def Let_def split: option.splits)

lemma fan_out_queues_ok: "queues_ok p \<Longrightarrow> queues_ok (fan_out data p)"
  by (auto simp: queues_ok_def fan_out_def bounded_put elim: dict_all_mono)

lemma receive_port_ok: "port_ok p \<Longrightarrow> port_ok (receive_chunk rc data p)"
proof -
  assume p: "port_ok p"
  let ?p = "fan_out data (p\<lparr>p_scroll := scroll_append data (p_scroll p)\<rparr>)"
  have "queues_ok (p\<lparr>p_scroll := scroll_append data (p_scroll p)\<rparr>)"
    using p by (simp add: port_ok_def queues_ok_def)
  then have "queues_ok ?p" by (rule fan_out_queues_ok)
  moreover have "seats_ok ?p" "queue_ok (p_queue ?p)" "scroll_ok (p_scroll ?p)"
    using p by (simp_all add: port_ok_def seats_ok_def fan_out_def scrollback.usable_push)
  ultimately show ?thesis
    by (simp add: receive_chunk_def Let_def port_ok_def enqueue_shared_def seats_ok_def queues_ok_def
        put_queue_ok)
qed

lemma handle_incoming_ok [preserves]: "pm_ok s \<Longrightarrow> pm_ok (snd (handle_incoming_port_data n d rc s))"
  by (auto simp: handle_incoming_port_data_def
      intro!: put_port_ok receive_port_ok dest: pm_okD split: option.splits)

lemma port_ok_queue: "port_ok p \<Longrightarrow> queue_ok q \<Longrightarrow> port_ok (p\<lparr>p_queue := q\<rparr>)"
  by (simp add: port_ok_def seats_ok_def queues_ok_def)

lemma port_ok_shared: "port_ok p \<Longrightarrow> queue_ok (p_queue p)"
  by (simp add: port_ok_def)

lemma port_ok_viewers [simp]: "port_ok (p\<lparr>p_fed_viewers := v\<rparr>) = port_ok p"
  by (simp add: port_ok_def seats_ok_def queues_ok_def)

lemma port_ok_get:
  "port_ok p \<Longrightarrow> get_nowait (p_queue p) = Some (x, q) \<Longrightarrow> port_ok (p\<lparr>p_queue := q\<rparr>)"
  by (rule port_ok_queue) (auto intro: get_queue_ok port_ok_shared)

lemma get_port_data_ok [preserves]: "pm_ok s \<Longrightarrow> pm_ok (snd (get_port_data n s))"
  using ensure_unified_wrapper_ok[of s n]
  by (auto simp: get_port_data_def Let_def dest: pm_okD
      intro!: put_port_ok port_ok_get split: option.splits)

lemma holds_ok [preserves]:
  "pm_ok s \<Longrightarrow> pm_ok (add_federation_buffering_hold n s)"
  "pm_ok s \<Longrightarrow> pm_ok (remove_federation_buffering_hold n s)"
proof -
  assume s: "pm_ok s"
  show "pm_ok (add_federation_buffering_hold n s)"
    using ensure_unified_wrapper_ok[OF s, of n]
    by (auto simp: add_federation_buffering_hold_def Let_def intro!: put_port_ok dest: pm_okD
        split: option.splits)
  have "port_ok p \<Longrightarrow> port_ok (p\<lparr>p_fed_viewers := v, p_queue := (p_queue p)\<lparr>q_items := []\<rparr>\<rparr>)" for p v
    by (simp add: port_ok_def seats_ok_def queues_ok_def queue_ok_def)
  then show "pm_ok (remove_federation_buffering_hold n s)"
    using s by (auto simp: remove_federation_buffering_hold_def Let_def intro!: put_port_ok
        dest: pm_okD split: option.splits)
qed

lemma register_ok [preserves]:
  "pm_ok s \<Longrightarrow> pm_ok (snd (register_unified_port n u s))"
  "pm_ok s \<Longrightarrow> pm_ok (snd (unregister_unified_port n s))"
  "pm_ok s \<Longrightarrow> port_ok proxy \<Longrightarrow> pm_ok (snd (register_federated_port n proxy s))"
  by (simp_all add: register_unified_port_def unregister_unified_port_def
      register_federated_port_def put_port_ok del_port_ok)

section \<open>The write-slot contract\<close>

locale write_slots =
  fixes promote demote :: "'p \<Rightarrow> 'c \<Rightarrow> 's \<Rightarrow> bool \<times> 's"
    and mode_of :: "'s \<Rightarrow> 'p \<Rightarrow> 'c \<Rightarrow> amode option"
    and capacity :: "'s \<Rightarrow> 'p \<Rightarrow> enat"
    and writers :: "'s \<Rightarrow> 'p \<Rightarrow> nat"
    and ok :: "'s \<Rightarrow> bool"
  assumes promote_iff: "ok s \<Longrightarrow> fst (promote p c s) \<longleftrightarrow> mode_of s p c = Some ReadWrite \<or>
      (mode_of s p c = Some ReadOnly \<and> enat (writers s p) < capacity s p)"
    and promote_mode: "ok s \<Longrightarrow> mode_of (snd (promote p c s)) p' c' =
      (if p' = p \<and> c' = c \<and> fst (promote p c s) then Some ReadWrite else mode_of s p' c')"
    and demote_iff: "ok s \<Longrightarrow> fst (demote p c s) \<longleftrightarrow> mode_of s p c \<noteq> None"
    and demote_mode: "ok s \<Longrightarrow> mode_of (snd (demote p c s)) p' c' =
      (if p' = p \<and> c' = c \<and> fst (demote p c s) then Some ReadOnly else mode_of s p' c')"
    and promote_capacity: "ok s \<Longrightarrow> capacity (snd (promote p c s)) p' = capacity s p'"
    and demote_capacity: "ok s \<Longrightarrow> capacity (snd (demote p c s)) p' = capacity s p'"
    and demote_writers: "ok s \<Longrightarrow> mode_of s p c = Some ReadWrite \<Longrightarrow>
      Suc (writers (snd (demote p c s)) p) = writers s p"
    and promote_writers: "ok s \<Longrightarrow> mode_of s p c = Some ReadOnly \<Longrightarrow> fst (promote p c s) \<Longrightarrow>
      writers (snd (promote p c s)) p = Suc (writers s p)"
    and promote_keeps: "ok s \<Longrightarrow> ok (snd (promote p c s))"
    and demote_keeps: "ok s \<Longrightarrow> ok (snd (demote p c s))"
    and bounded: "ok s \<Longrightarrow> enat (writers s p) \<le> capacity s p"
begin

lemma room_after_demote:
  assumes "ok s" "mode_of s p v = Some ReadWrite"
  shows "enat (writers (snd (demote p v s)) p) < capacity (snd (demote p v s)) p"
proof -
  have "enat (Suc (writers (snd (demote p v s)) p)) \<le> capacity s p"
    using demote_writers[OF assms] bounded[OF assms(1), of p] by simp
  then show ?thesis
    by (simp add: demote_capacity[OF assms(1)] Suc_ile_eq)
qed

text \<open>A transfer from the writer \<open>v\<close> to the viewer \<open>t\<close> always goes through, changes nobody else
  and keeps the number of writers.\<close>

lemma transfer:
  assumes "ok s" "mode_of s p v = Some ReadWrite" "mode_of s p t = Some ReadOnly"
  defines "s1 \<equiv> snd (demote p v s)"
  defines "s2 \<equiv> snd (promote p t s1)"
  shows "fst (demote p v s)" "fst (promote p t s1)"
    "mode_of s2 p' c = (if p' = p \<and> c = t then Some ReadWrite
       else if p' = p \<and> c = v then Some ReadOnly else mode_of s p' c)"
    "writers s2 p = writers s p" "ok s2"
proof -
  show d: "fst (demote p v s)" using assms by (simp add: demote_iff)
  have ok1: "ok s1" using assms(1) by (simp add: s1_def demote_keeps)
  have m1: "mode_of s1 p' c = (if p' = p \<and> c = v then Some ReadOnly else mode_of s p' c)" for p' c
    using d assms(1) by (simp add: s1_def demote_mode)
  have t1: "mode_of s1 p t = Some ReadOnly" using assms(3) by (simp add: m1)
  show pr: "fst (promote p t s1)"
    using room_after_demote[OF assms(1,2)] ok1 t1 by (simp add: promote_iff s1_def)
  show "mode_of s2 p' c = (if p' = p \<and> c = t then Some ReadWrite
       else if p' = p \<and> c = v then Some ReadOnly else mode_of s p' c)"
    using pr ok1 by (simp add: s2_def promote_mode m1)
  show "writers s2 p = writers s p"
    using promote_writers[OF ok1 t1 pr] demote_writers[OF assms(1,2)] by (simp add: s2_def s1_def)
  show "ok s2" using ok1 by (simp add: s2_def promote_keeps)
qed

text \<open>Promoting the demoted writer again restores every mode.\<close>

lemma restore:
  assumes "ok s" "mode_of s p v = Some ReadWrite"
  shows "fst (promote p v (snd (demote p v s)))"
    "mode_of (snd (promote p v (snd (demote p v s)))) p' c = mode_of s p' c"
proof -
  let ?s1 = "snd (demote p v s)"
  have ok1: "ok ?s1" using assms(1) by (rule demote_keeps)
  have d: "fst (demote p v s)" using assms by (simp add: demote_iff)
  have v1: "mode_of ?s1 p v = Some ReadOnly" using assms(1) d by (simp add: demote_mode)
  show pr: "fst (promote p v ?s1)"
    using room_after_demote[OF assms] ok1 v1 by (simp add: promote_iff)
  show "mode_of (snd (promote p v ?s1)) p' c = mode_of s p' c"
    using assms ok1 pr d by (auto simp: promote_mode demote_mode)
qed

text \<open>Any sequence of promotions and demotions keeps the bound.\<close>

lemma step_keeps:
  "ok s \<Longrightarrow> ok (snd (if up then promote p c s else demote p c s))"
  "ok s \<Longrightarrow> capacity (snd (if up then promote p c s else demote p c s)) q = capacity s q"
  by (simp_all add: promote_keeps demote_keeps promote_capacity demote_capacity)

lemma steps_keep:
  "ok s \<Longrightarrow> ok (fold (\<lambda>(up, p, c) s. snd (if up then promote p c s else demote p c s)) ops s) \<and>
    capacity (fold (\<lambda>(up, p, c) s. snd (if up then promote p c s else demote p c s)) ops s) q = capacity s q"
proof (induction ops arbitrary: s)
  case (Cons x ops)
  obtain up p c where x: "x = (up, p, c)" by (cases x)
  show ?case
    using Cons.IH[OF step_keeps(1)[OF Cons.prems, of up p c]] step_keeps(2)[OF Cons.prems, of up p c q]
    by (simp add: x)
qed simp

lemma steps_bounded:
  assumes "ok s"
  shows "enat (writers (fold (\<lambda>(up, p, c) s. snd (if up then promote p c s else demote p c s)) ops s) q)
    \<le> capacity s q"
proof -
  let ?t = "fold (\<lambda>(up, p, c) s. snd (if up then promote p c s else demote p c s)) ops s"
  have "ok ?t" "capacity ?t q = capacity s q" using steps_keep[OF assms, of ops q] by blast+
  with bounded[of ?t q] show ?thesis by (simp only:)
qed

end

section \<open>The port manager provides it\<close>

definition pm_mode :: "pm \<Rightarrow> string \<Rightarrow> string \<Rightarrow> amode option" where
  "pm_mode s n cid = pm_client_mode cid n s"

definition pm_capacity :: "pm \<Rightarrow> string \<Rightarrow> enat" where
  "pm_capacity s n = (case lookup_port s n of Some p \<Rightarrow> write_capacity (p_max_rw p) | None \<Rightarrow> 0)"

definition pm_writers :: "pm \<Rightarrow> string \<Rightarrow> nat" where
  "pm_writers s n = (case lookup_port s n of Some p \<Rightarrow> count_of is_rw (p_clients p) | None \<Rightarrow> 0)"

lemma pm_mode_None_port: "lookup_port s n = None \<Longrightarrow> pm_mode s n c = None"
  by (simp add: pm_mode_def pm_client_mode_def)

lemma pm_mode_put [simp]:
  "pm_mode (put_port n p s) m c =
     (if m = n then map_option cr_mode (find (has_id c) (p_clients p)) else pm_mode s m c)"
  by (simp add: pm_mode_def pm_client_mode_def)

lemma pm_mode_emit [simp]: "pm_mode (emit es s) = pm_mode s"
  by (simp add: pm_mode_def pm_client_mode_def fun_eq_iff)

lemma pm_capacity_simps [simp]:
  "pm_capacity (put_port n p s) m = (if m = n then write_capacity (p_max_rw p) else pm_capacity s m)"
  "pm_capacity (emit es s) m = pm_capacity s m"
  "pm_writers (put_port n p s) m = (if m = n then count_of is_rw (p_clients p) else pm_writers s m)"
  "pm_writers (emit es s) m = pm_writers s m"
  by (simp_all add: pm_capacity_def pm_writers_def)

lemma find_set_mode:
  "find (has_id c) (p_clients (set_mode cid m p)) =
     (if c = cid then map_option (cr_mode_update (\<lambda>_. m)) (find (has_id c) (p_clients p))
      else find (has_id c) (p_clients p))"
  by (simp add: set_mode_def find_update_first)

lemma already_rw_iff:
  "distinct (ids cs) \<Longrightarrow>
     (\<exists>c \<in> set cs. has_id cid c \<and> is_rw c) \<longleftrightarrow> map_option cr_mode (find (has_id cid) cs) = Some ReadWrite"
  by (induction cs) (auto simp: has_id_def is_rw_def ids_def image_iff)

lemma count_demote_exact:
  "map_option cr_mode (find (has_id cid) cs) = Some ReadWrite \<Longrightarrow>
     Suc (count_of is_rw (update_first (has_id cid) (cr_mode_update (\<lambda>_. ReadOnly)) cs)) = count_of is_rw cs"
  by (induction cs) (auto simp: is_rw_def split: if_splits)

lemma count_promote_exact:
  "map_option cr_mode (find (has_id cid) cs) = Some ReadOnly \<Longrightarrow>
     count_of is_rw (update_first (has_id cid) (cr_mode_update (\<lambda>_. ReadWrite)) cs) = Suc (count_of is_rw cs)"
  by (induction cs) (auto simp: is_rw_def split: if_splits)

lemma pm_ok_distinct: "pm_ok s \<Longrightarrow> lookup_port s n = Some p \<Longrightarrow> distinct (ids (p_clients p))"
  using pm_okD by (auto simp: port_ok_def seats_ok_def)

lemma promote_client_iff:
  assumes "pm_ok s"
  shows "fst (promote_client n c s) \<longleftrightarrow> pm_mode s n c = Some ReadWrite \<or>
    (pm_mode s n c = Some ReadOnly \<and> enat (pm_writers s n) < pm_capacity s n)"
proof (cases "lookup_port s n")
  case None
  then show ?thesis by (simp add: promote_client_def pm_mode_None_port)
next
  case (Some p)
  have d: "distinct (ids (p_clients p))" using assms Some by (rule pm_ok_distinct)
  show ?thesis
  proof (cases "find (has_id c) (p_clients p)")
    case None
    with Some show ?thesis by (simp add: promote_client_def pm_mode_def pm_client_mode_def Let_def)
  next
    case f: (Some r)
    with Some d show ?thesis
      by (cases "cr_mode r") (auto simp: promote_client_def pm_mode_def pm_client_mode_def Let_def
          already_rw_iff pm_writers_def pm_capacity_def not_le)
  qed
qed

lemma promote_client_mode:
  "pm_mode (snd (promote_client n c s)) m d =
    (if m = n \<and> d = c \<and> fst (promote_client n c s) then Some ReadWrite else pm_mode s m d)"
proof (cases "fst (promote_client n c s)")
  case False
  then show ?thesis
    by (auto simp: promote_client_def Let_def split: option.splits if_splits)
next
  case True
  then obtain p where p: "lookup_port s n = Some p" "find (has_id c) (p_clients p) \<noteq> None"
    "snd (promote_client n c s) = emit [EvRecord n ''client_promoted'' c] (put_port n (set_mode c ReadWrite p) s)"
    by (auto simp: promote_client_def Let_def split: option.splits if_splits)
  with True show ?thesis
    by (auto simp: find_set_mode pm_mode_def pm_client_mode_def)
qed

lemma demote_client_iff: "fst (demote_client n c s) \<longleftrightarrow> pm_mode s n c \<noteq> None"
  by (auto simp: demote_client_def pm_mode_def pm_client_mode_def split: option.splits)

lemma demote_client_mode:
  "pm_mode (snd (demote_client n c s)) m d =
    (if m = n \<and> d = c \<and> fst (demote_client n c s) then Some ReadOnly else pm_mode s m d)"
proof (cases "fst (demote_client n c s)")
  case False
  then show ?thesis by (auto simp: demote_client_def split: option.splits if_splits)
next
  case True
  then obtain p where p: "lookup_port s n = Some p" "find (has_id c) (p_clients p) \<noteq> None"
    "snd (demote_client n c s) = emit [EvRecord n ''client_demoted'' c] (put_port n (set_mode c ReadOnly p) s)"
    by (auto simp: demote_client_def split: option.splits if_splits)
  with True show ?thesis
    by (auto simp: find_set_mode pm_mode_def pm_client_mode_def)
qed

lemma change_capacity:
  "pm_capacity (snd (promote_client n c s)) m = pm_capacity s m"
  "pm_capacity (snd (demote_client n c s)) m = pm_capacity s m"
  by (auto simp: promote_client_def demote_client_def Let_def pm_capacity_def split: option.splits)

lemma pm_mode_SomeD:
  "pm_mode s n c = Some m \<Longrightarrow>
     \<exists>p. lookup_port s n = Some p \<and> map_option cr_mode (find (has_id c) (p_clients p)) = Some m"
  by (auto simp: pm_mode_def pm_client_mode_def split: option.splits)

interpretation slots: write_slots promote_client demote_client pm_mode pm_capacity pm_writers pm_ok
proof unfold_locales
  fix s n c m d
  assume s: "pm_ok s"
  show "fst (promote_client n c s) \<longleftrightarrow> pm_mode s n c = Some ReadWrite \<or>
    (pm_mode s n c = Some ReadOnly \<and> enat (pm_writers s n) < pm_capacity s n)"
    using s by (rule promote_client_iff)
  show "pm_mode (snd (promote_client n c s)) m d =
    (if m = n \<and> d = c \<and> fst (promote_client n c s) then Some ReadWrite else pm_mode s m d)"
    by (rule promote_client_mode)
  show "fst (demote_client n c s) \<longleftrightarrow> pm_mode s n c \<noteq> None"
    by (rule demote_client_iff)
  show "pm_mode (snd (demote_client n c s)) m d =
    (if m = n \<and> d = c \<and> fst (demote_client n c s) then Some ReadOnly else pm_mode s m d)"
    by (rule demote_client_mode)
  show "pm_capacity (snd (promote_client n c s)) m = pm_capacity s m"
    "pm_capacity (snd (demote_client n c s)) m = pm_capacity s m"
    by (simp_all add: change_capacity)
  show "pm_ok (snd (promote_client n c s))" "pm_ok (snd (demote_client n c s))"
    using s by (simp_all add: promote_ok demote_ok)
  show "enat (pm_writers s n) \<le> pm_capacity s n"
    using s by (auto simp: pm_writers_def pm_capacity_def port_ok_def seats_ok_def zero_enat_def
        dest: pm_okD split: option.splits)
  show "Suc (pm_writers (snd (demote_client n c s)) n) = pm_writers s n"
    if "pm_mode s n c = Some ReadWrite"
    using pm_mode_SomeD[OF that] count_demote_exact
    by (auto simp: demote_client_def set_mode_def pm_writers_def)
  show "pm_writers (snd (promote_client n c s)) n = Suc (pm_writers s n)"
    if "pm_mode s n c = Some ReadOnly" "fst (promote_client n c s)"
    using pm_mode_SomeD[OF that(1)] that(2) count_promote_exact
    by (auto simp: promote_client_def Let_def set_mode_def pm_writers_def split: if_splits)
qed

end
