(* ===== verification/ConsoleAccess.thy ===== *)
theory ConsoleAccess
  imports PortInvariant
begin

text \<open>
  The access ladder of \<^verbatim>\<open>openmux/server/console_manager.py\<close>: who may drive a port, which seat an
  attach gets, which holder a takeover displaces and which refusal a full port gives.  These are
  the functions that read the port and decide; \<^verbatim>\<open>ConsoleManager.thy\<close> holds the operations that
  change state.  The auth manager and the security policy are the fields of \<open>env\<close>; the address
  resolver of a client is an argument.
\<close>

section \<open>What the console manager asks of its surroundings\<close>

datatype fed_request = FedRequest | FedRelease | FedTake "string option"

record client_meta =
  meta_username :: "string option"
  meta_ip :: "string option"

text \<open>
  \<open>user_permissions\<close> and \<open>user_groups\<close> are the auth manager's lookups (\<open>None\<close>: no role
  assigned); \<open>security_default\<close> is what \<open>get_access_default\<close> returns (\<open>None\<close>: no policy, or a
  lookup that raised); \<open>fed_reply\<close> is the mode string the origin of a federated port answers
  to the n-th request of a run (an exception or a timeout is answered read-only);
  \<open>meta_resolver\<close> is an adapter's \<open>_resolve_client_meta\<close>; \<open>frame_accepted\<close> and
  \<open>data_accepted\<close> say what an adapter answers to a control frame or to data (\<open>None\<close>: it raised).
\<close>

record env =
  user_permissions :: "string \<Rightarrow> string option"
  user_groups :: "string \<Rightarrow> string list"
  security_default :: "string option"
  fed_reply :: "nat \<Rightarrow> string \<Rightarrow> string \<Rightarrow> fed_request \<Rightarrow> string"
  meta_resolver :: "string \<Rightarrow> string \<Rightarrow> client_meta option"
  frame_accepted :: "string \<Rightarrow> string \<Rightarrow> bool"
  data_accepted :: "string \<Rightarrow> string \<Rightarrow> bytes \<Rightarrow> bool option"

section \<open>Ports, holders and targets\<close>

definition port_capacity :: "port option \<Rightarrow> pyval" where
  "port_capacity p = (case p of Some p \<Rightarrow> p_max_rw p | None \<Rightarrow> PNone)"

definition match_take_target :: "client_rec list \<Rightarrow> string \<Rightarrow> client_rec option" where
  "match_take_target holders target =
     (case find (has_id target) holders of
        Some r \<Rightarrow> Some r
      | None \<Rightarrow> (case filter (\<lambda>r. holder_id_short (cr_client_id r) = target) holders of
                   [r] \<Rightarrow> Some r
                 | _ \<Rightarrow> None))"

text \<open>\<open>max(holders, key=...)\<close> returns the first of the largest.\<close>

fun latest :: "client_rec \<Rightarrow> client_rec list \<Rightarrow> client_rec" where
  "latest best [] = best"
| "latest best (c # cs) =
     (if cr_connected_at c > cr_connected_at best then latest c cs else latest best cs)"

definition resolve_take_target ::
  "port \<Rightarrow> string \<Rightarrow> string option \<Rightarrow> client_rec option \<times> acode option" where
  "resolve_take_target p taker target =
     (let holders = filter (\<lambda>c. is_rw c \<and> \<not> has_id taker c) (p_clients p) in
      case holders of
        [] \<Rightarrow> (None, Some NoHolder)
      | h # hs \<Rightarrow>
          (case target of
             Some t \<Rightarrow> (case match_take_target holders t of
                 None \<Rightarrow> (None, Some InvalidTarget)
               | Some c \<Rightarrow> (Some c, None))
           | None \<Rightarrow> (Some (latest h hs), None)))"

definition has_write_slots :: "port option \<Rightarrow> bool" where
  "has_write_slots p =
     (case p of
        None \<Rightarrow> False
      | Some p \<Rightarrow>
          (let capacity = write_capacity (p_max_rw p) in
           if capacity = 0 then False
           else if capacity = \<infinity> then True
           else enat (count_of is_rw (p_clients p)) < capacity))"

text \<open>\<open>write_capacity(getattr(port, "max_read_write_users", 1))\<close>, also for no port at all.\<close>

definition capacity_of :: "port option \<Rightarrow> enat" where
  "capacity_of p = write_capacity (case p of Some p \<Rightarrow> p_max_rw p | None \<Rightarrow> PInt 1)"

definition rw_mode_or_demote :: "port option \<Rightarrow> amode \<times> acode" where
  "rw_mode_or_demote p =
     (if has_write_slots p then (ReadWrite, Attached)
      else (ReadOnly, if capacity_of p = 0 then CapacityNone else CapacityFull))"

section \<open>Entitlement\<close>

definition groups_of :: "(port \<Rightarrow> string list) \<Rightarrow> port option \<Rightarrow> string list" where
  "groups_of f p = (case p of Some p \<Rightarrow> f p | None \<Rightarrow> [])"

definition meets :: "string list \<Rightarrow> string list \<Rightarrow> bool" where
  "meets a b \<longleftrightarrow> (\<exists>g \<in> set a. g \<in> set b)"

definition access_default :: "env \<Rightarrow> string" where
  "access_default e = (case security_default e of
      None \<Rightarrow> ''allow'' | Some d \<Rightarrow> if d = [] then ''allow'' else d)"

definition taker_entitled :: "env \<Rightarrow> port option \<Rightarrow> string option \<Rightarrow> string \<Rightarrow> entitlement" where
  "taker_entitled e p permissions username =
     (if permissions = Some ''admin'' then EWrite
      else
        (let rw_groups = groups_of p_rw_groups p;
             ro_groups = groups_of p_ro_groups p in
         if rw_groups \<noteq> [] \<or> ro_groups \<noteq> [] then
           (if meets (user_groups e username) rw_groups then EWrite
            else if meets (user_groups e username) ro_groups then EReadOnly
            else EDenied DeniedByGroupAcl)
         else if access_default e = ''deny'' then EDenied DeniedByAccessDefault
         else if permissions = Some ''read-write'' then EWrite
         else EReadOnly))"

section \<open>Decisions\<close>

definition answer :: "acode \<Rightarrow> amode \<Rightarrow> string \<Rightarrow> string \<Rightarrow> pyval \<Rightarrow> decision" where
  "answer c m cid n cap =
     (mk_decision c m)\<lparr>d_client_id := cid, d_port_name := n, d_capacity := norm_capacity cap\<rparr>"

definition resolve_access_mode :: "env \<Rightarrow> port option \<Rightarrow> string \<Rightarrow> string option \<Rightarrow> string \<Rightarrow> decision" where
  "resolve_access_mode e p n permissions username =
     (let ent = taker_entitled e p permissions username in
      if \<not> may_drive ent then
        (case entitlement_code ent of
           Some c \<Rightarrow> answer c ReadOnly [] n (port_capacity p)
         | None \<Rightarrow> answer ReadOnlyStanding ReadOnly [] n (port_capacity p))
      else (case rw_mode_or_demote p of
              (m, c) \<Rightarrow> answer c m [] n (port_capacity p)))"

definition holders_for :: "(string \<Rightarrow> string) \<Rightarrow> port option \<Rightarrow> holder list" where
  "holders_for ip p =
     (case p of Some p \<Rightarrow> holders_of (p_clients p) (\<lambda>c. Inr (ip c)) | None \<Rightarrow> [])"

definition refusal ::
  "(string \<Rightarrow> string) \<Rightarrow> acode \<Rightarrow> string \<Rightarrow> string \<Rightarrow> port option \<Rightarrow> decision" where
  "refusal ip c cid n p =
     (answer c ReadOnly cid n (port_capacity p))\<lparr>d_holders := holders_for ip p\<rparr>"

definition seat_code :: "port option \<Rightarrow> acode" where
  "seat_code p =
     (let capacity = capacity_of p in
      if capacity = 0 then NoWriteSlot else if capacity > 1 then TakeWithoutSlot else PromoteFailed)"

definition seat_refusal :: "(string \<Rightarrow> string) \<Rightarrow> port option \<Rightarrow> string \<Rightarrow> string \<Rightarrow> decision" where
  "seat_refusal ip p n cid = refusal ip (seat_code p) cid n p"

definition is_client_rw :: "port \<Rightarrow> string \<Rightarrow> bool" where
  "is_client_rw p cid \<longleftrightarrow> (\<exists>c \<in> set (p_clients p). has_id cid c \<and> is_rw c)"

definition victim_holder :: "(string \<Rightarrow> string) \<Rightarrow> port option \<Rightarrow> string option \<Rightarrow> holder option" where
  "victim_holder ip p target =
     (case target of
        None \<Rightarrow> None
      | Some t \<Rightarrow>
          if t = [] then None
          else (case p of
                  None \<Rightarrow> None
                | Some p \<Rightarrow> map_option
                    (\<lambda>c. \<lparr>h_client_id = cr_client_id c, h_username = or_unknown (cr_username c),
                          h_ip = ip (cr_client_id c)\<rparr>)
                    (find (has_id t) (p_clients p))))"

text \<open>The viewer entries of a presence frame; mirrored \<open>fed:\<close> clients are left out.\<close>

definition viewer_entry :: "(string \<Rightarrow> string) \<Rightarrow> client_rec \<Rightarrow> (pyval \<times> pyval) list" where
  "viewer_entry ip c =
     [(PStr ''username'', PStr (cr_username c)), (PStr ''mode'', PStr (mode_value (cr_mode c))),
      (PStr ''client_id'', PStr (cr_client_id c)), (PStr ''ip'', PStr (ip (cr_client_id c)))]"

definition viewers_display ::
  "(string \<Rightarrow> string) \<Rightarrow> (string \<Rightarrow> (pyval \<times> pyval) list list) \<Rightarrow> string \<Rightarrow> port option
     \<Rightarrow> (pyval \<times> pyval) list list" where
  "viewers_display ip remote_viewers n p =
     (case p of
        None \<Rightarrow> []
      | Some p \<Rightarrow>
          map (viewer_entry ip) (filter (\<lambda>c. \<not> startswith ''fed:'' (cr_client_id c)) (p_clients p))
          @ remote_viewers n)"

section \<open>Facts about the ladder\<close>

lemma answer_fields [simp]:
  "d_code (answer c m cid n cap) = c" "d_mode (answer c m cid n cap) = m"
  "d_client_id (answer c m cid n cap) = cid" "d_port_name (answer c m cid n cap) = n"
  by (simp_all add: answer_def mk_decision_def)

lemma refusal_fields [simp]:
  "d_code (refusal ip c cid n p) = c" "d_mode (refusal ip c cid n p) = ReadOnly"
  "d_client_id (refusal ip c cid n p) = cid" "d_port_name (refusal ip c cid n p) = n"
  by (simp_all add: refusal_def)

lemma seat_refusal_mode [simp]: "d_mode (seat_refusal ip p n cid) = ReadOnly"
  by (simp add: seat_refusal_def)

lemma may_drive_simps [simp]:
  "may_drive EWrite" "\<not> may_drive EReadOnly" "\<not> may_drive (EDenied c)"
  by (simp_all add: may_drive_def)

lemma has_write_slots_iff: "has_write_slots (Some p) \<longleftrightarrow>
    enat (count_of is_rw (p_clients p)) < write_capacity (p_max_rw p)"
  by (auto simp: has_write_slots_def Let_def)

lemma taker_entitled_cases:
  "taker_entitled e p perms u \<in> {EWrite, EReadOnly, EDenied DeniedByGroupAcl, EDenied DeniedByAccessDefault}"
  by (simp add: taker_entitled_def Let_def)

lemma latest_mem: "latest b cs \<in> set (b # cs)"
  by (induction b cs rule: latest.induct) auto

lemma latest_max: "c \<in> set (b # cs) \<Longrightarrow> cr_connected_at c \<le> cr_connected_at (latest b cs)"
  by (induction b cs arbitrary: c rule: latest.induct) force+

lemma match_take_target_mem:
  assumes "match_take_target hs t = Some c" shows "c \<in> set hs"
proof (cases "find (has_id t) hs")
  case None
  with assms have "filter (\<lambda>r. holder_id_short (cr_client_id r) = t) hs = [c]"
    by (simp add: match_take_target_def split: list.splits)
  then have "c \<in> set (filter (\<lambda>r. holder_id_short (cr_client_id r) = t) hs)" by simp
  then show ?thesis by simp
next
  case (Some r)
  with assms show ?thesis by (auto simp: match_take_target_def dest: find_Some_mem)
qed

lemma resolve_take_target_victim:
  assumes "resolve_take_target p taker target = (Some v, r)"
  shows "v \<in> set (p_clients p)" "is_rw v" "cr_client_id v \<noteq> taker"
proof -
  let ?hs = "filter (\<lambda>c. is_rw c \<and> \<not> has_id taker c) (p_clients p)"
  obtain h hs where hs: "?hs = h # hs"
    using assms by (cases ?hs) (simp_all add: resolve_take_target_def)
  have "v \<in> set ?hs"
  proof (cases target)
    case None
    with assms hs have "v = latest h hs" by (simp add: resolve_take_target_def)
    then show ?thesis using latest_mem[of h hs] by (simp only: hs)
  next
    case (Some t)
    with assms hs have "match_take_target ?hs t = Some v"
      by (simp add: resolve_take_target_def split: option.splits)
    then show ?thesis by (rule match_take_target_mem)
  qed
  then show "v \<in> set (p_clients p)" "is_rw v" "cr_client_id v \<noteq> taker"
    by (auto simp: has_id_def)
qed

end
