(* ===== verification/ConsoleManager.thy ===== *)
theory ConsoleManager
  imports ConsoleAccess
begin

text \<open>
  \<^verbatim>\<open>openmux/server/console_manager.py\<close>: the operations of \<open>ConsoleManager\<close>.  Its state is the
  port manager's plus its own dictionaries.  Each \<open>async\<close> method is one function from a state
  to a result and a state, with the calls in the order of the code; interleaving at the
  \<open>await\<close>s is the subject of \<^verbatim>\<open>SlotRaces.thy\<close>.  A delivered control frame is appended to
  \<open>cm_sent\<close>, an audit line to \<open>cm_audit\<close>, and \<open>cm_fed_calls\<close> numbers the requests sent to
  origins.  An adapter that delivers to clients (a \<open>client manager\<close>) is a name.
\<close>

section \<open>State\<close>

datatype frame = FrameDecision decision | FramePayload "(string \<times> pyval) list"

datatype audit = WriteSlotTakeover string string string "string option"

record cm =
  cm_pm :: pm
  client_port_map :: "(string, string) pydict"
  forwarding_tasks :: "(string, string) pydict"
  console_clients :: "(string, string list) pydict"
  client_manager :: "string option"
  client_managers :: "string list"
  client_to_manager :: "(string, string) pydict"
  remote_viewers :: "string \<Rightarrow> (pyval \<times> pyval) list list"
  cm_sent :: "(string \<times> frame) list"
  cm_audit :: "audit list"
  cm_fed_calls :: nat

definition with_pm :: "(pm \<Rightarrow> 'a \<times> pm) \<Rightarrow> cm \<Rightarrow> 'a \<times> cm" where
  "with_pm f s = (let (r, p) = f (cm_pm s) in (r, s\<lparr>cm_pm := p\<rparr>))"

abbreviation cm_port :: "cm \<Rightarrow> string \<Rightarrow> port option" where
  "cm_port s n \<equiv> lookup_port (cm_pm s) n"

definition mapped_to :: "cm \<Rightarrow> string \<Rightarrow> string \<Rightarrow> bool" where
  "mapped_to s cid n \<longleftrightarrow> dict_get (client_port_map s) cid = Some n"

section \<open>Routing registrations\<close>

definition register_client_manager :: "string \<Rightarrow> cm \<Rightarrow> cm" where
  "register_client_manager m s =
     s\<lparr>client_manager := Some m,
       client_managers := (if m \<in> set (client_managers s) then client_managers s
                           else client_managers s @ [m])\<rparr>"

definition register_client_channel :: "string \<Rightarrow> string \<Rightarrow> cm \<Rightarrow> cm" where
  "register_client_channel cid m s =
     s\<lparr>client_to_manager := dict_set cid m (client_to_manager s),
       client_managers := (if m \<in> set (client_managers s) then client_managers s
                           else client_managers s @ [m])\<rparr>"

definition unregister_client_channel :: "string \<Rightarrow> cm \<Rightarrow> cm" where
  "unregister_client_channel cid s = s\<lparr>client_to_manager := dict_del cid (client_to_manager s)\<rparr>"

definition register_client_port :: "string \<Rightarrow> string \<Rightarrow> cm \<Rightarrow> cm" where
  "register_client_port cid n s = s\<lparr>client_port_map := dict_set cid n (client_port_map s)\<rparr>"

definition unregister_client_port :: "string \<Rightarrow> cm \<Rightarrow> cm" where
  "unregister_client_port cid s = s\<lparr>client_port_map := dict_del cid (client_port_map s)\<rparr>"

definition client_meta_for :: "env \<Rightarrow> cm \<Rightarrow> string \<Rightarrow> client_meta" where
  "client_meta_for e s cid =
     (case dict_get (client_to_manager s) cid of
        None \<Rightarrow> \<lparr>meta_username = None, meta_ip = None\<rparr>
      | Some m \<Rightarrow> (case meta_resolver e m cid of
            Some r \<Rightarrow> r | None \<Rightarrow> \<lparr>meta_username = None, meta_ip = None\<rparr>))"

definition resolve_client_ip :: "env \<Rightarrow> cm \<Rightarrow> string \<Rightarrow> string" where
  "resolve_client_ip e s cid = (case meta_ip (client_meta_for e s cid) of
      Some ip \<Rightarrow> or_unknown ip | None \<Rightarrow> ''unknown'')"

definition taker_display :: "env \<Rightarrow> cm \<Rightarrow> string \<Rightarrow> string \<Rightarrow> string" where
  "taker_display e s taker username =
     (let name = or_unknown username in
      if taker = [] then name
      else (case meta_ip (client_meta_for e s taker) of
              Some ip \<Rightarrow> if ip \<noteq> [] \<and> ip \<noteq> ''unknown'' then name @ ''@'' @ ip else name
            | None \<Rightarrow> name))"

definition client_permissions :: "env \<Rightarrow> cm \<Rightarrow> string \<Rightarrow> string option" where
  "client_permissions e s cid =
     (case meta_username (client_meta_for e s cid) of
        Some u \<Rightarrow> if u = [] then None else user_permissions e u
      | None \<Rightarrow> None)"

section \<open>Control frames\<close>

definition send_control_frame_to_client :: "env \<Rightarrow> string \<Rightarrow> frame \<Rightarrow> cm \<Rightarrow> bool \<times> cm" where
  "send_control_frame_to_client e cid f s =
     (case dict_get (client_to_manager s) cid of
        None \<Rightarrow> (False, s)
      | Some m \<Rightarrow> if frame_accepted e m cid then (True, s\<lparr>cm_sent := cm_sent s @ [(cid, f)]\<rparr>)
                  else (False, s))"

definition clients_on :: "cm \<Rightarrow> string \<Rightarrow> string list" where
  "clients_on s n = map fst (filter (\<lambda>(cid, p). p = n) (client_port_map s))"

fun broadcast_to :: "env \<Rightarrow> frame \<Rightarrow> string list \<Rightarrow> cm \<Rightarrow> nat \<times> cm" where
  "broadcast_to e f [] s = (0, s)"
| "broadcast_to e f (cid # cids) s =
     (let (ok, s1) = send_control_frame_to_client e cid f s;
          (k, s2) = broadcast_to e f cids s1
      in ((if ok then Suc k else k), s2))"

definition broadcast_control_frame_to_port :: "env \<Rightarrow> string \<Rightarrow> frame \<Rightarrow> cm \<Rightarrow> nat \<times> cm" where
  "broadcast_control_frame_to_port e n f s = broadcast_to e f (clients_on s n) s"

definition get_viewers_display :: "env \<Rightarrow> cm \<Rightarrow> string \<Rightarrow> (pyval \<times> pyval) list list" where
  "get_viewers_display e s n =
     viewers_display (resolve_client_ip e s) (remote_viewers s) n (cm_port s n)"

definition broadcast_presence :: "env \<Rightarrow> string \<Rightarrow> bool \<Rightarrow> cm \<Rightarrow> nat \<times> cm" where
  "broadcast_presence e n notify_federation s =
     (let viewers = get_viewers_display e s n;
          s1 = (if notify_federation
                then s\<lparr>cm_pm := emit [EvMeta n ''presence_changed'' None] (cm_pm s)\<rparr> else s)
      in broadcast_control_frame_to_port e n (FramePayload (presence_frame viewers)) s1)"

definition on_federated_viewers_updated :: "env \<Rightarrow> string \<Rightarrow> string option \<Rightarrow> cm \<Rightarrow> cm" where
  "on_federated_viewers_updated e n event s =
     (if event \<noteq> Some ''federated_viewers_updated'' then s
      else snd (broadcast_presence e n False s))"

definition get_rw_holders_display :: "env \<Rightarrow> cm \<Rightarrow> string \<Rightarrow> string list" where
  "get_rw_holders_display e s n =
     map holder_label (holders_for (resolve_client_ip e s) (cm_port s n))"

definition rw_holders_frame :: "env \<Rightarrow> cm \<Rightarrow> string \<Rightarrow> (string \<times> pyval) list" where
  "rw_holders_frame e s n =
     holders_frame (holders_for (resolve_client_ip e s) (cm_port s n)) (port_capacity (cm_port s n))"

section \<open>Forwarding tasks\<close>

definition ensure_client_forwarding_task :: "string \<Rightarrow> string \<Rightarrow> cm \<Rightarrow> cm" where
  "ensure_client_forwarding_task n cid s =
     s\<lparr>forwarding_tasks := dict_set cid n (dict_del cid (forwarding_tasks s))\<rparr>"

definition stop_client_forwarding_task :: "string \<Rightarrow> cm \<Rightarrow> cm" where
  "stop_client_forwarding_task cid s = s\<lparr>forwarding_tasks := dict_del cid (forwarding_tasks s)\<rparr>"

definition stop_port_data_forwarding :: "string \<Rightarrow> cm \<Rightarrow> cm" where
  "stop_port_data_forwarding n s = fold stop_client_forwarding_task (clients_on s n) s"

section \<open>Detach and attach\<close>

definition disconnect_client_from_port :: "env \<Rightarrow> string \<Rightarrow> string \<Rightarrow> cm \<Rightarrow> bool \<times> cm" where
  "disconnect_client_from_port e cid n s =
     (if \<not> mapped_to s cid n then (False, s)
      else
        (let s1 = snd (with_pm (remove_client_from_port n cid) s);
             s2 = stop_client_forwarding_task cid s1;
             s3 = unregister_client_port cid s2
         in (True, snd (broadcast_presence e n True s3))))"

definition request_federated_promotion :: "env \<Rightarrow> string \<Rightarrow> string \<Rightarrow> cm \<Rightarrow> bool \<times> cm" where
  "request_federated_promotion e n cid s =
     (let k = cm_fed_calls s; s1 = s\<lparr>cm_fed_calls := Suc k\<rparr> in
      if fed_reply e k n cid FedRequest \<noteq> ''read-write'' then (False, s1)
      else with_pm (promote_client n cid) s1)"

definition attach_client_to_port ::
  "env \<Rightarrow> string \<Rightarrow> string \<Rightarrow> string \<Rightarrow> amode \<Rightarrow> bool \<Rightarrow> amode \<Rightarrow> acode \<Rightarrow> cm
     \<Rightarrow> (amode option \<times> acode) \<times> cm" where
  "attach_client_to_port e n cid username mode0 is_federated entitled code0 s =
     (let (ok1, s1) = with_pm (add_client_to_port n cid username mode0) s;
          fallback = (\<not> ok1 \<and> mode0 = ReadWrite);
          mode = (if fallback then ReadOnly else mode0);
          code = (if fallback then CapacityFull else code0);
          (ok2, s2) = (if fallback then with_pm (add_client_to_port n cid username ReadOnly) s1
                       else (ok1, s1))
      in
      if \<not> ok2 then ((None, PortUnavailable), s2)
      else
        (let s3 = ensure_client_forwarding_task n cid (register_client_port cid n s2) in
         if is_federated \<and> entitled = ReadWrite then
           (let (granted, s4) = request_federated_promotion e n cid s3 in
            if granted then ((Some ReadWrite, Attached), s4)
            else ((Some mode, CapacityFull), s4))
         else ((Some mode, code), s3)))"

definition connect_client_to_port :: "env \<Rightarrow> string \<Rightarrow> string \<Rightarrow> string \<Rightarrow> cm \<Rightarrow> decision \<times> cm" where
  "connect_client_to_port e cid n username s0 =
     (let s = (case dict_get (client_port_map s0) cid of
                 Some old \<Rightarrow> snd (disconnect_client_from_port e cid old s0) | None \<Rightarrow> s0) in
      case user_permissions e username of
        None \<Rightarrow> (refusal (resolve_client_ip e s) NoPermissions cid n None, s)
      | Some permissions \<Rightarrow>
          (let (p, s1) = with_pm (get_port n) s;
               ladder = resolve_access_mode e p n (Some permissions) username in
           if \<not> d_ok ladder then (ladder\<lparr>d_client_id := cid\<rparr>, s1)
           else
             (let is_federated = (case p of Some q \<Rightarrow> is_remote q | None \<Rightarrow> False);
                  entitled = d_mode ladder;
                  mode = (if is_federated \<and> entitled = ReadWrite then ReadOnly else entitled);
                  ((attached, code), s2) =
                    attach_client_to_port e n cid username mode is_federated entitled (d_code ladder) s1
              in case attached of
                   None \<Rightarrow> (refusal (resolve_client_ip e s2) PortUnavailable cid n (cm_port s2 n), s2)
                 | Some m \<Rightarrow>
                     (let s3 = snd (broadcast_presence e n True s2);
                          p3 = cm_port s3 n in
                      ((answer code m cid n (port_capacity p3))
                         \<lparr>d_holders := holders_for (resolve_client_ip e s3) p3\<rparr>, s3)))))"

section \<open>Promote and release\<close>

definition take_write_slot_permissions ::
  "env \<Rightarrow> cm \<Rightarrow> port \<Rightarrow> string \<Rightarrow> (string \<times> string) option" where
  "take_write_slot_permissions e s p taker =
     (let username = (case find (has_id taker) (p_clients p) of Some c \<Rightarrow> cr_username c | None \<Rightarrow> []);
          direct = (if username = [] then None else user_permissions e username);
          permissions = (case direct of Some x \<Rightarrow> Some x | None \<Rightarrow> client_permissions e s taker)
      in map_option (\<lambda>x. (username, x)) permissions)"

definition request_entitlement :: "env \<Rightarrow> cm \<Rightarrow> port \<Rightarrow> string \<Rightarrow> entitlement" where
  "request_entitlement e s p cid =
     (case take_write_slot_permissions e s p cid of
        Some (username, permissions) \<Rightarrow>
          taker_entitled e (Some p) (Some permissions) (if username = [] then cid else username)
      | None \<Rightarrow> EDenied NotEntitled)"

definition refusal_code :: "entitlement \<Rightarrow> acode" where
  "refusal_code ent = (case entitlement_code ent of Some c \<Rightarrow> c | None \<Rightarrow> NotEntitled)"

definition promote_seat :: "env \<Rightarrow> string \<Rightarrow> string \<Rightarrow> cm \<Rightarrow> decision \<times> cm" where
  "promote_seat e cid n s =
     (let (success, s1) = with_pm (promote_client n cid) s in
      if \<not> success then (seat_refusal (resolve_client_ip e s1) (cm_port s1 n) n cid, s1)
      else
        (let s2 = snd (broadcast_presence e n True s1) in
         (answer Granted ReadWrite cid n (port_capacity (cm_port s2 n)), s2)))"

definition promote_client_to_read_write :: "env \<Rightarrow> string \<Rightarrow> string \<Rightarrow> cm \<Rightarrow> decision \<times> cm" where
  "promote_client_to_read_write e cid n s0 =
     (if \<not> mapped_to s0 cid n then (answer NotAttached ReadOnly cid n PNone, s0)
      else
        (let (p, s) = with_pm (get_port n) s0 in
         case p of
           None \<Rightarrow> promote_seat e cid n s
         | Some q \<Rightarrow>
             (let ent = request_entitlement e s q cid in
              if \<not> may_drive ent then
                (refusal (resolve_client_ip e s) (refusal_code ent) cid n p, s)
              else if is_remote q then
                (let (granted, s1) = request_federated_promotion e n cid s in
                 if \<not> granted
                 then (refusal (resolve_client_ip e s1) FederationDenied cid n (cm_port s1 n), s1)
                 else promote_seat e cid n s1)
              else promote_seat e cid n s)))"

definition demote_client_to_read_only :: "env \<Rightarrow> string \<Rightarrow> string \<Rightarrow> bool \<Rightarrow> cm \<Rightarrow> decision \<times> cm" where
  "demote_client_to_read_only e cid n notify_origin s0 =
     (if \<not> mapped_to s0 cid n then (answer NotAttached ReadWrite cid n PNone, s0)
      else
        (let (success, s1) = with_pm (demote_client n cid) s0;
             (p, s2) = with_pm (get_port n) s1 in
         if \<not> success then
           ((refusal (resolve_client_ip e s2) DemoteFailed cid n p)\<lparr>d_mode := ReadWrite\<rparr>, s2)
         else
           (let release = (notify_origin \<and> (case p of Some q \<Rightarrow> is_remote q | None \<Rightarrow> False));
                s3 = (if release then s2\<lparr>cm_fed_calls := Suc (cm_fed_calls s2)\<rparr> else s2);
                s4 = snd (broadcast_presence e n True s3)
            in (answer Released ReadOnly cid n (port_capacity (cm_port s4 n)), s4))))"

section \<open>Takeover\<close>

definition demoted_notice :: "string \<Rightarrow> string \<Rightarrow> string \<Rightarrow> decision" where
  "demoted_notice cid n actor =
     (mk_decision Demoted ReadOnly)\<lparr>d_client_id := cid, d_port_name := n, d_actor := actor\<rparr>"

definition take_slot_local ::
  "env \<Rightarrow> string \<Rightarrow> string \<Rightarrow> string \<Rightarrow> client_rec \<Rightarrow> cm \<Rightarrow> decision \<times> cm" where
  "take_slot_local e n taker taker_username victim s0 =
     (let victim_id = cr_client_id victim;
          victim_h = \<lparr>h_client_id = victim_id, h_username = or_unknown (cr_username victim),
                      h_ip = resolve_client_ip e s0 victim_id\<rparr>;
          (dem, s1) = demote_client_to_read_only e victim_id n True s0 in
      if \<not> d_ok dem then (answer VictimNotCurrent ReadOnly taker n PNone, s1)
      else
        (let (pro, s2) = promote_client_to_read_write e taker n s1 in
         if \<not> d_ok pro then
           (let s3 = snd (with_pm (promote_client n victim_id) s2) in
            (seat_refusal (resolve_client_ip e s3) (cm_port s3 n) n taker, s3))
         else
           (let s3 = snd (send_control_frame_to_client e victim_id
                            (FrameDecision (demoted_notice victim_id n (taker_display e s2 taker taker_username))) s2);
                s4 = s3\<lparr>cm_audit := cm_audit s3 @ [WriteSlotTakeover n taker taker_username (Some victim_id)]\<rparr>
            in ((answer Granted ReadWrite taker n (port_capacity (cm_port s4 n)))\<lparr>d_victim := Some victim_h\<rparr>, s4))))"

definition take_write_slot_local ::
  "env \<Rightarrow> string \<Rightarrow> string \<Rightarrow> string \<Rightarrow> string option \<Rightarrow> port \<Rightarrow> cm \<Rightarrow> decision \<times> cm" where
  "take_write_slot_local e n taker taker_username target p s =
     (let capacity = p_max_rw p; ip = resolve_client_ip e s in
      case wire_to_mode capacity of
        ModeMultiple \<Rightarrow>
          (if is_client_rw p taker then (answer AlreadyRw ReadWrite taker n capacity, s)
           else (seat_refusal ip (Some p) n taker, s))
      | ModeNone \<Rightarrow> (seat_refusal ip (Some p) n taker, s)
      | ModeOne \<Rightarrow>
          (case resolve_take_target p taker target of
             (Some victim, _) \<Rightarrow> take_slot_local e n taker taker_username victim s
           | (None, reason) \<Rightarrow>
               if target \<noteq> None \<or> reason \<noteq> Some NoHolder then
                 ((answer (case reason of Some c \<Rightarrow> c | None \<Rightarrow> NoHolder) ReadOnly taker n capacity)
                    \<lparr>d_holders := holders_for ip (Some p)\<rparr>, s)
               else if is_client_rw p taker then (answer AlreadyRw ReadWrite taker n capacity, s)
               else
                 (let (pro, s1) = promote_client_to_read_write e taker n s in
                  if \<not> d_ok pro then (seat_refusal (resolve_client_ip e s1) (cm_port s1 n) n taker, s1)
                  else (answer Granted ReadWrite taker n capacity,
                        s1\<lparr>cm_audit := cm_audit s1 @ [WriteSlotTakeover n taker taker_username None]\<rparr>))))"

definition latest_name :: "string option \<Rightarrow> string" where
  "latest_name target = (case target of Some t \<Rightarrow> if t = [] then ''(latest)'' else t | None \<Rightarrow> ''(latest)'')"

definition take_write_slot_federated ::
  "env \<Rightarrow> string \<Rightarrow> string \<Rightarrow> string \<Rightarrow> string option \<Rightarrow> cm \<Rightarrow> decision \<times> cm" where
  "take_write_slot_federated e n taker taker_username target s =
     (let k = cm_fed_calls s; s1 = s\<lparr>cm_fed_calls := Suc k\<rparr> in
      if fed_reply e k n taker (FedTake target) \<noteq> ''read-write''
      then (refusal (resolve_client_ip e s1) FederationDenied taker n (cm_port s1 n), s1)
      else
        (let (pro, s2) = promote_client_to_read_write e taker n s1 in
         if \<not> d_ok pro
         then (refusal (resolve_client_ip e s2) PromoteFailed taker n (cm_port s2 n), s2)
         else
           (let s3 = s2\<lparr>cm_audit := cm_audit s2
                         @ [WriteSlotTakeover n taker taker_username (Some (latest_name target))]\<rparr>
            in ((answer Granted ReadWrite taker n (port_capacity (cm_port s3 n)))
                  \<lparr>d_victim := victim_holder (resolve_client_ip e s3) (cm_port s3 n) target\<rparr>, s3))))"

definition take_write_slot ::
  "env \<Rightarrow> string \<Rightarrow> string \<Rightarrow> string option \<Rightarrow> cm \<Rightarrow> decision \<times> cm" where
  "take_write_slot e taker n target s0 =
     (if \<not> mapped_to s0 taker n then (answer NotAttached ReadOnly taker n PNone, s0)
      else
        (let (p, s) = with_pm (get_port n) s0 in
         case p of
           None \<Rightarrow> (answer PortMissing ReadOnly taker n PNone, s)
         | Some q \<Rightarrow>
             (case take_write_slot_permissions e s q taker of
                None \<Rightarrow> (answer NotEntitled ReadOnly taker n PNone, s)
              | Some (username, permissions) \<Rightarrow>
                  (let ent = taker_entitled e (Some q) (Some permissions)
                               (if username = [] then taker else username) in
                   if \<not> may_drive ent
                   then (refusal (resolve_client_ip e s) (refusal_code ent) taker n p, s)
                   else if is_remote q then take_write_slot_federated e n taker username target s
                   else take_write_slot_local e n taker username target q s))))"

section \<open>Data and queries\<close>

definition cm_write_to_port ::
  "(string \<Rightarrow> bytes \<Rightarrow> dev_result) \<Rightarrow> string \<Rightarrow> bytes \<Rightarrow> string \<Rightarrow> cm \<Rightarrow> bool \<times> cm" where
  "cm_write_to_port dev n data cid s = with_pm (write_to_port dev n data cid) s"

definition get_client_mode :: "string \<Rightarrow> string \<Rightarrow> cm \<Rightarrow> amode option" where
  "get_client_mode cid n s = pm_client_mode cid n (cm_pm s)"

fun blocked_ports :: "env \<Rightarrow> string option \<Rightarrow> string \<Rightarrow> string list \<Rightarrow> cm \<Rightarrow> string list \<times> cm" where
  "blocked_ports e permissions username [] s = ([], s)"
| "blocked_ports e permissions username (n # ns) s =
     (let (p, s1) = with_pm (get_port n) s;
          (rest, s2) = blocked_ports e permissions username ns s1
      in (if may_drive (taker_entitled e p permissions username) then rest else n # rest, s2))"

definition blocked_ports_for_user :: "env \<Rightarrow> string list \<Rightarrow> string \<Rightarrow> cm \<Rightarrow> string list \<times> cm" where
  "blocked_ports_for_user e names username s =
     (let permissions = user_permissions e username in
      if permissions = Some ''admin'' then ([], s)
      else blocked_ports e permissions username names s)"

text \<open>Delivery: the cached manager, then every manager, then the legacy one.\<close>

definition send_via_mapped :: "env \<Rightarrow> string \<Rightarrow> bytes \<Rightarrow> cm \<Rightarrow> bool option" where
  "send_via_mapped e cid data s =
     (case dict_get (client_to_manager s) cid of
        None \<Rightarrow> None | Some m \<Rightarrow> data_accepted e m cid data)"

fun send_via_multi :: "env \<Rightarrow> string \<Rightarrow> bytes \<Rightarrow> string list \<Rightarrow> cm \<Rightarrow> bool \<times> cm" where
  "send_via_multi e cid data [] s = (False, s)"
| "send_via_multi e cid data (m # ms) s =
     (if data_accepted e m cid data = Some True
      then (True, s\<lparr>client_to_manager := dict_set cid m (client_to_manager s)\<rparr>)
      else send_via_multi e cid data ms s)"

text \<open>An exception of the legacy send propagates: \<open>Inl\<close>.\<close>

definition send_via_legacy :: "env \<Rightarrow> string \<Rightarrow> bytes \<Rightarrow> cm \<Rightarrow> (py_error + bool) \<times> cm" where
  "send_via_legacy e cid data s =
     (case client_manager s of
        None \<Rightarrow> (Inr False, s)
      | Some m \<Rightarrow> (case data_accepted e m cid data of
            None \<Rightarrow> (Inl (RuntimeError ''send_data_to_client''), s)
          | Some True \<Rightarrow> (Inr True, s\<lparr>client_to_manager := dict_set cid m (client_to_manager s)\<rparr>)
          | Some False \<Rightarrow> (Inr False, s)))"

definition send_data_to_client :: "env \<Rightarrow> string \<Rightarrow> bytes \<Rightarrow> cm \<Rightarrow> (py_error + bool) \<times> cm" where
  "send_data_to_client e cid data s =
     (case send_via_mapped e cid data s of
        Some ok \<Rightarrow> (Inr ok, s)
      | None \<Rightarrow>
          (let (ok, s1) = send_via_multi e cid data (client_managers s) s in
           if ok then (Inr True, s1) else send_via_legacy e cid data s1))"

text \<open>One turn of a forwarding task: the next chunk of the client's queue, sent.  An exception
  of the send is logged and the loop goes on.\<close>

definition forward_step :: "env \<Rightarrow> string \<Rightarrow> string \<Rightarrow> cm \<Rightarrow> (bytes \<times> bool) option \<times> cm" where
  "forward_step e n cid s =
     (let (chunk, s1) = with_pm (take_client_chunk n cid) s in
      case chunk of
        None \<Rightarrow> (None, s1)
      | Some data \<Rightarrow>
          (let (r, s2) = send_data_to_client e cid data s1 in
           (Some (data, (case r of Inr ok \<Rightarrow> ok | Inl _ \<Rightarrow> False)), s2)))"

section \<open>Client objects\<close>

text \<open>The object interface: neither kind of port has a \<open>connect_client\<close> or
  \<open>disconnect_client\<close> method, so only the dictionary changes.\<close>

definition connect_client :: "string \<Rightarrow> string \<Rightarrow> cm \<Rightarrow> bool \<times> cm" where
  "connect_client client n s0 =
     (let (there, s) = with_pm (port_exists n) s0 in
      if \<not> there then (False, s)
      else
        (let old = (case dict_get (console_clients s) n of Some cs \<Rightarrow> cs | None \<Rightarrow> []);
             s1 = s\<lparr>console_clients := dict_set n (old @ [client]) (console_clients s)\<rparr>
         in (True, snd (with_pm (get_port n) s1))))"

fun disconnect_from :: "string \<Rightarrow> (string \<times> string list) list \<Rightarrow> cm \<Rightarrow> cm" where
  "disconnect_from client [] s = s"
| "disconnect_from client ((n, cs) # rest) s =
     (if client \<in> set cs then
        (let s1 = snd (with_pm (get_port n) s);
             left = remove_first (\<lambda>c. c = client) cs;
             s2 = s1\<lparr>console_clients := (if left = [] then dict_del n (console_clients s1)
                                         else dict_set n left (console_clients s1))\<rparr>
         in disconnect_from client rest s2)
      else disconnect_from client rest s)"

definition disconnect_client :: "string \<Rightarrow> cm \<Rightarrow> cm" where
  "disconnect_client client s = disconnect_from client (console_clients s) s"

end
