(* ===== verification/AccessFacts.thy ===== *)
theory AccessFacts
  imports AccessDecision
begin

text \<open>
  What the outcome table promises.  Every row's templates fill for every decision, so no
  rendering of a decision can raise; the WebSocket message fits its limit; the wire payload
  gives back what was decided; \<open>decide\<close> and \<open>notice\<close> split the codes between them.
\<close>

section \<open>Templates\<close>

definition field_names :: "string \<Rightarrow> string option" where
  "field_names = map_of [(''victim_line'', []), (''holders'', []), (''actor'', []), (''port'', [])]"

lemma py_format_defined:
  assumes "py_format env f t = Inr r" "dom env \<subseteq> dom env'"
  shows "\<exists>r'. py_format env' f t = Inr r'"
  using assms
proof (induction env f t arbitrary: r rule: py_format.induct)
  case (4 env f c cs)
  show ?case
  proof (cases "c = CHR ''}''")
    case True
    with 4 obtain v where v: "env (rev f) = Some v" by (auto split: option.splits)
    with 4 obtain v' where v': "env' (rev f) = Some v'" by auto
    from 4(3) True v obtain q where "py_format env None cs = Inr q" by (auto split: sum.splits)
    with 4(1)[OF True v _ 4(4)] obtain q' where "py_format env' None cs = Inr q'" by auto
    with True v' show ?thesis by simp
  next
    case False
    with 4 show ?thesis by auto
  qed
qed (auto split: if_splits sum.splits)

lemma py_format_plain:
  "CHR ''{'' \<notin> set t \<Longrightarrow> CHR ''}'' \<notin> set t \<Longrightarrow> py_format env None t = Inr t"
  by (induction t) auto

lemma all_codes_complete [simp]: "c \<in> set all_codes"
  by (cases c) (simp_all add: all_codes_def)

lemma rows_fill_each:
  "\<forall>c \<in> set all_codes. \<forall>t \<in> set (row_sentence (row_of c) # row_lines (row_of c)).
     (case py_format field_names None t of Inl _ \<Rightarrow> False | Inr _ \<Rightarrow> True)"
  by code_simp

lemma rows_fill:
  assumes "t \<in> set (row_sentence (row_of c) # row_lines (row_of c))"
  shows "\<exists>r. py_format field_names None t = Inr r"
  using rows_fill_each assms by (metis (no_types, lifting) all_codes_complete case_sum_o_inj(1) old.sum.simps(5) old.sum.exhaust)

lemma d_values_dom: "dom field_names \<subseteq> dom (d_values d)"
  by (auto simp: field_names_def d_values_def split: if_splits)

lemma row_fills:
  "t \<in> set (row_sentence (row_of c) # row_lines (row_of c)) \<Longrightarrow> \<exists>r. d_fill d t = Inr r"
  unfolding d_fill_def using rows_fill py_format_defined d_values_dom by metis

lemma no_capacity_wording:
  "row_capacity_none (row_of c) = None" "row_capacity_multiple (row_of c) = None"
  by (cases c; simp add: mk_row_def same_row_def notice_row_def)+

lemma wording_row: "d_wording d = (row_sentence (row_of (d_code d)), row_lines (row_of (d_code d)))"
  by (simp add: d_wording_def Let_def no_capacity_wording split: option.splits write_mode.splits)

lemma fill_all_defined: "\<forall>t \<in> set ts. \<exists>r. d_fill d t = Inr r \<Longrightarrow> \<exists>ls. fill_all d ts = Inr ls"
  by (induction ts) auto

section \<open>Rendering\<close>

lemma lines_defined: "\<exists>ls. d_lines d = Inr ls"
  unfolding d_lines_def wording_row using row_fills by (intro fill_all_defined) auto

lemma message_defined: "\<exists>m. d_message d = Inr m"
  unfolding d_message_def wording_row using row_fills[of "row_sentence (row_of (d_code d))" "d_code d" d]
  by auto

lemma truncated_subset: "set (decode_text_ignore (take n (encode_text s))) \<subseteq> set s"
  using truncated_text(1)[of s n] by (metis set_append Un_upper1)

lemma message_shape:
  assumes "d_message d = Inr m"
  shows "length (encode_text m) \<le> MESSAGE_LIMIT" "\<forall>c \<in> set m. code c \<noteq> 10 \<and> code c \<noteq> 13"
proof -
  obtain f where m: "m = decode_text_ignore (take MESSAGE_LIMIT (encode_text (map unwrap_char f)))"
    using assms unfolding d_message_def by (cases "d_fill d (fst (d_wording d))") auto
  show "length (encode_text m) \<le> MESSAGE_LIMIT" unfolding m by (rule truncated_text(2))
  have "set m \<subseteq> set (map unwrap_char f)" unfolding m by (rule truncated_subset)
  then show "\<forall>c \<in> set m. code c \<noteq> 10 \<and> code c \<noteq> 13" by (auto simp: unwrap_char_def)
qed

lemma frame_defined: "\<exists>fr. d_frame d = Inr fr"
  using lines_defined[of d] message_defined[of d] by (auto simp: d_frame_def)

section \<open>Codes and modes on the wire\<close>

lemma as_code_value [simp]: "as_code (code_value c) = Inr c"
proof -
  have "\<forall>c \<in> set all_codes. as_code (code_value c) = Inr c" by code_simp
  then show ?thesis by simp
qed

lemma as_code_iff: "as_code s = Inr c \<longleftrightarrow> s = code_value c"
proof
  assume "as_code s = Inr c"
  then have "find (\<lambda>c. code_value c = s) all_codes = Some c"
    by (simp add: as_code_def split: option.splits)
  then show "s = code_value c" by (auto dest: find_Some_mem)
qed simp

lemma code_value_inject [simp]: "code_value a = code_value b \<longleftrightarrow> a = b"
  using as_code_value by (metis sum.inject(2))

lemma as_mode_value [simp]: "as_mode (PStr (mode_value m)) = Inr m"
  by (cases m) simp_all

lemma mode_or_read_only_value [simp]: "mode_or_read_only (PStr (mode_value m)) = m"
  by (cases m) simp_all

lemma frame_fields:
  assumes "d_frame d = Inr fr"
  shows "dict_get fr ''code'' = Some (PStr (code_value (d_code d)))"
    "dict_get fr ''mode'' = Some (PStr (mode_value (d_mode d)))"
    "dict_get fr ''ok'' = Some (PBool (row_ok (row_of (d_code d))))"
    "dict_get fr ''max_rw_users'' =
       map_option (\<lambda>m. PInt (WIRE_CAPACITY m)) (d_capacity d)"
    "dict_get fr ''rw_holders'' =
       (if d_holders d = [] then None else Some (PList (map (PStr \<circ> holder_label) (d_holders d))))"
  using assms
  by (auto simp: d_frame_def frame_head_def frame_tail_def d_ok_def capacity_to_wire_def
      split: sum.splits if_splits option.splits)

section \<open>Who builds what\<close>

lemma decide_iff: "decide d = (if d_is_notice d then Inl (ValueError (code_value (d_code d)
    @ '' is a notice: build it with notice(), not decide().'')) else Inr d)"
  by (simp add: decide_def post_init_def d_is_notice_def d_kind_def Let_def)

lemma notice_row_mode: "row_kind (row_of c) = KNotice \<longleftrightarrow> row_notice_mode (row_of c) \<noteq> None"
  by (cases c) (simp_all add: mk_row_def same_row_def notice_row_def)

lemma notice_iff: "(\<exists>x. notice d = Inr x) \<longleftrightarrow> d_is_notice d"
  using notice_row_mode[of "d_code d"]
  by (auto simp: notice_def post_init_def d_is_notice_def d_kind_def Let_def split: option.splits)

lemma notice_result: "notice d = Inr x \<Longrightarrow>
    d_code x = d_code d \<and> Some (d_mode x) = row_notice_mode (row_of (d_code d))"
  by (auto simp: notice_def post_init_def Let_def split: option.splits if_splits)

lemma refusal_not_ok: "code_kind c = KRefusal \<or> code_kind c = KUnavailable \<longleftrightarrow>
    code_kind c \<noteq> KNotice \<and> \<not> row_ok (row_of c)"
  by (cases c) (simp_all add: code_kind_def mk_row_def same_row_def notice_row_def)

lemma grant_ok: "code_kind c = KGrant \<longleftrightarrow> code_kind c \<noteq> KNotice \<and> row_ok (row_of c)"
  by (cases c) (simp_all add: code_kind_def mk_row_def same_row_def notice_row_def)

section \<open>Properties\<close>

text \<open>C37: No rendering of an access decision can raise: for every decision the message, the
  terminal lines and the wire payload exist, and the message fits the 123 bytes of a WebSocket
  close reason (in UTF-8, never cut inside a character) on one line.\<close>

theorem wording_total:
  "\<exists>m ls fr. d_message d = Inr m \<and> d_lines d = Inr ls \<and> d_frame d = Inr fr
     \<and> length (encode_text m) \<le> MESSAGE_LIMIT \<and> 10 \<notin> code ` set m \<and> 13 \<notin> code ` set m"
proof -
  obtain m where m: "d_message d = Inr m" using message_defined by blast
  obtain ls where "d_lines d = Inr ls" using lines_defined by blast
  moreover obtain fr where "d_frame d = Inr fr" using frame_defined by blast
  moreover have "10 \<notin> code ` set m" "13 \<notin> code ` set m" using message_shape(2)[OF m] by auto
  ultimately show ?thesis using m message_shape(1)[OF m] by blast
qed

text \<open>The payload of a decision round-trips: a peer that reads the \<open>code\<close>, \<open>mode\<close>, \<open>ok\<close> and
  \<open>max_rw_users\<close> keys with the module's own readers gets back what was decided.\<close>

theorem decision_roundtrip:
  "\<exists>fr c m. d_frame d = Inr fr
     \<and> dict_get fr ''code'' = Some (PStr c) \<and> as_code c = Inr (d_code d)
     \<and> dict_get fr ''mode'' = Some (PStr m) \<and> as_mode (PStr m) = Inr (d_mode d)
     \<and> dict_get fr ''ok'' = Some (PBool (d_ok d))
     \<and> map_option wire_to_mode (dict_get fr ''max_rw_users'') = d_capacity d"
proof -
  obtain fr where fr: "d_frame d = Inr fr" using frame_defined by blast
  have "wire_to_mode (PInt (WIRE_CAPACITY m)) = m" for m by simp
  then have "map_option wire_to_mode (dict_get fr ''max_rw_users'') = d_capacity d"
    using frame_fields(4)[OF fr] by (cases "d_capacity d") simp_all
  with frame_fields(1-3)[OF fr] fr as_code_value as_mode_value[of "d_mode d"] show ?thesis
    unfolding d_ok_def by blast
qed

text \<open>\<open>decide\<close> and \<open>notice\<close> split the outcome codes: \<open>decide\<close> accepts exactly the decisions that
  answer a request and returns them unchanged; \<open>notice\<close> accepts exactly the others and gives them
  the one mode their row fixes, whatever mode was passed.\<close>

theorem decide_notice_partition:
  "(case decide d of Inr x \<Rightarrow> \<not> d_is_notice d \<and> x = d | Inl _ \<Rightarrow> d_is_notice d)
   \<and> (case notice d of
        Inr x \<Rightarrow> d_is_notice d \<and> d_code x = d_code d \<and> row_notice_mode (row_of (d_code d)) = Some (d_mode x)
      | Inl _ \<Rightarrow> \<not> d_is_notice d)"
proof
  show "case decide d of Inr x \<Rightarrow> \<not> d_is_notice d \<and> x = d | Inl _ \<Rightarrow> d_is_notice d"
    by (simp add: decide_iff)
  show "case notice d of
      Inr x \<Rightarrow> d_is_notice d \<and> d_code x = d_code d \<and> row_notice_mode (row_of (d_code d)) = Some (d_mode x)
    | Inl _ \<Rightarrow> \<not> d_is_notice d"
  proof (cases "notice d")
    case (Inl e)
    then have "\<not> d_is_notice d" using notice_iff[of d] by simp
    with Inl show ?thesis by simp
  next
    case (Inr x)
    then have "d_is_notice d" using notice_iff[of d] by blast
    with notice_result[OF Inr] Inr show ?thesis by simp
  qed
qed

text \<open>The wording of a decision does not depend on the capacity it carries: no row of the table
  sets the two capacity variants, so the branch of \<open>_wording\<close> that picks them is never taken.\<close>

theorem wording_ignores_capacity: "d_wording (d\<lparr>d_capacity := c\<rparr>) = d_wording d"
  by (simp add: wording_row)

end
