(* ===== verification/ConsoleFacts.thy ===== *)
theory ConsoleFacts
  imports ConsoleManager AccessFacts
begin

text \<open>
  Facts about the console manager.  First the frame conditions: sending frames, presence
  broadcasts and port lookups change neither a client's mode nor a port's seats.  Then, per
  operation, what its decision says about the state it leaves: the mode a grant reports is the
  mode held, a refusal changes nobody's mode, and a takeover moves one slot from the victim to
  the taker.
\<close>

section \<open>What sending leaves alone\<close>

definition modes :: "cm \<Rightarrow> string \<Rightarrow> string \<Rightarrow> amode option" where
  "modes s n c = pm_mode (cm_pm s) n c"

lemma modes_eq: "modes s = pm_mode (cm_pm s)"
  by (simp add: modes_def fun_eq_iff)

lemma modes_fields [simp, frames]:
  "modes (s\<lparr>cm_fed_calls := k\<rparr>) = modes s" "modes (s\<lparr>cm_audit := a\<rparr>) = modes s"
  "modes (s\<lparr>client_port_map := mp\<rparr>) = modes s" "modes (s\<lparr>forwarding_tasks := ft\<rparr>) = modes s"
  "modes (s\<lparr>cm_pm := q\<rparr>) = pm_mode q"
  by (simp_all add: modes_eq)

lemma with_pm_simps [simp]:
  "fst (with_pm f s) = fst (f (cm_pm s))"
  "cm_pm (snd (with_pm f s)) = snd (f (cm_pm s))"
  "client_port_map (snd (with_pm f s)) = client_port_map s"
  "forwarding_tasks (snd (with_pm f s)) = forwarding_tasks s"
  "client_to_manager (snd (with_pm f s)) = client_to_manager s"
  "cm_fed_calls (snd (with_pm f s)) = cm_fed_calls s"
  by (simp_all add: with_pm_def split_beta Let_def)

lemma with_pm_Pair: "with_pm f s = (fst (f (cm_pm s)), s\<lparr>cm_pm := snd (f (cm_pm s))\<rparr>)"
  by (simp add: with_pm_def split_beta Let_def)

lemma send_frame_simps [simp, frames]:
  "cm_pm (snd (send_control_frame_to_client e c f s)) = cm_pm s"
  "client_port_map (snd (send_control_frame_to_client e c f s)) = client_port_map s"
  "forwarding_tasks (snd (send_control_frame_to_client e c f s)) = forwarding_tasks s"
  "client_to_manager (snd (send_control_frame_to_client e c f s)) = client_to_manager s"
  "cm_fed_calls (snd (send_control_frame_to_client e c f s)) = cm_fed_calls s"
  by (simp_all add: send_control_frame_to_client_def split: option.splits)

lemma broadcast_to_simps [simp, frames]:
  "cm_pm (snd (broadcast_to e f cs s)) = cm_pm s"
  "client_port_map (snd (broadcast_to e f cs s)) = client_port_map s"
  "forwarding_tasks (snd (broadcast_to e f cs s)) = forwarding_tasks s"
  "client_to_manager (snd (broadcast_to e f cs s)) = client_to_manager s"
  "cm_fed_calls (snd (broadcast_to e f cs s)) = cm_fed_calls s"
  by (induction cs arbitrary: s) (simp_all add: split_beta Let_def)

lemma presence_simps [simp, frames]:
  "cm_pm (snd (broadcast_presence e n b s)) =
     (if b then emit [EvMeta n ''presence_changed'' None] (cm_pm s) else cm_pm s)"
  "client_port_map (snd (broadcast_presence e n b s)) = client_port_map s"
  "forwarding_tasks (snd (broadcast_presence e n b s)) = forwarding_tasks s"
  "client_to_manager (snd (broadcast_presence e n b s)) = client_to_manager s"
  "cm_fed_calls (snd (broadcast_presence e n b s)) = cm_fed_calls s"
  by (simp_all add: broadcast_presence_def broadcast_control_frame_to_port_def Let_def)

lemma presence_keeps [simp, frames]:
  "pm_ok (cm_pm (snd (broadcast_presence e n b s))) = pm_ok (cm_pm s)"
  "modes (snd (broadcast_presence e n b s)) = modes s"
  "cm_port (snd (broadcast_presence e n b s)) m = cm_port s m"
  by (simp_all add: modes_def fun_eq_iff)

lemma modes_send [simp, frames]: "modes (snd (send_control_frame_to_client e c f s)) = modes s"
  by (simp add: modes_def fun_eq_iff)

lemma mapped_frames [simp, frames]:
  "mapped_to (snd (with_pm f s)) c n = mapped_to s c n"
  "mapped_to (snd (broadcast_presence e m b s)) c n = mapped_to s c n"
  "mapped_to (snd (send_control_frame_to_client e d fr s)) c n = mapped_to s c n"
  by (simp_all add: mapped_to_def)

lemma ensure_mode [simp, frames]: "pm_mode (snd (ensure_unified_wrapper n s)) = pm_mode s"
  by (auto simp: ensure_unified_wrapper_def fun_eq_iff new_wrapper_def pm_mode_None_port split: option.splits)

lemma get_port_mode [simp, frames]: "pm_mode (snd (get_port n s)) = pm_mode s"
  by (auto simp: get_port_def Let_def fun_eq_iff new_wrapper_def pm_mode_None_port split: option.splits)

lemma get_port_lookup [simp]: "lookup_port (snd (get_port n s)) n = fst (get_port n s)"
  by (auto simp: get_port_def Let_def split: option.splits)

lemma get_port_fst: "lookup_port s n = Some p \<Longrightarrow> get_port n s = (Some p, s)"
  by (simp add: get_port_def)

lemma modes_get_port [simp, frames]: "modes (snd (with_pm (get_port n) s)) = modes s"
  by (simp add: modes_def fun_eq_iff)

section \<open>Decisions are answers, never notices\<close>

lemma not_notice_cases: "d_is_notice d \<longleftrightarrow> code_kind (d_code d) = KNotice"
  by (simp add: d_is_notice_def d_kind_def code_kind_def)

definition is_answer :: "decision \<Rightarrow> bool" where
  "is_answer d \<longleftrightarrow> decide d = Inr d"

lemma is_answer_iff: "is_answer d \<longleftrightarrow> code_kind (d_code d) \<noteq> KNotice"
  by (simp add: is_answer_def decide_iff not_notice_cases)

lemma is_answer_simps [simp]:
  "is_answer (answer c m cid n cap) \<longleftrightarrow> code_kind c \<noteq> KNotice"
  "is_answer (refusal ip c cid n p) \<longleftrightarrow> code_kind c \<noteq> KNotice"
  "is_answer (d\<lparr>d_holders := hs\<rparr>) = is_answer d" "is_answer (d\<lparr>d_victim := v\<rparr>) = is_answer d"
  "is_answer (d\<lparr>d_client_id := x\<rparr>) = is_answer d" "is_answer (d\<lparr>d_mode := m\<rparr>) = is_answer d"
  by (simp_all add: is_answer_iff)

lemma code_kind_simps [simp]:
  "code_kind Attached = KGrant" "code_kind ReadOnlyStanding = KGrant" "code_kind CapacityFull = KGrant"
  "code_kind CapacityNone = KGrant" "code_kind Granted = KGrant" "code_kind AlreadyRw = KGrant"
  "code_kind Released = KGrant" "code_kind NoPermissions = KRefusal"
  "code_kind DeniedByGroupAcl = KRefusal" "code_kind DeniedByAccessDefault = KRefusal"
  "code_kind NotEntitled = KRefusal" "code_kind InvalidTarget = KRefusal"
  "code_kind DemoteFailed = KRefusal" "code_kind PortUnavailable = KUnavailable"
  "code_kind NotAttached = KUnavailable" "code_kind PortMissing = KUnavailable"
  "code_kind NoHolder = KUnavailable" "code_kind VictimNotCurrent = KUnavailable"
  "code_kind TakeWithoutSlot = KUnavailable" "code_kind NoWriteSlot = KUnavailable"
  "code_kind PromoteFailed = KUnavailable" "code_kind FederationDenied = KUnavailable"
  "code_kind Internal = KUnavailable" "code_kind UnsupportedRequest = KUnavailable"
  "code_kind Demoted = KNotice" "code_kind ActionSelfDemoted = KNotice"
  "code_kind ActionRestored = KNotice" "code_kind ActionRestoreDenied = KNotice"
  by (simp_all add: code_kind_def mk_row_def same_row_def notice_row_def)

lemma d_ok_answer: "is_answer d \<Longrightarrow> d_ok d \<longleftrightarrow> code_kind (d_code d) = KGrant"
  using grant_ok[of "d_code d"] by (auto simp: is_answer_iff d_ok_def)

lemma d_ok_simps [simp]:
  "d_ok (answer c m cid n cap) = row_ok (row_of c)"
  "d_ok (refusal ip c cid n p) = row_ok (row_of c)"
  "d_ok (d\<lparr>d_holders := hs\<rparr>) = d_ok d" "d_ok (d\<lparr>d_victim := v\<rparr>) = d_ok d"
  "d_ok (d\<lparr>d_client_id := x\<rparr>) = d_ok d" "d_ok (d\<lparr>d_mode := m\<rparr>) = d_ok d"
  by (simp_all add: d_ok_def)

lemma row_ok_simps [simp]: "row_ok (mk_row k b s ls) = b" "row_ok (same_row k b s) = b"
  "row_ok (notice_row b s m) = b"
  by (simp_all add: mk_row_def same_row_def notice_row_def)

lemma seat_code_cases: "seat_code p \<in> {NoWriteSlot, TakeWithoutSlot, PromoteFailed}"
  by (simp add: seat_code_def Let_def)

lemma seat_refusal_simps [simp]:
  "\<not> d_ok (seat_refusal ip p n cid)" "is_answer (seat_refusal ip p n cid)"
  using seat_code_cases[of p] by (auto simp: seat_refusal_def)

lemma refusal_code_cases:
  "refusal_code (taker_entitled e p perms u) \<in> {NotEntitled, DeniedByGroupAcl, DeniedByAccessDefault}"
  using taker_entitled_cases[of e p perms u] by (auto simp: refusal_code_def)

lemma request_refusal_cases:
  "refusal_code (request_entitlement e s p c) \<in> {NotEntitled, DeniedByGroupAcl, DeniedByAccessDefault}"
proof (cases "take_write_slot_permissions e s p c")
  case None
  then show ?thesis by (simp add: request_entitlement_def refusal_code_def)
next
  case (Some x)
  then show ?thesis
    using refusal_code_cases[of e "Some p"]
    by (simp add: request_entitlement_def split: prod.splits)
qed

lemma request_refusal_simps [simp]:
  "\<not> row_ok (row_of (refusal_code (request_entitlement e s p c)))"
  "code_kind (refusal_code (request_entitlement e s p c)) \<noteq> KNotice"
  "\<not> row_ok (row_of (refusal_code (taker_entitled e q perms u)))"
  "code_kind (refusal_code (taker_entitled e q perms u)) \<noteq> KNotice"
  using request_refusal_cases[of e s p c] refusal_code_cases[of e q perms u] by auto

section \<open>Promote and release\<close>

lemma promote_modes:
  "modes (snd (with_pm (promote_client n c) s)) m d =
    (if m = n \<and> d = c \<and> fst (promote_client n c (cm_pm s)) then Some ReadWrite else modes s m d)"
  by (simp add: modes_def promote_client_mode)

lemma demote_modes:
  "modes (snd (with_pm (demote_client n c) s)) m d =
    (if m = n \<and> d = c \<and> fst (demote_client n c (cm_pm s)) then Some ReadOnly else modes s m d)"
  by (simp add: modes_def demote_client_mode)

lemma promote_seat_result:
  assumes "promote_seat e c n s = (d, t)"
  shows "d_ok d \<longleftrightarrow> fst (promote_client n c (cm_pm s))" "is_answer d"
    "modes t m x = (if m = n \<and> x = c \<and> d_ok d then Some ReadWrite else modes s m x)"
    "d_mode d = (if d_ok d then ReadWrite else ReadOnly)"
    "d_ok d \<Longrightarrow> d_code d = Granted" "client_port_map t = client_port_map s"
  using assms by (auto simp: promote_seat_def with_pm_Pair Let_def promote_modes modes_def promote_client_mode
      split: if_splits)

lemma promote_seat_ok [preserves]: "pm_ok (cm_pm s) \<Longrightarrow> pm_ok (cm_pm (snd (promote_seat e c n s)))"
  by (simp add: promote_seat_def with_pm_Pair Let_def promote_ok)

lemma request_promotion_result:
  assumes "request_federated_promotion e n c s = (g, t)"
  shows "modes t m x = (if m = n \<and> x = c \<and> g then Some ReadWrite else modes s m x)"
    "client_port_map t = client_port_map s" "forwarding_tasks t = forwarding_tasks s"
    "g \<Longrightarrow> fst (promote_client n c (cm_pm s)) \<and> fed_reply e (cm_fed_calls s) n c FedRequest = ''read-write''"
  using assms
  by (auto simp: request_federated_promotion_def with_pm_Pair Let_def modes_def promote_client_mode
      split: if_splits)

lemma request_promotion_ok [preserves]:
  "pm_ok (cm_pm s) \<Longrightarrow> pm_ok (cm_pm (snd (request_federated_promotion e n c s)))"
  by (simp add: request_federated_promotion_def with_pm_Pair Let_def promote_ok)

lemma promote_again:
  assumes "pm_ok (cm_pm s)" "modes s n c = Some ReadWrite"
  shows "fst (promote_client n c (cm_pm s))"
  using assms by (simp add: modes_def promote_client_iff)

lemma meta_pm [simp]:
  "client_meta_for e (snd (with_pm f s)) c = client_meta_for e s c"
  "client_permissions e (snd (with_pm f s)) c = client_permissions e s c"
  by (simp_all add: client_permissions_def client_meta_for_def)

lemma entitlement_pm [simp]:
  "take_write_slot_permissions e (snd (with_pm f s)) q c = take_write_slot_permissions e s q c"
  by (simp add: take_write_slot_permissions_def cong: option.case_cong)

lemma request_entitlement_pm [simp]:
  "request_entitlement e (snd (with_pm f s)) q c = request_entitlement e s q c"
  by (simp add: request_entitlement_def)

lemma promote_keeps [preserves]:
  "pm_ok (cm_pm s) \<Longrightarrow> pm_ok (cm_pm (snd (promote_client_to_read_write e c n s)))"
  by (simp add: promote_client_to_read_write_def with_pm_Pair Let_def split_beta get_port_ok
      promote_seat_ok request_promotion_ok split: option.splits)

lemma with_pm_elim: "with_pm f s = (r, t) \<Longrightarrow> r = fst (f (cm_pm s)) \<and> t = snd (with_pm f s)"
  by (metis fst_conv snd_conv with_pm_simps(1))

text \<open>A promotion is refused with nothing changed, or it reaches the seat of an entitled client,
  which the origin of a federated port may already have made a writer.\<close>

definition untouched :: "cm \<Rightarrow> cm \<Rightarrow> bool" where
  "untouched s t \<longleftrightarrow> client_port_map t = client_port_map s \<and> modes t = modes s
     \<and> (\<forall>m p. cm_port s m = Some p \<longrightarrow> cm_port t m = Some p)"

definition reaches_seat :: "env \<Rightarrow> string \<Rightarrow> string \<Rightarrow> cm \<Rightarrow> cm \<Rightarrow> bool" where
  "reaches_seat e c n s s1 \<longleftrightarrow>
     client_port_map s1 = client_port_map s \<and> mapped_to s c n
     \<and> (\<exists>q. fst (get_port n (cm_pm s)) = Some q \<and> may_drive (request_entitlement e s q c))
     \<and> (untouched s s1 \<or> (\<forall>m x. modes s1 m x = (if m = n \<and> x = c then Some ReadWrite else modes s m x)))
     \<and> (pm_ok (cm_pm s) \<longrightarrow> pm_ok (cm_pm s1))"

lemma untouched_refl [simp]: "untouched s s"
  by (simp add: untouched_def)

lemma untouched_trans: "untouched s t \<Longrightarrow> untouched t u \<Longrightarrow> untouched s u"
  by (simp add: untouched_def)

lemma get_port_keeps: "lookup_port s m = Some p \<Longrightarrow> lookup_port (snd (get_port n s)) m = Some p"
  by (auto simp: get_port_def Let_def split: option.splits)

lemma untouched_get_port [simp]: "untouched s (snd (with_pm (get_port n) s))"
  by (simp add: untouched_def get_port_keeps)

lemma promote_refused [simp]: "\<not> fst (promote_client n c p) \<Longrightarrow> snd (promote_client n c p) = p"
  by (auto simp: promote_client_def Let_def split: option.splits if_splits)

lemma promote_seat_refused:
  "promote_seat e c n s = (d, t) \<Longrightarrow> \<not> d_ok d \<Longrightarrow> untouched s t"
  by (auto simp: promote_seat_def with_pm_Pair Let_def untouched_def modes_def fun_eq_iff split: if_splits)

lemma request_promotion_refused:
  "request_federated_promotion e n c s = (False, t) \<Longrightarrow> untouched s t"
  by (auto simp: request_federated_promotion_def with_pm_Pair Let_def untouched_def split: if_splits)

lemma promote_shape:
  assumes "promote_client_to_read_write e c n s = (d, t)"
  obtains (refused) "\<not> d_ok d" "is_answer d" "d_mode d = ReadOnly" "untouched s t"
    | (seat) s1 where "reaches_seat e c n s s1" "promote_seat e c n s1 = (d, t)"
proof -
  let ?s = "snd (with_pm (get_port n) s)"
  consider (unmapped) "\<not> mapped_to s c n" | (none) "mapped_to s c n" "fst (get_port n (cm_pm s)) = None"
    | (some) q where "mapped_to s c n" "fst (get_port n (cm_pm s)) = Some q" by auto
  then show ?thesis
  proof cases
    case unmapped
    with assms show ?thesis by (intro refused) (auto simp: promote_client_to_read_write_def)
  next
    case none
    then have "lookup_port (cm_pm ?s) n = None" by simp
    then have "\<not> fst (promote_client n c (cm_pm ?s))" by (simp add: promote_client_def)
    moreover have "promote_seat e c n ?s = (d, t)"
      using assms none by (simp add: promote_client_to_read_write_def split_beta Let_def)
    ultimately show ?thesis
      using promote_seat_result[of e c n ?s d t] promote_seat_refused[of e c n ?s d t]
        untouched_trans[OF untouched_get_port[of s n], of t] by (intro refused) auto
  next
    case (some q)
    then have d: "(d, t) = (let ent = request_entitlement e s q c in
        if \<not> may_drive ent then (refusal (resolve_client_ip e ?s) (refusal_code ent) c n (Some q), ?s)
        else if is_remote q then
          (let (granted, s1) = request_federated_promotion e n c ?s in
           if \<not> granted then (refusal (resolve_client_ip e s1) FederationDenied c n (cm_port s1 n), s1)
           else promote_seat e c n s1)
        else promote_seat e c n ?s)"
      using assms by (simp add: promote_client_to_read_write_def split_beta Let_def cong: if_cong)
    show ?thesis
    proof (cases "may_drive (request_entitlement e s q c)")
      case False
      with d show ?thesis by (intro refused) auto
    next
      case drive: True
      obtain g s1 where r: "request_federated_promotion e n c ?s = (g, s1)" by fastforce
      have s1: "modes s1 m x = (if m = n \<and> x = c \<and> g then Some ReadWrite else modes s m x)" for m x
        using request_promotion_result(1)[OF r, of m x] by simp
      have ok1: "pm_ok (cm_pm s) \<Longrightarrow> pm_ok (cm_pm s1)"
        using request_promotion_ok[of ?s e n c] r by (simp add: get_port_ok)
      consider "\<not> is_remote q" | "is_remote q" "\<not> g" | "is_remote q" "g" by blast
      then show ?thesis
      proof cases
        case 1
        with drive d some show ?thesis
          by (intro seat[of ?s]) (auto simp: reaches_seat_def get_port_ok Let_def)
      next
        case 2
        then have "untouched s s1"
          using r request_promotion_refused[of e n c ?s s1] untouched_trans[OF untouched_get_port] by simp
        with 2 drive d r show ?thesis by (intro refused) auto
      next
        case 3
        with drive d r s1 request_promotion_result(2)[OF r] some ok1 show ?thesis
          by (intro seat[of s1]) (auto simp: reaches_seat_def)
      qed
    qed
  qed
qed

lemma promote_result:
  assumes "promote_client_to_read_write e c n s = (d, t)" "pm_ok (cm_pm s)"
  shows "is_answer d"
    "modes t m x = (if m = n \<and> x = c \<and> d_ok d then Some ReadWrite else modes s m x)"
    "d_mode d = (if d_ok d then ReadWrite else ReadOnly)"
    "d_ok d \<Longrightarrow> d_code d = Granted"
    "client_port_map t = client_port_map s"
    "d_ok d \<Longrightarrow> mapped_to s c n \<and> (\<exists>q. fst (get_port n (cm_pm s)) = Some q \<and>
       may_drive (request_entitlement e s q c))"
    "\<not> d_ok d \<Longrightarrow> untouched s t"
proof -
  have "is_answer d \<and> modes t m x = (if m = n \<and> x = c \<and> d_ok d then Some ReadWrite else modes s m x)
    \<and> d_mode d = (if d_ok d then ReadWrite else ReadOnly) \<and> (d_ok d \<longrightarrow> d_code d = Granted)
    \<and> client_port_map t = client_port_map s \<and> (d_ok d \<longrightarrow> mapped_to s c n \<and>
      (\<exists>q. fst (get_port n (cm_pm s)) = Some q \<and> may_drive (request_entitlement e s q c)))
    \<and> (\<not> d_ok d \<longrightarrow> untouched s t)"
    using assms(1)
  proof (cases rule: promote_shape)
    case refused
    then show ?thesis by (auto simp: untouched_def)
  next
    case (seat s1)
    note r = promote_seat_result[OF seat(2)]
    have "d_ok d" if "modes s1 n c = Some ReadWrite"
      using promote_again[OF _ that] seat(1) assms(2) r(1) by (auto simp: reaches_seat_def)
    moreover from this have "untouched s s1" if "\<not> d_ok d"
      using seat(1) that by (auto simp: reaches_seat_def)
    ultimately have "\<not> d_ok d \<longrightarrow> untouched s t"
      "modes t m x = (if m = n \<and> x = c \<and> d_ok d then Some ReadWrite else modes s m x)"
      using r(3)[of m x] seat(1) promote_seat_refused[OF seat(2)] untouched_trans[of s s1 t]
      by (auto simp: reaches_seat_def untouched_def)
    with r seat(1) show ?thesis by (auto simp: reaches_seat_def)
  qed
  then show "is_answer d"
    "modes t m x = (if m = n \<and> x = c \<and> d_ok d then Some ReadWrite else modes s m x)"
    "d_mode d = (if d_ok d then ReadWrite else ReadOnly)"
    "d_ok d \<Longrightarrow> d_code d = Granted"
    "client_port_map t = client_port_map s"
    "d_ok d \<Longrightarrow> mapped_to s c n \<and> (\<exists>q. fst (get_port n (cm_pm s)) = Some q \<and>
       may_drive (request_entitlement e s q c))"
    "\<not> d_ok d \<Longrightarrow> untouched s t" by blast+
qed

lemma demote_refused [simp]: "\<not> fst (demote_client n c p) \<Longrightarrow> snd (demote_client n c p) = p"
  by (auto simp: demote_client_def split: option.splits if_splits)

lemma demote_found: "fst (demote_client n c p) \<Longrightarrow> \<exists>q. lookup_port (snd (demote_client n c p)) n = Some q"
  by (auto simp: demote_client_def split: option.splits if_splits)

lemma demote_effect:
  assumes "demote_client_to_read_only e c n b s = (d, t)"
  shows "is_answer d" "d_ok d \<longleftrightarrow> mapped_to s c n \<and> modes s n c \<noteq> None"
    "d_mode d = (if d_ok d then ReadOnly else ReadWrite)" "d_ok d \<Longrightarrow> d_code d = Released"
    "client_port_map t = client_port_map s" "\<not> d_ok d \<Longrightarrow> untouched s t"
    "d_ok d \<Longrightarrow> \<exists>es. cm_pm t = emit es (snd (demote_client n c (cm_pm s)))"
proof -
  let ?p = "snd (demote_client n c (cm_pm s))"
  have g: "snd (get_port n ?p) = ?p" if "fst (demote_client n c (cm_pm s))"
    using demote_found[OF that] by (auto simp: get_port_def)
  show "is_answer d" "d_ok d \<longleftrightarrow> mapped_to s c n \<and> modes s n c \<noteq> None"
    "d_mode d = (if d_ok d then ReadOnly else ReadWrite)" "d_ok d \<Longrightarrow> d_code d = Released"
    "client_port_map t = client_port_map s" "\<not> d_ok d \<Longrightarrow> untouched s t"
    using assms by (auto simp: demote_client_to_read_only_def with_pm_Pair Let_def modes_eq
        demote_client_iff untouched_def get_port_keeps split: if_splits)
  show "\<exists>es. cm_pm t = emit es ?p" if "d_ok d"
  proof -
    have "cm_pm t = emit [EvMeta n ''presence_changed'' None] ?p"
      using assms that g by (auto simp: demote_client_to_read_only_def with_pm_Pair Let_def split: if_splits)
    then show ?thesis by blast
  qed
qed

lemma demote_modes_result:
  assumes "demote_client_to_read_only e c n b s = (d, t)"
  shows "modes t m x = (if m = n \<and> x = c \<and> d_ok d then Some ReadOnly else modes s m x)"
proof (cases "d_ok d")
  case True
  then have "fst (demote_client n c (cm_pm s))"
    using demote_effect(2)[OF assms] by (simp add: modes_def demote_client_iff)
  with demote_effect(7)[OF assms True] True show ?thesis
    by (auto simp: modes_def demote_client_mode)
qed (use demote_effect(6)[OF assms] in \<open>simp add: untouched_def\<close>)

lemma demote_keeps [preserves]:
  "pm_ok (cm_pm s) \<Longrightarrow> pm_ok (cm_pm (snd (demote_client_to_read_only e c n b s)))"
  by (simp add: demote_client_to_read_only_def with_pm_Pair Let_def get_port_ok demote_ok)

end
