(* ===== verification/Takeover.thy ===== *)
theory Takeover
  imports ConsoleFacts
begin

text \<open>
  The write-slot takeover (\<open>take_write_slot\<close> and its two arms).  Either the take is refused and
  every client keeps its mode, or the taker holds the slot afterwards and exactly the named
  victim lost it.  The two halves rest on the contract \<open>slots\<close> of \<^verbatim>\<open>PortInvariant.thy\<close>: a
  demoted writer always leaves room, so a failed promotion can be undone.
\<close>

section \<open>Taking from a holder\<close>

lemma port_seats:
  assumes "pm_ok p" "lookup_port p n = Some q" "v \<in> set (p_clients q)"
  shows "pm_mode p n (cr_client_id v) = Some (cr_mode v)"
  using find_id_mem[OF pm_ok_distinct[OF assms(1,2)] assms(3)] assms(2)
  by (simp add: pm_mode_def pm_client_mode_def)

lemma is_client_rw_mode:
  assumes "pm_ok p" "lookup_port p n = Some q"
  shows "is_client_rw q c \<longleftrightarrow> pm_mode p n c = Some ReadWrite"
  using already_rw_iff[OF pm_ok_distinct[OF assms], of c] assms(2)
  by (simp add: is_client_rw_def pm_mode_def pm_client_mode_def)

lemma room_kept:
  assumes "pm_ok p" "lookup_port p n = Some q" "lookup_port p' n = Some q"
    and "pm_mode p' n v = Some ReadOnly" "pm_ok p'" "enat (pm_writers p n) < pm_capacity p n"
  shows "fst (promote_client n v p')"
  using assms by (simp add: promote_client_iff pm_writers_def pm_capacity_def)

text \<open>After the demotion of a writer, a refused promotion of somebody else leaves its seat free.\<close>

lemma undo_demotion:
  assumes "pm_ok (cm_pm s)" "modes s n v = Some ReadWrite"
    and "demote_client_to_read_only e v n b s = (dem, s1)" "d_ok dem"
    and "untouched s1 s2" "pm_ok (cm_pm s2)"
  shows "modes (snd (with_pm (promote_client n v) s2)) = modes s"
proof -
  obtain es where es: "cm_pm s1 = emit es (snd (demote_client n v (cm_pm s)))"
    using demote_effect(7)[OF assms(3,4)] by blast
  have ok1: "pm_ok (cm_pm s1)" using es assms(1) by (simp add: demote_ok)
  have m1: "modes s1 m x = (if m = n \<and> x = v then Some ReadOnly else modes s m x)" for m x
    using demote_modes_result[OF assms(3), of m x] assms(4) by simp
  have room: "enat (pm_writers (cm_pm s1) n) < pm_capacity (cm_pm s1) n"
    using slots.room_after_demote[of "cm_pm s" n v] assms(1,2) es by (simp add: modes_eq)
  have m2: "modes s2 = modes s1" using assms(5) by (simp add: untouched_def)
  have "modes s1 n v \<noteq> None" by (simp add: m1)
  then obtain q where q: "cm_port s1 n = Some q"
    by (cases "cm_port s1 n") (auto simp: modes_eq pm_mode_None_port)
  have "fst (promote_client n v (cm_pm s2))"
    using ok1 q _ _ assms(6) room
  proof (rule room_kept)
    show "cm_port s2 n = Some q" using assms(5) q by (simp add: untouched_def)
    show "pm_mode (cm_pm s2) n v = Some ReadOnly" using m1[of n v] m2 by (simp add: modes_eq)
  qed
  then show ?thesis using assms(2) m1 m2 by (simp add: fun_eq_iff promote_modes)
qed

lemma take_slot_local_result:
  assumes "take_slot_local e n taker u v s = (d, t)" "pm_ok (cm_pm s)"
    and "modes s n (cr_client_id v) = Some ReadWrite"
  shows "is_answer d" "pm_ok (cm_pm t)" "client_port_map t = client_port_map s"
    "\<not> d_ok d \<Longrightarrow> modes t = modes s \<and> d_mode d = ReadOnly"
    "d_ok d \<Longrightarrow> d_code d = Granted \<and> d_mode d = ReadWrite
       \<and> map_option h_client_id (d_victim d) = Some (cr_client_id v)
       \<and> modes t m x = (if m = n \<and> x = taker then Some ReadWrite
           else if m = n \<and> x = cr_client_id v then Some ReadOnly else modes s m x)"
proof -
  let ?v = "cr_client_id v"
  obtain dem s1 where dem: "demote_client_to_read_only e ?v n True s = (dem, s1)" by fastforce
  obtain pro s2 where pro: "promote_client_to_read_write e taker n s1 = (pro, s2)" by fastforce
  have ok1: "pm_ok (cm_pm s1)" using demote_keeps[OF assms(2), of e ?v n True] dem by simp
  have ok2: "pm_ok (cm_pm s2)" using promote_keeps[OF ok1, of e taker n] pro by simp
  note D = demote_effect[OF dem] and P = promote_result[OF pro ok1]
  consider (gone) "\<not> d_ok dem" | (undone) "d_ok dem" "\<not> d_ok pro" | (moved) "d_ok dem" "d_ok pro" by blast
  then have "is_answer d \<and> pm_ok (cm_pm t) \<and> client_port_map t = client_port_map s
    \<and> (\<not> d_ok d \<longrightarrow> modes t = modes s \<and> d_mode d = ReadOnly)
    \<and> (d_ok d \<longrightarrow> d_code d = Granted \<and> d_mode d = ReadWrite
       \<and> map_option h_client_id (d_victim d) = Some ?v
       \<and> modes t m x = (if m = n \<and> x = taker then Some ReadWrite
           else if m = n \<and> x = ?v then Some ReadOnly else modes s m x))"
  proof cases
    case gone
    then have "d = answer VictimNotCurrent ReadOnly taker n PNone" "t = s1"
      using assms(1) dem by (simp_all add: take_slot_local_def Let_def)
    with gone D ok1 show ?thesis by (simp add: untouched_def)
  next
    case undone
    let ?s3 = "snd (with_pm (promote_client n ?v) s2)"
    have "d = seat_refusal (resolve_client_ip e ?s3) (cm_port ?s3 n) n taker" "t = ?s3"
      using assms(1) dem pro undone by (auto simp: take_slot_local_def Let_def)
    moreover have "modes ?s3 = modes s"
      by (rule undo_demotion[OF assms(2,3) dem undone(1) P(7)[OF undone(2)] ok2])
    ultimately show ?thesis using D(5) P(5) ok2 by (simp add: promote_ok)
  next
    case moved
    have "d_code d = Granted \<and> d_mode d = ReadWrite \<and> map_option h_client_id (d_victim d) = Some ?v"
      "cm_pm t = cm_pm s2" "client_port_map t = client_port_map s2"
      using assms(1) dem pro moved by (auto simp: take_slot_local_def Let_def answer_def mk_decision_def)
    moreover from this have "modes t m x = (if m = n \<and> x = taker then Some ReadWrite
        else if m = n \<and> x = ?v then Some ReadOnly else modes s m x)"
      using moved P(2)[of m x] demote_modes_result[OF dem, of m x] by (auto simp: modes_eq [of t] modes_eq [of s2])
    ultimately show ?thesis using moved D(5) P(5) ok2 by (simp add: is_answer_iff d_ok_def)
  qed
  then show "is_answer d" "pm_ok (cm_pm t)" "client_port_map t = client_port_map s"
    "\<not> d_ok d \<Longrightarrow> modes t = modes s \<and> d_mode d = ReadOnly"
    "d_ok d \<Longrightarrow> d_code d = Granted \<and> d_mode d = ReadWrite
       \<and> map_option h_client_id (d_victim d) = Some ?v
       \<and> modes t m x = (if m = n \<and> x = taker then Some ReadWrite
           else if m = n \<and> x = ?v then Some ReadOnly else modes s m x)" by blast+
qed

text \<open>What a take may do to the modes of the clients of its port.\<close>

definition take_effect ::
  "cm \<Rightarrow> cm \<Rightarrow> string \<Rightarrow> string \<Rightarrow> string option \<Rightarrow> bool" where
  "take_effect s t n taker victim \<longleftrightarrow>
     (\<forall>m x. modes t m x = (if m = n \<and> x = taker then Some ReadWrite
        else if m = n \<and> Some x = victim then Some ReadOnly else modes s m x))"

definition take_sound :: "cm \<Rightarrow> string \<Rightarrow> string \<Rightarrow> decision \<Rightarrow> cm \<Rightarrow> bool" where
  "take_sound s n taker d t \<longleftrightarrow>
     is_answer d \<and> pm_ok (cm_pm t) \<and> client_port_map t = client_port_map s
     \<and> (\<not> d_ok d \<longrightarrow> modes t = modes s \<and> d_mode d = ReadOnly)
     \<and> (d_ok d \<longrightarrow> d_mode d = ReadWrite \<and> (\<exists>victim. take_effect s t n taker victim \<and>
          (\<forall>v. victim = Some v \<longrightarrow> v \<noteq> taker \<and> modes s n v = Some ReadWrite
             \<and> map_option h_client_id (d_victim d) = Some v)))"

lemma take_refused_sound:
  "is_answer d \<Longrightarrow> \<not> d_ok d \<Longrightarrow> d_mode d = ReadOnly \<Longrightarrow> untouched s t \<Longrightarrow> pm_ok (cm_pm t) \<Longrightarrow>
     take_sound s n taker d t"
  by (simp add: take_sound_def untouched_def)

lemma take_effect_alone:
  "(\<And>m x. modes t m x = (if m = n \<and> x = taker then Some ReadWrite else modes s m x)) \<Longrightarrow>
     take_effect s t n taker None"
  by (simp add: take_effect_def)

lemma take_already_sound:
  assumes "pm_ok (cm_pm s)" "modes s n taker = Some ReadWrite" "is_answer d" "d_ok d" "d_mode d = ReadWrite"
  shows "take_sound s n taker d s"
  using assms take_effect_alone[of s n taker s] unfolding take_sound_def
  by (intro conjI impI exI[of _ None]) (auto intro: take_effect_alone)

lemma take_promoted_sound:
  assumes "promote_client_to_read_write e taker n s = (pro, t)" "pm_ok (cm_pm s)" "d_ok pro"
    and "is_answer d" "d_ok d" "d_mode d = ReadWrite" "cm_pm t' = cm_pm t"
    and "client_port_map t' = client_port_map t"
  shows "take_sound s n taker d t'"
proof -
  have "modes t' m x = (if m = n \<and> x = taker then Some ReadWrite else modes s m x)" for m x
    using promote_result(2)[OF assms(1,2), of m x] assms(3,7) by (simp add: modes_eq)
  moreover have "pm_ok (cm_pm t')" using promote_keeps[OF assms(2), of e taker n] assms(1,7) by simp
  ultimately show ?thesis
    using assms promote_result(5)[OF assms(1,2)] unfolding take_sound_def
    by (intro conjI impI exI[of _ None]) (auto intro: take_effect_alone)
qed

lemma take_slot_local_sound:
  assumes "take_slot_local e n taker u v s = (d, t)" "pm_ok (cm_pm s)"
    and "modes s n (cr_client_id v) = Some ReadWrite" "cr_client_id v \<noteq> taker"
  shows "take_sound s n taker d t"
  using take_slot_local_result[OF assms(1-3)] assms(3,4)
  unfolding take_sound_def take_effect_def
  by (intro conjI impI exI[of _ "Some (cr_client_id v)"]) auto

section \<open>The arms\<close>

lemma resolve_reason:
  "resolve_take_target q taker target = (None, r) \<Longrightarrow> r = Some NoHolder \<or> r = Some InvalidTarget"
  by (auto simp: resolve_take_target_def Let_def split: list.splits option.splits)

lemma resolve_victim_mode:
  assumes "resolve_take_target q taker target = (Some v, r)" "pm_ok (cm_pm s)" "cm_port s n = Some q"
  shows "modes s n (cr_client_id v) = Some ReadWrite" "cr_client_id v \<noteq> taker"
  using port_seats[OF assms(2,3) resolve_take_target_victim(1)[OF assms(1)]]
    resolve_take_target_victim(2,3)[OF assms(1)] by (auto simp: modes_eq is_rw_def)

lemma take_write_slot_local_sound:
  assumes "take_write_slot_local e n taker u target q s = (d, t)" "pm_ok (cm_pm s)"
    and "cm_port s n = Some q"
  shows "take_sound s n taker d t"
proof (cases "wire_to_mode (p_max_rw q)")
  case ModeNone
  with assms show ?thesis
    by (intro take_refused_sound) (auto simp: take_write_slot_local_def Let_def)
next
  case ModeMultiple
  show ?thesis
  proof (cases "is_client_rw q taker")
    case True
    have d: "d = answer AlreadyRw ReadWrite taker n (p_max_rw q)" "t = s"
      using assms ModeMultiple True by (auto simp: take_write_slot_local_def)
    show ?thesis unfolding d(2)
      using assms(2) True is_client_rw_mode[OF assms(2,3)]
      by (intro take_already_sound) (simp_all add: d(1) modes_eq)
  next
    case False
    with assms ModeMultiple show ?thesis
      by (intro take_refused_sound) (auto simp: take_write_slot_local_def Let_def)
  qed
next
  case ModeOne
  obtain w r where wr: "resolve_take_target q taker target = (w, r)" by fastforce
  show ?thesis
  proof (cases w)
    case (Some v)
    then have "take_slot_local e n taker u v s = (d, t)"
      using assms ModeOne wr by (simp add: take_write_slot_local_def Let_def)
    then show ?thesis
      using resolve_victim_mode[OF wr[unfolded Some] assms(2,3)]
      by (intro take_slot_local_sound) (auto intro: assms(2))
  next
    case None
    obtain pro s1 where pro: "promote_client_to_read_write e taker n s = (pro, s1)" by fastforce
    note R = resolve_reason[OF wr[unfolded None]]
    consider (stop) "target \<noteq> None \<or> r \<noteq> Some NoHolder"
      | (has) "target = None" "r = Some NoHolder" "is_client_rw q taker"
      | (fail) "target = None" "r = Some NoHolder" "\<not> is_client_rw q taker" "\<not> d_ok pro"
      | (won) "target = None" "r = Some NoHolder" "\<not> is_client_rw q taker" "d_ok pro"
      by blast
    then show ?thesis
    proof cases
      case stop
      with assms ModeOne wr None R show ?thesis
        by (intro take_refused_sound) (auto simp: take_write_slot_local_def Let_def)
    next
      case has
      have d: "d = answer AlreadyRw ReadWrite taker n (p_max_rw q)" "t = s"
        using assms ModeOne has wr None by (auto simp: take_write_slot_local_def)
      show ?thesis unfolding d(2)
        using assms(2) has is_client_rw_mode[OF assms(2,3)]
        by (intro take_already_sound) (simp_all add: d(1) modes_eq)
    next
      case fail
      then have "d = seat_refusal (resolve_client_ip e s1) (cm_port s1 n) n taker" "t = s1"
        using assms ModeOne wr None pro by (auto simp: take_write_slot_local_def)
      then show ?thesis
        using promote_result(7)[OF pro assms(2)] fail promote_keeps[OF assms(2), of e taker n] pro
        by (intro take_refused_sound) auto
    next
      case won
      have "d = answer Granted ReadWrite taker n (p_max_rw q)" "cm_pm t = cm_pm s1"
        "client_port_map t = client_port_map s1"
        using assms ModeOne wr None pro won by (auto simp: take_write_slot_local_def)
      then show ?thesis
        by (intro take_promoted_sound[OF pro assms(2) won(4)]) simp_all
    qed
  qed
qed

lemma promote_untouched_trans:
  "client_port_map s1 = client_port_map s \<Longrightarrow> cm_pm s1 = cm_pm s \<Longrightarrow> untouched s s1"
  by (simp add: untouched_def modes_eq)

lemma take_sound_weaken:
  assumes "take_sound s1 n taker d t" "untouched s s1"
  shows "take_sound s n taker d t"
  using assms by (auto simp: take_sound_def untouched_def take_effect_def)

lemma take_write_slot_federated_sound:
  assumes "take_write_slot_federated e n taker u target s = (d, t)" "pm_ok (cm_pm s)"
  shows "take_sound s n taker d t"
proof -
  let ?s1 = "s\<lparr>cm_fed_calls := Suc (cm_fed_calls s)\<rparr>"
  have u1: "untouched s ?s1" by (simp add: untouched_def)
  obtain pro s2 where pro: "promote_client_to_read_write e taker n ?s1 = (pro, s2)" by fastforce
  have ok1: "pm_ok (cm_pm ?s1)" using assms(2) by simp
  consider (refused) "fed_reply e (cm_fed_calls s) n taker (FedTake target) \<noteq> ''read-write''"
    | (failed) "fed_reply e (cm_fed_calls s) n taker (FedTake target) = ''read-write''" "\<not> d_ok pro"
    | (won) "fed_reply e (cm_fed_calls s) n taker (FedTake target) = ''read-write''" "d_ok pro" by blast
  then have "take_sound ?s1 n taker d t"
  proof cases
    case refused
    with assms show ?thesis
      by (intro take_refused_sound) (auto simp: take_write_slot_federated_def Let_def)
  next
    case failed
    then have "d = refusal (resolve_client_ip e s2) PromoteFailed taker n (cm_port s2 n)" "t = s2"
      using assms pro by (auto simp: take_write_slot_federated_def)
    then show ?thesis
      using promote_result(7)[OF pro ok1] failed promote_keeps[OF ok1, of e taker n] pro
      by (intro take_refused_sound) auto
  next
    case won
    have "is_answer d" "d_ok d" "d_mode d = ReadWrite" "cm_pm t = cm_pm s2"
      "client_port_map t = client_port_map s2"
      using assms pro won by (auto simp: take_write_slot_federated_def Let_def)
    then show ?thesis by (rule take_promoted_sound[OF pro ok1 won(2)])
  qed
  then show ?thesis using u1 by (rule take_sound_weaken)
qed

lemma take_write_slot_sound:
  assumes "take_write_slot e taker n target s = (d, t)" "pm_ok (cm_pm s)"
  shows "take_sound s n taker d t"
proof (cases "mapped_to s taker n")
  case False
  with assms show ?thesis by (intro take_refused_sound) (auto simp: take_write_slot_def)
next
  case mapped: True
  let ?s = "snd (with_pm (get_port n) s)"
  have ok: "pm_ok (cm_pm ?s)" using assms(2) by (simp add: get_port_ok)
  show ?thesis
  proof (cases "fst (get_port n (cm_pm s))")
    case None
    with assms ok mapped show ?thesis
      by (intro take_refused_sound) (auto simp: take_write_slot_def split_beta Let_def)
  next
    case (Some q)
    show ?thesis
    proof (cases "take_write_slot_permissions e s q taker")
      case None
      with Some assms ok mapped show ?thesis
        by (intro take_refused_sound) (auto simp: take_write_slot_def split_beta Let_def)
    next
      case (Some c)
      obtain u perms where c: "c = (u, perms)" by fastforce
      let ?ent = "taker_entitled e (Some q) (Some perms) (if u = [] then taker else u)"
      have q: "cm_port ?s n = Some q" using \<open>fst (get_port n (cm_pm s)) = Some q\<close> by simp
      have dt: "(d, t) = (if \<not> may_drive ?ent
          then (refusal (resolve_client_ip e ?s) (refusal_code ?ent) taker n (Some q), ?s)
          else if is_remote q then take_write_slot_federated e n taker u target ?s
          else take_write_slot_local e n taker u target q ?s)"
        using assms(1) mapped Some c \<open>fst (get_port n (cm_pm s)) = Some q\<close>
        by (simp add: take_write_slot_def split_beta Let_def cong: if_cong)
      consider "\<not> may_drive ?ent" | "may_drive ?ent" "is_remote q" | "may_drive ?ent" "\<not> is_remote q" by blast
      then show ?thesis
      proof cases
        case 1
        with dt ok show ?thesis by (intro take_refused_sound) auto
      next
        case 2
        with dt show ?thesis
          by (intro take_sound_weaken[OF take_write_slot_federated_sound[OF _ ok]]) auto
      next
        case 3
        with dt show ?thesis
          by (intro take_sound_weaken[OF take_write_slot_local_sound[OF _ ok q]]) auto
      qed
    qed
  qed
qed

lemma take_needs_entitlement:
  assumes "take_write_slot e taker n target s = (d, t)" "d_ok d"
  shows "mapped_to s taker n \<and> (\<exists>q. fst (get_port n (cm_pm s)) = Some q
    \<and> may_drive (request_entitlement e s q taker))"
proof -
  have m: "mapped_to s taker n" using assms by (auto simp: take_write_slot_def split: if_splits)
  obtain q where q: "fst (get_port n (cm_pm s)) = Some q"
    using assms m by (cases "fst (get_port n (cm_pm s))") (auto simp: take_write_slot_def split_beta Let_def)
  obtain u perms where c: "take_write_slot_permissions e s q taker = Some (u, perms)"
    using assms m q by (cases "take_write_slot_permissions e s q taker")
      (auto simp: take_write_slot_def split_beta Let_def)
  have "may_drive (taker_entitled e (Some q) (Some perms) (if u = [] then taker else u))"
  proof (rule ccontr)
    assume "\<not> ?thesis"
    then have "\<not> d_ok (fst (take_write_slot e taker n target s))"
      using m q c by (cases "u = []") (simp_all add: take_write_slot_def split_beta Let_def)
    with assms show False by simp
  qed
  with m q c show ?thesis by (simp add: request_entitlement_def)
qed

section \<open>A take that must succeed\<close>

lemma promote_completes:
  assumes "mapped_to s c n" "cm_port s n = Some q" "\<not> is_remote q"
    and "may_drive (request_entitlement e s q c)" "fst (promote_client n c (cm_pm s))"
  shows "d_ok (fst (promote_client_to_read_write e c n s))"
proof -
  have g: "with_pm (get_port n) s = (Some q, s)"
    using get_port_fst[OF assms(2)] by (simp add: with_pm_Pair)
  have "promote_client_to_read_write e c n s = promote_seat e c n s"
    using assms(1,3,4) g by (simp add: promote_client_to_read_write_def Let_def)
  then show ?thesis
    using promote_seat_result(1)[of e c n s] assms(5) by (metis prod.collapse)
qed

lemma demote_pm_ports:
  assumes "demote_client_to_read_only e c n b s = (d, t)" "d_ok d" "cm_port s n = Some q"
  shows "cm_port t n = Some (set_mode c ReadOnly q)"
proof -
  have "fst (demote_client n c (cm_pm s))"
    using demote_effect(2)[OF assms(1)] assms(2) by (simp add: modes_def demote_client_iff)
  then have "lookup_port (snd (demote_client n c (cm_pm s))) n = Some (set_mode c ReadOnly q)"
    using assms(3) by (auto simp: demote_client_def split: option.splits if_splits)
  with demote_effect(7)[OF assms(1,2)] show ?thesis by auto
qed

lemma demote_managers [simp, frames]:
  "client_to_manager (snd (demote_client_to_read_only e c n b s)) = client_to_manager s"
  by (simp add: demote_client_to_read_only_def with_pm_Pair Let_def)

lemma username_set_mode:
  "(case find (has_id c) (p_clients (set_mode v m q)) of Some c \<Rightarrow> cr_username c | None \<Rightarrow> []) =
   (case find (has_id c) (p_clients q) of Some c \<Rightarrow> cr_username c | None \<Rightarrow> [])"
  by (auto simp: find_set_mode split: option.splits)

lemma permissions_cong:
  assumes "client_to_manager t = client_to_manager s"
  shows "take_write_slot_permissions e t q c = take_write_slot_permissions e s q c"
proof -
  have "client_permissions e t c = client_permissions e s c"
    using assms by (simp add: client_permissions_def client_meta_for_def)
  then show ?thesis by (simp add: take_write_slot_permissions_def cong: option.case_cong)
qed

lemma taker_entitled_set_mode [simp]:
  "taker_entitled e (Some (set_mode v m q)) perms u = taker_entitled e (Some q) perms u"
  by (simp add: taker_entitled_def groups_of_def)

lemma permissions_set_mode [simp]:
  "take_write_slot_permissions e s (set_mode v m q) c = take_write_slot_permissions e s q c"
  by (simp add: take_write_slot_permissions_def username_set_mode)

lemma request_entitlement_set_mode:
  assumes "client_to_manager t = client_to_manager s"
  shows "request_entitlement e t (set_mode v m q) c = request_entitlement e s q c"
  by (simp add: request_entitlement_def permissions_cong[OF assms] split: option.splits)

lemma take_slot_local_completes:
  assumes "pm_ok (cm_pm s)" "cm_port s n = Some q" "\<not> is_remote q"
    and "mapped_to s taker n" "modes s n taker = Some ReadOnly"
    and "may_drive (request_entitlement e s q taker)"
    and "modes s n (cr_client_id v) = Some ReadWrite" "mapped_to s (cr_client_id v) n"
    and "take_slot_local e n taker u v s = (d, t)"
  shows "d_ok d"
proof -
  let ?v = "cr_client_id v"
  obtain dem s1 where dem: "demote_client_to_read_only e ?v n True s = (dem, s1)" by fastforce
  have ok: "d_ok dem" using demote_effect(2)[OF dem] assms by simp
  obtain es where es: "cm_pm s1 = emit es (snd (demote_client n ?v (cm_pm s)))"
    using demote_effect(7)[OF dem ok] by blast
  have ok1: "pm_ok (cm_pm s1)" using es assms(1) by (simp add: demote_ok)
  have t1: "modes s1 n taker = Some ReadOnly"
    using demote_modes_result[OF dem, of n taker] assms(5) by simp
  have "enat (pm_writers (cm_pm s1) n) < pm_capacity (cm_pm s1) n"
    using slots.room_after_demote[of "cm_pm s" n ?v] assms(1,7) es by (simp add: modes_eq)
  then have pr: "fst (promote_client n taker (cm_pm s1))"
    using ok1 t1 by (simp add: promote_client_iff modes_eq)
  have "d_ok (fst (promote_client_to_read_write e taker n s1))"
  proof (rule promote_completes[OF _ demote_pm_ports[OF dem ok assms(2)] _ _ pr])
    show "mapped_to s1 taker n" using assms(4) demote_effect(5)[OF dem] by (simp add: mapped_to_def)
    show "\<not> is_remote (set_mode ?v ReadOnly q)" using assms(3) by (simp add: is_remote_def)
    have "client_to_manager s1 = client_to_manager s"
      using demote_managers[of e ?v n True s] dem by simp
    then show "may_drive (request_entitlement e s1 (set_mode ?v ReadOnly q) taker)"
      using assms(6) by (simp add: request_entitlement_set_mode)
  qed
  then show ?thesis using assms(9) dem ok
    by (auto simp: take_slot_local_def Let_def split: prod.splits if_splits)
qed

text \<open>The number of writers is the number of clients in read-write mode, so a take keeps it.\<close>

lemma count_card: "distinct (ids cs) \<Longrightarrow>
    count_of is_rw cs = card {c. map_option cr_mode (find (has_id c) cs) = Some ReadWrite}"
proof -
  assume d: "distinct (ids cs)"
  then have "distinct (map cr_client_id (filter is_rw cs))"
    by (simp add: ids_def distinct_map_filter)
  then have "count_of is_rw cs = card (set (map cr_client_id (filter is_rw cs)))"
    by (simp only: distinct_card count_of_def length_map)
  also have "set (map cr_client_id (filter is_rw cs)) =
      {c. map_option cr_mode (find (has_id c) cs) = Some ReadWrite}"
    unfolding already_rw_iff[OF d, symmetric] by (auto simp: has_id_def)
  finally show ?thesis .
qed

lemma writers_card: "pm_ok p \<Longrightarrow> pm_writers p n = card {c. pm_mode p n c = Some ReadWrite}"
  by (cases "lookup_port p n")
    (auto simp: pm_writers_def pm_mode_def pm_client_mode_def count_card pm_ok_distinct)

lemma finite_writers: "finite {c. pm_mode p n c = Some ReadWrite}"
proof (cases "lookup_port p n")
  case (Some q)
  have "{c. pm_mode p n c = Some ReadWrite} \<subseteq> set (ids (p_clients q))"
  proof
    fix c assume "c \<in> {c. pm_mode p n c = Some ReadWrite}"
    then have "find (has_id c) (p_clients q) \<noteq> None"
      using Some by (auto simp: pm_mode_def pm_client_mode_def)
    then show "c \<in> set (ids (p_clients q))" by (simp only: find_id_None_iff not_not)
  qed
  then show ?thesis by (rule finite_subset) simp
qed (simp add: pm_mode_None_port)

lemma transfer_writers:
  assumes "pm_ok (cm_pm s)" "pm_ok (cm_pm t)" "take_effect s t n taker (Some v)" "v \<noteq> taker"
    and "modes s n v = Some ReadWrite" "modes s n taker \<noteq> Some ReadWrite"
  shows "pm_writers (cm_pm t) n = pm_writers (cm_pm s) n"
proof -
  let ?W = "\<lambda>u. {c. modes u n c = Some ReadWrite}"
  have t: "?W t = insert taker (?W s - {v})"
    using assms(3,4) by (auto simp: take_effect_def)
  have f: "finite (?W s)" by (simp add: modes_eq finite_writers)
  have "card (?W t) = Suc (card (?W s - {v}))"
    unfolding t using f assms(6) by (subst card_insert_disjoint) simp_all
  also have "\<dots> = card (?W s)" using f assms(5) by (intro card_Suc_Diff1) simp_all
  finally show ?thesis using assms(1,2) by (simp add: writers_card modes_eq)
qed

text \<open>The victim of a take with or without a target is the one \<open>resolve_take_target\<close> picks.\<close>

lemma take_write_slot_completes:
  assumes "pm_ok (cm_pm s)" "cm_port s n = Some q" "\<not> is_remote q"
    and "wire_to_mode (p_max_rw q) = ModeOne"
    and "mapped_to s taker n" "modes s n taker = Some ReadOnly"
    and "may_drive (request_entitlement e s q taker)"
    and "resolve_take_target q taker target = (Some v, r)" "mapped_to s (cr_client_id v) n"
    and "take_write_slot e taker n target s = (d, t)"
  shows "d_ok d" "d_code d = Granted" "map_option h_client_id (d_victim d) = Some (cr_client_id v)"
    "take_effect s t n taker (Some (cr_client_id v))" "pm_writers (cm_pm t) n = pm_writers (cm_pm s) n"
proof -
  note V = resolve_victim_mode[OF assms(8,1,2)]
  have g: "with_pm (get_port n) s = (Some q, s)"
    using get_port_fst[OF assms(2)] by (simp add: with_pm_Pair)
  obtain u perms where perms: "take_write_slot_permissions e s q taker = Some (u, perms)"
    and drive: "may_drive (taker_entitled e (Some q) (Some perms) (if u = [] then taker else u))"
    using assms(7) by (auto simp: request_entitlement_def split: option.splits prod.splits)
  have "take_write_slot e taker n target s = take_write_slot_local e n taker u target q s"
    using assms(3,5) g perms drive by (simp add: take_write_slot_def)
  also have "\<dots> = take_slot_local e n taker u v s"
    using assms(4,8) by (simp add: take_write_slot_local_def Let_def)
  finally have slot: "take_slot_local e n taker u v s = (d, t)" using assms(10) by simp
  note R = take_slot_local_result[OF slot assms(1) V(1)]
  show ok: "d_ok d" by (rule take_slot_local_completes[OF assms(1-3,5-7) V(1) assms(9) slot])
  show "d_code d = Granted" "map_option h_client_id (d_victim d) = Some (cr_client_id v)"
    using R(5)[OF ok] by blast+
  show eff: "take_effect s t n taker (Some (cr_client_id v))"
    using R(5)[OF ok] by (auto simp: take_effect_def)
  show "pm_writers (cm_pm t) n = pm_writers (cm_pm s) n"
    by (rule transfer_writers[OF assms(1) R(2) eff V(2,1)]) (simp add: assms(6))
qed

end
