(* ===== verification/Attach.thy ===== *)
theory Attach
  imports ConsoleFacts
begin

text \<open>
  Attaching and detaching (\<open>connect_client_to_port\<close>, \<open>disconnect_client_from_port\<close>).  A client
  is mapped to at most one port, has a record there and, while its forwarding task runs, the
  task serves that port; a refused attach leaves nothing behind.
\<close>

section \<open>Adding and removing records\<close>

lemma find_attach:
  "find (has_id x) (p_clients (attach_client_record p c u m now (find_existing_client_idx p c))) =
     (if x = c then Some \<lparr>cr_client_id = c, cr_username = u, cr_mode = m, cr_connected_at = now\<rparr>
      else find (has_id x) (p_clients p))"
proof (cases "find_existing_client_idx p c")
  case None
  then have "find (has_id c) (p_clients p) = None"
    by (simp add: find_existing_client_idx_def index_of_id_None_iff find_id_None_iff)
  with None show ?thesis
    by (auto simp: attach_client_record_def Let_def find_append_id has_id_def split: option.splits)
next
  case (Some i)
  then show ?thesis
    by (simp add: attach_client_record_def Let_def find_existing_client_idx_def find_list_update)
qed

lemma add_client_mode:
  "pm_mode (snd (add_client_to_port n c u m s)) k x =
     (if k = n \<and> x = c \<and> fst (add_client_to_port n c u m s) then Some m else pm_mode s k x)"
proof (cases "lookup_port (snd (ensure_unified_wrapper n s)) n")
  case None
  then show ?thesis by (simp add: add_client_to_port_def Let_def)
next
  case (Some p)
  then have "pm_mode s n x = map_option cr_mode (find (has_id x) (p_clients p))"
    using ensure_mode[of n s] by (metis pm_mode_def pm_client_mode_def option.simps(5))
  then show ?thesis
    using Some by (auto simp: add_client_to_port_def Let_def rw_counts_def find_attach)
qed

lemma add_client_iff:
  "fst (add_client_to_port n c u m s) \<longleftrightarrow>
     (\<exists>p. lookup_port (snd (ensure_unified_wrapper n s)) n = Some p \<and>
        (m = ReadWrite \<longrightarrow> has_free_write_slot p c))"
  by (auto simp: add_client_to_port_def Let_def rw_counts_def has_free_write_slot_def not_le
      split: option.splits)

lemma remove_client_mode:
  assumes "pm_ok s"
  shows "pm_mode (snd (remove_client_from_port n c s)) k x = (if k = n \<and> x = c then None else pm_mode s k x)"
proof (cases "lookup_port s n")
  case None
  then show ?thesis by (auto simp: remove_client_from_port_def pm_mode_None_port)
next
  case (Some p)
  then have "pm_mode s n x = map_option cr_mode (find (has_id x) (p_clients p))" for x
    by (simp add: pm_mode_def pm_client_mode_def)
  then show ?thesis
    using Some find_remove_first[OF pm_ok_distinct[OF assms Some]]
    by (auto simp: remove_client_from_port_def Let_def)
qed

section \<open>The invariant of the console manager\<close>

definition cm_ok :: "cm \<Rightarrow> bool" where
  "cm_ok s \<longleftrightarrow> pm_ok (cm_pm s) \<and> dict_wf (client_port_map s) \<and> dict_wf (forwarding_tasks s)
     \<and> (\<forall>c n. dict_get (forwarding_tasks s) c = Some n \<longrightarrow> mapped_to s c n)
     \<and> (\<forall>c n. mapped_to s c n \<longrightarrow> modes s n c \<noteq> None)"

lemma cm_okD: "cm_ok s \<Longrightarrow> pm_ok (cm_pm s)"
  by (simp add: cm_ok_def)

lemma cm_ok_keep:
  assumes "cm_ok s" "pm_ok (cm_pm t)" "client_port_map t = client_port_map s"
    and "forwarding_tasks t = forwarding_tasks s"
    and "\<And>n c. modes s n c \<noteq> None \<Longrightarrow> modes t n c \<noteq> None"
  shows "cm_ok t"
  using assms by (simp add: cm_ok_def mapped_to_def)

lemma presence_ok [preserves]: "cm_ok s \<Longrightarrow> cm_ok (snd (broadcast_presence e n b s))"
  by (rule cm_ok_keep[of s]) (simp_all add: cm_okD)

lemma get_port_cm_ok [preserves]: "cm_ok s \<Longrightarrow> cm_ok (snd (with_pm (get_port n) s))"
  by (rule cm_ok_keep[of s]) (simp_all add: cm_okD get_port_ok)

definition unplugged :: "string \<Rightarrow> cm \<Rightarrow> bool" where
  "unplugged c s \<longleftrightarrow> dict_get (client_port_map s) c = None \<and> dict_get (forwarding_tasks s) c = None"

lemma disconnect_result:
  assumes "disconnect_client_from_port e c n s = (r, t)" "cm_ok s"
  shows "r \<longleftrightarrow> mapped_to s c n" "cm_ok t" "r \<Longrightarrow> unplugged c t"
    "modes t k x = (if r \<and> k = n \<and> x = c then None else modes s k x)"
    "x \<noteq> c \<Longrightarrow> dict_get (client_port_map t) x = dict_get (client_port_map s) x"
    "x \<noteq> c \<Longrightarrow> dict_get (forwarding_tasks t) x = dict_get (forwarding_tasks s) x"
proof -
  define s3 where "s3 = unregister_client_port c (stop_client_forwarding_task c
    (snd (with_pm (remove_client_from_port n c) s)))"
  have m: "modes s3 k x = (if k = n \<and> x = c then None else modes s k x)" for k x
    using remove_client_mode[OF cm_okD[OF assms(2)], of n c k x]
    by (simp add: s3_def modes_eq unregister_client_port_def stop_client_forwarding_task_def)
  have ok: "cm_ok s3" if "mapped_to s c n"
    unfolding cm_ok_def
  proof (intro conjI allI impI)
    show "pm_ok (cm_pm s3)" "dict_wf (client_port_map s3)" "dict_wf (forwarding_tasks s3)"
      using assms(2) by (auto simp: cm_ok_def s3_def unregister_client_port_def
          stop_client_forwarding_task_def remove_client_ok)
    show "mapped_to s3 d k" if "dict_get (forwarding_tasks s3) d = Some k" for d k
      using assms(2) that by (auto simp: cm_ok_def s3_def unregister_client_port_def
          stop_client_forwarding_task_def mapped_to_def split: if_splits)
    show "modes s3 k d \<noteq> None" if "mapped_to s3 d k" for d k
      using assms(2) that m[of k d] by (auto simp: cm_ok_def s3_def unregister_client_port_def
          stop_client_forwarding_task_def mapped_to_def split: if_splits)
  qed
  have rt: "r = mapped_to s c n" "t = (if r then snd (broadcast_presence e n True s3) else s)"
    using assms(1) by (auto simp: disconnect_client_from_port_def s3_def Let_def split: if_splits)
  show "r \<longleftrightarrow> mapped_to s c n" by (rule rt)
  show "cm_ok t" using rt ok assms(2) by (auto intro: presence_ok)
  show "r \<Longrightarrow> unplugged c t" using rt
    by (simp add: unplugged_def s3_def unregister_client_port_def stop_client_forwarding_task_def)
  show "modes t k x = (if r \<and> k = n \<and> x = c then None else modes s k x)" using rt m by simp
  show "x \<noteq> c \<Longrightarrow> dict_get (client_port_map t) x = dict_get (client_port_map s) x"
    "x \<noteq> c \<Longrightarrow> dict_get (forwarding_tasks t) x = dict_get (forwarding_tasks s) x"
    using rt by (auto simp: s3_def unregister_client_port_def stop_client_forwarding_task_def)
qed

section \<open>Attaching\<close>

text \<open>\<open>c\<close> sits on \<open>n\<close> in mode \<open>m\<close>, is mapped there and has its task; nobody else moved.\<close>

definition seated :: "cm \<Rightarrow> cm \<Rightarrow> string \<Rightarrow> string \<Rightarrow> amode \<Rightarrow> bool" where
  "seated s t c n m \<longleftrightarrow>
     (\<forall>k x. modes t k x = (if k = n \<and> x = c then Some m else modes s k x))
     \<and> (\<forall>x. dict_get (client_port_map t) x = (if x = c then Some n else dict_get (client_port_map s) x))
     \<and> (\<forall>x. dict_get (forwarding_tasks t) x = (if x = c then Some n else dict_get (forwarding_tasks s) x))"

lemma seated_ok:
  assumes "seated s t c n m" "cm_ok s" "pm_ok (cm_pm t)" "dict_wf (client_port_map t)"
    and "dict_wf (forwarding_tasks t)"
  shows "cm_ok t"
  using assms by (auto simp: cm_ok_def seated_def mapped_to_def split: if_splits)

definition bare :: "cm \<Rightarrow> cm \<Rightarrow> bool" where
  "bare s t \<longleftrightarrow> modes t = modes s \<and> client_port_map t = client_port_map s
     \<and> forwarding_tasks t = forwarding_tasks s"

lemma ensure_idem:
  "ensure_unified_wrapper n (snd (ensure_unified_wrapper n s)) = ensure_unified_wrapper n s"
  by (auto simp: ensure_unified_wrapper_def split: option.splits)

lemma add_client_refused: "\<not> fst (add_client_to_port n c u m s) \<Longrightarrow>
    snd (add_client_to_port n c u m s) = snd (ensure_unified_wrapper n s)"
  by (auto simp: add_client_to_port_def Let_def rw_counts_def split: option.splits if_splits)

text \<open>The seat an attach gets before any origin is asked: the one wanted, or read-only on a full port.\<close>

definition seat_client :: "string \<Rightarrow> string \<Rightarrow> string \<Rightarrow> amode \<Rightarrow> cm \<Rightarrow> amode option \<times> cm" where
  "seat_client n c u m s =
     (let (ok1, s1) = with_pm (add_client_to_port n c u m) s in
      if ok1 then (Some m, s1)
      else if m = ReadWrite then
        (let (ok2, s2) = with_pm (add_client_to_port n c u ReadOnly) s1 in
         (if ok2 then Some ReadOnly else None, s2))
      else (None, s1))"

lemma attach_unfold:
  "attach_client_to_port e n c u m0 fed ent c0 s =
     (case seat_client n c u m0 s of
        (None, s2) \<Rightarrow> ((None, PortUnavailable), s2)
      | (Some m, s2) \<Rightarrow>
          (let s3 = ensure_client_forwarding_task n c (register_client_port c n s2);
               cd = (if m = m0 then c0 else CapacityFull) in
           if fed \<and> ent = ReadWrite then
             (let (granted, s4) = request_federated_promotion e n c s3 in
              if granted then ((Some ReadWrite, Attached), s4) else ((Some m, CapacityFull), s4))
           else ((Some m, cd), s3)))"
  by (auto simp: attach_client_to_port_def seat_client_def Let_def split_beta)

lemma seat_client_result:
  assumes "seat_client n c u m0 s = (r, t)" "pm_ok (cm_pm s)"
  shows "pm_ok (cm_pm t)" "client_port_map t = client_port_map s" "forwarding_tasks t = forwarding_tasks s"
    "modes t k x = (if k = n \<and> x = c \<and> r \<noteq> None then r else modes s k x)"
    "r = Some m \<Longrightarrow> m = m0 \<or> m = ReadOnly"
    "r = None \<longleftrightarrow> lookup_port (snd (ensure_unified_wrapper n (cm_pm s))) n = None"
proof -
  let ?add = "\<lambda>m. add_client_to_port n c u m (cm_pm s)" and ?en = "snd (ensure_unified_wrapper n (cm_pm s))"
  have again: "add_client_to_port n c u ReadOnly ?en = ?add ReadOnly"
    by (simp add: add_client_to_port_def ensure_idem)
  have rt: "(r, t) = (if fst (?add m0) then (Some m0, s\<lparr>cm_pm := snd (?add m0)\<rparr>)
      else if m0 = ReadWrite then (if fst (?add ReadOnly) then Some ReadOnly else None, s\<lparr>cm_pm := snd (?add ReadOnly)\<rparr>)
      else (None, s\<lparr>cm_pm := snd (?add m0)\<rparr>))"
    using assms(1) add_client_refused[of n c u m0 "cm_pm s"] again
    by (cases "fst (?add m0)") (auto simp: seat_client_def with_pm_Pair split: if_splits)
  show "pm_ok (cm_pm t)" "client_port_map t = client_port_map s" "forwarding_tasks t = forwarding_tasks s"
    using rt assms(2) add_client_ok[of "cm_pm s" n c u] by (auto split: if_splits)
  show "modes t k x = (if k = n \<and> x = c \<and> r \<noteq> None then r else modes s k x)"
    using rt by (auto simp: modes_eq add_client_mode split: if_splits)
  show "r = Some m \<Longrightarrow> m = m0 \<or> m = ReadOnly"
    using rt by (auto split: if_splits)
  show "r = None \<longleftrightarrow> lookup_port ?en n = None"
    using rt by (cases m0; cases "lookup_port ?en n") (auto simp: add_client_iff split: if_splits)
qed

lemma attach_result:
  assumes "attach_client_to_port e n c u m0 fed ent c0 s = ((r, cd), t)" "cm_ok s"
    and "code_kind c0 = KGrant" "m0 = (if fed then ReadOnly else ent)" "ent = ReadWrite \<longleftrightarrow> c0 = Attached"
  shows "cm_ok t" "r = None \<Longrightarrow> cd = PortUnavailable \<and> bare s t"
    "r = Some m \<Longrightarrow> seated s t c n m \<and> code_kind cd = KGrant \<and> (m = ReadWrite \<longleftrightarrow> cd = Attached)
       \<and> (m = ReadWrite \<longrightarrow> ent = ReadWrite)"
    "r = None \<longleftrightarrow> lookup_port (snd (ensure_unified_wrapper n (cm_pm s))) n = None"
proof -
  obtain r1 s2 where sc: "seat_client n c u m0 s = (r1, s2)" by fastforce
  note S = seat_client_result[OF sc cm_okD[OF assms(2)]]
  let ?s3 = "ensure_client_forwarding_task n c (register_client_port c n s2)"
  have wf3: "dict_wf (client_port_map ?s3)" "dict_wf (forwarding_tasks ?s3)" "pm_ok (cm_pm ?s3)"
    using assms(2) S(1-3) by (auto simp: cm_ok_def ensure_client_forwarding_task_def register_client_port_def)
  have seat3: "seated s ?s3 c n m1" if "r1 = Some m1" for m1
    using S(2-4) that by (simp add: seated_def ensure_client_forwarding_task_def register_client_port_def
        modes_eq [of ?s3] flip: modes_eq [of s2])
  obtain g s4 where g: "request_federated_promotion e n c ?s3 = (g, s4)" by fastforce
  note G = request_promotion_result[OF g]
  have ok4: "pm_ok (cm_pm s4)" using request_promotion_ok[OF wf3(3), of e n c] g by simp
  have seat4: "seated s s4 c n (if g then ReadWrite else m1)" if "r1 = Some m1" for m1
    using seat3[OF that] G(1-3) by (auto simp: seated_def)
  have "cm_ok t \<and> (r = None \<longrightarrow> cd = PortUnavailable \<and> bare s t) \<and>
    (\<forall>m. r = Some m \<longrightarrow> seated s t c n m \<and> code_kind cd = KGrant \<and> (m = ReadWrite \<longleftrightarrow> cd = Attached)
       \<and> (m = ReadWrite \<longrightarrow> ent = ReadWrite)) \<and> (r = None \<longleftrightarrow> r1 = None)"
  proof (cases r1)
    case None
    with assms(1) sc have "r = None" "cd = PortUnavailable" "t = s2"
      by (simp_all add: attach_unfold)
    moreover have "bare s s2" using None S(2-4) by (simp add: bare_def fun_eq_iff)
    moreover have "cm_ok s2" using assms(2) by (rule cm_ok_keep) (use None S in auto)
    ultimately show ?thesis using None by simp
  next
    case (Some m1)
    show ?thesis
    proof (cases "fed \<and> ent = ReadWrite")
      case True
      then have "m1 = ReadOnly" using S(5)[OF Some] assms(4) by auto
      moreover have "t = s4" "r = Some (if g then ReadWrite else m1)" "cd = (if g then Attached else CapacityFull)"
        using assms(1) sc Some True g by (auto simp: attach_unfold Let_def split: if_splits)
      moreover have "cm_ok s4"
        by (rule seated_ok[OF seat4[OF Some] assms(2) ok4]) (use wf3 G in simp_all)
      ultimately show ?thesis using seat4[OF Some] True Some by auto
    next
      case False
      then have "t = ?s3" "r = Some m1" "cd = (if m1 = m0 then c0 else CapacityFull)"
        using assms(1) sc Some by (auto simp: attach_unfold Let_def)
      moreover have "cm_ok ?s3" by (rule seated_ok[OF seat3[OF Some] assms(2) wf3(3,1,2)])
      ultimately show ?thesis using seat3[OF Some] Some False S(5)[OF Some] assms(3-5)
        by (cases ent) auto
    qed
  qed
  with S(6) show "cm_ok t" "r = None \<Longrightarrow> cd = PortUnavailable \<and> bare s t"
    "r = Some m \<Longrightarrow> seated s t c n m \<and> code_kind cd = KGrant \<and> (m = ReadWrite \<longleftrightarrow> cd = Attached)
       \<and> (m = ReadWrite \<longrightarrow> ent = ReadWrite)"
    "r = None \<longleftrightarrow> lookup_port (snd (ensure_unified_wrapper n (cm_pm s))) n = None" by blast+
qed

section \<open>The configuration of a port is never changed\<close>

definition keeps_config :: "pm \<Rightarrow> pm \<Rightarrow> bool" where
  "keeps_config s t \<longleftrightarrow> (\<forall>n p. lookup_port s n = Some p \<longrightarrow>
     (\<exists>q. lookup_port t n = Some q \<and> p_backing q = p_backing p \<and> p_max_rw q = p_max_rw p))"

lemma keeps_config_refl [simp]: "keeps_config s s"
  by (simp add: keeps_config_def)

lemma keeps_config_trans: "keeps_config s t \<Longrightarrow> keeps_config t u \<Longrightarrow> keeps_config s u"
  unfolding keeps_config_def by (metis (no_types))

lemma keeps_config_emit [simp]: "keeps_config s (emit es t) = keeps_config s t"
  by (simp add: keeps_config_def)

lemma keeps_config_put:
  "lookup_port s n = Some p \<Longrightarrow> p_backing q = p_backing p \<Longrightarrow> p_max_rw q = p_max_rw p \<Longrightarrow>
     keeps_config s (put_port n q s)"
  by (simp add: keeps_config_def)

lemma keeps_config_new: "lookup_port s n = None \<Longrightarrow> keeps_config s (put_port n q s)"
  by (auto simp: keeps_config_def)

lemma keeps_config_ensure [simp]: "keeps_config s (snd (ensure_unified_wrapper n s))"
  by (auto simp: ensure_unified_wrapper_def intro: keeps_config_new split: option.splits)

lemma keeps_config_get [simp]: "keeps_config s (snd (get_port n s))"
  by (auto simp: get_port_def Let_def intro: keeps_config_new split: option.splits)

lemma attach_record_config [simp]:
  "p_backing (attach_client_record p c u m now i) = p_backing p"
  "p_max_rw (attach_client_record p c u m now i) = p_max_rw p"
  by (simp_all add: attach_client_record_def Let_def split: option.splits)

lemma keeps_config_add [simp]: "keeps_config s (snd (add_client_to_port n c u m s))"
proof -
  let ?s = "snd (ensure_unified_wrapper n s)"
  have "keeps_config ?s (snd (add_client_to_port n c u m s))"
    by (auto simp: add_client_to_port_def Let_def rw_counts_def intro: keeps_config_put
        split: option.splits)
  then show ?thesis by (rule keeps_config_trans[OF keeps_config_ensure])
qed

lemma keeps_config_ops [simp]:
  "keeps_config s (snd (remove_client_from_port n c s))"
  "keeps_config s (snd (promote_client n c s))"
  "keeps_config s (snd (demote_client n c s))"
  by (auto simp: remove_client_from_port_def promote_client_def demote_client_def Let_def
      intro: keeps_config_put split: option.splits)

lemma entitled_config:
  assumes "keeps_config s t" "lookup_port s n = Some p"
  shows "taker_entitled e (lookup_port t n) perms u = taker_entitled e (Some p) perms u"
  using assms by (force simp: keeps_config_def taker_entitled_def groups_of_def)

section \<open>Connecting\<close>

lemma ladder_result:
  assumes "d = resolve_access_mode e p n perms u"
  shows "is_answer d" "d_ok d \<Longrightarrow> code_kind (d_code d) = KGrant" "d_mode d = ReadWrite \<longleftrightarrow> d_code d = Attached"
    "\<not> d_ok d \<Longrightarrow> d_mode d = ReadOnly"
    "d_mode d = ReadWrite \<longleftrightarrow> may_drive (taker_entitled e p perms u) \<and> has_write_slots p"
    "d_ok d \<longleftrightarrow> entitlement_code (taker_entitled e p perms u) = None"
  using taker_entitled_cases[of e p perms u]
  by (auto simp: assms resolve_access_mode_def Let_def rw_mode_or_demote_def)

lemma disconnect_config [simp]:
  "keeps_config (cm_pm s) (cm_pm (snd (disconnect_client_from_port e c n s)))"
  by (simp add: disconnect_client_from_port_def Let_def stop_client_forwarding_task_def
      unregister_client_port_def)

lemma get_port_again:
  assumes "fst (get_port n s) = Some p"
  shows "snd (ensure_unified_wrapper n (snd (get_port n s))) = snd (get_port n s)"
    "lookup_port (snd (get_port n s)) n = Some p"
  using assms get_port_lookup[of n s] by (simp_all add: ensure_unified_wrapper_def)

lemma get_port_none:
  assumes "fst (get_port n s) = None"
  shows "lookup_port (snd (ensure_unified_wrapper n (snd (get_port n s)))) n = None"
  using assms by (auto simp: get_port_def ensure_unified_wrapper_def Let_def split: option.splits)

text \<open>The state after a client left the port it was on.\<close>

definition left_old :: "env \<Rightarrow> string \<Rightarrow> cm \<Rightarrow> cm" where
  "left_old e c s = (case dict_get (client_port_map s) c of
     Some old \<Rightarrow> snd (disconnect_client_from_port e c old s) | None \<Rightarrow> s)"

lemma left_old_facts:
  assumes "cm_ok s"
  shows "cm_ok (left_old e c s) \<and> unplugged c (left_old e c s)
    \<and> keeps_config (cm_pm s) (cm_pm (left_old e c s))
    \<and> (\<forall>k. modes (left_old e c s) k c = modes s k c \<or> modes (left_old e c s) k c = None)
    \<and> (\<forall>x. x \<noteq> c \<longrightarrow> (\<forall>k. modes (left_old e c s) k x = modes s k x)
         \<and> dict_get (client_port_map (left_old e c s)) x = dict_get (client_port_map s) x)"
proof (cases "dict_get (client_port_map s) c")
  case None
  then have "dict_get (forwarding_tasks s) c = None"
    using assms by (cases "dict_get (forwarding_tasks s) c") (auto simp: cm_ok_def mapped_to_def)
  with None assms show ?thesis by (simp add: left_old_def unplugged_def)
next
  case (Some old)
  obtain r t where rt: "disconnect_client_from_port e c old s = (r, t)" by fastforce
  have "r" using disconnect_result(1)[OF rt assms] Some by (simp add: mapped_to_def)
  note r = this and D = disconnect_result[OF rt assms]
  have t: "left_old e c s = t" using Some rt by (simp add: left_old_def)
  have m: "modes t k x = (if k = old \<and> x = c then None else modes s k x)" for k x
    using D(4)[of k x] r by simp
  have "\<forall>k. modes t k c = modes s k c \<or> modes t k c = None" by (simp add: m)
  moreover have "keeps_config (cm_pm s) (cm_pm t)" using disconnect_config[of s e c old] rt by simp
  ultimately show ?thesis
    unfolding t by (intro conjI allI impI D(2) D(3)[OF r] D(5)) (simp_all add: m)
qed

lemma left_old_result:
  assumes "cm_ok s"
  shows "cm_ok (left_old e c s)" "unplugged c (left_old e c s)"
    "keeps_config (cm_pm s) (cm_pm (left_old e c s))"
    "x \<noteq> c \<Longrightarrow> modes (left_old e c s) k x = modes s k x"
    "x \<noteq> c \<Longrightarrow> dict_get (client_port_map (left_old e c s)) x = dict_get (client_port_map s) x"
    "modes (left_old e c s) k c = modes s k c \<or> modes (left_old e c s) k c = None"
  using left_old_facts[OF assms, of e c] by simp_all

definition connect_sound :: "env \<Rightarrow> string \<Rightarrow> string \<Rightarrow> string \<Rightarrow> cm \<Rightarrow> decision \<Rightarrow> cm \<Rightarrow> bool" where
  "connect_sound e c n u s d t \<longleftrightarrow>
     cm_ok t \<and> is_answer d
     \<and> (\<forall>x. x \<noteq> c \<longrightarrow> (\<forall>k. modes t k x = modes s k x)
          \<and> dict_get (client_port_map t) x = dict_get (client_port_map s) x)
     \<and> (d_ok d \<longrightarrow> mapped_to t c n \<and> modes t n c = Some (d_mode d) \<and> dict_get (forwarding_tasks t) c = Some n)
     \<and> (\<forall>k x. modes t k x = (if d_ok d \<and> k = n \<and> x = c then Some (d_mode d)
          else modes (left_old e c s) k x))
     \<and> (\<not> d_ok d \<longrightarrow> unplugged c t \<and> d_mode d = ReadOnly)
     \<and> (d_mode d = ReadWrite \<longleftrightarrow> d_code d = Attached)
     \<and> (d_mode d = ReadWrite \<longrightarrow> (\<exists>perms q. user_permissions e u = Some perms \<and>
          fst (get_port n (cm_pm (left_old e c s))) = Some q \<and> may_drive (taker_entitled e (Some q) (Some perms) u)))
     \<and> (d_ok d \<longrightarrow> user_permissions e u \<noteq> None)"

lemma connect_refused:
  assumes "cm_ok s" "cm_ok t" "bare (left_old e c s) t" "is_answer d" "\<not> d_ok d" "d_mode d = ReadOnly"
    "d_code d \<noteq> Attached"
  shows "connect_sound e c n u s d t"
  using assms left_old_result[OF assms(1), where e = e and c = c] by (simp add: connect_sound_def bare_def unplugged_def)

lemma bare_get_port [simp]: "bare s (snd (with_pm (get_port n) s))"
  by (simp add: bare_def)

lemma connect_result:
  assumes "connect_client_to_port e c n u s = (d, t)" "cm_ok s"
  shows "connect_sound e c n u s d t"
proof (cases "user_permissions e u")
  case None
  with assms left_old_result(1)[OF assms(2), of e c] show ?thesis
    by (intro connect_refused)
      (auto simp: connect_client_to_port_def left_old_def [symmetric] Let_def bare_def)
next
  case (Some perms)
  let ?s = "left_old e c s" and ?s1 = "snd (with_pm (get_port n) (left_old e c s))"
  let ?p = "fst (get_port n (cm_pm ?s))"
  have ok: "cm_ok ?s1" using left_old_result(1)[OF assms(2)] by (rule get_port_cm_ok)
  define ladder where "ladder = resolve_access_mode e ?p n (Some perms) u"
  note L = ladder_result[OF ladder_def]
  let ?fed = "case ?p of Some q \<Rightarrow> is_remote q | None \<Rightarrow> False"
  let ?m0 = "if ?fed \<and> d_mode ladder = ReadWrite then ReadOnly else d_mode ladder"
  obtain r cd s2 where att: "attach_client_to_port e n c u ?m0 ?fed (d_mode ladder) (d_code ladder) ?s1 = ((r, cd), s2)"
    by (metis surj_pair)
  have dt: "(d, t) = (if \<not> d_ok ladder then (ladder\<lparr>d_client_id := c\<rparr>, ?s1)
      else case r of
        None \<Rightarrow> (refusal (resolve_client_ip e s2) PortUnavailable c n (cm_port s2 n), s2)
      | Some m \<Rightarrow> (let s3 = snd (broadcast_presence e n True s2); p3 = cm_port s3 n in
          ((answer cd m c n (port_capacity p3))\<lparr>d_holders := holders_for (resolve_client_ip e s3) p3\<rparr>, s3)))"
    using assms(1) Some att
    by (simp add: connect_client_to_port_def left_old_def [symmetric] ladder_def [symmetric] split_beta Let_def
        cong: if_cong option.case_cong)
  show ?thesis
  proof (cases "d_ok ladder")
    case False
    then have "d_code ladder \<noteq> Attached" by (auto simp: d_ok_def)
    with False dt L assms(2) ok show ?thesis by (intro connect_refused) auto
  next
    case True
    have m0: "?m0 = (if ?fed then ReadOnly else d_mode ladder)" by (cases "d_mode ladder") auto
    note A = attach_result[OF att ok L(2)[OF True] m0 L(3)]
    show ?thesis
    proof (cases r)
      case None
      have "bare ?s s2" using A(2) None by (auto simp: bare_def)
      with None True dt A(1) assms(2) show ?thesis
        by (intro connect_refused) (auto split: if_splits)
    next
      case (Some m)
      have S: "seated ?s1 s2 c n m" "code_kind cd = KGrant" "m = ReadWrite \<longleftrightarrow> cd = Attached"
        "m = ReadWrite \<longrightarrow> d_mode ladder = ReadWrite" "cm_ok s2"
        using A(1) A(3)[OF Some] by auto
      have d: "is_answer d" "d_ok d" "d_mode d = m" "d_code d = cd" "modes t = modes s2"
        "client_port_map t = client_port_map s2" "forwarding_tasks t = forwarding_tasks s2" "cm_ok t"
        using dt True Some S grant_ok[of cd] by (auto simp: Let_def presence_ok)
      have "?p \<noteq> None" using A(4) Some get_port_none[of n "cm_pm ?s"] by (cases ?p) auto
      with S d L(5) \<open>user_permissions e u = Some perms\<close> left_old_result(4,5)[OF assms(2)] show ?thesis
        by (auto simp: connect_sound_def seated_def mapped_to_def)
    qed
  qed
qed

end
