(* ===== verification/DataPath.thy ===== *)
theory DataPath
  imports ConsoleFacts "HOL-Library.Sublist"
begin

text \<open>
  The data path of a port (\<open>handle_incoming_port_data\<close>, the forwarding tasks, \<open>write_to_port\<close>).
  The scrollback and every client's queue are logs of the newest data (\<open>scrollback\<close>,
  \<open>delivery\<close>); what a client is sent is, in order, what the port received, less the chunks the
  port counts as dropped; only a read-write client reaches the device.
\<close>

section \<open>Modes and invariants\<close>

lemma write_mode_kept [simp, frames]: "pm_mode (snd (write_to_port dev n data c s)) = pm_mode s"
  by (auto simp: write_to_port_def Let_def split: option.splits)

lemma receive_clients [simp]: "p_clients (receive_chunk rc data p) = p_clients p"
  by (simp add: receive_chunk_def Let_def fan_out_def enqueue_shared_def)

lemma incoming_mode [simp, frames]: "pm_mode (snd (handle_incoming_port_data n data rc s)) = pm_mode s"
  by (auto simp: handle_incoming_port_data_def fun_eq_iff split: option.splits)
    (auto simp: pm_mode_def pm_client_mode_def)

lemma take_chunk_mode [simp, frames]: "pm_mode (snd (take_client_chunk n c s)) = pm_mode s"
  by (auto simp: take_client_chunk_def fun_eq_iff pm_mode_def pm_client_mode_def split: option.splits)

lemma take_chunk_port_ok:
  assumes "port_ok p" "dict_get (p_queues p) c = Some q" "get_nowait q = Some (x, q')"
  shows "port_ok (p\<lparr>p_queues := dict_set c q' (p_queues p)\<rparr>)"
proof -
  have "q_max q = 100 \<and> bounded_ok q" using assms(1,2)
    by (auto simp: port_ok_def queues_ok_def dest: dict_all_get)
  then have "q_max q' = 100 \<and> bounded_ok q'"
    using assms(3) by (auto simp: get_nowait_def bounded_ok_def queue_ok_def split: list.splits)
  moreover have "c \<in> dict_keys (p_queues p)"
    using assms(2) dict_has_iff[of "p_queues p" c] by (simp add: dict_has_def)
  ultimately show ?thesis
    using assms(1) by (auto simp: port_ok_def seats_ok_def queues_ok_def insert_absorb)
qed

lemma take_chunk_ok [preserves]: "pm_ok s \<Longrightarrow> pm_ok (snd (take_client_chunk n c s))"
  by (auto simp: take_client_chunk_def intro!: put_port_ok take_chunk_port_ok dest: pm_okD
      split: option.splits)

section \<open>What the buffers hold\<close>

definition feed :: "string \<Rightarrow> bool option \<Rightarrow> bytes list \<Rightarrow> pm \<Rightarrow> pm" where
  "feed n rc ds s = fold (\<lambda>d s. snd (handle_incoming_port_data n d rc s)) ds s"

lemma receive_scroll [simp]: "p_scroll (receive_chunk rc d p) = scroll_append d (p_scroll p)"
  by (simp add: receive_chunk_def Let_def fan_out_def enqueue_shared_def)

lemma receive_queues [simp]:
  "p_queues (receive_chunk rc d p) = map (\<lambda>(c, q). (c, put_drop_oldest d q)) (p_queues p)"
  by (simp add: receive_chunk_def Let_def fan_out_def enqueue_shared_def)

lemma handle_incoming_lookup:
  "lookup_port s n = Some p \<Longrightarrow>
     lookup_port (snd (handle_incoming_port_data n d rc s)) n = Some (receive_chunk rc d p)"
  by (simp add: handle_incoming_port_data_def)

lemma feed_lookup:
  "lookup_port s n = Some p \<Longrightarrow> lookup_port (feed n rc ds s) n = Some (fold (receive_chunk rc) ds p)"
  unfolding feed_def by (induction ds arbitrary: s p) (simp_all add: handle_incoming_lookup)

lemma fold_scroll: "p_scroll (fold (receive_chunk rc) ds p) = fold scroll_append ds (p_scroll p)"
  by (induction ds arbitrary: p) simp_all

lemma fold_queue:
  "dict_get (p_queues (fold (receive_chunk rc) ds p)) c =
     map_option (fold put_drop_oldest ds) (dict_get (p_queues p) c)"
  by (induction ds arbitrary: p) (simp_all add: option.map_comp comp_def option.map_id)

section \<open>What a client is sent\<close>

datatype traffic = Received bytes | Sent

definition pending :: "pm \<Rightarrow> string \<Rightarrow> string \<Rightarrow> bytes list" where
  "pending s n c = (case lookup_port s n of
      Some p \<Rightarrow> (case dict_get (p_queues p) c of Some q \<Rightarrow> q_items q | None \<Rightarrow> [])
    | None \<Rightarrow> [])"

definition dropped :: "pm \<Rightarrow> string \<Rightarrow> nat" where
  "dropped s n = (case lookup_port s n of Some p \<Rightarrow> p_dropped p | None \<Rightarrow> 0)"

fun deliver :: "string \<Rightarrow> string \<Rightarrow> bool option \<Rightarrow> traffic list \<Rightarrow> pm \<Rightarrow> bytes list \<times> pm" where
  "deliver n c rc [] s = ([], s)"
| "deliver n c rc (Received d # es) s = deliver n c rc es (snd (handle_incoming_port_data n d rc s))"
| "deliver n c rc (Sent # es) s =
     (let (x, s1) = take_client_chunk n c s; (out, s2) = deliver n c rc es s1
      in ((case x of Some d \<Rightarrow> d # out | None \<Rightarrow> out), s2))"

fun received :: "traffic list \<Rightarrow> bytes list" where
  "received [] = []"
| "received (Received d # es) = d # received es"
| "received (Sent # es) = received es"

lemma receive_dropped:
  "p_dropped p \<le> p_dropped (receive_chunk rc d p)"
  "dict_get (p_queues p) c = Some q \<Longrightarrow> q_full q \<Longrightarrow> p_dropped p < p_dropped (receive_chunk rc d p)"
proof -
  show "p_dropped p \<le> p_dropped (receive_chunk rc d p)"
    by (simp add: receive_chunk_def Let_def fan_out_def enqueue_shared_def)
  assume q: "dict_get (p_queues p) c = Some q" "q_full q"
  then have "(c, q) \<in> set (p_queues p)" by (simp add: map_of_SomeD)
  then have "0 < count_of (q_full \<circ> snd) (p_queues p)"
    using q(2) count_of_0_iff[of "q_full \<circ> snd" "p_queues p"] by force
  then show "p_dropped p < p_dropped (receive_chunk rc d p)"
    by (simp add: receive_chunk_def Let_def fan_out_def enqueue_shared_def)
qed

lemma put_items_cases:
  "q_items (put_drop_oldest d q) = (if q_full q then tl (q_items q) else q_items q) @ [d]"
  by (simp add: put_drop_oldest_def)

lemma pending_received:
  assumes "lookup_port s n = Some p" "dict_get (p_queues p) c = Some q"
    and s': "s' = snd (handle_incoming_port_data n d rc s)"
  shows "subseq (pending s' n c) (pending s n c @ [d])" "dropped s n \<le> dropped s' n"
    "dropped s' n = dropped s n \<Longrightarrow> pending s' n c = pending s n c @ [d]"
proof -
  have p': "lookup_port s' n = Some (receive_chunk rc d p)"
    unfolding s' using assms(1) by (rule handle_incoming_lookup)
  have q': "dict_get (p_queues (receive_chunk rc d p)) c = Some (put_drop_oldest d q)"
    using assms(2) by simp
  have pend: "pending s n c = q_items q"
    "pending s' n c = (if q_full q then tl (q_items q) else q_items q) @ [d]"
    using assms(1,2) p' q' by (simp_all add: pending_def put_items_cases del: receive_queues)
  have "subseq (tl (q_items q)) (q_items q)" by (cases "q_items q") auto
  then show "subseq (pending s' n c) (pending s n c @ [d])"
    unfolding pend by (simp add: subseq_append')
  show "dropped s n \<le> dropped s' n"
    using assms(1) p' receive_dropped(1)[of p rc d] by (simp add: dropped_def)
  show "pending s' n c = pending s n c @ [d]" if "dropped s' n = dropped s n"
    using that assms(1,2) p' receive_dropped(2)[of p c q rc d] unfolding pend
    by (cases "q_full q") (auto simp: dropped_def)
qed

lemma pending_sent:
  assumes "lookup_port s n = Some p" "dict_get (p_queues p) c = Some q" "take_client_chunk n c s = (x, s')"
  shows "(case x of Some d \<Rightarrow> d # pending s' n c | None \<Rightarrow> pending s' n c) = pending s n c"
    "dropped s' n = dropped s n"
    "\<exists>p' q'. lookup_port s' n = Some p' \<and> dict_get (p_queues p') c = Some q'"
  using assms by (auto simp: take_client_chunk_def pending_def dropped_def get_nowait_def
      split: list.splits)

lemma deliver_stream:
  assumes "lookup_port s n = Some p" "dict_get (p_queues p) c = Some q" "deliver n c rc es s = (out, t)"
  shows "subseq (out @ pending t n c) (pending s n c @ received es) \<and> dropped s n \<le> dropped t n
    \<and> (dropped t n = dropped s n \<longrightarrow> out @ pending t n c = pending s n c @ received es)"
  using assms
proof (induction es arbitrary: s p q out)
  case (Cons ev es)
  show ?case
  proof (cases ev)
    case (Received d)
    let ?s = "snd (handle_incoming_port_data n d rc s)"
    have p': "lookup_port ?s n = Some (receive_chunk rc d p)"
      "dict_get (p_queues (receive_chunk rc d p)) c = Some (put_drop_oldest d q)"
      using handle_incoming_lookup[OF Cons.prems(1)] Cons.prems(2) by simp_all
    have IH: "subseq (out @ pending t n c) (pending ?s n c @ received es) \<and> dropped ?s n \<le> dropped t n
      \<and> (dropped t n = dropped ?s n \<longrightarrow> out @ pending t n c = pending ?s n c @ received es)"
      using Cons.IH[OF p'] Cons.prems(3) Received by simp
    note R = pending_received[OF Cons.prems(1,2) refl, of d rc]
    have "subseq (pending ?s n c @ received es) ((pending s n c @ [d]) @ received es)"
      using R(1) by (rule list_emb_append_mono) simp
    then have "subseq (out @ pending t n c) ((pending s n c @ [d]) @ received es)"
      using IH subseq_order.order_trans by blast
    with IH R(2,3) Received show ?thesis by auto
  next
    case Sent
    obtain x s1 out1 where x: "take_client_chunk n c s = (x, s1)" "deliver n c rc es s1 = (out1, t)"
      "out = (case x of Some d \<Rightarrow> d # out1 | None \<Rightarrow> out1)"
      using Cons.prems(3) Sent by (auto split: prod.splits)
    note S = pending_sent[OF Cons.prems(1,2) x(1)]
    obtain p1 q1 where p1: "lookup_port s1 n = Some p1" "dict_get (p_queues p1) c = Some q1"
      using S(3) by blast
    have "received (ev # es) = received es" using Sent by simp
    with Cons.IH[OF p1 x(2)] S(1)[symmetric] S(2) x(3) show ?thesis
      by (cases x) simp_all
  qed
qed simp

section \<open>The write gate\<close>

lemma ensure_events [simp, frames]: "pm_events (snd (ensure_unified_wrapper n s)) = pm_events s"
  by (simp add: ensure_unified_wrapper_def put_port_def split: option.splits)

lemma write_mode_of:
  assumes "lookup_port (snd (ensure_unified_wrapper n s)) n = Some p"
  shows "client_write_mode p c = (pm_mode s n c = Some ReadWrite, pm_mode s n c)"
proof -
  have "pm_mode s n c = map_option cr_mode (find (has_id c) (p_clients p))"
    using assms ensure_mode[of n s] by (metis pm_mode_def pm_client_mode_def option.simps(5))
  then show ?thesis by (auto simp: client_write_mode_def split: option.splits)
qed

lemma write_blocked:
  assumes "pm_mode s n c \<noteq> Some ReadWrite"
  shows "\<not> fst (write_to_port dev n data c s)" "pm_events (snd (write_to_port dev n data c s)) = pm_events s"
  using assms by (auto simp: write_to_port_def Let_def write_mode_of split: option.splits)

lemma write_passed:
  assumes "pm_mode s n c = Some ReadWrite"
  shows "pm_events (snd (write_to_port dev n data c s)) = pm_events s @ [EvData n ''out'' (Some c) data]"
proof -
  have "lookup_port s n \<noteq> None" using assms pm_mode_None_port[of s n c] by auto
  then obtain p where "lookup_port s n = Some p" "ensure_unified_wrapper n s = (True, s)"
    by (auto simp: ensure_unified_wrapper_def)
  with assms write_mode_of[of n s p c] show ?thesis
    by (simp add: write_to_port_def emit_def Let_def)
qed

end
