(* ===== verification/ConsoleSteps.thy ===== *)
theory ConsoleSteps
  imports Takeover Attach DataPath
begin

text \<open>
  Runs of the console manager: a labelled step per operation of \<^verbatim>\<open>console_manager.py\<close>, and of
  the data path under it, with the decision each request returns.  Every step keeps \<open>cm_ok\<close>;
  hence on every run no port has more writers than its capacity, and a client writes only
  after a grant made to that very client.
\<close>

section \<open>Tasks and maps under promote, release and takeover\<close>

lemma request_promotion_tasks [simp, frames]:
  "forwarding_tasks (snd (request_federated_promotion e n c s)) = forwarding_tasks s"
  by (simp add: request_federated_promotion_def with_pm_Pair Let_def)

lemma promote_seat_tasks [simp, frames]:
  "forwarding_tasks (snd (promote_seat e c n s)) = forwarding_tasks s"
  by (simp add: promote_seat_def with_pm_Pair Let_def)

lemma promote_tasks [simp, frames]:
  "forwarding_tasks (snd (promote_client_to_read_write e c n s)) = forwarding_tasks s"
  by (simp add: promote_client_to_read_write_def with_pm_Pair Let_def split_beta split: option.splits)

lemma demote_tasks [simp, frames]:
  "forwarding_tasks (snd (demote_client_to_read_only e c n b s)) = forwarding_tasks s"
  by (simp add: demote_client_to_read_only_def with_pm_Pair Let_def)

lemma take_slot_tasks [simp, frames]:
  "forwarding_tasks (snd (take_slot_local e n c u v s)) = forwarding_tasks s"
  by (simp add: take_slot_local_def Let_def split_beta)

lemma take_local_tasks [simp, frames]:
  "forwarding_tasks (snd (take_write_slot_local e n c u target q s)) = forwarding_tasks s"
  by (simp add: take_write_slot_local_def Let_def split_beta split: write_mode.splits option.splits)

lemma take_federated_tasks [simp, frames]:
  "forwarding_tasks (snd (take_write_slot_federated e n c u target s)) = forwarding_tasks s"
  by (simp add: take_write_slot_federated_def Let_def split_beta)

lemma take_tasks [simp, frames]:
  "forwarding_tasks (snd (take_write_slot e c n target s)) = forwarding_tasks s"
  by (simp add: take_write_slot_def Let_def split_beta split: option.splits)

lemma promote_cm_ok [preserves]: "cm_ok s \<Longrightarrow> cm_ok (snd (promote_client_to_read_write e c n s))"
proof -
  assume s: "cm_ok s"
  obtain d t where r: "promote_client_to_read_write e c n s = (d, t)" by fastforce
  have "cm_ok t"
    using promote_result(2,5)[OF r cm_okD[OF s]] promote_keeps[OF cm_okD[OF s], of e c n]
      promote_tasks[of e c n s] r s by (intro cm_ok_keep[OF s]) auto
  with r show ?thesis by simp
qed

lemma demote_cm_ok [preserves]: "cm_ok s \<Longrightarrow> cm_ok (snd (demote_client_to_read_only e c n b s))"
proof -
  assume s: "cm_ok s"
  obtain d t where r: "demote_client_to_read_only e c n b s = (d, t)" by fastforce
  have "cm_ok t"
    using demote_modes_result[OF r] demote_effect(5)[OF r] demote_keeps[OF cm_okD[OF s], of e c n b]
      demote_tasks[of e c n b s] r s by (intro cm_ok_keep[OF s]) auto
  with r show ?thesis by simp
qed

lemma take_sound_mode:
  assumes "take_sound s n taker d t"
  obtains "\<not> d_ok d" "modes t m x = modes s m x"
  | victim where "d_ok d" "modes t m x = (if m = n \<and> x = taker then Some ReadWrite
      else if m = n \<and> Some x = victim then Some ReadOnly else modes s m x)"
proof (cases "d_ok d")
  case True
  with assms obtain victim where "take_effect s t n taker victim" by (auto simp: take_sound_def)
  with True show ?thesis by (intro that(2)) (simp_all add: take_effect_def)
qed (use assms in \<open>simp add: take_sound_def that(1)\<close>)

lemma take_sound_modes:
  assumes "take_sound s n taker d t" "modes s m x \<noteq> None" shows "modes t m x \<noteq> None"
  using assms(1) by (rule take_sound_mode[of s n taker d t m x]) (use assms(2) in auto)

lemma take_cm_ok [preserves]: "cm_ok s \<Longrightarrow> cm_ok (snd (take_write_slot e c n target s))"
proof -
  assume s: "cm_ok s"
  obtain d t where r: "take_write_slot e c n target s = (d, t)" by fastforce
  note T = take_write_slot_sound[OF r cm_okD[OF s]]
  have "cm_ok t"
    using T take_tasks[of e c n target s] r
    by (intro cm_ok_keep[OF s _ _ _ take_sound_modes[OF T]]) (auto simp: take_sound_def)
  with r show ?thesis by simp
qed

section \<open>Sending to a client\<close>

lemma send_multi_frames [simp, frames]:
  "cm_pm (snd (send_via_multi e c data ms s)) = cm_pm s"
  "client_port_map (snd (send_via_multi e c data ms s)) = client_port_map s"
  "forwarding_tasks (snd (send_via_multi e c data ms s)) = forwarding_tasks s"
  by (induction ms) simp_all

lemma send_legacy_frames [simp, frames]:
  "cm_pm (snd (send_via_legacy e c data s)) = cm_pm s"
  "client_port_map (snd (send_via_legacy e c data s)) = client_port_map s"
  "forwarding_tasks (snd (send_via_legacy e c data s)) = forwarding_tasks s"
  by (simp_all add: send_via_legacy_def split: option.splits bool.splits)

lemma send_data_frames [simp, frames]:
  "cm_pm (snd (send_data_to_client e c data s)) = cm_pm s"
  "client_port_map (snd (send_data_to_client e c data s)) = client_port_map s"
  "forwarding_tasks (snd (send_data_to_client e c data s)) = forwarding_tasks s"
  by (simp_all add: send_data_to_client_def Let_def split_beta split: option.splits)

lemma forward_frames [simp, frames]:
  "cm_pm (snd (forward_step e n c s)) = snd (take_client_chunk n c (cm_pm s))"
  "client_port_map (snd (forward_step e n c s)) = client_port_map s"
  "forwarding_tasks (snd (forward_step e n c s)) = forwarding_tasks s"
  by (simp_all add: forward_step_def with_pm_Pair Let_def split_beta split: option.splits)

section \<open>Steps and runs\<close>

datatype label =
    Connect string string string decision
  | Disconnect string string bool
  | Promote string string decision
  | Release string string bool decision
  | Take string string "string option" decision
  | WriteData string bytes string bool
  | PortData string bytes
  | Forwarded string string
  | Presence string

inductive console_step :: "env \<Rightarrow> (string \<Rightarrow> bytes \<Rightarrow> dev_result) \<Rightarrow> cm \<Rightarrow> label \<Rightarrow> cm \<Rightarrow> bool"
  for e dev where
    connect: "connect_client_to_port e c n u s = (d, t) \<Longrightarrow> console_step e dev s (Connect c n u d) t"
  | disconnect: "disconnect_client_from_port e c n s = (r, t) \<Longrightarrow> console_step e dev s (Disconnect c n r) t"
  | promote: "promote_client_to_read_write e c n s = (d, t) \<Longrightarrow> console_step e dev s (Promote c n d) t"
  | release: "demote_client_to_read_only e c n b s = (d, t) \<Longrightarrow> console_step e dev s (Release c n b d) t"
  | take_slot: "take_write_slot e c n target s = (d, t) \<Longrightarrow> console_step e dev s (Take c n target d) t"
  | write_data: "cm_write_to_port dev n data c s = (r, t) \<Longrightarrow> console_step e dev s (WriteData n data c r) t"
  | port_data: "with_pm (handle_incoming_port_data n data rc) s = (r, t) \<Longrightarrow> console_step e dev s (PortData n data) t"
  | forward: "forward_step e n c s = (r, t) \<Longrightarrow> console_step e dev s (Forwarded n c) t"
  | presence: "on_federated_viewers_updated e n event s = t \<Longrightarrow> console_step e dev s (Presence n) t"

inductive_cases console_stepE [consumes 1, case_names connect disconnect promote release take_slot
  write_data port_data forward presence]: "console_step e dev s l t"

inductive_simps console_step_simps:
  "console_step e dev s (Connect c n u d) t" "console_step e dev s (Disconnect c n r) t"
  "console_step e dev s (Promote c n d) t" "console_step e dev s (Release c n b d) t"
  "console_step e dev s (Take c n target d) t" "console_step e dev s (WriteData n data c r) t"

inductive console_run :: "env \<Rightarrow> (string \<Rightarrow> bytes \<Rightarrow> dev_result) \<Rightarrow> cm \<Rightarrow> label list \<Rightarrow> cm \<Rightarrow> bool"
  for e dev where
    start: "console_run e dev s [] s"
  | step: "console_run e dev s ls t \<Longrightarrow> console_step e dev t l u \<Longrightarrow> console_run e dev s (ls @ [l]) u"

lemma step_keeps_ok:
  assumes "console_step e dev s l t" "cm_ok s" shows "cm_ok t"
  using assms(1)
proof (cases rule: console_stepE)
  case (connect c n u d)
  with connect_result[OF connect(2) assms(2)] show ?thesis by (simp add: connect_sound_def)
next
  case (disconnect c n r)
  with disconnect_result(2)[OF disconnect(2) assms(2)] show ?thesis by simp
next
  case (promote c n d)
  with promote_cm_ok[OF assms(2), of e c n] show ?thesis by simp
next
  case (release c n b d)
  with demote_cm_ok[OF assms(2), of e c n b] show ?thesis by simp
next
  case (take_slot c n target d)
  with take_cm_ok[OF assms(2), of e c n target] show ?thesis by simp
next
  case (write_data n data c r)
  then show ?thesis using assms(2) write_ok[OF cm_okD[OF assms(2)]]
    by (intro cm_ok_keep[OF assms(2)]) (auto simp: cm_write_to_port_def with_pm_Pair modes_eq)
next
  case (port_data n data rc r)
  then show ?thesis using assms(2) handle_incoming_ok[OF cm_okD[OF assms(2)]]
    by (intro cm_ok_keep[OF assms(2)]) (auto simp: with_pm_Pair modes_eq)
next
  case (forward n c r)
  then show ?thesis using take_chunk_ok[OF cm_okD[OF assms(2)]] forward_frames[of e n c s]
    by (intro cm_ok_keep[OF assms(2)]) (auto simp: modes_eq)
next
  case (presence n event)
  then show ?thesis using assms(2) by (auto simp: on_federated_viewers_updated_def presence_ok)
qed

lemma run_keeps_ok: "console_run e dev s ls t \<Longrightarrow> cm_ok s \<Longrightarrow> cm_ok t"
  by (induction rule: console_run.induct) (auto intro: step_keeps_ok)

lemma ok_bounded: "cm_ok s \<Longrightarrow> enat (pm_writers (cm_pm s) n) \<le> pm_capacity (cm_pm s) n"
  by (rule slots.bounded) (rule cm_okD)

section \<open>Write access comes from grants\<close>

fun grants :: "label \<Rightarrow> string \<Rightarrow> string \<Rightarrow> bool" where
  "grants (Connect c n u d) n' c' \<longleftrightarrow> n' = n \<and> c' = c \<and> d_ok d \<and> d_mode d = ReadWrite"
| "grants (Promote c n d) n' c' \<longleftrightarrow> n' = n \<and> c' = c \<and> d_ok d"
| "grants (Take c n target d) n' c' \<longleftrightarrow> n' = n \<and> c' = c \<and> d_ok d"
| "grants _ _ _ \<longleftrightarrow> False"

lemma connect_grants:
  assumes "connect_sound e c n u s d t" "cm_ok s" "modes t m x = Some ReadWrite"
    and "modes s m x \<noteq> Some ReadWrite"
  shows "m = n \<and> x = c \<and> d_ok d \<and> d_mode d = ReadWrite"
proof (rule ccontr)
  assume a: "\<not> ?thesis"
  have "modes t m x = (if d_ok d \<and> m = n \<and> x = c then Some (d_mode d) else modes (left_old e c s) m x)"
    using assms(1) by (simp add: connect_sound_def)
  with a assms(3) have "modes (left_old e c s) m x = Some ReadWrite" by (auto split: if_splits)
  with assms(2,4) left_old_result(4)[OF assms(2), of x c e m] left_old_result(6)[OF assms(2), of e c m]
  show False by (cases "x = c") auto
qed

lemma take_grants:
  assumes "take_sound s n c d t" "modes t m x = Some ReadWrite" "modes s m x \<noteq> Some ReadWrite"
  shows "m = n \<and> x = c \<and> d_ok d"
  using assms(1)
  by (rule take_sound_mode[of s n c d t m x]) (use assms(2,3) in \<open>auto split: if_splits\<close>)

lemma step_grants:
  assumes "console_step e dev s l t" "cm_ok s" "modes t m x = Some ReadWrite"
    and "modes s m x \<noteq> Some ReadWrite"
  shows "grants l m x"
  using assms(1)
proof (cases rule: console_stepE)
  case (connect c n u d)
  with connect_grants[OF connect_result[OF connect(2) assms(2)] assms(2-4)] show ?thesis by simp
next
  case (disconnect c n r)
  with disconnect_result(4)[OF disconnect(2) assms(2), of m x] assms(3,4) show ?thesis
    by (simp split: if_splits)
next
  case (promote c n d)
  with promote_result(2)[OF promote(2) cm_okD[OF assms(2)], of m x] assms(3,4) show ?thesis
    by (simp split: if_splits)
next
  case (release c n b d)
  with demote_modes_result[OF release(2), of m x] assms(3,4) show ?thesis
    by (simp split: if_splits)
next
  case (take_slot c n target d)
  with take_grants[OF take_write_slot_sound[OF take_slot(2) cm_okD[OF assms(2)]] assms(3,4)]
  show ?thesis by simp
next
  case (write_data n data c r)
  with assms(3,4) show ?thesis by (auto simp: cm_write_to_port_def with_pm_Pair modes_eq)
next
  case (port_data n data rc r)
  with assms(3,4) show ?thesis by (auto simp: with_pm_Pair modes_eq)
next
  case (forward n c r)
  then have "modes t = modes s" using forward_frames(1)[of e n c s] by (simp add: modes_eq)
  with assms(3,4) show ?thesis by simp
next
  case (presence n event)
  then have "modes t = modes s" by (auto simp: on_federated_viewers_updated_def split: if_splits)
  with assms(3,4) show ?thesis by simp
qed

lemma run_grants:
  assumes "console_run e dev s ls t" "cm_ok s" "modes t m x = Some ReadWrite"
    and "modes s m x \<noteq> Some ReadWrite"
  shows "\<exists>l \<in> set ls. grants l m x"
  using assms
proof (induction rule: console_run.induct)
  case (step s ls t l u)
  show ?case
  proof (cases "modes t m x = Some ReadWrite")
    case True
    with step.IH[OF step.prems(1) True step.prems(3)] show ?thesis by auto
  next
    case False
    have "grants l m x"
      by (rule step_grants[OF step.hyps(2) run_keeps_ok[OF step.hyps(1) step.prems(1)] step.prems(2) False])
    then show ?thesis by simp
  qed
qed (metis)

end
