(* ===== verification/SlotRaces.thy ===== *)
theory SlotRaces
  imports ConsoleSteps
begin

text \<open>
  Takeovers that interleave.  \<open>_take_slot_local\<close> gives up control between demoting the victim
  and promoting the taker (the presence broadcasts are awaited and nothing is locked), so a take
  is two steps here, with any operation of \<^verbatim>\<open>ConsoleSteps.thy\<close> and other takes in between.
  \<open>underway\<close> maps a taker to its port and victim.  The steps after a refused promotion, the
  restoring promotion included, run without giving up control.
\<close>

type_synonym underway = "(string, string \<times> client_rec) pydict"

definition take_starts :: "env \<Rightarrow> string \<Rightarrow> string \<Rightarrow> string option \<Rightarrow> cm \<Rightarrow> client_rec \<Rightarrow> bool" where
  "take_starts e taker n target s v \<longleftrightarrow>
     mapped_to s taker n \<and>
     (case cm_port s n of
        None \<Rightarrow> False
      | Some q \<Rightarrow> \<not> is_remote q \<and> wire_to_mode (p_max_rw q) = ModeOne
          \<and> may_drive (request_entitlement e s q taker) \<and> fst (resolve_take_target q taker target) = Some v)"

inductive race_step ::
  "env \<Rightarrow> (string \<Rightarrow> bytes \<Rightarrow> dev_result) \<Rightarrow> cm \<times> underway \<Rightarrow> cm \<times> underway \<Rightarrow> bool" for e dev where
    other: "console_step e dev s l t \<Longrightarrow> race_step e dev (s, k) (t, k)"
  | begin_take: "take_starts e taker n target s v \<Longrightarrow> dict_get k taker = None \<Longrightarrow>
      demote_client_to_read_only e (cr_client_id v) n True s = (dem, t) \<Longrightarrow> d_ok dem \<Longrightarrow>
      race_step e dev (s, k) (t, dict_set taker (n, v) k)"
  | won: "dict_get k taker = Some (n, v) \<Longrightarrow> promote_client_to_read_write e taker n s = (pro, t) \<Longrightarrow>
      d_ok pro \<Longrightarrow> race_step e dev (s, k) (t, dict_del taker k)"
  | lost: "dict_get k taker = Some (n, v) \<Longrightarrow> promote_client_to_read_write e taker n s = (pro, t) \<Longrightarrow>
      \<not> d_ok pro \<Longrightarrow> race_step e dev (s, k) (snd (with_pm (promote_client n (cr_client_id v)) t), dict_del taker k)"

inductive_cases race_stepE [consumes 1, case_names other begin_take won lost]:
  "race_step e dev (s, k) (t, k')"

abbreviation race_run where "race_run e dev \<equiv> (race_step e dev)\<^sup>*\<^sup>*"

lemma promote_client_cm_ok [preserves]: "cm_ok s \<Longrightarrow> cm_ok (snd (with_pm (promote_client n c) s))"
  by (rule cm_ok_keep[of s]) (simp_all add: cm_okD promote_ok promote_modes)

lemma race_keeps_ok:
  assumes "race_step e dev (s, k) (t, k')" "cm_ok s" shows "cm_ok t"
  using assms(1)
proof (cases rule: race_stepE)
  case (other l)
  then show ?thesis using step_keeps_ok[OF _ assms(2)] by simp
next
  case (begin_take taker n target v dem)
  then show ?thesis using demote_cm_ok[OF assms(2), of e "cr_client_id v" n True] by simp
next
  case (won taker n v pro)
  then show ?thesis using promote_cm_ok[OF assms(2), of e taker n] by simp
next
  case (lost taker n v pro u)
  then show ?thesis using promote_cm_ok[OF assms(2), of e taker n] by (simp add: promote_client_cm_ok)
qed

lemma race_run_ok: "race_run e dev x y \<Longrightarrow> cm_ok (fst x) \<Longrightarrow> cm_ok (fst y)"
proof (induction rule: rtranclp_induct)
  case (step y z)
  then show ?case by (cases y; cases z) (auto intro: race_keeps_ok)
qed simp

text \<open>A take that is refused leaves a writer on the port, or its victim is gone.\<close>

lemma promotion_leaves_writer:
  assumes "pm_ok p" "pm_mode p n c \<noteq> None" "pm_capacity p n \<noteq> 0"
  shows "0 < pm_writers (snd (promote_client n c p)) n"
proof (cases "fst (promote_client n c p)")
  case True
  have "pm_mode (snd (promote_client n c p)) n c = Some ReadWrite"
    using True by (simp add: promote_client_mode)
  then have "{x. pm_mode (snd (promote_client n c p)) n x = Some ReadWrite} \<noteq> {}" by auto
  then show ?thesis
    using writers_card[OF promote_ok[OF assms(1), of n c], of n] finite_writers
    by (simp add: card_gt_0_iff)
next
  case False
  then have "\<not> enat (pm_writers p n) < pm_capacity p n"
    using assms(2) promote_client_iff[OF assms(1), of n c] by (cases "pm_mode p n c"; cases "the (pm_mode p n c)") auto
  with False assms(3) show ?thesis
    by (cases "pm_writers p n") (auto simp flip: zero_enat_def)
qed

section \<open>A run where the victim is not restored\<close>

text \<open>Three clients on a one-writer port: while the take from \<open>alice\<close> by \<open>bob\<close> is suspended,
  \<open>carol\<close> is promoted into the slot it freed.\<close>

definition race_env :: env where
  "race_env = \<lparr>user_permissions = \<lambda>u. Some ''read-write'', user_groups = \<lambda>u. [],
     security_default = None, fed_reply = \<lambda>i n c r. ''read-only'', meta_resolver = \<lambda>m c. None,
     frame_accepted = \<lambda>m c. False, data_accepted = \<lambda>m c d. None\<rparr>"

definition empty_cm :: "(string, uport) pydict \<Rightarrow> cm" where
  "empty_cm ports = \<lparr>cm_pm = \<lparr>pm_ports = [], pm_adapters = [ports], pm_clock = 0, pm_events = []\<rparr>,
     client_port_map = [], forwarding_tasks = [], console_clients = [], client_manager = None,
     client_managers = [], client_to_manager = [], remote_viewers = \<lambda>n. [], cm_sent = [],
     cm_audit = [], cm_fed_calls = 0\<rparr>"

definition one_port :: "(string, uport) pydict" where
  "one_port = [(''p'', \<lparr>u_max_rw = Some (PStr ''one''), u_rw_groups = [], u_ro_groups = [],
     u_scroll_size = 10, u_has_hook = False\<rparr>)]"

definition race_start :: cm where
  "race_start = fold (\<lambda>c s. snd (connect_client_to_port race_env c ''p'' c s))
     [''alice'', ''bob'', ''carol''] (empty_cm one_port)"

definition race_mid :: cm where
  "race_mid = snd (demote_client_to_read_only race_env ''alice'' ''p'' True race_start)"

definition race_late :: cm where
  "race_late = snd (promote_client_to_read_write race_env ''carol'' ''p'' race_mid)"

definition race_lost :: cm where
  "race_lost = snd (with_pm (promote_client ''p'' ''alice'')
     (snd (promote_client_to_read_write race_env ''bob'' ''p'' race_late)))"

definition alice_rec :: client_rec where
  "alice_rec = \<lparr>cr_client_id = ''alice'', cr_username = ''alice'', cr_mode = ReadWrite, cr_connected_at = 0\<rparr>"

lemma empty_cm_ok: "cm_ok (empty_cm ports)"
  by (simp add: cm_ok_def empty_cm_def pm_ok_def mapped_to_def)

lemma connect_keeps_ok: "cm_ok s \<Longrightarrow> cm_ok (snd (connect_client_to_port e c n u s))"
proof -
  assume s: "cm_ok s"
  obtain d t where r: "connect_client_to_port e c n u s = (d, t)" by fastforce
  with connect_result[OF r s] show ?thesis by (simp add: connect_sound_def)
qed

lemma race_start_ok: "cm_ok race_start"
  by (simp add: race_start_def connect_keeps_ok empty_cm_ok)

lemma race_modes:
  "map (modes race_start ''p'') [''alice'', ''bob'', ''carol''] = [Some ReadWrite, Some ReadOnly, Some ReadOnly]"
  "map (modes race_lost ''p'') [''alice'', ''bob'', ''carol''] = [Some ReadOnly, Some ReadOnly, Some ReadWrite]"
  by code_simp+

lemma race_parts:
  "take_starts race_env ''bob'' ''p'' None race_start alice_rec"
  "d_ok (fst (demote_client_to_read_only race_env ''alice'' ''p'' True race_start))"
  "\<not> d_ok (fst (promote_client_to_read_write race_env ''bob'' ''p'' race_late))"
  by code_simp+

end
