(* ===== verification/MuxFrames.thy ===== *)
theory MuxFrames
  imports Utf8
begin

text \<open>
  \<^verbatim>\<open>openmux/server/muxcon_protocol.py\<close> and the frame reader of
  \<^verbatim>\<open>openmux/server/adapters/muxcon.py\<close>: a frame is
  \<open>#<stream>:<type>:<length>:<seq>:<payload>\<close> and a newline.  The reader consumes a byte stream;
  its input is what the peer sends until it closes, so running out of bytes is the end of file.
  \<open>stream_codec\<close> is the contract of a self-delimiting encoding, proved once to read back any
  concatenation.
\<close>

section \<open>Building frames\<close>

definition NL :: char where
  "NL = char_of (10::nat)"

definition frame_bytes :: "int \<Rightarrow> string \<Rightarrow> int \<Rightarrow> bytes \<Rightarrow> bytes" where
  "frame_bytes stream_id ty seq payload =
     ''#'' @ int_str stream_id @ '':'' @ ty @ '':'' @ nat_str (length payload) @ '':'' @ int_str seq @ '':''
     @ payload @ [NL]"

definition create_control_frame :: "int \<Rightarrow> int \<Rightarrow> string \<Rightarrow> bytes" where
  "create_control_frame stream_id seq payload = frame_bytes stream_id ''C'' seq (encode_text payload)"

text \<open>\<open>upper()\<close> and \<open>encode("ascii")\<close>: sharp s becomes two ASCII letters, every other character
  outside ASCII stays outside and makes the encoding raise.\<close>

definition upper_of :: "char \<Rightarrow> string" where
  "upper_of c = (if 97 \<le> code c \<and> code c \<le> 122 then [char_of (code c - 32)]
     else if code c = 223 then ''SS'' else [c])"

definition is_ascii :: "string \<Rightarrow> bool" where
  "is_ascii s \<longleftrightarrow> list_all (\<lambda>c. code c < 128) s"

definition create_command_frame :: "string \<Rightarrow> int \<Rightarrow> int \<Rightarrow> string \<Rightarrow> py_error + bytes" where
  "create_command_frame command stream_id seq payload =
     (let cmd = concat (map upper_of command) in
      if is_ascii cmd then Inr (frame_bytes stream_id cmd seq (encode_text payload))
      else Inl (ValueError ''ascii codec''))"

definition create_data_frame :: "int \<Rightarrow> int \<Rightarrow> bytes \<Rightarrow> bytes" where
  "create_data_frame stream_id seq data = frame_bytes stream_id ''D'' seq data"

definition create_stream_open_frame :: "int \<Rightarrow> int \<Rightarrow> string \<Rightarrow> bytes" where
  "create_stream_open_frame stream_id seq port_name = frame_bytes stream_id ''O'' seq (encode_text port_name)"

definition create_stream_close_frame :: "int \<Rightarrow> int \<Rightarrow> string \<Rightarrow> bytes" where
  "create_stream_close_frame stream_id seq reason = frame_bytes stream_id ''E'' seq (encode_text reason)"

definition create_ack_frame :: "int \<Rightarrow> int \<Rightarrow> bytes" where
  "create_ack_frame acked_seq seq = frame_bytes 0 ''A'' seq (encode_text (int_str acked_seq))"

definition create_heartbeat_request :: "int \<Rightarrow> int \<Rightarrow> py_error + bytes" where
  "create_heartbeat_request ts seq = create_command_frame ''HB'' 0 seq (''REQ:'' @ int_str ts)"

definition create_heartbeat_ack :: "int \<Rightarrow> int \<Rightarrow> py_error + bytes" where
  "create_heartbeat_ack ts seq = create_command_frame ''HB'' 0 seq (''ACK:'' @ int_str ts)"

definition create_port_list_request :: "int \<Rightarrow> bytes" where
  "create_port_list_request seq = create_control_frame 0 seq ''PORTS:LIST:FEDERATED''"

section \<open>Reading frames\<close>

text \<open>\<open>str.split(sep, maxsplit)\<close>.\<close>

fun split_max :: "nat \<Rightarrow> char \<Rightarrow> string \<Rightarrow> string list" where
  "split_max 0 d s = [s]"
| "split_max (Suc n) d s =
     (case dropWhile (\<lambda>c. c \<noteq> d) s of
        [] \<Rightarrow> [s]
      | _ # rest \<Rightarrow> takeWhile (\<lambda>c. c \<noteq> d) s # split_max n d rest)"

definition parse_frame_header :: "bytes \<Rightarrow> (int \<times> string \<times> int \<times> int) option" where
  "parse_frame_header line =
     (if \<not> is_ascii line then None
      else
        (let line_str = strip line in
         if \<not> startswith ''#'' line_str then None
         else
           (case split_max 4 (CHR '':'') (tl line_str) of
              sid # ty # len # seq # _ \<Rightarrow>
                (case (py_int sid, py_int len, py_int seq) of
                   (Some i, Some l, Some q) \<Rightarrow> Some (i, ty, l, q)
                 | _ \<Rightarrow> None)
            | _ \<Rightarrow> None)))"

record frame_obj =
  fr_stream :: int
  fr_type :: string
  fr_payload :: bytes
  fr_seq :: int

datatype read_result = ReadFrame frame_obj bytes | BadHeader bytes | EndOfFile

fun seek_start :: "bytes \<Rightarrow> bytes option" where
  "seek_start [] = None"
| "seek_start (b # bs) = (if b = CHR ''#'' then Some bs else seek_start bs)"

text \<open>Bytes up to and including the n-th colon.\<close>

fun read_colons :: "nat \<Rightarrow> bytes \<Rightarrow> (bytes \<times> bytes) option" where
  "read_colons 0 bs = Some ([], bs)"
| "read_colons (Suc n) [] = None"
| "read_colons (Suc n) (b # bs) =
     (case read_colons (if b = CHR '':'' then n else Suc n) bs of
        None \<Rightarrow> None | Some (h, rest) \<Rightarrow> Some (b # h, rest))"

definition read_exactly :: "nat \<Rightarrow> bytes \<Rightarrow> (bytes \<times> bytes) option" where
  "read_exactly n bs = (if length bs < n then None else Some (take n bs, drop n bs))"

definition read_frame_raw :: "bytes \<Rightarrow> read_result" where
  "read_frame_raw input =
     (case seek_start input of
        None \<Rightarrow> EndOfFile
      | Some bs \<Rightarrow>
          (case read_colons 4 bs of
             None \<Rightarrow> EndOfFile
           | Some (h, rest) \<Rightarrow>
               (case parse_frame_header (''#'' @ h) of
                  None \<Rightarrow> BadHeader rest
                | Some (sid, ty, len, seq) \<Rightarrow>
                    (case (if len > 0 then read_exactly (nat len) rest else Some ([], rest)) of
                       None \<Rightarrow> EndOfFile
                     | Some (payload, rest2) \<Rightarrow>
                         (case read_exactly 1 rest2 of
                            None \<Rightarrow> EndOfFile
                          | Some (_, rest3) \<Rightarrow>
                              ReadFrame \<lparr>fr_stream = sid, fr_type = ty, fr_payload = payload, fr_seq = seq\<rparr> rest3)))))"

text \<open>The supported capability tokens.\<close>

definition validate_capabilities :: "string list \<Rightarrow> string list" where
  "validate_capabilities capabilities = filter (\<lambda>cap. cap \<in> set
     [''multi_hop'', ''conflict_resolution'', ''metadata'', ''topology_discovery'', ''port_federation'',
      ''remote_registration'', ''chain_tracking'']) capabilities"

section \<open>Self-delimiting streams\<close>

locale stream_codec =
  fixes enc :: "'f \<Rightarrow> bytes"
    and dec :: "bytes \<Rightarrow> ('f \<times> bytes) option"
    and valid :: "'f \<Rightarrow> bool"
  assumes dec_enc: "valid f \<Longrightarrow> dec (enc f @ rest) = Some (f, rest)"
    and dec_empty: "dec [] = None"
begin

fun dec_all :: "nat \<Rightarrow> bytes \<Rightarrow> 'f list" where
  "dec_all 0 bs = []"
| "dec_all (Suc n) bs = (case dec bs of None \<Rightarrow> [] | Some (f, rest) \<Rightarrow> f # dec_all n rest)"

lemma dec_concat:
  "\<forall>f \<in> set fs. valid f \<Longrightarrow> length fs < n \<Longrightarrow> dec_all n (concat (map enc fs)) = fs"
proof (induction fs arbitrary: n)
  case Nil
  then show ?case by (cases n) (simp_all add: dec_empty)
next
  case (Cons f fs)
  then obtain m where "n = Suc m" by (cases n) auto
  with Cons show ?case by (simp add: dec_enc)
qed

text \<open>Encodings are uniquely decodable: two sequences of frames with the same bytes are equal.\<close>

lemma enc_inject:
  assumes "\<forall>f \<in> set fs. valid f" "\<forall>f \<in> set gs. valid f"
    and "concat (map enc fs) = concat (map enc gs)"
  shows "fs = gs"
proof -
  let ?n = "Suc (length fs + length gs)"
  have "dec_all ?n (concat (map enc fs)) = fs" by (rule dec_concat) (use assms in simp_all)
  moreover have "dec_all ?n (concat (map enc gs)) = gs" by (rule dec_concat) (use assms in simp_all)
  ultimately show ?thesis using assms(3) by simp
qed

end

section \<open>The frame codec\<close>

definition encode_frame :: "frame_obj \<Rightarrow> bytes" where
  "encode_frame f = frame_bytes (fr_stream f) (fr_type f) (fr_seq f) (fr_payload f)"

definition decode_frame :: "bytes \<Rightarrow> (frame_obj \<times> bytes) option" where
  "decode_frame bs = (case read_frame_raw bs of ReadFrame f rest \<Rightarrow> Some (f, rest) | _ \<Rightarrow> None)"

definition frame_ok :: "frame_obj \<Rightarrow> bool" where
  "frame_ok f \<longleftrightarrow> is_ascii (fr_type f) \<and> CHR '':'' \<notin> set (fr_type f)"

lemma read_colons_word:
  "CHR '':'' \<notin> set w \<Longrightarrow> read_colons (Suc n) (w @ CHR '':'' # bs) =
     (case read_colons n bs of None \<Rightarrow> None | Some (h, rest) \<Rightarrow> Some (w @ CHR '':'' # h, rest))"
  by (induction w) (auto split: option.splits)

lemma int_str_chars: "c \<in> set (int_str i) \<Longrightarrow> isdecimal c \<or> c = CHR ''-''"
  using nat_str_decimal by (auto simp: int_str_def split: if_splits)

lemma int_str_no_colon [simp]: "CHR '':'' \<notin> set (int_str i)" "CHR '':'' \<notin> set (nat_str n)"
  using int_str_chars[of "CHR '':''" i] nat_str_decimal[of n] by (auto simp: isdecimal_def)

lemma is_ascii_simps [simp]: "is_ascii []" "is_ascii (a @ b) \<longleftrightarrow> is_ascii a \<and> is_ascii b"
  "is_ascii (c # s) \<longleftrightarrow> code c < 128 \<and> is_ascii s"
  by (simp_all add: is_ascii_def)

lemma is_ascii_int_str [simp]: "is_ascii (int_str i)" "is_ascii (nat_str n)"
  using int_str_chars[of _ i] nat_str_decimal[of n]
  by (force simp: is_ascii_def list_all_iff isdecimal_def)+

lemma while_word:
  "d \<notin> set w \<Longrightarrow> takeWhile (\<lambda>c. c \<noteq> d) (w @ d # s) = w"
  "d \<notin> set w \<Longrightarrow> dropWhile (\<lambda>c. c \<noteq> d) (w @ d # s) = d # s"
  by (induction w) auto

lemma split_max_word: "d \<notin> set w \<Longrightarrow> split_max (Suc n) d (w @ d # s) = w # split_max n d s"
  by (simp add: while_word)

lemma strip_edges:
  assumes "s \<noteq> []" "\<not> isspace (hd s)" "\<not> isspace (last s)" shows "strip s = s"
proof -
  have "dropWhile isspace s = s" using assms(1,2) by (cases s) auto
  moreover have "dropWhile isspace (rev s) = rev s"
    using assms(1,3) by (cases "rev s") (auto simp: last_rev hd_rev simp flip: last_rev)
  ultimately show ?thesis by (simp add: strip_def lstrip_def rstrip_def)
qed

lemma py_int_nat_str [simp]: "py_int (nat_str n) = Some (int n)"
  using py_int_int_str[of "int n"] by (simp add: int_str_def)

lemma parse_built_header:
  assumes "is_ascii ty" "CHR '':'' \<notin> set ty"
  shows "parse_frame_header (''#'' @ int_str sid @ '':'' @ ty @ '':'' @ nat_str n @ '':'' @ int_str seq @ '':'')
     = Some (sid, ty, int n, seq)"
proof -
  let ?l = "''#'' @ int_str sid @ '':'' @ ty @ '':'' @ nat_str n @ '':'' @ int_str seq @ '':''"
  have strip: "strip ?l = ?l" by (rule strip_edges) (simp_all add: isspace_def)
  have "split_max 4 (CHR '':'') (tl ?l) = [int_str sid, ty, nat_str n, int_str seq, []]"
    using assms(2) by (simp add: split_max_word eval_nat_numeral del: split_max.simps) (simp add: split_max_word)
  with strip assms(1) show ?thesis
    by (simp add: parse_frame_header_def startswith_def Let_def del: split_max.simps)
qed

lemma read_built_frame:
  assumes "is_ascii ty" "CHR '':'' \<notin> set ty"
  shows "read_frame_raw (frame_bytes sid ty seq payload @ rest) =
    ReadFrame \<lparr>fr_stream = sid, fr_type = ty, fr_payload = payload, fr_seq = seq\<rparr> rest"
proof -
  let ?h = "int_str sid @ '':'' @ ty @ '':'' @ nat_str (length payload) @ '':'' @ int_str seq @ '':''"
  have "read_colons 4 (?h @ payload @ NL # rest) = Some (?h, payload @ NL # rest)"
    using assms(2) by (simp add: eval_nat_numeral read_colons_word)
  moreover have "seek_start (frame_bytes sid ty seq payload @ rest) = Some (?h @ payload @ NL # rest)"
    by (simp add: frame_bytes_def)
  moreover have "parse_frame_header (''#'' @ ?h) = Some (sid, ty, int (length payload), seq)"
    using parse_built_header[OF assms] by simp
  ultimately show ?thesis
    by (cases "payload = []") (simp_all add: read_frame_raw_def read_exactly_def)
qed

interpretation frames: stream_codec encode_frame decode_frame frame_ok
proof unfold_locales
  show "frame_ok f \<Longrightarrow> decode_frame (encode_frame f @ rest) = Some (f, rest)" for f rest
    by (simp add: frame_ok_def encode_frame_def decode_frame_def read_built_frame)
  show "decode_frame [] = None" by (simp add: decode_frame_def read_frame_raw_def)
qed

section \<open>A connection\<close>

text \<open>The read loop: frames until the reader reports the end or a malformed header.\<close>

fun read_frames :: "nat \<Rightarrow> bytes \<Rightarrow> frame_obj list" where
  "read_frames 0 input = []"
| "read_frames (Suc n) input =
     (case read_frame_raw input of ReadFrame f rest \<Rightarrow> f # read_frames n rest | _ \<Rightarrow> [])"

lemma read_frames_dec: "read_frames n input = frames.dec_all n input"
  by (induction n arbitrary: input) (simp_all add: decode_frame_def split: read_result.splits)

lemma frames_bytes: "length fs \<le> length (concat (map encode_frame fs))"
  by (induction fs) (auto simp: encode_frame_def frame_bytes_def)

text \<open>Whatever a server writes with the frame builders, the reader of the other server gives back:
  the stream id, the type, the sequence number and the payload, also when the payload contains
  colons, newlines or \<open>#\<close>, and the following bytes are left for the next frame.\<close>

theorem built_frames_read_back:
  "read_frame_raw (create_data_frame sid seq data @ rest) =
     ReadFrame \<lparr>fr_stream = sid, fr_type = ''D'', fr_payload = data, fr_seq = seq\<rparr> rest
   \<and> (\<exists>f. read_frame_raw (create_control_frame sid seq text @ rest) = ReadFrame f rest
        \<and> fr_type f = ''C'' \<and> fr_stream f = sid \<and> decode_text_ignore (fr_payload f) = text)
   \<and> (\<exists>f. read_frame_raw (create_stream_open_frame sid seq port @ rest) = ReadFrame f rest
        \<and> fr_type f = ''O'' \<and> fr_stream f = sid \<and> decode_text_ignore (fr_payload f) = port)
   \<and> (\<exists>f. read_frame_raw (create_stream_close_frame sid seq reason @ rest) = ReadFrame f rest
        \<and> fr_type f = ''E'' \<and> fr_stream f = sid \<and> decode_text_ignore (fr_payload f) = reason)"
  unfolding create_data_frame_def create_control_frame_def create_stream_open_frame_def
    create_stream_close_frame_def
  by (simp add: read_built_frame)

text \<open>C40: A whole connection reads back: the bytes of any sequence of frames, one after the other, are
  read as exactly that sequence.\<close>

theorem connection_reads_back:
  assumes "\<forall>f \<in> set fs. frame_ok f"
  shows "read_frames (Suc (length (concat (map encode_frame fs)))) (concat (map encode_frame fs)) = fs"
  using frames.dec_concat[OF assms, of "Suc (length (concat (map encode_frame fs)))"] frames_bytes[of fs]
  unfolding read_frames_dec by simp

lemma nat_str_digit: "n < 10 \<Longrightarrow> nat_str n = [digit_char n]"
  by (simp add: nat_str.simps[of n])

theorem connection_reads_back_witness:
  "read_frames 25 (''#1:D:3:7:a:#'' @ [NL] @ ''#0:HB:0:8:'' @ [NL]) =
   [\<lparr>fr_stream = 1, fr_type = ''D'', fr_payload = ''a:#'', fr_seq = 7\<rparr>,
    \<lparr>fr_stream = 0, fr_type = ''HB'', fr_payload = [], fr_seq = 8\<rparr>]" (is "_ = ?fs")
proof -
  have b: "concat (map encode_frame ?fs) = ''#1:D:3:7:a:#'' @ [NL] @ ''#0:HB:0:8:'' @ [NL]"
    by (simp add: encode_frame_def frame_bytes_def int_str_def nat_str_digit digit_char_def char_of_def bit_iff_odd)
  have "\<forall>f \<in> set ?fs. frame_ok f" by (simp add: frame_ok_def)
  from connection_reads_back[OF this] show ?thesis unfolding b by (simp add: eval_nat_numeral del: read_frames.simps)
qed

end
