(* ===== verification/MuxTransport.thy ===== *)
theory MuxTransport
  imports MuxFrames "HOL-Library.Sublist"
begin

text \<open>
  The reliable data path between two servers in \<^verbatim>\<open>openmux/server/adapters/muxcon.py\<close>: the
  sequence numbers and the unacknowledged buffer of the sender (\<open>_send_data_mpath\<close>,
  \<open>_retx_scan_peer\<close>, \<open>_rl_handle_ack\<close>), the reorder buffer of the receiver
  (\<open>_handle_inbound_data\<close>, \<open>_flush_stuck_gap\<close>) and its reset when the peer restarts
  (\<open>_maybe_resync_peer_generation\<close>).  The state of one peer key is a record; a clock reading is an
  integer; the frames handed to \<open>_route_data_frame\<close> are a list.  Byte counters and log lines
  are left out.
\<close>

section \<open>The sender\<close>

record unacked =
  un_conn :: string
  un_stream :: int
  un_data :: bytes
  un_time :: int

record tx_state =
  tx_seq :: int
  tx_sendbuf :: "(int, unacked) pydict"

type_synonym data_frame = "int \<times> int \<times> bytes"

definition next_peer_seq :: "tx_state \<Rightarrow> int \<times> tx_state" where
  "next_peer_seq st =
     (let seq = tx_seq st; nxt = seq + 1 in
      (seq, st\<lparr>tx_seq := (if nxt \<ge> 2 ^ 63 then 1 else nxt)\<rparr>))"

text \<open>\<open>conn\<close> is the path that \<open>_select_mpath_connection\<close> picked; with none, nothing is sent.\<close>

definition send_data_mpath ::
  "string option \<Rightarrow> int \<Rightarrow> int \<Rightarrow> bytes \<Rightarrow> tx_state \<Rightarrow> data_frame option \<times> tx_state" where
  "send_data_mpath conn now stream_id data st =
     (case conn of
        None \<Rightarrow> (None, st)
      | Some c \<Rightarrow>
          (let (seq, st1) = next_peer_seq st in
           (Some (seq, stream_id, data),
            st1\<lparr>tx_sendbuf := dict_set seq \<lparr>un_conn = c, un_stream = stream_id, un_data = data, un_time = now\<rparr>
                  (tx_sendbuf st1)\<rparr>)))"

definition handle_ack :: "int option \<Rightarrow> tx_state \<Rightarrow> tx_state" where
  "handle_ack acked st =
     (case acked of None \<Rightarrow> st | Some a \<Rightarrow> st\<lparr>tx_sendbuf := dict_del a (tx_sendbuf st)\<rparr>)"

text \<open>One scan: every frame older than the timeout is sent again under its own number.\<close>

fun retx_scan :: "string option \<Rightarrow> int \<Rightarrow> int \<Rightarrow> (int, unacked) pydict \<Rightarrow> data_frame list \<times> (int, unacked) pydict" where
  "retx_scan conn now rto [] = ([], [])"
| "retx_scan conn now rto ((seq, u) # buf) =
     (let (out, buf') = retx_scan conn now rto buf in
      case conn of
        None \<Rightarrow> (out, (seq, u) # buf')
      | Some c \<Rightarrow>
          if now - un_time u < rto then (out, (seq, u) # buf')
          else ((seq, un_stream u, un_data u) # out, (seq, u\<lparr>un_conn := c, un_time := now\<rparr>) # buf'))"

section \<open>The receiver\<close>

record rx_state =
  rx_expected :: int
  rx_buffer :: "(int, int \<times> bytes) pydict"
  rx_gap_since :: "int option"
  rx_instance :: "string option"
  rx_since :: int

definition new_rx :: rx_state where
  "new_rx = \<lparr>rx_expected = 1, rx_buffer = [], rx_gap_since = None, rx_instance = None, rx_since = 0\<rparr>"

text \<open>The loops that pop consecutive frames from the buffer.\<close>

function drain :: "int \<Rightarrow> (int, int \<times> bytes) pydict \<Rightarrow> data_frame list \<times> int \<times> (int, int \<times> bytes) pydict" where
  "drain e buf =
     (case dict_get buf e of
        None \<Rightarrow> ([], e, buf)
      | Some x \<Rightarrow> (let (out, e', buf') = drain (e + 1) (dict_del e buf) in ((e, x) # out, e', buf')))"
  by pat_completeness auto
termination
proof (relation "measure (\<lambda>(e, buf). length buf)")
  fix e :: int and buf :: "(int, int \<times> bytes) pydict" and x
  assume "dict_get buf e = Some x"
  then have "(e, x) \<in> set buf" by (rule map_of_SomeD)
  then have "length (dict_del e buf) < length buf"
    unfolding AList.delete_eq by (intro length_filter_less) auto
  then show "((e + 1, dict_del e buf), (e, buf)) \<in> measure (\<lambda>(e, buf). length buf)" by simp
qed simp

declare drain.simps [simp del]

definition lowest :: "(int, int \<times> bytes) pydict \<Rightarrow> int" where
  "lowest buf = Min (set (map fst buf))"

definition flush_stuck_gap :: "rx_state \<Rightarrow> data_frame list \<times> rx_state" where
  "flush_stuck_gap st =
     (if rx_buffer st = [] then ([], st\<lparr>rx_gap_since := None\<rparr>)
      else
        (let (out, cur, buf) = drain (lowest (rx_buffer st)) (rx_buffer st) in
         (out, st\<lparr>rx_gap_since := None, rx_buffer := buf, rx_expected := cur\<rparr>)))"

definition handle_inbound :: "int \<Rightarrow> int \<Rightarrow> data_frame \<Rightarrow> rx_state \<Rightarrow> data_frame list \<times> rx_state" where
  "handle_inbound gap_stuck now f st =
     (case f of (seq, stream_id, data) \<Rightarrow>
        if seq < rx_expected st then ([], st)
        else if seq = rx_expected st then
          (let (out, e, buf) = drain (seq + 1) (rx_buffer st) in
           ((seq, stream_id, data) # out,
            st\<lparr>rx_expected := e, rx_buffer := buf, rx_gap_since := None\<rparr>))
        else
          (let st1 = st\<lparr>rx_buffer := dict_set seq (stream_id, data) (rx_buffer st)\<rparr> in
           case rx_gap_since st of
             None \<Rightarrow> ([], st1\<lparr>rx_gap_since := Some now\<rparr>)
           | Some since \<Rightarrow>
               if now - since \<ge> gap_stuck then flush_stuck_gap st1 else ([], st1)))"

text \<open>\<open>inst\<close> and \<open>opened\<close> are the instance id and the opening time of the connection that
  delivered the frame.  The first component says that the frame is from a superseded generation.\<close>

definition resync_generation ::
  "string option \<Rightarrow> int \<Rightarrow> rx_state option \<times> tx_state \<Rightarrow> bool \<times> rx_state option \<times> tx_state" where
  "resync_generation inst opened s =
     (case (inst, s) of
        (None, _) \<Rightarrow> (False, s)
      | (Some i, rx, tx) \<Rightarrow>
          if i = [] then (False, s)
          else
            (case rx of
               None \<Rightarrow> (False, Some (new_rx\<lparr>rx_instance := Some i, rx_since := opened\<rparr>), tx)
             | Some st \<Rightarrow>
                 if rx_instance st = Some i then (False, s)
                 else
                   (case rx_instance st of
                      None \<Rightarrow> (False, Some (st\<lparr>rx_instance := Some i, rx_since := opened\<rparr>), tx)
                    | Some _ \<Rightarrow>
                        if opened \<le> rx_since st then (True, s)
                        else (False,
                          Some (st\<lparr>rx_instance := Some i, rx_since := opened, rx_expected := 1, rx_buffer := [],
                                   rx_gap_since := None\<rparr>),
                          tx\<lparr>tx_seq := 1, tx_sendbuf := []\<rparr>))))"

text \<open>The whole handler: resynchronise, then deliver in order.\<close>

definition inbound_data ::
  "int \<Rightarrow> int \<Rightarrow> string option \<Rightarrow> int \<Rightarrow> data_frame \<Rightarrow> rx_state option \<times> tx_state
     \<Rightarrow> data_frame list \<times> rx_state option \<times> tx_state" where
  "inbound_data gap_stuck now inst opened f s =
     (case resync_generation inst opened s of
        (True, s1) \<Rightarrow> ([], s1)
      | (False, rx, tx) \<Rightarrow>
          (let (out, st) = handle_inbound gap_stuck now f (case rx of Some st \<Rightarrow> st | None \<Rightarrow> new_rx)
           in (out, Some st, tx)))"

section \<open>The drain\<close>

lemma drain_spec:
  assumes "drain e buf = (out, e', buf')"
  shows "e \<le> e'" "out = map (\<lambda>q. (q, the (dict_get buf q))) [e..e' - 1]" "dict_get buf e' = None"
    "\<And>q. e \<le> q \<Longrightarrow> q < e' \<Longrightarrow> dict_get buf q \<noteq> None"
    "\<And>q. dict_get buf' q = (if e \<le> q \<and> q < e' then None else dict_get buf q)"
proof -
  have "e \<le> e' \<and> out = map (\<lambda>q. (q, the (dict_get buf q))) [e..e' - 1] \<and> dict_get buf e' = None
    \<and> (\<forall>q. e \<le> q \<and> q < e' \<longrightarrow> dict_get buf q \<noteq> None)
    \<and> (\<forall>q. dict_get buf' q = (if e \<le> q \<and> q < e' then None else dict_get buf q))"
    using assms
  proof (induction e buf arbitrary: out e' buf' rule: drain.induct)
    case (1 e buf)
    show ?case
    proof (cases "dict_get buf e")
      case None
      with 1(2) show ?thesis by (auto simp: drain.simps[of e buf])
    next
      case (Some x)
      then obtain o1 where o1: "drain (e + 1) (dict_del e buf) = (o1, e', buf')" "out = (e, x) # o1"
        using 1(2) by (auto simp: drain.simps[of e buf] split: prod.splits)
      note IH = 1(1)[OF Some o1(1)]
      have "e < e'" using IH by simp
      moreover from this have "[e..e' - 1] = e # [e + 1..e' - 1]" by (simp add: upto_rec1)
      moreover have "o1 = map (\<lambda>q. (q, the (dict_get buf q))) [e + 1..e' - 1]" using IH by simp
      moreover have "dict_get buf q \<noteq> None" if "e \<le> q" "q < e'" for q
        using IH that Some by (cases "q = e") auto
      moreover have "dict_get buf' q = (if e \<le> q \<and> q < e' then None else dict_get buf q)" for q
        using IH by (cases "q = e") auto
      ultimately show ?thesis using IH Some o1(2) by auto
    qed
  qed
  then show "e \<le> e'" "out = map (\<lambda>q. (q, the (dict_get buf q))) [e..e' - 1]" "dict_get buf e' = None"
    "\<And>q. e \<le> q \<Longrightarrow> q < e' \<Longrightarrow> dict_get buf q \<noteq> None"
    "\<And>q. dict_get buf' q = (if e \<le> q \<and> q < e' then None else dict_get buf q)" by blast+
qed

section \<open>What one frame does\<close>

text \<open>\<open>msg\<close> gives the contents of every sequence number up to \<open>hi\<close>.\<close>

definition rx_ok :: "(int \<Rightarrow> int \<times> bytes) \<Rightarrow> int \<Rightarrow> rx_state \<Rightarrow> bool" where
  "rx_ok msg hi st \<longleftrightarrow> 1 \<le> rx_expected st \<and> rx_expected st \<le> hi + 1
     \<and> (\<forall>q x. dict_get (rx_buffer st) q = Some x \<longrightarrow> rx_expected st < q \<and> q \<le> hi \<and> x = msg q)"

lemma rx_okI:
  "1 \<le> rx_expected st \<Longrightarrow> rx_expected st \<le> hi + 1 \<Longrightarrow>
     (\<And>q x. dict_get (rx_buffer st) q = Some x \<Longrightarrow> rx_expected st < q \<and> q \<le> hi \<and> x = msg q) \<Longrightarrow>
     rx_ok msg hi st"
  unfolding rx_ok_def by blast

lemma rx_okD:
  "rx_ok msg hi st \<Longrightarrow> dict_get (rx_buffer st) q = Some x \<Longrightarrow> rx_expected st < q \<and> q \<le> hi \<and> x = msg q"
  unfolding rx_ok_def by blast

definition flushes :: "int \<Rightarrow> int \<Rightarrow> data_frame \<Rightarrow> rx_state \<Rightarrow> bool" where
  "flushes gap_stuck now f st \<longleftrightarrow> rx_expected st < fst f \<and>
     (case rx_gap_since st of None \<Rightarrow> False | Some since \<Rightarrow> now - since \<ge> gap_stuck)"

definition keeps_frames :: "rx_state \<Rightarrow> rx_state \<Rightarrow> bool" where
  "keeps_frames st st' \<longleftrightarrow> rx_expected st \<le> rx_expected st'
     \<and> (\<forall>p. dict_get (rx_buffer st) p \<noteq> None \<longrightarrow> p < rx_expected st' \<or> dict_get (rx_buffer st') p \<noteq> None)"

lemma gap_irrelevant [simp]:
  "rx_ok msg hi (st\<lparr>rx_gap_since := g\<rparr>) = rx_ok msg hi st"
  "keeps_frames st (st'\<lparr>rx_gap_since := g\<rparr>) = keeps_frames st st'"
  by (simp_all add: rx_ok_def keeps_frames_def)

lemma drain_rx:
  assumes "drain e buf = (out, e', buf')" "1 \<le> e" "e \<le> hi + 1"
    and "\<And>q x. dict_get buf q = Some x \<Longrightarrow> e \<le> q \<and> q \<le> hi \<and> x = msg q"
  shows "e \<le> e'" "e' \<le> hi + 1" "out = map (\<lambda>q. (q, msg q)) [e..e' - 1]"
    "\<And>q x. dict_get buf' q = Some x \<Longrightarrow> e' < q \<and> q \<le> hi \<and> x = msg q"
    "\<And>p. dict_get buf p \<noteq> None \<Longrightarrow> p < e' \<or> dict_get buf' p \<noteq> None"
proof -
  note D = drain_spec[OF assms(1)]
  show "e \<le> e'" by (rule D(1))
  show "e' \<le> hi + 1"
  proof (cases "e = e'")
    case False
    then have "dict_get buf (e' - 1) \<noteq> None" using D(4)[of "e' - 1"] D(1) by simp
    then show ?thesis using assms(4) by fastforce
  qed (use assms(3) in simp)
  show "out = map (\<lambda>q. (q, msg q)) [e..e' - 1]"
    unfolding D(2)
  proof (rule map_cong[OF refl])
    fix q assume "q \<in> set [e..e' - 1]"
    then have "dict_get buf q \<noteq> None" using D(4)[of q] by simp
    then show "(q, the (dict_get buf q)) = (q, msg q)" using assms(4)[of q] by auto
  qed
  show "e' < q \<and> q \<le> hi \<and> x = msg q" if "dict_get buf' q = Some x" for q x
  proof -
    have "\<not> (e \<le> q \<and> q < e')" "dict_get buf q = Some x" using that D(5)[of q] by (auto split: if_splits)
    moreover have "q \<noteq> e'" using calculation(2) D(3) by auto
    ultimately show ?thesis using assms(4)[of q x] by auto
  qed
  show "p < e' \<or> dict_get buf' p \<noteq> None" if "dict_get buf p \<noteq> None" for p
    using that D(5)[of p] by auto
qed

lemma lowest_spec:
  assumes "buf \<noteq> []"
  shows "dict_get buf (lowest buf) \<noteq> None" "dict_get buf q = Some x \<Longrightarrow> lowest buf \<le> q"
proof -
  have f: "finite (set (map fst buf))" "set (map fst buf) \<noteq> {}" using assms by simp_all
  have "lowest buf \<in> set (map fst buf)" unfolding lowest_def by (rule Min_in[OF f])
  then show "dict_get buf (lowest buf) \<noteq> None" by (simp add: map_of_eq_None_iff)
  show "dict_get buf q = Some x \<Longrightarrow> lowest buf \<le> q"
    unfolding lowest_def using f(1) by (intro Min_le) (force dest: map_of_SomeD)+
qed

lemma flush_rx:
  assumes "flush_stuck_gap st = (out, st')" "1 \<le> rx_expected st"
    and "\<And>q x. dict_get (rx_buffer st) q = Some x \<Longrightarrow> rx_expected st < q \<and> q \<le> hi \<and> x = msg q"
    and "rx_buffer st \<noteq> []"
  shows "rx_ok msg hi st'" "keeps_frames st st'"
    "\<exists>a. rx_expected st \<le> a \<and> a \<le> rx_expected st' \<and> out = map (\<lambda>q. (q, msg q)) [a..rx_expected st' - 1]"
proof -
  let ?l = "lowest (rx_buffer st)"
  obtain cur buf where d: "drain ?l (rx_buffer st) = (out, cur, buf)"
    "st' = st\<lparr>rx_gap_since := None, rx_buffer := buf, rx_expected := cur\<rparr>"
    using assms(1,4) by (auto simp: flush_stuck_gap_def split: prod.splits)
  obtain y where "dict_get (rx_buffer st) ?l = Some y" using lowest_spec(1)[OF assms(4)] by auto
  then have l: "rx_expected st < ?l" "?l \<le> hi" using assms(3) by blast+
  have b: "dict_get (rx_buffer st) q = Some x \<Longrightarrow> ?l \<le> q \<and> q \<le> hi \<and> x = msg q" for q x
    using assms(3)[of q x] lowest_spec(2)[OF assms(4), of q x] by blast
  have "1 \<le> ?l" "?l \<le> hi + 1" using l assms(2) by simp_all
  note D = drain_rx[OF d(1) this b]
  show "rx_ok msg hi st'" using D(1,2,4) l assms(2) by (auto simp: rx_ok_def d(2))
  show "keeps_frames st st'" using D(1,5) l by (auto simp: keeps_frames_def d(2))
  show "\<exists>a. rx_expected st \<le> a \<and> a \<le> rx_expected st' \<and> out = map (\<lambda>q. (q, msg q)) [a..rx_expected st' - 1]"
    using D(1,3) l by (intro exI[of _ ?l]) (simp add: d(2))
qed

lemma inbound_rx:
  assumes "handle_inbound gap now (q, msg q) st = (out, st')" "rx_ok msg hi st" "1 \<le> q" "q \<le> hi"
  shows "rx_ok msg hi st' \<and> keeps_frames st st' \<and> (q < rx_expected st' \<or> dict_get (rx_buffer st') q \<noteq> None)
    \<and> (\<exists>a. rx_expected st \<le> a \<and> a \<le> rx_expected st' \<and> out = map (\<lambda>q. (q, msg q)) [a..rx_expected st' - 1]
       \<and> (\<not> flushes gap now (q, msg q) st \<longrightarrow> a = rx_expected st))"
proof -
  let ?e = "rx_expected st"
  consider (old) "q < ?e" | (next_one) "q = ?e" | (ahead) "?e < q" by linarith
  then show ?thesis
  proof cases
    case old
    then have "out = []" "st' = st" using assms(1) by (simp_all add: handle_inbound_def)
    with old assms(2) show ?thesis by (auto simp: keeps_frames_def intro!: exI[of _ ?e])
  next
    case next_one
    obtain out1 e' buf where d: "drain (?e + 1) (rx_buffer st) = (out1, e', buf)"
      "st' = st\<lparr>rx_expected := e', rx_buffer := buf, rx_gap_since := None\<rparr>" "out = (q, msg q) # out1"
      using assms(1) next_one by (cases "msg q") (auto simp: handle_inbound_def split: prod.splits)
    have pre: "1 \<le> ?e + 1" "?e + 1 \<le> hi + 1" using assms(2-4) next_one by (auto simp: rx_ok_def)
    have b: "dict_get (rx_buffer st) p = Some y \<Longrightarrow> ?e + 1 \<le> p \<and> p \<le> hi \<and> y = msg p" for p y
      using rx_okD[OF assms(2), of p y] by simp
    note D = drain_rx[OF d(1) pre b]
    have "[?e..e' - 1] = ?e # [?e + 1..e' - 1]" using D(1) by (simp add: upto_rec1)
    then have "out = map (\<lambda>q. (q, msg q)) [?e..e' - 1]" using D(3) d(3) next_one by simp
    moreover have "rx_ok msg hi st'" "keeps_frames st st'"
      using D assms(2) by (auto simp: rx_ok_def keeps_frames_def d(2))
    ultimately show ?thesis using D(1) next_one by (auto simp: d(2) intro!: exI[of _ ?e])
  next
    case ahead
    let ?st = "st\<lparr>rx_buffer := dict_set q (msg q) (rx_buffer st)\<rparr>"
    have b: "dict_get (rx_buffer ?st) p = Some x \<Longrightarrow> rx_expected ?st < p \<and> p \<le> hi \<and> x = msg p" for p x
      using rx_okD[OF assms(2), of p x] assms(4) ahead by (cases "p = q") auto
    have "1 \<le> rx_expected ?st" "rx_expected ?st \<le> hi + 1" using assms(2) by (simp_all add: rx_ok_def)
    then have ok: "rx_ok msg hi ?st" using b by (rule rx_okI)
    have k: "keeps_frames st ?st" by (simp add: keeps_frames_def)
    show ?thesis
    proof (cases "flushes gap now (q, msg q) st")
      case True
      then have f: "flush_stuck_gap ?st = (out, st')"
        using assms(1) ahead by (cases "msg q") (auto simp: handle_inbound_def flushes_def split: option.splits)
      have "dict_get (rx_buffer ?st) q \<noteq> None" by simp
      then have ne: "rx_buffer ?st \<noteq> []" by (metis map_of.simps(1))
      have "1 \<le> rx_expected ?st" using assms(2) by (simp add: rx_ok_def)
      note F = flush_rx[OF f this b ne]
      have "q < rx_expected st' \<or> dict_get (rx_buffer st') q \<noteq> None"
        using F(2) by (auto simp: keeps_frames_def)
      with F True k show ?thesis by (auto simp: keeps_frames_def)
    next
      case False
      then have "out = []" "st' = ?st \<or> st' = ?st\<lparr>rx_gap_since := Some now\<rparr>"
        using assms(1) ahead by (cases "msg q"; auto simp: handle_inbound_def flushes_def split: option.splits)+
      then have "out = [] \<and> rx_ok msg hi st' \<and> keeps_frames st st' \<and> rx_expected st' = ?e
        \<and> dict_get (rx_buffer st') q \<noteq> None"
        using ok k by (elim disjE) simp_all
      then show ?thesis by (intro conjI exI[of _ ?e]) simp_all
    qed
  qed
qed

section \<open>Two servers and a lossy network\<close>

text \<open>
  One direction between two running processes.  The network is the set of frames ever sent: a
  frame in it may arrive any number of times, in any order, or never.  \<open>l_sent\<close> and \<open>l_out\<close> are
  what the sender was given and what the receiver routed; \<open>l_arrived\<close> the numbers that reached the
  receiver and \<open>l_flushed\<close> whether it ever gave up on a gap.  The numbers stay below their wrap.
\<close>

record link =
  l_tx :: tx_state
  l_rx :: rx_state
  l_net :: "data_frame set"
  l_acks :: "int set"
  l_sent :: "(int \<times> bytes) list"
  l_out :: "data_frame list"
  l_arrived :: "int set"
  l_flushed :: bool

definition new_link :: link where
  "new_link = \<lparr>l_tx = \<lparr>tx_seq = 1, tx_sendbuf = []\<rparr>, l_rx = new_rx, l_net = {}, l_acks = {},
     l_sent = [], l_out = [], l_arrived = {}, l_flushed = False\<rparr>"

inductive link_step :: "int \<Rightarrow> link \<Rightarrow> link \<Rightarrow> bool" for gap where
  send: "send_data_mpath conn now sid data (l_tx l) = (Some f, tx) \<Longrightarrow> tx_seq (l_tx l) + 1 < 2 ^ 63 \<Longrightarrow>
    link_step gap l (l\<lparr>l_tx := tx, l_net := insert f (l_net l), l_sent := l_sent l @ [(sid, data)]\<rparr>)"
| retransmit: "retx_scan conn now rto (tx_sendbuf (l_tx l)) = (fs, buf) \<Longrightarrow>
    link_step gap l (l\<lparr>l_tx := (l_tx l)\<lparr>tx_sendbuf := buf\<rparr>, l_net := l_net l \<union> set fs\<rparr>)"
| arrive: "f \<in> l_net l \<Longrightarrow> handle_inbound gap now f (l_rx l) = (out, rx) \<Longrightarrow>
    link_step gap l (l\<lparr>l_rx := rx, l_out := l_out l @ out, l_acks := insert (fst f) (l_acks l),
      l_arrived := insert (fst f) (l_arrived l), l_flushed := (l_flushed l \<or> flushes gap now f (l_rx l))\<rparr>)"
| acked: "a \<in> l_acks l \<Longrightarrow> link_step gap l (l\<lparr>l_tx := handle_ack (Some a) (l_tx l)\<rparr>)"

inductive_cases link_stepE [consumes 1, case_names send retransmit arrive acked]: "link_step gap l l'"

definition nth_sent :: "(int \<times> bytes) list \<Rightarrow> int \<Rightarrow> int \<times> bytes" where
  "nth_sent sent q = sent ! nat (q - 1)"

definition tx_ok :: "link \<Rightarrow> bool" where
  "tx_ok l \<longleftrightarrow> tx_seq (l_tx l) = int (length (l_sent l)) + 1
     \<and> (\<forall>q u. (q, u) \<in> set (tx_sendbuf (l_tx l)) \<longrightarrow>
          1 \<le> q \<and> q \<le> int (length (l_sent l)) \<and> (un_stream u, un_data u) = nth_sent (l_sent l) q)
     \<and> (\<forall>q x. (q, x) \<in> l_net l \<longrightarrow> 1 \<le> q \<and> q \<le> int (length (l_sent l)) \<and> x = nth_sent (l_sent l) q)"

definition not_lost :: "link \<Rightarrow> bool" where
  "not_lost l \<longleftrightarrow> l_acks l \<subseteq> l_arrived l
     \<and> (\<forall>q. 1 \<le> q \<and> q \<le> int (length (l_sent l)) \<longrightarrow> q \<in> dict_keys (tx_sendbuf (l_tx l)) \<or> q \<in> l_arrived l)"

definition rx_side_ok :: "link \<Rightarrow> bool" where
  "rx_side_ok l \<longleftrightarrow> rx_ok (nth_sent (l_sent l)) (int (length (l_sent l))) (l_rx l)
     \<and> (\<forall>q \<in> l_arrived l. q < rx_expected (l_rx l) \<or> dict_get (rx_buffer (l_rx l)) q \<noteq> None)"

definition out_ok :: "link \<Rightarrow> bool" where
  "out_ok l \<longleftrightarrow> sorted_wrt (<) (map fst (l_out l))
     \<and> (\<forall>f \<in> set (l_out l). 1 \<le> fst f \<and> fst f < rx_expected (l_rx l) \<and> snd f = nth_sent (l_sent l) (fst f))
     \<and> (\<not> l_flushed l \<longrightarrow> map fst (l_out l) = [1..rx_expected (l_rx l) - 1])"

definition link_ok :: "link \<Rightarrow> bool" where
  "link_ok l \<longleftrightarrow> tx_ok l \<and> not_lost l \<and> rx_side_ok l \<and> out_ok l"

lemma new_link_ok: "link_ok new_link"
  by (simp add: link_ok_def tx_ok_def not_lost_def rx_side_ok_def out_ok_def new_link_def new_rx_def rx_ok_def)

lemma nth_sent_append: "1 \<le> q \<Longrightarrow> q \<le> int (length xs) \<Longrightarrow> nth_sent (xs @ ys) q = nth_sent xs q"
proof -
  assume "1 \<le> q" "q \<le> int (length xs)"
  then have "nat (q - 1) < length xs" by linarith
  then show ?thesis by (simp add: nth_sent_def nth_append)
qed

lemma dict_set_mem: "(q, u) \<in> set (dict_set k v d) \<Longrightarrow> (q, u) = (k, v) \<or> (q, u) \<in> set d"
  by (induction d) (auto split: if_splits)

lemma nth_sent_last: "nth_sent (xs @ [x]) (int (length xs) + 1) = x"
  by (simp add: nth_sent_def)

lemma rx_ok_more:
  assumes "rx_ok (nth_sent xs) (int (length xs)) st"
  shows "rx_ok (nth_sent (xs @ [x])) (int (length (xs @ [x]))) st"
proof (rule rx_okI)
  show "1 \<le> rx_expected st" "rx_expected st \<le> int (length (xs @ [x])) + 1"
    using assms by (simp_all add: rx_ok_def)
  fix q y assume "dict_get (rx_buffer st) q = Some y"
  then have q: "rx_expected st < q" "q \<le> int (length xs)" "y = nth_sent xs q"
    using rx_okD[OF assms] by blast+
  moreover have "1 \<le> rx_expected st" using assms by (simp add: rx_ok_def)
  ultimately show "rx_expected st < q \<and> q \<le> int (length (xs @ [x])) \<and> y = nth_sent (xs @ [x]) q"
    by (simp add: nth_sent_append)
qed

lemma link_ok_send:
  assumes "send_data_mpath conn now sid data (l_tx l) = (Some f, tx)" "tx_seq (l_tx l) + 1 < 2 ^ 63" "link_ok l"
  shows "link_ok (l\<lparr>l_tx := tx, l_net := insert f (l_net l), l_sent := l_sent l @ [(sid, data)]\<rparr>)"
proof -
  let ?l = "l\<lparr>l_tx := tx, l_net := insert f (l_net l), l_sent := l_sent l @ [(sid, data)]\<rparr>"
  let ?n = "int (length (l_sent l))"
  obtain c where c: "conn = Some c" using assms(1) by (cases conn) (simp_all add: send_data_mpath_def)
  have f: "f = (?n + 1, sid, data)"
    "tx = \<lparr>tx_seq = ?n + 2, tx_sendbuf = dict_set (?n + 1)
        \<lparr>un_conn = c, un_stream = sid, un_data = data, un_time = now\<rparr> (tx_sendbuf (l_tx l))\<rparr>"
    using assms c by (auto simp: send_data_mpath_def next_peer_seq_def Let_def link_ok_def tx_ok_def)
  have "out_ok ?l"
    using assms(3) by (force simp: link_ok_def out_ok_def rx_side_ok_def rx_ok_def nth_sent_append)
  moreover have "rx_side_ok ?l"
    using assms(3) rx_ok_more[of "l_sent l" "l_rx l" "(sid, data)"] by (simp add: link_ok_def rx_side_ok_def)
  moreover have "not_lost ?l"
    using assms(3) by (force simp: link_ok_def not_lost_def f(2))
  moreover have "tx_ok ?l"
    unfolding tx_ok_def
  proof (intro conjI allI impI)
    have tx: "tx_ok l" using assms(3) by (simp add: link_ok_def)
    show "tx_seq (l_tx ?l) =
        int (length (l_sent ?l)) + 1"
      by (simp add: f(2))
    fix q u x
    {
      assume "(q, u) \<in> set (tx_sendbuf (l_tx ?l))"
      then consider "q = ?n + 1" "u = \<lparr>un_conn = c, un_stream = sid, un_data = data, un_time = now\<rparr>"
        | "(q, u) \<in> set (tx_sendbuf (l_tx l))"
        by (auto simp: f(2) dest: dict_set_mem)
      then have "1 \<le> q \<and> q \<le> ?n + 1 \<and> (un_stream u, un_data u) = nth_sent (l_sent l @ [(sid, data)]) q"
      proof cases
        case 2
        then have "1 \<le> q" "q \<le> ?n" "(un_stream u, un_data u) = nth_sent (l_sent l) q"
          using tx unfolding tx_ok_def by blast+
        then show ?thesis by (simp add: nth_sent_append)
      qed (simp add: nth_sent_last)
      then show "1 \<le> q" "(un_stream u, un_data u) = nth_sent (l_sent ?l) q"
        "q \<le> int (length (l_sent ?l))"
        by simp_all
    next
      assume "(q, x) \<in> l_net ?l"
      then consider "q = ?n + 1" "x = (sid, data)" | "(q, x) \<in> l_net l" by (auto simp: f(1))
      then have "1 \<le> q \<and> q \<le> ?n + 1 \<and> x = nth_sent (l_sent l @ [(sid, data)]) q"
      proof cases
        case 2
        then have "1 \<le> q" "q \<le> ?n" "x = nth_sent (l_sent l) q"
          using tx unfolding tx_ok_def by blast+
        then show ?thesis by (simp add: nth_sent_append)
      qed (simp add: nth_sent_last)
      then show "1 \<le> q" "x = nth_sent (l_sent ?l) q"
        "q \<le> int (length (l_sent ?l))"
        by simp_all
    }
  qed
  ultimately show ?thesis by (simp add: link_ok_def)
qed

lemma retx_scan_spec:
  assumes "retx_scan conn now rto buf = (fs, buf')"
  shows "map fst buf' = map fst buf"
    "\<forall>q u. (q, u) \<in> set buf' \<longrightarrow> (\<exists>u0. (q, u0) \<in> set buf \<and> un_stream u = un_stream u0 \<and> un_data u = un_data u0)"
    "\<forall>q x. (q, x) \<in> set fs \<longrightarrow> (\<exists>u0. (q, u0) \<in> set buf \<and> x = (un_stream u0, un_data u0))"
proof -
  have "map fst buf' = map fst buf
    \<and> (\<forall>q u. (q, u) \<in> set buf' \<longrightarrow> (\<exists>u0. (q, u0) \<in> set buf \<and> un_stream u = un_stream u0 \<and> un_data u = un_data u0))
    \<and> (\<forall>q x. (q, x) \<in> set fs \<longrightarrow> (\<exists>u0. (q, u0) \<in> set buf \<and> x = (un_stream u0, un_data u0)))"
    using assms
  proof (induction buf arbitrary: fs buf')
    case (Cons p buf)
    obtain seq v where p: "p = (seq, v)" by (cases p)
    obtain fs1 buf1 where r: "retx_scan conn now rto buf = (fs1, buf1)" by (cases "retx_scan conn now rto buf")
    note IH = Cons.IH[OF r]
    have "(fs = fs1 \<and> buf' = (seq, v) # buf1)
      \<or> (\<exists>c. fs = (seq, un_stream v, un_data v) # fs1 \<and> buf' = (seq, v\<lparr>un_conn := c, un_time := now\<rparr>) # buf1)"
      using Cons.prems r p by (auto split: option.splits if_splits)
    then show ?case
    proof (elim disjE exE conjE)
      assume "fs = fs1" "buf' = (seq, v) # buf1"
      with IH p show ?thesis by simp blast
    next
      fix c assume "fs = (seq, un_stream v, un_data v) # fs1" "buf' = (seq, v\<lparr>un_conn := c, un_time := now\<rparr>) # buf1"
      with IH p show ?thesis by simp blast
    qed
  qed simp
  then show "map fst buf' = map fst buf"
    "\<forall>q u. (q, u) \<in> set buf' \<longrightarrow> (\<exists>u0. (q, u0) \<in> set buf \<and> un_stream u = un_stream u0 \<and> un_data u = un_data u0)"
    "\<forall>q x. (q, x) \<in> set fs \<longrightarrow> (\<exists>u0. (q, u0) \<in> set buf \<and> x = (un_stream u0, un_data u0))" by blast+
qed

lemma link_ok_retransmit:
  assumes "retx_scan conn now rto (tx_sendbuf (l_tx l)) = (fs, buf)" "link_ok l"
  shows "link_ok (l\<lparr>l_tx := (l_tx l)\<lparr>tx_sendbuf := buf\<rparr>, l_net := l_net l \<union> set fs\<rparr>)"
proof -
  note R = retx_scan_spec[OF assms(1)]
  have tx: "tx_ok l" using assms(2) by (simp add: link_ok_def)
  let ?l = "l\<lparr>l_tx := (l_tx l)\<lparr>tx_sendbuf := buf\<rparr>, l_net := l_net l \<union> set fs\<rparr>"
  have "tx_ok ?l"
    unfolding tx_ok_def
  proof (intro conjI allI impI)
    show "tx_seq (l_tx ?l) = int (length (l_sent ?l)) + 1" using tx by (simp add: tx_ok_def)
    fix q u x
    {
      assume "(q, u) \<in> set (tx_sendbuf (l_tx ?l))"
      then obtain u0 where "(q, u0) \<in> set (tx_sendbuf (l_tx l))" "un_stream u = un_stream u0" "un_data u = un_data u0"
        using R(2) by auto
      with tx show "1 \<le> q" "q \<le> int (length (l_sent ?l))" "(un_stream u, un_data u) = nth_sent (l_sent ?l) q"
        unfolding tx_ok_def by force+
    next
      assume "(q, x) \<in> l_net ?l"
      then have "(q, x) \<in> l_net l \<or> (\<exists>u0. (q, u0) \<in> set (tx_sendbuf (l_tx l)) \<and> x = (un_stream u0, un_data u0))"
        using R(3)[rule_format, of q x] by (simp; blast)
      then have "1 \<le> q \<and> q \<le> int (length (l_sent l)) \<and> x = nth_sent (l_sent l) q"
        using tx unfolding tx_ok_def by metis
      then show "1 \<le> q" "q \<le> int (length (l_sent ?l))" "x = nth_sent (l_sent ?l) q" by simp_all
    }
  qed
  moreover have "dict_keys buf = dict_keys (tx_sendbuf (l_tx l))"
    using R(1) unfolding dict_keys_def by (metis list.set_map)
  ultimately show ?thesis
    using assms(2) by (simp add: link_ok_def not_lost_def rx_side_ok_def out_ok_def)
qed

lemma dict_del_mem: "(q, u) \<in> set (dict_del k d) \<Longrightarrow> (q, u) \<in> set d"
  by (simp add: AList.delete_eq)

lemma link_ok_acked:
  assumes "a \<in> l_acks l" "link_ok l"
  shows "link_ok (l\<lparr>l_tx := handle_ack (Some a) (l_tx l)\<rparr>)"
proof -
  have "tx_ok (l\<lparr>l_tx := handle_ack (Some a) (l_tx l)\<rparr>)"
    using assms(2) unfolding link_ok_def tx_ok_def handle_ack_def
    by (auto dest!: dict_del_mem)
  with assms show ?thesis
    by (auto simp: link_ok_def not_lost_def handle_ack_def rx_side_ok_def out_ok_def)
qed

lemma upto_join: "i \<le> j \<Longrightarrow> j \<le> k \<Longrightarrow> [i..j - 1] @ [j..k - 1] = [i..k - (1::int)]"
  by (cases "j = k") (simp_all flip: upto_split1)

lemma link_ok_arrive:
  assumes "f \<in> l_net l" "handle_inbound gap now f (l_rx l) = (out, rx)" "link_ok l"
  shows "link_ok (l\<lparr>l_rx := rx, l_out := l_out l @ out, l_acks := insert (fst f) (l_acks l),
      l_arrived := insert (fst f) (l_arrived l), l_flushed := (l_flushed l \<or> flushes gap now f (l_rx l))\<rparr>)"
proof -
  let ?n = "int (length (l_sent l))" and ?msg = "nth_sent (l_sent l)" and ?e = "rx_expected (l_rx l)"
  obtain q x where f: "f = (q, x)" by (cases f) blast
  have q: "1 \<le> q" "q \<le> ?n" "x = ?msg q" using assms(1,3) unfolding link_ok_def tx_ok_def f by blast+
  have ok: "rx_ok ?msg ?n (l_rx l)" using assms(3) by (simp add: link_ok_def rx_side_ok_def)
  have h: "handle_inbound gap now (q, ?msg q) (l_rx l) = (out, rx)" using assms(2) f q(3) by simp
  note I = inbound_rx[OF h ok q(1,2)]
  obtain a where a: "?e \<le> a" "a \<le> rx_expected rx" "out = map (\<lambda>q. (q, ?msg q)) [a..rx_expected rx - 1]"
    "\<not> flushes gap now f (l_rx l) \<Longrightarrow> a = ?e" using I f q(3) by auto
  have e: "1 \<le> ?e" using ok by (simp add: rx_ok_def)
  let ?l = "l\<lparr>l_rx := rx, l_out := l_out l @ out, l_acks := insert (fst f) (l_acks l),
      l_arrived := insert (fst f) (l_arrived l), l_flushed := (l_flushed l \<or> flushes gap now f (l_rx l))\<rparr>"
  have o: "out_ok l" using assms(3) by (simp add: link_ok_def)
  have outs: "map fst out = [a..rx_expected rx - 1]" by (simp add: a(3) comp_def)
  have "out_ok ?l"
    unfolding out_ok_def
  proof (intro conjI ballI impI)
    have "p < a" if "p \<in> set (map fst (l_out l))" for p using o that a(1) by (force simp: out_ok_def)
    then have "\<forall>p \<in> set (map fst (l_out l)). \<forall>r \<in> set [a..rx_expected rx - 1]. p < r" by force
    then show "sorted_wrt (<) (map fst (l_out ?l))"
      using o outs by (simp add: sorted_wrt_append out_ok_def)
    fix g assume "g \<in> set (l_out ?l)"
    then consider "g \<in> set (l_out l)" | p where "g = (p, ?msg p)" "a \<le> p" "p \<le> rx_expected rx - 1"
      by (auto simp: a(3))
    then show "1 \<le> fst g" "fst g < rx_expected (l_rx ?l)" "snd g = nth_sent (l_sent ?l) (fst g)"
      using o a(1,2) e by (cases; force simp: out_ok_def)+
  next
    assume "\<not> l_flushed ?l"
    then show "map fst (l_out ?l) = [1..rx_expected (l_rx ?l) - 1]"
      using o outs a(1,2,4) e upto_join[of 1 ?e "rx_expected rx"] by (simp add: out_ok_def)
  qed
  moreover have "rx_side_ok ?l"
    unfolding rx_side_ok_def
  proof (intro conjI ballI)
    show "rx_ok (nth_sent (l_sent ?l)) (int (length (l_sent ?l))) (l_rx ?l)" using I by simp
    fix p assume "p \<in> l_arrived ?l"
    then consider "p = q" | "p \<in> l_arrived l" by (auto simp: f)
    then show "p < rx_expected (l_rx ?l) \<or> dict_get (rx_buffer (l_rx ?l)) p \<noteq> None"
    proof cases
      case 1
      then show ?thesis using I by simp
    next
      case 2
      then have "p < ?e \<or> dict_get (rx_buffer (l_rx l)) p \<noteq> None"
        using assms(3) by (simp add: link_ok_def rx_side_ok_def)
      moreover have "keeps_frames (l_rx l) rx" using I by blast
      ultimately show ?thesis unfolding keeps_frames_def by fastforce
    qed
  qed
  moreover have "tx_ok ?l" "not_lost ?l"
    using assms(3) by (auto simp: link_ok_def tx_ok_def not_lost_def)
  ultimately show ?thesis by (simp add: link_ok_def)
qed

lemma link_step_ok: "link_step gap l l' \<Longrightarrow> link_ok l \<Longrightarrow> link_ok l'"
  by (erule link_stepE) (auto intro: link_ok_send link_ok_retransmit link_ok_arrive link_ok_acked)

lemma link_run_ok: "(link_step gap)\<^sup>*\<^sup>* new_link l \<Longrightarrow> link_ok l"
  by (induction rule: rtranclp_induct) (auto intro: new_link_ok link_step_ok)

section \<open>What the receiver has\<close>

lemma sorted_subseq_upto:
  assumes "sorted_wrt (<) xs" "set xs \<subseteq> {i..j}" shows "subseq xs [i..(j::int)]"
proof -
  have "filter (\<lambda>q. q \<in> set xs) [i..j] = xs"
    using assms by (intro sorted_distinct_set_unique)
      (auto simp: strict_sorted_iff sorted_wrt_filter intro: sorted_filter)
  then show ?thesis by (metis subseq_filter_left)
qed

lemma nth_sent_all: "map (nth_sent xs) [1..int (length xs)] = xs"
proof (rule nth_equalityI)
  fix i assume "i < length (map (nth_sent xs) [1..int (length xs)])"
  then show "map (nth_sent xs) [1..int (length xs)] ! i = xs ! i"
    by (simp add: nth_sent_def)
qed simp

lemma nth_sent_prefix:
  assumes "1 \<le> e" "e \<le> int (length xs) + 1"
  shows "map (nth_sent xs) [1..e - 1] = take (nat (e - 1)) xs"
proof -
  have "[1..int (length xs)] = [1..e - 1] @ [e..int (length xs)]"
    using assms upto_join[of 1 e "int (length xs) + 1"] by simp
  then have "xs = map (nth_sent xs) [1..e - 1] @ map (nth_sent xs) [e..int (length xs)]"
    using nth_sent_all[of xs] by (metis map_append)
  then show ?thesis by (metis append_eq_conv_conj diff_add_cancel length_map length_upto)
qed

lemma out_contents:
  assumes "link_ok l"
  shows "map snd (l_out l) = map (nth_sent (l_sent l)) (map fst (l_out l))"
    "set (map fst (l_out l)) \<subseteq> {1..int (length (l_sent l))}"
  using assms by (force simp: link_ok_def out_ok_def rx_side_ok_def rx_ok_def)+

lemma scan_resends:
  "(q, u) \<in> set buf \<Longrightarrow> rto \<le> now - un_time u \<Longrightarrow>
    (q, un_stream u, un_data u) \<in> set (fst (retx_scan (Some c) now rto buf))"
  by (induction buf) (auto split: prod.splits)

text \<open>A small run: two frames are sent, the second one arrives before the first.\<close>

definition lk_sent2 :: link where
  "lk_sent2 = new_link\<lparr>
     l_tx := \<lparr>tx_seq = 3, tx_sendbuf =
       [(1, \<lparr>un_conn = ''a'', un_stream = 7, un_data = ''x'', un_time = 0\<rparr>),
        (2, \<lparr>un_conn = ''a'', un_stream = 7, un_data = ''y'', un_time = 0\<rparr>)]\<rparr>,
     l_net := {(2, 7, ''y''), (1, 7, ''x'')}, l_sent := [(7, ''x''), (7, ''y'')]\<rparr>"

definition lk_second :: link where
  "lk_second = lk_sent2\<lparr>l_rx := new_rx\<lparr>rx_buffer := [(2, 7, ''y'')], rx_gap_since := Some 5\<rparr>,
     l_acks := {2}, l_arrived := {2}\<rparr>"

definition lk_both :: link where
  "lk_both = lk_second\<lparr>l_rx := new_rx\<lparr>rx_expected := 3\<rparr>, l_out := [(1, 7, ''x''), (2, 7, ''y'')],
     l_acks := {1, 2}, l_arrived := {1, 2}\<rparr>"

lemma small_run:
  "(link_step 9)\<^sup>*\<^sup>* new_link lk_sent2" "(link_step 9)\<^sup>*\<^sup>* new_link lk_second"
  "(link_step 9)\<^sup>*\<^sup>* new_link lk_both"
proof -
  note defs = new_link_def new_rx_def send_data_mpath_def next_peer_seq_def Let_def
  have "link_step 9 new_link (new_link\<lparr>
     l_tx := \<lparr>tx_seq = 2, tx_sendbuf = [(1, \<lparr>un_conn = ''a'', un_stream = 7, un_data = ''x'', un_time = 0\<rparr>)]\<rparr>,
     l_net := {(1, 7, ''x'')}, l_sent := [(7, ''x'')]\<rparr>)" (is "link_step 9 new_link ?l")
    using link_step.send[of "Some ''a''" 0 7 "''x''" new_link] by (simp add: defs)
  moreover have "link_step 9 ?l lk_sent2"
    using link_step.send[of "Some ''a''" 0 7 "''y''" ?l] by (simp add: defs lk_sent2_def)
  ultimately show s2: "(link_step 9)\<^sup>*\<^sup>* new_link lk_sent2" by (meson rtranclp.simps)
  have "link_step 9 lk_sent2 lk_second"
    using link_step.arrive[of "(2, 7, ''y'')" lk_sent2 9 5]
    by (simp add: handle_inbound_def lk_second_def lk_sent2_def defs flushes_def)
  with s2 show sec: "(link_step 9)\<^sup>*\<^sup>* new_link lk_second" by (rule rtranclp.rtrancl_into_rtrancl)
  have "link_step 9 lk_second lk_both"
    using link_step.arrive[of "(1, 7, ''x'')" lk_second 9 6]
    by (simp add: handle_inbound_def lk_second_def lk_sent2_def lk_both_def defs flushes_def drain.simps)
  with sec show "(link_step 9)\<^sup>*\<^sup>* new_link lk_both" by (rule rtranclp.rtrancl_into_rtrancl)
qed

text \<open>C38: What the receiver routes is, at every moment of any run over a lossy, duplicating and
  reordering network, in the order of sending, without a repetition and without a foreign byte; and
  as long as no gap was given up, it is exactly the beginning of what was sent.\<close>

theorem routed_in_order:
  assumes "(link_step gap)\<^sup>*\<^sup>* new_link l"
  shows "sorted_wrt (<) (map fst (l_out l)) \<and> subseq (map snd (l_out l)) (l_sent l)
    \<and> (l_flushed l \<or> map snd (l_out l) = take (length (l_out l)) (l_sent l))"
proof (intro conjI)
  have ok: "link_ok l" using link_run_ok[OF assms] .
  show sorted: "sorted_wrt (<) (map fst (l_out l))" using ok by (simp add: link_ok_def out_ok_def)
  note C = out_contents[OF ok]
  have "subseq (map fst (l_out l)) [1..int (length (l_sent l))]"
    using sorted C(2) by (rule sorted_subseq_upto)
  then have "subseq (map (nth_sent (l_sent l)) (map fst (l_out l)))
      (map (nth_sent (l_sent l)) [1..int (length (l_sent l))])" by (rule subseq_map)
  then show "subseq (map snd (l_out l)) (l_sent l)" by (simp only: C(1) nth_sent_all)
  show "l_flushed l \<or> map snd (l_out l) = take (length (l_out l)) (l_sent l)"
  proof (cases "l_flushed l")
    case False
    let ?e = "rx_expected (l_rx l)"
    have e: "1 \<le> ?e" "?e \<le> int (length (l_sent l)) + 1"
      using ok by (simp_all add: link_ok_def rx_side_ok_def rx_ok_def)
    have f: "map fst (l_out l) = [1..?e - 1]" using ok False by (simp add: link_ok_def out_ok_def)
    then have "length (l_out l) = nat (?e - 1)" by (metis length_map length_upto diff_add_cancel)
    then show ?thesis using C(1) f nth_sent_prefix[OF e] by simp
  qed simp
qed

theorem routed_in_order_witness:
  "map snd (l_out lk_both) = take 2 (l_sent lk_both)"
  using routed_in_order[OF small_run(3)] by (simp add: lk_both_def lk_second_def lk_sent2_def new_link_def)

text \<open>C39: When every frame has reached the receiver once, in whatever order, and no gap was given up,
  the receiver has routed everything that was sent.\<close>

theorem arrived_is_routed:
  assumes "(link_step gap)\<^sup>*\<^sup>* new_link l" "\<not> l_flushed l" "{1..int (length (l_sent l))} \<subseteq> l_arrived l"
  shows "map snd (l_out l) = l_sent l"
proof -
  have ok: "link_ok l" using link_run_ok[OF assms(1)] .
  let ?e = "rx_expected (l_rx l)" and ?n = "int (length (l_sent l))"
  have e: "1 \<le> ?e" "?e \<le> ?n + 1" using ok by (simp_all add: link_ok_def rx_side_ok_def rx_ok_def)
  have "?e = ?n + 1"
  proof (rule ccontr)
    assume "?e \<noteq> ?n + 1"
    with e have "?e \<in> l_arrived l" using assms(3) by auto
    then have "dict_get (rx_buffer (l_rx l)) ?e \<noteq> None" using ok by (force simp: link_ok_def rx_side_ok_def)
    then show False using ok rx_okD by (fastforce simp: link_ok_def rx_side_ok_def)
  qed
  then have "map fst (l_out l) = [1..?n]" using ok assms(2) by (simp add: link_ok_def out_ok_def)
  then show ?thesis using out_contents(1)[OF ok] by (simp only: nth_sent_all)
qed

theorem arrived_is_routed_witness: "map snd (l_out lk_both) = [(7, ''x''), (7, ''y'')]"
proof -
  have "\<not> l_flushed lk_both" "{1..int (length (l_sent lk_both))} \<subseteq> l_arrived lk_both"
    by (auto simp: lk_both_def lk_second_def lk_sent2_def new_link_def)
  from arrived_is_routed[OF small_run(3) this] show ?thesis
    by (simp add: lk_both_def lk_second_def lk_sent2_def)
qed

text \<open>The sender forgets no frame that has not arrived: it is in the unacknowledged buffer with
  the bytes it was sent with, and a scan with a live path resends it once it is old enough.\<close>

theorem missing_frame_is_resent:
  assumes "(link_step gap)\<^sup>*\<^sup>* new_link l" "1 \<le> q" "q \<le> int (length (l_sent l))" "q \<notin> l_arrived l"
  shows "\<exists>u. (q, u) \<in> set (tx_sendbuf (l_tx l)) \<and>
    (rto \<le> now - un_time u \<longrightarrow>
       (q, l_sent l ! nat (q - 1)) \<in> set (fst (retx_scan (Some c) now rto (tx_sendbuf (l_tx l)))))"
proof -
  have ok: "link_ok l" using link_run_ok[OF assms(1)] .
  then have "q \<in> dict_keys (tx_sendbuf (l_tx l))" using assms(2-4) by (auto simp: link_ok_def not_lost_def)
  then obtain u where u: "(q, u) \<in> set (tx_sendbuf (l_tx l))" by (auto simp: dict_keys_def)
  then have "(un_stream u, un_data u) = l_sent l ! nat (q - 1)"
    using ok unfolding link_ok_def tx_ok_def nth_sent_def by blast
  with u show ?thesis using scan_resends[OF u, of rto now c] by auto
qed

theorem missing_frame_is_resent_witness:
  "(1, 7, ''x'') \<in> set (fst (retx_scan (Some ''b'') 4 3 (tx_sendbuf (l_tx lk_second))))"
  using missing_frame_is_resent[OF small_run(2), of 1 3 4 "''b''"]
  by (auto simp: lk_second_def lk_sent2_def new_link_def)

end
