(* ===== verification/MuxRestart.thy ===== *)
theory MuxRestart
  imports MuxTransport
begin

text \<open>
  The acknowledgement and the generation change of \<^verbatim>\<open>openmux/server/adapters/muxcon.py\<close>: the ACK
  frame of one server as the other one handles it, the adoption of a restarted peer, the frames of
  a superseded generation, and what is left over in the peer that restarted.
\<close>

section \<open>Acknowledgements\<close>

text \<open>\<open>int(text.strip() or 0)\<close>; the \<open>ValueError\<close> is swallowed by the handler.\<close>

definition ack_number :: "string \<Rightarrow> int option" where
  "ack_number text = (if strip text = [] then Some 0 else py_int (strip text))"

definition rl_handle_ack :: "bytes \<Rightarrow> tx_state \<Rightarrow> tx_state" where
  "rl_handle_ack payload st = handle_ack (ack_number (decode_text_ignore payload)) st"

lemma strip_int_str: "strip (int_str i) = int_str i"
  using int_str_no_space[of _ i] by (intro strip_id) blast

lemma int_str_nonempty: "int_str i \<noteq> []"
  by (simp add: int_str_def)

lemma ack_number_int_str: "ack_number (int_str i) = Some i"
  by (simp add: ack_number_def strip_int_str int_str_nonempty)

text \<open>The ACK frame a receiver builds for a sequence number, read back by the sender's frame
  reader and given to its handler, takes exactly that number out of the unacknowledged buffer.\<close>

theorem ack_releases_its_frame:
  "\<exists>f. read_frame_raw (create_ack_frame acked seq @ rest) = ReadFrame f rest \<and> fr_type f = ''A''
     \<and> tx_seq (rl_handle_ack (fr_payload f) st) = tx_seq st
     \<and> (\<forall>q. dict_get (tx_sendbuf (rl_handle_ack (fr_payload f) st)) q =
           (if q = acked then None else dict_get (tx_sendbuf st) q))"
  unfolding create_ack_frame_def
  by (subst read_built_frame) (auto simp: rl_handle_ack_def ack_number_int_str handle_ack_def)

section \<open>A peer that restarted\<close>

text \<open>The first data frame of a restarted peer (another instance id, on a connection opened after
  the adopted one) is routed although the old numbering was far ahead; the peer's whole state starts
  over; and from then on a frame of any other instance on a connection opened no later changes
  nothing and routes nothing.\<close>

theorem restarted_peer_is_adopted:
  assumes "rx_instance st = Some j" "i \<noteq> j" "i \<noteq> []" "rx_since st < opened"
  shows "\<exists>st'. inbound_data gap now (Some i) opened (1, sid, data) (Some st, tx) =
      ([(1, sid, data)], Some st', tx\<lparr>tx_seq := 1, tx_sendbuf := []\<rparr>)
    \<and> rx_expected st' = 2 \<and> rx_buffer st' = [] \<and> rx_instance st' = Some i
    \<and> (\<forall>k opened' now' f tx'. k \<noteq> i \<and> k \<noteq> [] \<and> opened' \<le> opened \<longrightarrow>
         inbound_data gap now' (Some k) opened' f (Some st', tx') = ([], Some st', tx'))"
  using assms
  by (auto simp: inbound_data_def resync_generation_def handle_inbound_def drain.simps split: prod.splits)

theorem restarted_peer_is_adopted_witness:
  "fst (inbound_data 4 9 (Some ''new'') 8 (1, 7, ''hi'')
     (Some (new_rx\<lparr>rx_expected := 50, rx_instance := Some ''old'', rx_since := 3\<rparr>), \<lparr>tx_seq = 9, tx_sendbuf = []\<rparr>))
   = [(1, 7, ''hi'')]"
  using restarted_peer_is_adopted[of "new_rx\<lparr>rx_expected := 50, rx_instance := Some ''old'', rx_since := 3\<rparr>"
      "''old''" "''new''" 8 4 9 7 "''hi''" "\<lparr>tx_seq = 9, tx_sendbuf = []\<rparr>"]
  by (auto simp: new_rx_def)

text \<open>Moving between the paths of one peer process never resets anything: a frame of the adopted
  instance is handled by the reorder window alone, on whatever connection it comes.\<close>

theorem failover_keeps_numbering:
  assumes "rx_instance st = Some i"
  shows "inbound_data gap now (Some i) opened f (Some st, tx) =
    (fst (handle_inbound gap now f st), Some (snd (handle_inbound gap now f st)), tx)
    \<and> rx_instance (snd (handle_inbound gap now f st)) = Some i"
  using assms
  by (auto simp: inbound_data_def resync_generation_def handle_inbound_def flush_stuck_gap_def Let_def
      split: prod.splits option.splits)

theorem failover_keeps_numbering_witness:
  "snd (snd (inbound_data 4 9 (Some ''p'') 1 (3, 7, ''z'') (Some (new_rx\<lparr>rx_instance := Some ''p''\<rparr>),
     \<lparr>tx_seq = 6, tx_sendbuf = []\<rparr>))) = \<lparr>tx_seq = 6, tx_sendbuf = []\<rparr>"
  using failover_keeps_numbering[of "new_rx\<lparr>rx_instance := Some ''p''\<rparr>" "''p''" 4 9 1 "(3, 7, ''z'')"
      "\<lparr>tx_seq = 6, tx_sendbuf = []\<rparr>"]
  by (simp add: new_rx_def)

section \<open>What the restarted peer keeps\<close>

text \<open>
  A running server answers a peer that restarted.  Until the first data frame of the new generation
  reaches it, its own numbering goes on (\<open>seq\<close>), and the restarted peer, which expects 1, buffers
  the frame.  After the reset the running server counts from 1 again, under the same instance id.
\<close>

fun receive_all :: "int \<Rightarrow> int \<Rightarrow> string \<Rightarrow> data_frame list \<Rightarrow> rx_state option \<times> tx_state
    \<Rightarrow> data_frame list \<times> rx_state option \<times> tx_state" where
  "receive_all gap now inst [] s = ([], s)"
| "receive_all gap now inst (f # fs) s =
     (let (out, s1) = inbound_data gap now (Some inst) 0 f s; (outs, s2) = receive_all gap now inst fs s1
      in (out @ outs, s2))"

text \<open>The running server numbers a frame 3 before it learns of the restart and is reset by the
  restarted peer's first frame; it then sends three frames numbered from 1.  The restarted peer
  routes the early frame after the first two of them and drops the third as a duplicate: data is
  reordered and lost.\<close>

theorem reset_misplaces_earlier_frame:
  "let a = (Some (new_rx\<lparr>rx_expected := 5, rx_instance := Some ''b1'', rx_since := 1\<rparr>), \<lparr>tx_seq = 3, tx_sendbuf = []\<rparr>);
       (early, tx1) = send_data_mpath (Some ''p'') 10 7 ''early'' (snd a);
       (_, _, tx2) = inbound_data 4 11 (Some ''b2'') 9 (1, 7, ''hello'') (fst a, tx1);
       (x, tx3) = send_data_mpath (Some ''p'') 11 7 ''x'' tx2;
       (y, tx4) = send_data_mpath (Some ''p'') 11 7 ''y'' tx3;
       (z, tx5) = send_data_mpath (Some ''p'') 11 7 ''z'' tx4
   in map (snd \<circ> snd) (fst (receive_all 4 12 ''a'' (map the [early, x, y, z]) (None, \<lparr>tx_seq = 2, tx_sendbuf = []\<rparr>)))
      = [''x'', ''y'', ''early'']"
  by (simp add: send_data_mpath_def next_peer_seq_def inbound_data_def resync_generation_def handle_inbound_def
      new_rx_def drain.simps)

end
