(* ===== verification/Federation.thy ===== *)
theory Federation
  imports AccessControl
begin

text \<open>
  How a port is advertised to another server: \<^verbatim>\<open>openmux/common/federation_types.py\<close>, the
  sender (\<open>_slpl_port_meta\<close>) and the receiver (\<open>_register_remote_port_from_dict\<close> and its helpers)
  of \<^verbatim>\<open>openmux/server/adapters/muxcon.py\<close>, and the outlet references of
  \<^verbatim>\<open>openmux/server/adapters/pdu.py\<close>.  A dictionary read from JSON is an association list over
  \<^typ>\<open>pyval\<close>.  \<open>rp\<close> gives \<open>str(x)\<close> for floats, lists and dictionaries; \<open>now\<close> is the clock as
  ISO text.
\<close>

section \<open>Python values\<close>

type_synonym pdict = "(pyval \<times> pyval) list"

definition py_get_or :: "pdict \<Rightarrow> string \<Rightarrow> pyval \<Rightarrow> pyval" where
  "py_get_or d k v0 = (case map_of d (PStr k) of None \<Rightarrow> v0 | Some v \<Rightarrow> v)"

definition py_get :: "pdict \<Rightarrow> string \<Rightarrow> pyval" where
  "py_get d k = py_get_or d k PNone"

definition py_has :: "pdict \<Rightarrow> string \<Rightarrow> bool" where
  "py_has d k \<longleftrightarrow> map_of d (PStr k) \<noteq> None"

definition py_or :: "pyval \<Rightarrow> pyval \<Rightarrow> pyval" where
  "py_or a b = (if truthy a then a else b)"

fun py_str :: "(pyval \<Rightarrow> string) \<Rightarrow> pyval \<Rightarrow> string" where
  "py_str rp PNone = ''None''"
| "py_str rp (PBool b) = (if b then ''True'' else ''False'')"
| "py_str rp (PInt i) = int_str i"
| "py_str rp (PStr s) = s"
| "py_str rp v = rp v"

fun py_int_of :: "pyval \<Rightarrow> py_error + int" where
  "py_int_of (PInt i) = Inr i"
| "py_int_of (PBool b) = Inr (if b then 1 else 0)"
| "py_int_of (PFloat (Finite q)) = Inr (if q \<ge> 0 then \<lfloor>q\<rfloor> else \<lceil>q\<rceil>)"
| "py_int_of (PFloat f) = Inl (ValueError ''cannot convert float to integer'')"
| "py_int_of (PStr s) = (case py_int s of Some i \<Rightarrow> Inr i | None \<Rightarrow> Inl (ValueError ''invalid literal for int''))"
| "py_int_of _ = Inl (TypeError ''int() argument'')"

text \<open>What a \<open>for\<close> loop over a value visits; \<open>None\<close> when it raises.\<close>

fun py_iter :: "pyval \<Rightarrow> pyval list option" where
  "py_iter (PList xs) = Some xs"
| "py_iter (PStr s) = Some (map (\<lambda>c. PStr [c]) s)"
| "py_iter (PDict d) = Some (map fst d)"
| "py_iter _ = None"

lemma py_get_simps [simp]:
  "py_get [] k = PNone" "py_get_or [] k v = v"
  "py_get ((PStr j, x) # d) k = (if j = k then x else py_get d k)"
  "py_get_or ((PStr j, x) # d) k v = (if j = k then x else py_get_or d k v)"
  by (simp_all add: py_get_def py_get_or_def)

lemma py_or_simps [simp]: "py_or PNone b = b" "truthy a \<Longrightarrow> py_or a b = a" "\<not> truthy a \<Longrightarrow> py_or a b = b"
  by (simp_all add: py_or_def)

section \<open>Servers and ports\<close>

datatype server_type = Hub | Leaf | Relay

fun server_type_value :: "server_type \<Rightarrow> string" where
  "server_type_value Hub = ''hub''"
| "server_type_value Leaf = ''leaf''"
| "server_type_value Relay = ''relay''"

definition server_type_of :: "string \<Rightarrow> server_type option" where
  "server_type_of s = map_of [(''hub'', Hub), (''leaf'', Leaf), (''relay'', Relay)] s"

datatype federation_type = FedLocal | FedPull | FedPush | FedMultiHop

fun federation_type_value :: "federation_type \<Rightarrow> string" where
  "federation_type_value FedLocal = ''local''"
| "federation_type_value FedPull = ''pull''"
| "federation_type_value FedPush = ''push''"
| "federation_type_value FedMultiHop = ''multi_hop''"

record server_info =
  si_id :: string
  si_hostname :: string
  si_port :: int
  si_type :: server_type
  si_description :: string
  si_time :: string
  si_capabilities :: "string list"

definition server_dict :: "server_info \<Rightarrow> pyval" where
  "server_dict s = PDict
     [(PStr ''server_id'', PStr (si_id s)), (PStr ''hostname'', PStr (si_hostname s)),
      (PStr ''port'', PInt (si_port s)), (PStr ''server_type'', PStr (server_type_value (si_type s))),
      (PStr ''description'', PStr (si_description s)), (PStr ''connection_time'', PStr (si_time s)),
      (PStr ''capabilities'', PList (map PStr (si_capabilities s)))]"

text \<open>The fields that the receiver copies from the wire unchecked stay Python values.\<close>

record port_meta =
  md_name :: pyval
  md_original :: pyval
  md_description :: pyval
  md_adapter :: pyval
  md_origin :: server_info
  md_chain :: "server_info list"
  md_status :: pyval
  md_clients :: int
  md_max_rw :: pyval
  md_has_alias :: bool
  md_alias :: pyval
  md_conflict :: pyval
  md_federation :: federation_type
  md_last_seen :: string
  md_serial :: pyval
  md_line :: pyval
  md_rw_groups :: pyval
  md_ro_groups :: pyval
  md_message :: pyval
  md_readiness :: pyval
  md_power :: pyval

definition new_meta ::
  "string \<Rightarrow> pyval \<Rightarrow> pyval \<Rightarrow> pyval \<Rightarrow> server_info \<Rightarrow> server_info list \<Rightarrow> pyval \<Rightarrow> pyval \<Rightarrow> port_meta" where
  "new_meta now name desc adapter origin chain status max_rw =
     \<lparr>md_name = name, md_original = name, md_description = desc, md_adapter = adapter, md_origin = origin,
      md_chain = chain, md_status = status, md_clients = 0, md_max_rw = max_rw, md_has_alias = False,
      md_alias = PNone, md_conflict = PNone, md_federation = FedLocal, md_last_seen = now,
      md_serial = PNone, md_line = PNone, md_rw_groups = PNone, md_ro_groups = PNone,
      md_message = PNone, md_readiness = PNone, md_power = PNone\<rparr>"

definition get_display_name :: "port_meta \<Rightarrow> pyval" where
  "get_display_name m = (if md_has_alias m \<and> truthy (md_alias m) then md_alias m else md_name m)"

definition opt_key :: "bool \<Rightarrow> string \<Rightarrow> pyval \<Rightarrow> pdict" where
  "opt_key present k v = (if present then [(PStr k, v)] else [])"

definition optional_details :: "port_meta \<Rightarrow> pdict" where
  "optional_details m =
     opt_key (md_serial m \<noteq> PNone) ''serial_config'' (md_serial m)
     @ opt_key (md_line m \<noteq> PNone) ''line_status'' (md_line m)
     @ opt_key (truthy (md_rw_groups m)) ''read_write_groups'' (md_rw_groups m)
     @ opt_key (truthy (md_ro_groups m)) ''read_only_groups'' (md_ro_groups m)
     @ opt_key (truthy (md_message m)) ''status_message'' (md_message m)
     @ opt_key (truthy (md_readiness m)) ''readiness'' (md_readiness m)
     @ opt_key (truthy (md_power m)) ''power'' (md_power m)"

definition meta_to_dict :: "port_meta \<Rightarrow> pdict" where
  "meta_to_dict m =
     [(PStr ''name'', get_display_name m), (PStr ''original_name'', md_original m),
      (PStr ''description'', md_description m), (PStr ''adapter_type'', md_adapter m),
      (PStr ''status'', md_status m), (PStr ''connected_clients'', PInt (md_clients m)),
      (PStr ''max_rw_users'', md_max_rw m), (PStr ''origin_server'', PStr (si_id (md_origin m))),
      (PStr ''server_chain'', PList (map (\<lambda>s. PStr (si_id s)) (md_chain m))),
      (PStr ''federation_type'', PStr (federation_type_value (md_federation m))),
      (PStr ''has_alias'', PBool (md_has_alias m)), (PStr ''alias_name'', md_alias m),
      (PStr ''conflict_reason'', md_conflict m), (PStr ''last_seen'', PStr (md_last_seen m))]
     @ optional_details m"

definition to_federation_dict :: "port_meta \<Rightarrow> pdict" where
  "to_federation_dict m =
     [(PStr ''name'', md_original m), (PStr ''description'', md_description m),
      (PStr ''adapter_type'', md_adapter m), (PStr ''origin_server'', server_dict (md_origin m)),
      (PStr ''server_chain_info'', PList (map server_dict (md_chain m))),
      (PStr ''max_rw_users'', md_max_rw m), (PStr ''status'', md_status m),
      (PStr ''has_alias'', PBool (md_has_alias m)),
      (PStr ''federation_type'', PStr (federation_type_value (md_federation m)))]
     @ optional_details m"

section \<open>Outlet references\<close>

definition valid_ref_token :: "string \<Rightarrow> bool" where
  "valid_ref_token t \<longleftrightarrow> t \<noteq> [] \<and> list_all (\<lambda>c. \<not> isspace c \<and> c \<noteq> CHR ''.'') t"

text \<open>\<open>str.count\<close> of the two-character separator and the split at its first occurrence.\<close>

fun count_sep :: "string \<Rightarrow> nat" where
  "count_sep (a # b # s) =
     (if a = CHR '':'' \<and> b = CHR '':'' then Suc (count_sep s) else count_sep (b # s))"
| "count_sep _ = 0"

fun split_sep :: "string \<Rightarrow> string \<times> string" where
  "split_sep (a # b # s) =
     (if a = CHR '':'' \<and> b = CHR '':'' then ([], s)
      else (let (l, r) = split_sep (b # s) in (a # l, r)))"
| "split_sep s = (s, [])"

definition split_remote_ref :: "string \<Rightarrow> (string \<times> string) option" where
  "split_remote_ref ref =
     (if count_sep ref \<noteq> 1 then None
      else
        (let (origin, local) = split_sep ref in
         if origin = [] \<or> list_ex isspace origin then None
         else
           (case split_on (CHR ''.'') local of
              [pdu, outlet] \<Rightarrow> if valid_ref_token pdu \<and> valid_ref_token outlet then Some (origin, local) else None
            | _ \<Rightarrow> None)))"

definition remote_ref :: "string \<Rightarrow> string \<Rightarrow> string" where
  "remote_ref origin ref = origin @ ''::'' @ ref"

section \<open>The sender\<close>

text \<open>One \<open>dict.get\<close> on a value that may not be a dictionary raises; the handlers swallow it.\<close>

definition serial_fields :: "pdict \<Rightarrow> pyval" where
  "serial_fields d = PDict (map (\<lambda>k. (PStr k, py_get d k))
     [''device'', ''baudrate'', ''bytesize'', ''parity'', ''stopbits'', ''flow_control''])"

definition live_line_status :: "pyval \<Rightarrow> pyval option" where
  "live_line_status v = (case v of PDict d \<Rightarrow> if d \<noteq> [] then Some v else None | _ \<Rightarrow> None)"

definition slpl_serial_meta :: "(pyval \<Rightarrow> string) \<Rightarrow> pdict \<Rightarrow> pyval \<Rightarrow> pyval \<Rightarrow> pyval \<times> pyval" where
  "slpl_serial_meta rp p adapter name =
     (let sc = py_get p ''serial_config''; ls = live_line_status (py_get p ''line_status'') in
      if truthy sc then
        (case sc of
           PDict d \<Rightarrow> (serial_fields d, case ls of Some v \<Rightarrow> v | None \<Rightarrow> PNone)
         | _ \<Rightarrow> (PNone, PNone))
      else if lower (py_str rp adapter) = ''loopback'' then
        (PDict [(PStr ''device'', PStr (''loopback:'' @ py_str rp name)), (PStr ''baudrate'', PInt 9600),
                (PStr ''bytesize'', PInt 8), (PStr ''parity'', PStr ''N''), (PStr ''stopbits'', PInt 1),
                (PStr ''flow_control'', PStr ''none'')],
         case ls of Some v \<Rightarrow> v
         | None \<Rightarrow> PDict [(PStr ''DCD'', PBool False), (PStr ''DSR'', PBool True), (PStr ''CTS'', PBool True),
                         (PStr ''RTS'', PBool True), (PStr ''DTR'', PBool True)])
      else (PNone, PNone))"

text \<open>\<open>feeds\<close> is what the power adapter reports for the port, if there is one.\<close>

definition slpl_feed_states :: "string \<Rightarrow> (string \<times> pyval) list option \<Rightarrow> pyval" where
  "slpl_feed_states server_id feeds =
     (case feeds of
        None \<Rightarrow> PNone
      | Some states \<Rightarrow>
          if states = [] then PNone
          else PList (map (\<lambda>(r, on). PDict [(PStr ''ref'', PStr (remote_ref server_id r)), (PStr ''on'', on)]) states))"

definition slpl_port_meta ::
  "(pyval \<Rightarrow> string) \<Rightarrow> string \<Rightarrow> server_info \<Rightarrow> (string \<times> pyval) list option \<Rightarrow> pdict \<Rightarrow> port_meta" where
  "slpl_port_meta rp now server feeds p =
     (let name = py_or (py_or (py_get p ''name'') (py_get p ''port'')) (PStr ''unknown'');
          adapter = py_or (py_or (py_get p ''adapter_type'') (py_get p ''adapter'')) (PStr ''unknown'');
          status =
            (if py_has p ''connected''
             then PStr (if truthy (py_get p ''connected'') then ''connected'' else ''disconnected'')
             else if py_has p ''state'' then py_get p ''state'' else PStr ''connected'');
          max_rw = capacity_to_wire (py_get_or p ''max_read_write_users'' (py_get_or p ''max_rw_users'' (PInt 1)));
          serial = slpl_serial_meta rp p adapter name
      in (new_meta now name (py_get_or p ''description'' (PStr [])) adapter server [server] status (PInt max_rw))
           \<lparr>md_serial := fst serial, md_line := snd serial,
            md_rw_groups := py_or (py_get p ''read_write_groups'') PNone,
            md_ro_groups := py_or (py_get p ''read_only_groups'') PNone,
            md_message := py_or (py_get p ''status_message'') PNone,
            md_readiness := py_or (py_get p ''readiness'') PNone,
            md_power := slpl_feed_states (si_id server) feeds\<rparr>)"

section \<open>The receiver\<close>

definition port_number :: "pdict \<Rightarrow> py_error + int" where
  "port_number d = py_int_of (py_or (py_get_or d ''port'' (PInt 0)) (PInt 0))"

definition rp_origin_server_info :: "(pyval \<Rightarrow> string) \<Rightarrow> string \<Rightarrow> pdict \<Rightarrow> py_error + server_info" where
  "rp_origin_server_info rp now pd =
     (case py_get pd ''origin_server'' of
        PDict d \<Rightarrow>
          (case port_number d of
             Inl e \<Rightarrow> Inl e
           | Inr port \<Rightarrow>
               (let s = \<lparr>si_id = [], si_hostname = py_str rp (py_get_or d ''hostname'' (PStr ''remote'')),
                         si_port = port, si_type = Leaf,
                         si_description = py_str rp (py_get_or d ''description'' (PStr [])),
                         si_time = now, si_capabilities = []\<rparr> in
                case server_type_of (py_str rp (py_get_or d ''server_type'' (PStr ''leaf''))) of
                  Some t \<Rightarrow> Inr (s\<lparr>si_id := py_str rp (py_get d ''server_id''), si_type := t\<rparr>)
                | None \<Rightarrow> Inr (s\<lparr>si_id := py_str rp (py_get_or d ''server_id'' (PStr ''remote''))\<rparr>)))
      | v \<Rightarrow> Inr \<lparr>si_id = py_str rp (py_or v (PStr ''remote'')), si_hostname = ''remote'', si_port = 0,
                 si_type = Leaf, si_description = [], si_time = now, si_capabilities = []\<rparr>)"

definition rp_base_fields :: "(pyval \<Rightarrow> string) \<Rightarrow> pdict \<Rightarrow> pyval \<times> pyval \<times> pyval" where
  "rp_base_fields rp pd =
     (let name = py_or (py_or (py_get pd ''name'') (py_get pd ''original_name'')) (PStr ''remote_port'') in
      (name, py_get_or pd ''description'' (PStr (''Remote port '' @ py_str rp name)),
       py_get_or pd ''adapter_type'' (PStr ''remote_muxcon'')))"

text \<open>The hops after the origin; the loop ends at a port that is no number.\<close>

fun chain_hops :: "(pyval \<Rightarrow> string) \<Rightarrow> string \<Rightarrow> string \<Rightarrow> pyval list \<Rightarrow> server_info list" where
  "chain_hops rp now origin [] = []"
| "chain_hops rp now origin (PDict d # hops) =
     (let sid = py_str rp (py_get d ''server_id'') in
      if sid = origin then chain_hops rp now origin hops
      else
        (case port_number d of
           Inl e \<Rightarrow> []
         | Inr port \<Rightarrow>
             \<lparr>si_id = sid, si_hostname = py_str rp (py_get_or d ''hostname'' (PStr ''remote'')), si_port = port,
              si_type = (case server_type_of (py_str rp (py_get_or d ''server_type'' (PStr ''relay''))) of
                           Some t \<Rightarrow> t | None \<Rightarrow> Relay),
              si_description = py_str rp (py_get_or d ''description'' (PStr [])),
              si_time = now, si_capabilities = []\<rparr> # chain_hops rp now origin hops))"
| "chain_hops rp now origin (_ # hops) = chain_hops rp now origin hops"

definition legacy_hops :: "(pyval \<Rightarrow> string) \<Rightarrow> string \<Rightarrow> string \<Rightarrow> pyval \<Rightarrow> server_info list" where
  "legacy_hops rp now origin chain_ids =
     (case py_iter (py_or chain_ids (PList [])) of
        None \<Rightarrow> []
      | Some ids \<Rightarrow>
          map (\<lambda>sid. \<lparr>si_id = py_str rp sid, si_hostname = ''remote'', si_port = 0, si_type = Relay,
                       si_description = [], si_time = now, si_capabilities = []\<rparr>)
            (filter (\<lambda>sid. py_str rp sid \<noteq> origin) ids))"

definition rp_build_server_chain :: "(pyval \<Rightarrow> string) \<Rightarrow> string \<Rightarrow> server_info \<Rightarrow> pdict \<Rightarrow> server_info list" where
  "rp_build_server_chain rp now server pd =
     server # (case py_get pd ''server_chain_info'' of
                 PList (hop # hops) \<Rightarrow> chain_hops rp now (si_id server) (hop # hops)
               | _ \<Rightarrow> legacy_hops rp now (si_id server) (py_get pd ''server_chain''))"

definition rp_serial_config :: "pdict \<Rightarrow> pyval" where
  "rp_serial_config pd = (case py_get pd ''serial_config'' of PDict d \<Rightarrow> serial_fields d | _ \<Rightarrow> PNone)"

definition rp_line_status :: "pdict \<Rightarrow> pyval" where
  "rp_line_status pd = (case py_get pd ''line_status'' of PDict d \<Rightarrow> PDict d | _ \<Rightarrow> PNone)"

definition rp_power_entry :: "pyval \<Rightarrow> string \<Rightarrow> pyval option" where
  "rp_power_entry entry server_id =
     (let found =
        (case entry of
           PDict d \<Rightarrow> (case py_get d ''ref'' of
                         PStr r \<Rightarrow> if r = [] then None else Some (r, py_get d ''on'')
                       | _ \<Rightarrow> None)
         | PStr r \<Rightarrow> if r = [] then None else Some (r, PNone)
         | _ \<Rightarrow> None)
      in map_option (\<lambda>(r, on).
           PDict [(PStr ''ref'', PStr (if split_remote_ref r = None then remote_ref server_id r else r)),
                  (PStr ''on'', case on of PBool b \<Rightarrow> PBool b | _ \<Rightarrow> PNone)]) found)"

definition rp_power_feeds :: "pdict \<Rightarrow> string \<Rightarrow> pyval" where
  "rp_power_feeds pd server_id =
     (case py_get pd ''power'' of
        PList (e # es) \<Rightarrow>
          (let feeds = List.map_filter (\<lambda>x. rp_power_entry x server_id) (e # es) in
           if feeds = [] then PNone else PList feeds)
      | _ \<Rightarrow> PNone)"

definition float_of_capacity :: "enat \<Rightarrow> pyval" where
  "float_of_capacity c = PFloat (case c of enat n \<Rightarrow> Finite (of_nat n) | \<infinity> \<Rightarrow> PosInf)"

definition register_remote_port :: "(pyval \<Rightarrow> string) \<Rightarrow> string \<Rightarrow> pdict \<Rightarrow> py_error + port_meta" where
  "register_remote_port rp now pd =
     (case rp_origin_server_info rp now pd of
        Inl e \<Rightarrow> Inl e
      | Inr server \<Rightarrow>
          (let (name, desc, adapter) = rp_base_fields rp pd;
               max_rw = capacity_from_wire (py_or (py_get_or pd ''max_rw_users'' (PInt 1)) (PInt 1))
           in Inr ((new_meta now name desc adapter server (rp_build_server_chain rp now server pd)
                      (py_get_or pd ''status'' (PStr ''connected'')) (float_of_capacity max_rw))
                 \<lparr>md_federation := FedPull, md_serial := rp_serial_config pd, md_line := rp_line_status pd,
                  md_rw_groups := py_or (py_get pd ''read_write_groups'') PNone,
                  md_ro_groups := py_or (py_get pd ''read_only_groups'') PNone,
                  md_message := py_or (py_get pd ''status_message'') PNone,
                  md_readiness := py_or (py_get pd ''readiness'') PNone,
                  md_power := rp_power_feeds pd (si_id server)\<rparr>)))"

text \<open>The capacity mode of the proxy that stands for the port on the receiving server.\<close>

definition proxy_mode :: "port_meta \<Rightarrow> write_mode" where
  "proxy_mode m = wire_to_mode (md_max_rw m)"

section \<open>What arrives\<close>

lemma server_type_roundtrip [simp]: "server_type_of (server_type_value t) = Some t"
  by (cases t) (simp_all add: server_type_of_def)

lemma py_get_append:
  "py_get (d @ e) k = (if py_has d k then py_get d k else py_get e k)"
  "py_get_or (d @ e) k v = (if py_has d k then py_get_or d k v else py_get_or e k v)"
  "py_has (d @ e) k \<longleftrightarrow> py_has d k \<or> py_has e k"
  by (auto simp: py_get_def py_get_or_def py_has_def map_add_def split: option.splits)

lemma py_has_simps [simp]: "\<not> py_has [] k" "py_has ((PStr j, x) # d) k \<longleftrightarrow> j = k \<or> py_has d k"
  by (simp_all add: py_has_def)

lemma py_get_opt_key [simp]:
  "py_get (opt_key b j x) k = (if b \<and> j = k then x else PNone)"
  "py_has (opt_key b j x) k \<longleftrightarrow> b \<and> j = k"
  by (simp_all add: opt_key_def)

lemma details_get:
  "py_get (optional_details m) ''serial_config'' = md_serial m"
  "py_get (optional_details m) ''line_status'' = md_line m"
  "py_get (optional_details m) ''read_write_groups'' = py_or (md_rw_groups m) PNone"
  "py_get (optional_details m) ''read_only_groups'' = py_or (md_ro_groups m) PNone"
  "py_get (optional_details m) ''status_message'' = py_or (md_message m) PNone"
  "py_get (optional_details m) ''readiness'' = py_or (md_readiness m) PNone"
  "py_get (optional_details m) ''power'' = py_or (md_power m) PNone"
  by (simp_all add: optional_details_def py_get_append py_or_def)

lemma py_or_none [simp]: "py_or (py_or x PNone) PNone = py_or x PNone"
  by (simp add: py_or_def)

lemma origin_arrives:
  "py_get pd ''origin_server'' = server_dict server \<Longrightarrow>
     rp_origin_server_info rp now pd = Inr (server\<lparr>si_time := now, si_capabilities := []\<rparr>)"
  by (simp add: rp_origin_server_info_def server_dict_def port_number_def py_or_def)

lemma wire_capacity_cases: "capacity_to_wire v \<in> {0, 1, WIRE_MULTIPLE}"
proof (cases "parse_write_mode v")
  case (Inr m)
  then show ?thesis by (cases m) (simp_all add: capacity_to_wire_def)
qed (simp add: capacity_to_wire_def)

lemma slpl_serial_forms:
  assumes "slpl_serial_meta rp p adapter name = (sc, ls)"
  shows "rp_serial_config [(PStr ''serial_config'', sc)] = sc" "rp_line_status [(PStr ''line_status'', ls)] = ls"
  using assms
  by (auto simp: slpl_serial_meta_def Let_def rp_serial_config_def rp_line_status_def serial_fields_def
      live_line_status_def split: if_splits pyval.splits option.splits)

lemma rp_serial_config_get:
  "py_get pd ''serial_config'' = py_get qd ''serial_config'' \<Longrightarrow> rp_serial_config pd = rp_serial_config qd"
  "py_get pd ''line_status'' = py_get qd ''line_status'' \<Longrightarrow> rp_line_status pd = rp_line_status qd"
  by (simp_all add: rp_serial_config_def rp_line_status_def)

lemma own_chain:
  "py_get pd ''server_chain_info'' = PList [server_dict server] \<Longrightarrow> si_id origin = si_id server \<Longrightarrow>
     rp_build_server_chain rp now origin pd = [origin]"
  by (simp add: rp_build_server_chain_def server_dict_def)

lemma federation_get:
  "py_get (to_federation_dict m) ''name'' = md_original m"
  "py_get (to_federation_dict m) ''origin_server'' = server_dict (md_origin m)"
  "py_get (to_federation_dict m) ''server_chain_info'' = PList (map server_dict (md_chain m))"
  "py_get_or (to_federation_dict m) ''max_rw_users'' v = md_max_rw m"
  "py_get_or (to_federation_dict m) ''description'' v = md_description m"
  "py_get_or (to_federation_dict m) ''adapter_type'' v = md_adapter m"
  "py_get_or (to_federation_dict m) ''status'' v = md_status m"
  "py_get (to_federation_dict m) ''serial_config'' = md_serial m"
  "py_get (to_federation_dict m) ''line_status'' = md_line m"
  "py_get (to_federation_dict m) ''read_write_groups'' = py_or (md_rw_groups m) PNone"
  "py_get (to_federation_dict m) ''read_only_groups'' = py_or (md_ro_groups m) PNone"
  "py_get (to_federation_dict m) ''status_message'' = py_or (md_message m) PNone"
  "py_get (to_federation_dict m) ''readiness'' = py_or (md_readiness m) PNone"
  "py_get (to_federation_dict m) ''power'' = py_or (md_power m) PNone"
  by (simp_all add: to_federation_dict_def py_get_append details_get)

lemma register_advertised:
  fixes m :: port_meta
  assumes "truthy (md_original m)" "md_chain m = [md_origin m]"
  shows "register_remote_port rp now (to_federation_dict m) = Inr
    (m\<lparr>md_name := md_original m, md_origin := (md_origin m)\<lparr>si_time := now, si_capabilities := []\<rparr>,
       md_chain := [(md_origin m)\<lparr>si_time := now, si_capabilities := []\<rparr>], md_clients := 0,
       md_max_rw := float_of_capacity (capacity_from_wire (py_or (md_max_rw m) (PInt 1))),
       md_has_alias := False, md_alias := PNone, md_conflict := PNone,
       md_federation := FedPull, md_last_seen := now,
       md_serial := rp_serial_config (to_federation_dict m), md_line := rp_line_status (to_federation_dict m),
       md_rw_groups := py_or (md_rw_groups m) PNone, md_ro_groups := py_or (md_ro_groups m) PNone,
       md_message := py_or (md_message m) PNone, md_readiness := py_or (md_readiness m) PNone,
       md_power := rp_power_feeds (to_federation_dict m) (si_id (md_origin m))\<rparr>)"
  using assms
  by (simp add: register_remote_port_def origin_arrives[OF federation_get(2)] federation_get
      rp_base_fields_def new_meta_def own_chain)

lemma slpl_shape:
  "truthy (md_original (slpl_port_meta rp now server feeds p))"
  "md_chain (slpl_port_meta rp now server feeds p) = [md_origin (slpl_port_meta rp now server feeds p)]"
  "md_origin (slpl_port_meta rp now server feeds p) = server"
  "\<exists>w \<in> {0, 1, WIRE_MULTIPLE}. md_max_rw (slpl_port_meta rp now server feeds p) = PInt w"
  using wire_capacity_cases
  by (simp_all add: slpl_port_meta_def new_meta_def Let_def py_or_def)

lemma slpl_serial_arrives:
  "rp_serial_config (to_federation_dict (slpl_port_meta rp now server feeds p)) = md_serial (slpl_port_meta rp now server feeds p)"
  "rp_line_status (to_federation_dict (slpl_port_meta rp now server feeds p)) = md_line (slpl_port_meta rp now server feeds p)"
proof -
  let ?m = "slpl_port_meta rp now server feeds p"
  obtain adapter name where "slpl_serial_meta rp p adapter name = (md_serial ?m, md_line ?m)"
    by (simp add: slpl_port_meta_def Let_def)
  note f = slpl_serial_forms[OF this]
  show "rp_serial_config (to_federation_dict ?m) = md_serial ?m"
    using f(1) rp_serial_config_get(1)[of "to_federation_dict ?m" "[(PStr ''serial_config'', md_serial ?m)]"]
    by (simp add: federation_get)
  show "rp_line_status (to_federation_dict ?m) = md_line ?m"
    using f(2) rp_serial_config_get(2)[of "to_federation_dict ?m" "[(PStr ''line_status'', md_line ?m)]"]
    by (simp add: federation_get)
qed

text \<open>The receiving server rebuilds every field of a port another server advertises from its own
  entry: name, description, adapter, status, serial details, groups, messages and origin.  Only the
  clock readings, the way the port was learnt, the capacity and the power feeds are its own.\<close>

theorem advertised_port_arrives:
  "\<exists>m. register_remote_port rp now' (to_federation_dict (slpl_port_meta rp now server feeds p)) = Inr m \<and>
    m = (slpl_port_meta rp now server feeds p)
      \<lparr>md_origin := server\<lparr>si_time := now', si_capabilities := []\<rparr>,
       md_chain := [server\<lparr>si_time := now', si_capabilities := []\<rparr>],
       md_federation := FedPull, md_last_seen := now', md_max_rw := md_max_rw m, md_power := md_power m\<rparr>"
proof -
  let ?m = "slpl_port_meta rp now server feeds p"
  have g: "py_or (md_rw_groups ?m) PNone = md_rw_groups ?m" "py_or (md_ro_groups ?m) PNone = md_ro_groups ?m"
    "py_or (md_message ?m) PNone = md_message ?m" "py_or (md_readiness ?m) PNone = md_readiness ?m"
    "md_name ?m = md_original ?m" "md_clients ?m = 0" "md_has_alias ?m = False" "md_alias ?m = PNone"
    "md_conflict ?m = PNone"
    by (simp_all add: slpl_port_meta_def Let_def new_meta_def)
  show ?thesis
    unfolding register_advertised[OF slpl_shape(1,2)] g(1-4) slpl_serial_arrives
    using g(5-9) by (simp add: slpl_shape(3))
qed

text \<open>The write capacity does not survive: whatever the origin configured, \<open>none\<close>, \<open>one\<close> or
  \<open>multiple\<close>, the proxy on the receiving server has the mode \<open>one\<close>.  A zero is replaced by the
  default before it is read, and the infinity that stands for many writers is no integer.\<close>

theorem federated_capacity_is_one:
  "\<exists>m. register_remote_port rp now' (to_federation_dict (slpl_port_meta rp now server feeds p)) = Inr m
    \<and> proxy_mode m = ModeOne"
proof -
  obtain w where w: "w \<in> {0, 1, WIRE_MULTIPLE}" "md_max_rw (slpl_port_meta rp now server feeds p) = PInt w"
    using slpl_shape(4)[of rp now server feeds p] by blast
  from w(1) have "wire_to_mode (float_of_capacity (capacity_from_wire (py_or (PInt w) (PInt 1)))) = ModeOne"
    by (elim insertE) (simp_all add: capacity_from_wire_def WIRE_MULTIPLE_def legacy_int_to_mode_def
        write_capacity_def float_of_capacity_def wire_float_to_mode_def py_or_def one_enat_def)
  then show ?thesis
    unfolding register_advertised[OF slpl_shape(1,2)] proxy_mode_def by (simp add: w(2))
qed

section \<open>Outlets\<close>

lemma count_sep_none: "CHR '':'' \<notin> set s \<Longrightarrow> count_sep s = 0"
  by (induction s rule: count_sep.induct) auto

lemma sep_word:
  "CHR '':'' \<notin> set a \<Longrightarrow> CHR '':'' \<notin> set b \<Longrightarrow>
     count_sep (a @ CHR '':'' # CHR '':'' # b) = 1 \<and> split_sep (a @ CHR '':'' # CHR '':'' # b) = (a, b)"
proof (induction a)
  case Nil
  then show ?case by (simp add: count_sep_none)
next
  case (Cons c a)
  then have IH: "count_sep (a @ CHR '':'' # CHR '':'' # b) = 1" "split_sep (a @ CHR '':'' # CHR '':'' # b) = (a, b)"
    and c: "c \<noteq> CHR '':''" by (simp_all, blast)
  obtain d e where e: "a @ CHR '':'' # CHR '':'' # b = d # e" by (cases a) simp_all
  show ?case using IH c unfolding append_Cons e by simp
qed

text \<open>An outlet reference qualified by a server id splits back into the two parts it was built
  from, so outlets of the same name on two servers stay apart.\<close>

theorem outlet_reference_splits:
  assumes "origin \<noteq> []" "list_all (\<lambda>c. \<not> isspace c \<and> c \<noteq> CHR '':'') origin"
    and "valid_ref_token pdu" "valid_ref_token outlet" "CHR '':'' \<notin> set pdu" "CHR '':'' \<notin> set outlet"
  shows "split_remote_ref (remote_ref origin (pdu @ ''.'' @ outlet)) = Some (origin, pdu @ ''.'' @ outlet)"
proof -
  let ?local = "pdu @ CHR ''.'' # outlet"
  have o: "CHR '':'' \<notin> set origin" "\<not> list_ex isspace origin"
    using assms(2) by (fastforce simp: list_all_iff list_ex_iff)+
  have t: "CHR ''.'' \<notin> set pdu" "CHR ''.'' \<notin> set outlet"
    using assms(3,4) by (fastforce simp: valid_ref_token_def list_all_iff)+
  have "split_on (CHR ''.'') ?local = [pdu, outlet]"
    using split_on_sep[OF t(1)] split_on_no_sep[OF t(2)] by (rule trans[OF _ arg_cong])
  moreover have "count_sep (origin @ CHR '':'' # CHR '':'' # ?local) = 1"
    "split_sep (origin @ CHR '':'' # CHR '':'' # ?local) = (origin, ?local)"
    using sep_word[of origin ?local] o(1) assms(5,6) by simp_all
  ultimately show ?thesis
    using assms(1,3,4) o(2) by (simp add: split_remote_ref_def remote_ref_def)
qed

theorem outlet_reference_splits_witness:
  "split_remote_ref (remote_ref ''hub.lab'' ''rack1.7'') = Some (''hub.lab'', ''rack1.7'')"
  using outlet_reference_splits[of "''hub.lab''" "''rack1''" "''7''"]
  by (simp add: isspace_def valid_ref_token_def)

lemma received_feed:
  assumes "split_remote_ref (remote_ref origin r) \<noteq> None" "on = PNone \<or> (\<exists>b. on = PBool b)"
  shows "rp_power_entry (PDict [(PStr ''ref'', PStr (remote_ref origin r)), (PStr ''on'', on)]) origin =
    Some (PDict [(PStr ''ref'', PStr (remote_ref origin r)), (PStr ''on'', on)])"
proof -
  have "remote_ref origin r \<noteq> []" by (simp add: remote_ref_def)
  with assms show ?thesis by (auto simp: rp_power_entry_def)
qed

text \<open>The power feeds of a port arrive as they were sent, reference by reference with the state the
  origin last read (on, off or unknown), when the origin's server id makes a proper reference.\<close>

theorem advertised_feeds_arrive:
  assumes "\<forall>(r, on) \<in> set states. split_remote_ref (remote_ref (si_id server) r) \<noteq> None
      \<and> (on = PNone \<or> (\<exists>b. on = PBool b))"
  shows "\<exists>m. register_remote_port rp now' (to_federation_dict (slpl_port_meta rp now server (Some states) p)) = Inr m
    \<and> md_power m = slpl_feed_states (si_id server) (Some states)"
proof -
  let ?m = "slpl_port_meta rp now server (Some states) p" and ?sid = "si_id server"
  let ?f = "\<lambda>(r, on). PDict [(PStr ''ref'', PStr (remote_ref ?sid r)), (PStr ''on'', on)]"
  have power: "md_power ?m = slpl_feed_states ?sid (Some states)"
    by (simp add: slpl_port_meta_def Let_def)
  have "List.map_filter (\<lambda>x. rp_power_entry x ?sid) (map ?f states) = map ?f states"
    using assms by (induction states) (auto simp: received_feed split: prod.splits)
  then have "rp_power_feeds (to_federation_dict ?m) ?sid = slpl_feed_states ?sid (Some states)"
    using power by (cases states)
      (auto simp: rp_power_feeds_def federation_get slpl_feed_states_def py_or_def Let_def split: if_splits)
  then show ?thesis unfolding register_advertised[OF slpl_shape(1,2)] by (simp add: slpl_shape(3))
qed

definition hub :: server_info where
  "hub = \<lparr>si_id = ''hub'', si_hostname = ''h'', si_port = 9000, si_type = Leaf, si_description = [],
     si_time = ''t'', si_capabilities = []\<rparr>"

theorem advertised_feeds_arrive_witness:
  "\<exists>m. register_remote_port (\<lambda>_. []) ''u'' (to_federation_dict
       (slpl_port_meta (\<lambda>_. []) ''t'' hub (Some [(''rack1.7'', PBool True)]) [(PStr ''name'', PStr ''con'')])) = Inr m
     \<and> md_power m = PList [PDict [(PStr ''ref'', PStr ''hub::rack1.7''), (PStr ''on'', PBool True)]]"
proof -
  have "\<forall>(r, on) \<in> set [(''rack1.7'', PBool True)]. split_remote_ref (remote_ref (si_id hub) r) \<noteq> None
      \<and> (on = PNone \<or> (\<exists>b. on = PBool b))"
    by (simp add: hub_def remote_ref_def split_remote_ref_def valid_ref_token_def isspace_def) blast
  from advertised_feeds_arrive[OF this, of "\<lambda>_. []" "''u''" "''t''" "[(PStr ''name'', PStr ''con'')]"]
  show ?thesis by (simp add: slpl_feed_states_def remote_ref_def hub_def)
qed

end
