(* ===== verification/ByteMachine.thy ===== *)
theory ByteMachine
  imports Utf8
begin

text \<open>
  Stateful byte filters of the listeners and the TCP initiator: a handler is fed one byte at a time
  and its state survives from one read to the next.  \<open>run_machine\<close> feeds a list, \<open>run_chunks\<close> the
  reads of a connection.  \<open>stream_decoder\<close> is the contract of a decoder that comes back to its
  initial state after each unit of the wire; it holds for the telnet stripper of
  \<^verbatim>\<open>openmux/server/adapters/protocols/plain.py\<close> and for the escape decoder of
  \<^verbatim>\<open>openmux/server/adapters/protocols/conserver.py\<close>, both modelled here.
\<close>

section \<open>Feeding a machine\<close>

fun run_machine :: "('s \<Rightarrow> 'a \<Rightarrow> 'o list \<times> 's) \<Rightarrow> 's \<Rightarrow> 'a list \<Rightarrow> 'o list \<times> 's" where
  "run_machine feed s [] = ([], s)"
| "run_machine feed s (b # bs) =
     (let (o1, s1) = feed s b; (o2, s2) = run_machine feed s1 bs in (o1 @ o2, s2))"

fun run_chunks :: "('s \<Rightarrow> 'a \<Rightarrow> 'o list \<times> 's) \<Rightarrow> 's \<Rightarrow> 'a list list \<Rightarrow> 'o list \<times> 's" where
  "run_chunks feed s [] = ([], s)"
| "run_chunks feed s (c # cs) =
     (let (o1, s1) = run_machine feed s c; (o2, s2) = run_chunks feed s1 cs in (o1 @ o2, s2))"

lemma run_machine_append:
  "run_machine feed s (xs @ ys) =
     (let (o1, s1) = run_machine feed s xs; (o2, s2) = run_machine feed s1 ys in (o1 @ o2, s2))"
  by (induction xs arbitrary: s) (auto split: prod.splits)

lemma run_chunks_concat: "run_chunks feed s cs = run_machine feed s (concat cs)"
  by (induction cs arbitrary: s) (auto simp: run_machine_append split: prod.splits)

locale stream_decoder =
  fixes feed :: "'s \<Rightarrow> char \<Rightarrow> 'o list \<times> 's"
    and start :: 's
    and wire :: "'i \<Rightarrow> bytes"
    and content :: "'i \<Rightarrow> 'o list"
    and valid :: "'i \<Rightarrow> bool"
  assumes unit: "valid i \<Longrightarrow> run_machine feed start (wire i) = (content i, start)"
begin

lemma units:
  "\<forall>i \<in> set is. valid i \<Longrightarrow>
     run_machine feed start (concat (map wire is)) = (concat (map content is), start)"
  by (induction "is") (simp_all add: run_machine_append unit)

text \<open>However the bytes are cut into reads, the decoder gives back the contents.\<close>

lemma chunked_units:
  "\<forall>i \<in> set is. valid i \<Longrightarrow> concat cs = concat (map wire is) \<Longrightarrow>
     run_chunks feed start cs = (concat (map content is), start)"
  by (simp add: run_chunks_concat units)

end

section \<open>Telnet commands\<close>

definition IAC :: char where "IAC = char_of (255::nat)"
definition SB :: char where "SB = char_of (250::nat)"
definition SE :: char where "SE = char_of (240::nat)"

definition OPTION_CMDS :: "char set" where
  "OPTION_CMDS = {char_of (251::nat), char_of (252::nat), char_of (253::nat), char_of (254::nat)}"

datatype iac_state = StData | StIac | StIacOption | StSubneg | StSubnegIac

definition strip_iac_command_byte :: "char \<Rightarrow> bytes \<times> iac_state" where
  "strip_iac_command_byte b =
     (if b = IAC then ([IAC], StData)
      else if b = SB then ([], StSubneg)
      else if b \<in> OPTION_CMDS then ([], StIacOption)
      else ([], StData))"

fun strip_one_byte :: "iac_state \<Rightarrow> char \<Rightarrow> bytes \<times> iac_state" where
  "strip_one_byte StData b = (if b = IAC then ([], StIac) else ([b], StData))"
| "strip_one_byte StIac b = strip_iac_command_byte b"
| "strip_one_byte StIacOption b = ([], StData)"
| "strip_one_byte StSubneg b = (if b = IAC then ([], StSubnegIac) else ([], StSubneg))"
| "strip_one_byte StSubnegIac b = (if b = SE then ([], StData) else ([], StSubneg))"

definition iac_strip :: "iac_state \<Rightarrow> bytes \<Rightarrow> bytes \<times> iac_state" where
  "iac_strip s data = run_machine strip_one_byte s data"

text \<open>\<open>PlainHandler.decode\<close>: the handler strips only when it is configured to.\<close>

definition plain_decode :: "string \<Rightarrow> iac_state \<Rightarrow> bytes \<Rightarrow> bytes \<times> iac_state" where
  "plain_decode negotiation s data = (if negotiation \<noteq> ''strip'' then (data, s) else iac_strip s data)"

definition plain_validate_config :: "string \<Rightarrow> string list" where
  "plain_validate_config negotiation =
     (if negotiation \<notin> set [''none'', ''strip'']
      then [''protocol.telnet_negotiation (must be '' @ [CHR 0x27] @ ''none'' @ [CHR 0x27] @ '' or ''
            @ [CHR 0x27] @ ''strip'' @ [CHR 0x27] @ '')''] else [])"

text \<open>What a telnet client sends (RFC 854): a data byte, a data byte 255 doubled, a command of two
  bytes, an option command of three, a subnegotiation.\<close>

datatype telnet_item =
    TData char
  | TCommand char
  | TOption char char
  | TSub bytes

definition quote_iac :: "bytes \<Rightarrow> bytes" where
  "quote_iac bs = concat (map (\<lambda>b. if b = IAC then [IAC, IAC] else [b]) bs)"

fun telnet_ok :: "telnet_item \<Rightarrow> bool" where
  "telnet_ok (TData b) = True"
| "telnet_ok (TCommand c) = (c \<noteq> IAC \<and> c \<noteq> SB \<and> c \<notin> OPTION_CMDS)"
| "telnet_ok (TOption c b) = (c \<in> OPTION_CMDS)"
| "telnet_ok (TSub bs) = True"

fun telnet_wire :: "telnet_item \<Rightarrow> bytes" where
  "telnet_wire (TData b) = quote_iac [b]"
| "telnet_wire (TCommand c) = [IAC, c]"
| "telnet_wire (TOption c b) = [IAC, c, b]"
| "telnet_wire (TSub bs) = [IAC, SB] @ quote_iac bs @ [IAC, SE]"

fun telnet_content :: "telnet_item \<Rightarrow> bytes" where
  "telnet_content (TData b) = [b]"
| "telnet_content _ = []"

lemma telnet_bytes_distinct [simp]:
  "IAC \<noteq> SB" "SB \<noteq> IAC" "IAC \<noteq> SE" "SE \<noteq> IAC" "IAC \<notin> OPTION_CMDS" "SB \<notin> OPTION_CMDS"
  by (simp_all add: IAC_def SB_def SE_def OPTION_CMDS_def char_of_def bit_iff_odd)

lemma quote_iac_simps [simp]:
  "quote_iac [] = []" "quote_iac (b # bs) = (if b = IAC then [IAC, IAC] else [b]) @ quote_iac bs"
  "quote_iac (xs @ ys) = quote_iac xs @ quote_iac ys"
  by (simp_all add: quote_iac_def)

lemma skip_subneg: "run_machine strip_one_byte StSubneg (quote_iac bs) = ([], StSubneg)"
  by (induction bs) (simp_all add: run_machine_append)

lemma strip_unit:
  "telnet_ok i \<Longrightarrow> run_machine strip_one_byte StData (telnet_wire i) = (telnet_content i, StData)"
  by (cases i) (auto simp: strip_iac_command_byte_def run_machine_append skip_subneg)

interpretation telnet: stream_decoder strip_one_byte StData telnet_wire telnet_content telnet_ok
  by unfold_locales (rule strip_unit)

section \<open>The conserver escape\<close>

fun conserver_byte :: "bool \<Rightarrow> char \<Rightarrow> bytes \<times> bool" where
  "conserver_byte True b = (if b = IAC then [IAC] else [], False)"
| "conserver_byte False b = (if b = IAC then ([], True) else ([b], False))"

definition conserver_decode :: "bool \<Rightarrow> bytes \<Rightarrow> bytes \<times> bool" where
  "conserver_decode pending data = run_machine conserver_byte pending data"

definition conserver_encode :: "bytes \<Rightarrow> bytes" where
  "conserver_encode data =
     (if IAC \<notin> set data then data
      else concat (map (\<lambda>b. if b = IAC then [b, IAC] else [b]) data))"

text \<open>A unit is a data byte or an out-of-band command.\<close>

datatype conserver_item = CData char | CControl char

fun conserver_ok :: "conserver_item \<Rightarrow> bool" where
  "conserver_ok (CData b) = True"
| "conserver_ok (CControl c) = (c \<noteq> IAC)"

fun conserver_wire :: "conserver_item \<Rightarrow> bytes" where
  "conserver_wire (CData b) = conserver_encode [b]"
| "conserver_wire (CControl c) = [IAC, c]"

fun conserver_content :: "conserver_item \<Rightarrow> bytes" where
  "conserver_content (CData b) = [b]"
| "conserver_content (CControl c) = []"

interpretation conserver: stream_decoder conserver_byte False conserver_wire conserver_content conserver_ok
proof unfold_locales
  fix i assume "conserver_ok i"
  then show "run_machine conserver_byte False (conserver_wire i) = (conserver_content i, False)"
    by (cases i) (auto simp: conserver_encode_def)
qed

lemma conserver_encode_units: "conserver_encode data = concat (map conserver_wire (map CData data))"
proof (cases "IAC \<in> set data")
  case False
  then show ?thesis by (induction data) (auto simp: conserver_encode_def)
qed (auto simp: conserver_encode_def comp_def intro!: arg_cong[of _ _ concat])

section \<open>Properties\<close>

text \<open>C35: Whatever a telnet client interleaves with its data, and however the network cuts the bytes
  into reads, the stripper gives the data: every command, option and subnegotiation is gone, a doubled
  255 is one 255, and the parser is between two units at the end.\<close>

theorem telnet_data_survives:
  assumes "\<forall>i \<in> set is. telnet_ok i" "concat cs = concat (map telnet_wire is)"
  shows "run_chunks strip_one_byte StData cs = (concat (map telnet_content is), StData)"
  by (rule telnet.chunked_units[OF assms])

theorem telnet_data_survives_witness:
  "run_chunks strip_one_byte StData [[CHR ''a'', IAC], [char_of (251::nat)], [CHR ''!'', IAC, IAC, CHR ''b'']]
    = ([CHR ''a'', IAC, CHR ''b''], StData)"
proof -
  let ?is = "[TData CHR ''a'', TOption (char_of (251::nat)) CHR ''!'', TData IAC, TData CHR ''b'']"
  have "CHR ''a'' \<noteq> IAC" "CHR ''b'' \<noteq> IAC" by (simp_all add: IAC_def char_of_def bit_iff_odd)
  moreover have "\<forall>i \<in> set ?is. telnet_ok i" by (simp add: OPTION_CMDS_def)
  ultimately show ?thesis
    using telnet_data_survives[of ?is "[[CHR ''a'', IAC], [char_of (251::nat)], [CHR ''!'', IAC, IAC, CHR ''b'']]"] by simp
qed

text \<open>What the initiator writes to a conserver console decodes to the data it was given, also when
  out-of-band commands were put in between and the bytes are cut into reads anywhere.\<close>

theorem conserver_roundtrip:
  assumes "\<forall>i \<in> set is. conserver_ok i" "concat cs = concat (map conserver_wire is)"
  shows "run_chunks conserver_byte False cs = (concat (map conserver_content is), False)
    \<and> fst (conserver_decode False (conserver_encode data)) = data"
proof -
  have "concat (map conserver_content (map CData data)) = data" by (induction data) simp_all
  moreover have "\<forall>i \<in> set (map CData data). conserver_ok i" by simp
  ultimately show ?thesis
    using conserver.chunked_units[OF assms] conserver.units[of "map CData data"]
    unfolding conserver_decode_def conserver_encode_units by simp
qed

theorem conserver_roundtrip_witness:
  "run_chunks conserver_byte False [[CHR ''a'', IAC], [CHR ''E'', IAC], [IAC]] = ([CHR ''a'', IAC], False)"
proof -
  have "CHR ''a'' \<noteq> IAC" "CHR ''E'' \<noteq> IAC" by (simp_all add: IAC_def char_of_def bit_iff_odd)
  then show ?thesis
    using conserver_roundtrip[of "[CData CHR ''a'', CControl CHR ''E'', CData IAC]"
        "[[CHR ''a'', IAC], [CHR ''E'', IAC], [IAC]]" "[]"]
    by (simp add: conserver_encode_def)
qed

end
