(* ===== verification/ListenerTransport.thy ===== *)
theory ListenerTransport
  imports ByteMachine
begin

text \<open>
  \<open>_StreamSessionTransport\<close> and \<open>_read_auth_line\<close> of
  \<^verbatim>\<open>openmux/server/adapters/telnet_listener.py\<close> and the prompts of
  \<^verbatim>\<open>openmux/server/adapters/listener_common.py\<close>.  The network is the list of segments that will
  arrive; an empty list is the end of the connection (or the timeout of the login phase, which the code
  treats alike).  \<open>visible\<close> is the abstract transport: the bytes its next readers will get.
\<close>

section \<open>The transport\<close>

definition LF :: char where "LF = char_of (10::nat)"
definition CR :: char where "CR = char_of (13::nat)"

lemma line_bytes_distinct [simp]: "LF \<noteq> CR" "CR \<noteq> LF" "LF \<noteq> IAC" "IAC \<noteq> LF" "CR \<noteq> IAC" "IAC \<noteq> CR"
  by (simp_all add: LF_def CR_def IAC_def char_of_def bit_iff_odd)

record transport =
  tp_skip :: bool
  tp_pushback :: bytes
  tp_input :: "bytes list"

definition tp_take :: "nat \<Rightarrow> transport \<Rightarrow> bytes \<times> transport" where
  "tp_take n t =
     (if tp_pushback t \<noteq> [] then (take n (tp_pushback t), t\<lparr>tp_pushback := drop n (tp_pushback t)\<rparr>)
      else
        (case tp_input t of
           [] \<Rightarrow> ([], t)
         | seg # segs \<Rightarrow>
             (take n seg, t\<lparr>tp_input := (if drop n seg = [] then segs else drop n seg # segs)\<rparr>)))"

lemma tp_take_skip: "tp_take n t = (chunk, t1) \<Longrightarrow> tp_skip t1 = tp_skip t"
  by (auto simp: tp_take_def split: if_splits list.splits)

function tp_read :: "nat \<Rightarrow> transport \<Rightarrow> bytes \<times> transport" where
  "tp_read n t =
     (case tp_take n t of (chunk, t1) \<Rightarrow>
        if \<not> (tp_skip t \<and> take 1 chunk = [LF]) then (chunk, t1\<lparr>tp_skip := False\<rparr>)
        else tp_read n (t1\<lparr>tp_skip := False, tp_pushback := drop 1 chunk @ tp_pushback t1\<rparr>))"
  by pat_completeness auto
termination by (relation "measure (\<lambda>(n, t). if tp_skip t then 1 else 0)") auto

declare tp_read.simps [simp del]

definition unread :: "bytes \<Rightarrow> transport \<Rightarrow> transport" where
  "unread data t = (if data \<noteq> [] then t\<lparr>tp_pushback := data @ tp_pushback t\<rparr> else t)"

definition drop_line_feed :: "transport \<Rightarrow> transport" where
  "drop_line_feed t = t\<lparr>tp_skip := True\<rparr>"

section \<open>The abstract transport\<close>

definition remaining :: "transport \<Rightarrow> bytes" where
  "remaining t = tp_pushback t @ concat (tp_input t)"

definition visible :: "transport \<Rightarrow> bytes" where
  "visible t = (if tp_skip t \<and> take 1 (remaining t) = [LF] then drop 1 (remaining t) else remaining t)"

text \<open>A segment of the network is never empty.\<close>

definition tp_ok :: "transport \<Rightarrow> bool" where
  "tp_ok t \<longleftrightarrow> [] \<notin> set (tp_input t)"

lemma tp_take_spec:
  assumes "tp_take n t = (chunk, t1)"
  shows "remaining t = chunk @ remaining t1" "tp_skip t1 = tp_skip t" "length chunk \<le> n"
    "tp_ok t \<Longrightarrow> tp_ok t1" "tp_ok t \<Longrightarrow> n > 0 \<Longrightarrow> chunk = [] \<longleftrightarrow> remaining t = []"
    "tp_pushback t = [] \<Longrightarrow> tp_pushback t1 = []"
  using assms
  by (auto simp: tp_take_def remaining_def tp_ok_def split: if_splits list.splits)

lemma remaining_push [simp]: "remaining (t\<lparr>tp_skip := b, tp_pushback := p @ tp_pushback t\<rparr>) = p @ remaining t"
  "remaining (t\<lparr>tp_skip := b\<rparr>) = remaining t"
  by (simp_all add: remaining_def)

lemma visible_no_skip [simp]: "\<not> tp_skip t \<Longrightarrow> visible t = remaining t"
  by (simp add: visible_def)

lemma read_plain:
  "\<not> tp_skip t \<Longrightarrow> tp_take n t = (chunk, t1) \<Longrightarrow> tp_read n t = (chunk, t1)"
  using tp_take_spec(2)[of n t chunk t1] by (simp add: tp_read.simps)

lemma tp_read_spec:
  assumes "tp_read n t = (chunk, t')" "tp_ok t" "n > 0"
  shows "visible t = chunk @ visible t'" "\<not> tp_skip t'" "tp_ok t'" "chunk = [] \<longleftrightarrow> visible t = []"
    "length chunk \<le> n"
proof -
  obtain c1 t1 where take: "tp_take n t = (c1, t1)" by (cases "tp_take n t")
  note T = tp_take_spec[OF take]
  have "visible t = chunk @ visible t' \<and> \<not> tp_skip t' \<and> tp_ok t' \<and> (chunk = [] \<longleftrightarrow> visible t = [])
    \<and> length chunk \<le> n"
  proof (cases "tp_skip t \<and> take 1 c1 = [LF]")
    case False
    then have r: "chunk = c1" "t' = t1\<lparr>tp_skip := False\<rparr>"
      using assms(1) take by (auto simp: tp_read.simps)
    have "visible t = remaining t"
    proof (cases "tp_skip t")
      case True
      then have "take 1 (remaining t) \<noteq> [LF]"
        using False T(1) T(5)[OF assms(2,3)] by (cases c1) auto
      then show ?thesis by (simp add: visible_def)
    qed simp
    moreover have "tp_ok t'" using T(4)[OF assms(2)] r(2) by (simp add: tp_ok_def)
    ultimately show ?thesis using T r assms(2,3) by simp
  next
    case True
    then obtain c where c: "c1 = LF # c" by (cases c1) auto
    let ?t = "t1\<lparr>tp_skip := False, tp_pushback := c @ tp_pushback t1\<rparr>"
    have ok: "tp_ok ?t" using T(4)[OF assms(2)] by (simp add: tp_ok_def)
    have vis: "visible t = remaining ?t" using True T(1) c by (simp add: visible_def)
    have "tp_read n ?t = (chunk, t')" using assms(1) True take c by (simp add: tp_read.simps[of n t])
    moreover obtain c2 t2 where take2: "tp_take n ?t = (c2, t2)" by (cases "tp_take n ?t")
    ultimately have r: "chunk = c2" "t' = t2" using read_plain[of ?t n c2 t2] by simp_all
    note S = tp_take_spec[OF take2]
    show ?thesis unfolding vis r using S ok assms(3) by simp
  qed
  then show "visible t = chunk @ visible t'" "\<not> tp_skip t'" "tp_ok t'" "chunk = [] \<longleftrightarrow> visible t = []"
    "length chunk \<le> n" by blast+
qed

lemma tp_read_shrinks: "tp_read n t = (chunk, t') \<Longrightarrow> chunk \<noteq> [] \<Longrightarrow> length (remaining t') < length (remaining t)"
proof (induction n t rule: tp_read.induct)
  case (1 n t)
  obtain c1 t1 where take: "tp_take n t = (c1, t1)" by (cases "tp_take n t")
  note T = tp_take_spec(1)[OF take]
  show ?case
  proof (cases "tp_skip t \<and> take 1 c1 = [LF]")
    case False
    then show ?thesis using "1.prems" take T by (auto simp: tp_read.simps[of n t])
  next
    case True
    let ?t = "t1\<lparr>tp_skip := False, tp_pushback := drop 1 c1 @ tp_pushback t1\<rparr>"
    have "tp_read n ?t = (chunk, t')" using "1.prems"(1) True take by (simp add: tp_read.simps[of n t])
    then have "length (remaining t') < length (remaining ?t)"
      using "1.IH"[OF take[symmetric]] True "1.prems"(2) by simp
    also have "\<dots> \<le> length (remaining t)" using T by simp
    finally show ?thesis .
  qed
qed

section \<open>Reading exactly\<close>

text \<open>\<open>IncompleteReadError\<close> carries the bytes that were read, which are gone from the transport.\<close>

function tp_readexactly :: "nat \<Rightarrow> bytes \<Rightarrow> transport \<Rightarrow> (bytes + bytes) \<times> transport" where
  "tp_readexactly n acc t =
     (if length acc \<ge> n then (Inr acc, t)
      else
        (case tp_read (n - length acc) t of (chunk, t1) \<Rightarrow>
           if chunk = [] then (Inl acc, t1) else tp_readexactly n (acc @ chunk) t1))"
  by pat_completeness auto
termination by (relation "measure (\<lambda>(n, acc, t). n - length acc)") (auto simp: length_greater_0_conv[symmetric] simp del: length_greater_0_conv)

declare tp_readexactly.simps [simp del]

lemma readexactly_spec:
  "tp_ok t \<Longrightarrow> length acc \<le> n \<Longrightarrow> tp_readexactly n acc t = (r, t') \<Longrightarrow>
     tp_ok t' \<and>
     (if n \<le> length acc + length (visible t)
      then r = Inr (take n (acc @ visible t)) \<and> visible t' = drop (n - length acc) (visible t)
      else r = Inl (acc @ visible t) \<and> visible t' = [])"
proof (induction n acc t arbitrary: r t' rule: tp_readexactly.induct)
  case (1 n acc t)
  obtain chunk t1 where rd: "tp_read (n - length acc) t = (chunk, t1)" by (cases "tp_read (n - length acc) t")
  show ?case
  proof (cases "length acc \<ge> n")
    case True
    then have "n = length acc" using "1.prems"(2) by simp
    then show ?thesis using "1.prems"(1,3) by (auto simp: tp_readexactly.simps[of "length acc" acc t])
  next
    case False
    then have pos: "n - length acc > 0" by simp
    note R = tp_read_spec[OF rd "1.prems"(1) pos]
    show ?thesis
    proof (cases "chunk = []")
      case True
      then have "r = Inl acc" "t' = t1" using "1.prems"(3) False rd by (simp_all add: tp_readexactly.simps[of n acc t])
      then show ?thesis using R True False by simp
    next
      case chunk: False
      then have "tp_readexactly n (acc @ chunk) t1 = (r, t')"
        using "1.prems"(3) False rd by (simp add: tp_readexactly.simps[of n acc t])
      moreover have "length (acc @ chunk) \<le> n" using R(5) pos by simp
      ultimately show ?thesis
        using "1.IH"[OF False rd[symmetric] chunk R(3)] R(1) by (simp split: if_splits)
    qed
  qed
qed

lemma tp_read_length: "tp_read n t = (chunk, t') \<Longrightarrow> length chunk \<le> n"
proof (induction n t rule: tp_read.induct)
  case (1 n t)
  obtain c1 t1 where take: "tp_take n t = (c1, t1)" by (cases "tp_take n t")
  show ?case using "1.prems" "1.IH"[OF take[symmetric]] tp_take_spec(3)[OF take] take
    by (auto simp: tp_read.simps[of n t] split: if_splits)
qed

lemma readexactly_length:
  "length acc \<le> n \<Longrightarrow> tp_readexactly n acc t = (Inr got, t') \<Longrightarrow> length got = n"
proof (induction n acc t rule: tp_readexactly.induct)
  case (1 n acc t)
  obtain chunk t1 where rd: "tp_read (n - length acc) t = (chunk, t1)" by (cases "tp_read (n - length acc) t")
  show ?case using "1.prems" "1.IH"[OF _ rd[symmetric]] tp_read_length[OF rd] rd
    by (auto simp: tp_readexactly.simps[of n acc t] split: if_splits)
qed

text \<open>No read gives bytes back.\<close>

lemma tp_read_le: "tp_read n t = (chunk, t') \<Longrightarrow> length (remaining t') \<le> length (remaining t)"
proof (induction n t rule: tp_read.induct)
  case (1 n t)
  obtain c1 t1 where take: "tp_take n t = (c1, t1)" by (cases "tp_take n t")
  note T = tp_take_spec(1)[OF take]
  show ?case
  proof (cases "tp_skip t \<and> take 1 c1 = [LF]")
    case False
    then show ?thesis using "1.prems" take T by (auto simp: tp_read.simps[of n t])
  next
    case True
    let ?t = "t1\<lparr>tp_skip := False, tp_pushback := drop 1 c1 @ tp_pushback t1\<rparr>"
    have "tp_read n ?t = (chunk, t')" using "1.prems" True take by (simp add: tp_read.simps[of n t])
    then have "length (remaining t') \<le> length (remaining ?t)" using "1.IH"[OF take[symmetric]] True by simp
    also have "\<dots> \<le> length (remaining t)" using T by simp
    finally show ?thesis .
  qed
qed

lemma readexactly_le: "tp_readexactly n acc t = (r, t') \<Longrightarrow> length (remaining t') \<le> length (remaining t)"
proof (induction n acc t rule: tp_readexactly.induct)
  case (1 n acc t)
  obtain chunk t1 where rd: "tp_read (n - length acc) t = (chunk, t1)" by (cases "tp_read (n - length acc) t")
  show ?case using "1.prems" "1.IH"[OF _ rd[symmetric]] tp_read_le[OF rd] rd
    by (force simp: tp_readexactly.simps[of n acc t] split: if_splits)
qed

section \<open>Prompts\<close>

text \<open>Prompts and byte echoes are the output; the answer is \<open>(line, keep_going)\<close>.  Reading goes on while
  bytes arrive.\<close>

definition BS :: char where "BS = char_of (8::nat)"
definition DEL :: char where "DEL = char_of (127::nat)"
definition LINE_END :: bytes where "LINE_END = [CR, LF]"
definition erase_echo :: bytes where "erase_echo = [BS, CHR '' '', BS]"

function prompt_loop :: "string \<Rightarrow> transport \<Rightarrow> bytes \<times> (string \<times> bool) \<times> transport" where
  "prompt_loop line t =
     (case tp_read 1 t of (data, t1) \<Rightarrow>
        if data = [] then ([], (line, False), t1)
        else
          (let ch = hd data in
           if ch = CR \<or> ch = LF then
             (LINE_END, (line, True), if ch = CR then drop_line_feed t1 else t1)
           else if ch = DEL \<or> ch = BS then
             (let (echo, r) = prompt_loop (butlast line) t1 in (erase_echo @ echo, r))
           else (let (echo, r) = prompt_loop (line @ [ch]) t1 in (ch # echo, r))))"
  by pat_completeness auto
termination
  by (relation "measure (\<lambda>(line, t). length (remaining t))") (auto dest!: tp_read_shrinks[OF sym])

declare prompt_loop.simps [simp del]

definition read_prompt_line :: "string \<Rightarrow> transport \<Rightarrow> bytes \<times> (string \<times> bool) \<times> transport" where
  "read_prompt_line prompt t = (let (echo, r) = prompt_loop [] t in (encode_text prompt @ echo, r))"

definition TAKE_TARGET_PROMPT :: string where
  "TAKE_TARGET_PROMPT = ''[Take from holder (client_id, or Enter for latest): ]''"

definition read_take_target :: "transport \<Rightarrow> bytes \<times> (string option \<times> bool) \<times> transport" where
  "read_take_target t =
     (case read_prompt_line TAKE_TARGET_PROMPT t of (out, (raw, keep_going), t1) \<Rightarrow>
        (out,
         if \<not> keep_going then (None, False) else (if raw = [] then None else Some raw, True),
         t1))"

lemma prompt_loop_le:
  "prompt_loop line t = (echo, (l, k), t') \<Longrightarrow> length (remaining t') + (if k then 1 else 0) \<le> length (remaining t)"
proof (induction line t arbitrary: echo rule: prompt_loop.induct)
  case (1 line t)
  obtain data t1 where rd: "tp_read 1 t = (data, t1)" by (cases "tp_read 1 t")
  have r: "remaining (drop_line_feed t1) = remaining t1" by (simp add: drop_line_feed_def)
  show ?case
  proof (cases "data = []")
    case True
    then show ?thesis using "1.prems" rd tp_read_le[OF rd] by (auto simp: prompt_loop.simps[of line t])
  next
    case False
    then show ?thesis
      using "1.prems" "1.IH"(1)[OF rd[symmetric] False refl] "1.IH"(2)[OF rd[symmetric] False refl]
        tp_read_shrinks[OF rd False] rd r
      by (fastforce simp: prompt_loop.simps[of line t] Let_def split: if_splits prod.splits)
  qed
qed

lemma prompt_le:
  "read_prompt_line p t = (echo, (l, k), t') \<Longrightarrow> length (remaining t') + (if k then 1 else 0) \<le> length (remaining t)"
  by (auto simp: read_prompt_line_def split: prod.splits dest: prompt_loop_le)

lemma prompt_loop_ok: "prompt_loop line t = (echo, r, t') \<Longrightarrow> tp_ok t \<Longrightarrow> tp_ok t'"
proof (induction line t arbitrary: echo rule: prompt_loop.induct)
  case (1 line t)
  obtain data t1 where rd: "tp_read 1 t = (data, t1)" by (cases "tp_read 1 t")
  have ok: "tp_ok t1" "tp_ok (drop_line_feed t1)" using tp_read_spec(3)[OF rd "1.prems"(2)]
    by (simp_all add: tp_ok_def drop_line_feed_def)
  show ?case
  proof (cases "data = []")
    case False
    then show ?thesis
      using "1.prems"(1) "1.IH"(1)[OF rd[symmetric] False refl] "1.IH"(2)[OF rd[symmetric] False refl] rd ok
      by (fastforce simp: prompt_loop.simps[of line t] Let_def split: if_splits prod.splits)
  qed (use "1.prems"(1) rd ok in \<open>auto simp: prompt_loop.simps[of line t]\<close>)
qed

lemma prompt_ok: "read_prompt_line p t = (echo, r, t') \<Longrightarrow> tp_ok t \<Longrightarrow> tp_ok t'"
  by (auto simp: read_prompt_line_def split: prod.splits dest: prompt_loop_ok)

lemma take_target_ok: "read_take_target t = (echo, r, t') \<Longrightarrow> tp_ok t \<Longrightarrow> tp_ok t'"
  by (auto simp: read_take_target_def dest!: prompt_ok split: prod.splits if_splits)

lemma readexactly_ok: "tp_readexactly n [] t = (r, t') \<Longrightarrow> tp_ok t \<Longrightarrow> tp_ok t'"
  using readexactly_spec[of t "[]" n r t'] by simp

lemma take_target_le: "read_take_target t = (echo, r, t') \<Longrightarrow> length (remaining t') \<le> length (remaining t)"
  by (auto simp: read_take_target_def dest!: prompt_le split: prod.splits if_splits)

text \<open>The line that the typed bytes amount to.\<close>

fun edited :: "string \<Rightarrow> bytes \<Rightarrow> string" where
  "edited line [] = line"
| "edited line (c # cs) = edited (if c = DEL \<or> c = BS then butlast line else line @ [c]) cs"

lemma prompt_loop_line:
  "tp_ok t \<Longrightarrow> CR \<notin> set typed \<Longrightarrow> LF \<notin> set typed \<Longrightarrow> e = CR \<or> e = LF \<Longrightarrow> visible t = typed @ e # rest \<Longrightarrow>
     \<exists>echo t'. prompt_loop line t = (echo, (edited line typed, True), t')
       \<and> tp_ok t' \<and> remaining t' = rest \<and> (tp_skip t' \<longleftrightarrow> e = CR)"
proof (induction typed arbitrary: line t)
  case Nil
  obtain data t1 where rd: "tp_read 1 t = (data, t1)" by (cases "tp_read 1 t")
  note R = tp_read_spec[OF rd Nil.prems(1)]
  have "data \<noteq> []" "length data \<le> 1" using R(4,5) Nil.prems(5) by auto
  then obtain d where "data = [d]" by (cases data) auto
  with R(1) Nil.prems(5) have d: "data = [e]" "visible t1 = rest" by simp_all
  have "remaining t1 = rest" using d(2) R(2) by simp
  moreover have "tp_ok (drop_line_feed t1)" "remaining (drop_line_feed t1) = remaining t1"
    using R(3) by (simp_all add: tp_ok_def drop_line_feed_def)
  ultimately show ?case
    using Nil.prems(4) rd d(1) R(2,3) by (auto simp: prompt_loop.simps[of line t] drop_line_feed_def)
next
  case (Cons c typed)
  obtain data t1 where rd: "tp_read 1 t = (data, t1)" by (cases "tp_read 1 t")
  note R = tp_read_spec[OF rd Cons.prems(1)]
  have "data \<noteq> []" "length data \<le> 1" using R(4,5) Cons.prems(5) by auto
  then obtain d where "data = [d]" by (cases data) auto
  with R(1) Cons.prems(5) have d: "data = [c]" "visible t1 = typed @ e # rest" by simp_all
  have "CR \<notin> set typed" "LF \<notin> set typed" "c \<noteq> CR" "c \<noteq> LF" using Cons.prems(2,3) by auto
  note IH = Cons.IH[OF R(3) this(1,2) Cons.prems(4) d(2)] and c = this(3,4)
  show ?case
    using rd d(1) c IH[of "butlast line"] IH[of "line @ [c]"]
    by (cases "c = DEL \<or> c = BS") (auto simp: prompt_loop.simps[of line t])
qed

end
