(* ===== verification/AuthLines.thy ===== *)
theory AuthLines
  imports ListenerTransport
begin

text \<open>
  The line reader of the telnet login and menu phase: \<open>_find_line_end\<close>, \<open>_read_auth_line\<close> of
  \<^verbatim>\<open>openmux/server/adapters/telnet_listener.py\<close> and \<open>parse_login\<close> of
  \<^verbatim>\<open>openmux/server/adapters/listener_common.py\<close>, with the proof that the lines a client types
  are read one by one however the network cuts them, and with the one exception, bytes 255.
\<close>

section \<open>Finding a line end\<close>

definition find_byte :: "char \<Rightarrow> bytes \<Rightarrow> nat option" where
  "find_byte c buf = (if c \<in> set buf then Some (length (takeWhile (\<lambda>b. b \<noteq> c) buf)) else None)"

definition find_line_end :: "bytes \<Rightarrow> bool \<Rightarrow> (nat \<times> nat \<times> bool) option" where
  "find_line_end buf keep_line_feed =
     (let lf = find_byte LF buf; cr = (if keep_line_feed then find_byte CR buf else None) in
      case cr of
        Some c \<Rightarrow>
          (if (case lf of None \<Rightarrow> True | Some l \<Rightarrow> c < l)
           then (if take 1 (drop (c + 1) buf) = [LF] then Some (c, c + 2, False)
                 else Some (c, c + 1, c + 1 = length buf))
           else map_option (\<lambda>l. (l, l + 1, False)) lf)
      | None \<Rightarrow> map_option (\<lambda>l. (l, l + 1, False)) lf)"

definition rstrip_cr :: "string \<Rightarrow> string" where
  "rstrip_cr s = rev (dropWhile (\<lambda>c. c = CR) (rev s))"

text \<open>\<open>buf\<close> is what was read of the line so far and \<open>s\<close> the state of the stripper.  A timeout is the end of
  the input.\<close>

function read_auth_line ::
  "bool \<Rightarrow> nat \<Rightarrow> bytes \<Rightarrow> iac_state \<Rightarrow> transport \<Rightarrow> string option \<times> iac_state \<times> transport" where
  "read_auth_line keep max_len buf s t =
     (case tp_read 256 t of (chunk, t1) \<Rightarrow>
        if chunk = [] then (None, s, t1)
        else
          (case iac_strip s chunk of (clean, s1) \<Rightarrow>
             (case find_line_end (buf @ clean) keep of
                None \<Rightarrow>
                  if length (buf @ clean) > max_len then (None, s1, t1)
                  else read_auth_line keep max_len (buf @ clean) s1 t1
              | Some (stop, rest, paired) \<Rightarrow>
                  (let t2 = unread (drop rest (buf @ clean)) t1 in
                   (Some (rstrip_cr (decode_text_ignore (take stop (buf @ clean)))), s1,
                    if paired then drop_line_feed t2 else t2)))))"
  by pat_completeness auto
termination
  by (relation "measure (\<lambda>(keep, max_len, buf, s, t). length (remaining t))") (auto dest!: tp_read_shrinks[OF sym])

declare read_auth_line.simps [simp del]

section \<open>Lines\<close>

definition ends_line :: "bool \<Rightarrow> bytes \<Rightarrow> bytes \<Rightarrow> bytes \<Rightarrow> bool" where
  "ends_line keep l e rest \<longleftrightarrow> LF \<notin> set l \<and>
     (if keep then CR \<notin> set l \<and> (e = [LF] \<or> e = [CR, LF] \<or> (e = [CR] \<and> take 1 rest \<noteq> [LF]))
      else e = [LF])"

lemma find_byte_none: "c \<notin> set buf \<Longrightarrow> find_byte c buf = None"
  by (simp add: find_byte_def)

lemma find_byte_at: "c \<notin> set l \<Longrightarrow> find_byte c (l @ c # r) = Some (length l)"
  by (induction l) (auto simp: find_byte_def)

lemma find_byte_later:
  "c \<notin> set l \<Longrightarrow> d \<noteq> c \<Longrightarrow> find_byte c (l @ d # r) = map_option (\<lambda>i. Suc (length l) + i) (find_byte c r)"
  by (induction l) (auto simp: find_byte_def)

lemma line_prefix_cases:
  assumes "buf @ v = l @ e @ rest"
  obtains (inside) d where "l = buf @ d" "v = d @ e @ rest"
    | (beyond) d where "d \<noteq> []" "buf = l @ d" "d @ v = e @ rest"
  using assms by (metis append.right_neutral append_eq_append_conv2 append_assoc)

lemma find_line_end_inside: "ends_line keep (buf @ d) e rest \<Longrightarrow> find_line_end buf keep = None"
  by (auto simp: ends_line_def find_line_end_def find_byte_none split: if_splits)

lemma find_line_end_beyond:
  assumes "ends_line keep l e rest" "d \<noteq> []" "d @ v = e @ rest"
  shows "\<exists>k paired. find_line_end (l @ d) keep = Some (length l, k, paired)
    \<and> (if paired then drop k (l @ d) = [] \<and> (v = rest \<and> take 1 rest \<noteq> [LF] \<or> v = LF # rest)
       else drop k (l @ d) @ v = rest)"
proof (cases keep)
  case False
  then obtain r where "d = LF # r" "r @ v = rest" using assms by (cases d) (auto simp: ends_line_def)
  with assms(1) False show ?thesis
    by (auto simp: find_line_end_def ends_line_def find_byte_at)
next
  case True
  then consider (lf) r where "d = LF # r" "r @ v = rest"
    | (crlf) r where "d = CR # LF # r" "r @ v = rest"
    | (cut) "d = [CR]" "v = LF # rest"
    | (cr) r where "d = CR # r" "r @ v = rest" "take 1 rest \<noteq> [LF]"
    using assms by (cases d; cases "tl d") (auto simp: ends_line_def)
  then show ?thesis
  proof cases
    case lf
    have "find_byte CR (l @ LF # r) = map_option (\<lambda>i. Suc (length l) + i) (find_byte CR r)"
      using assms(1) True by (intro find_byte_later) (simp_all add: ends_line_def)
    then show ?thesis using lf assms(1) True
      by (cases "find_byte CR r") (auto simp: find_line_end_def ends_line_def find_byte_at)
  next
    case crlf
    have "find_byte LF (l @ CR # LF # r) = Some (Suc (length l))"
      using assms(1) True find_byte_at[of LF "l @ [CR]" r] by (simp add: ends_line_def)
    then show ?thesis using crlf assms(1) True by (auto simp: find_line_end_def ends_line_def find_byte_at)
  next
    case cut
    have "find_byte LF (l @ [CR]) = None" using assms(1) True by (simp add: ends_line_def find_byte_none)
    then show ?thesis using cut assms(1) True by (auto simp: find_line_end_def ends_line_def find_byte_at)
  next
    case cr
    have f: "find_byte LF (l @ CR # r) = map_option (\<lambda>i. Suc (length l) + i) (find_byte LF r)"
      using assms(1) True by (intro find_byte_later) (simp_all add: ends_line_def)
    have "take 1 r \<noteq> [LF]" using cr(2,3) by (cases r) auto
    then show ?thesis using f cr assms(1) True
      by (cases "find_byte LF r"; cases r) (auto simp: find_line_end_def ends_line_def find_byte_at)
  qed
qed

lemma iac_strip_plain: "IAC \<notin> set bs \<Longrightarrow> iac_strip StData bs = (bs, StData)"
  unfolding iac_strip_def by (induction bs) auto

lemma visible_unread: "\<not> tp_skip t \<Longrightarrow> visible (unread data t) = data @ visible t"
  by (simp add: unread_def remaining_def visible_def)

lemma unread_flags [simp]: "tp_skip (unread data t) = tp_skip t" "tp_ok (unread data t) = tp_ok t"
  by (simp_all add: unread_def tp_ok_def)

lemma drop_line_feed_visible:
  "\<not> tp_skip t \<Longrightarrow> visible (drop_line_feed t) = (if take 1 (visible t) = [LF] then drop 1 (visible t) else visible t)"
  "tp_ok (drop_line_feed t) = tp_ok t"
  by (simp_all add: drop_line_feed_def visible_def remaining_def tp_ok_def)

lemma read_auth_line_spec:
  assumes "tp_ok t" "buf @ visible t = l @ e @ rest" "ends_line keep l e rest"
    "IAC \<notin> set (visible t)" "length l \<le> max_len" "length buf \<le> length l"
  shows "\<exists>t'. read_auth_line keep max_len buf StData t = (Some (rstrip_cr (decode_text_ignore l)), StData, t')
    \<and> tp_ok t' \<and> visible t' = rest"
  using assms
proof (induction keep max_len buf "StData" t rule: read_auth_line.induct)
  case (1 keep max_len buf t)
  obtain chunk t1 where rd: "tp_read 256 t = (chunk, t1)" by (cases "tp_read 256 t")
  note R = tp_read_spec[OF rd "1.prems"(1)]
  have e: "e \<noteq> []" using "1.prems"(3) by (auto simp: ends_line_def split: if_splits)
  then have "length l < length (buf @ visible t)" unfolding "1.prems"(2) by simp
  then have "visible t \<noteq> []" using "1.prems"(6) by auto
  then have chunk: "chunk \<noteq> []" using R(4) by simp
  have vis: "visible t = chunk @ visible t1" using R(1) by simp
  then have clean: "iac_strip StData chunk = (chunk, StData)" "IAC \<notin> set (visible t1)"
    using "1.prems"(4) by (simp_all add: iac_strip_plain)
  have eq: "(buf @ chunk) @ visible t1 = l @ e @ rest" using "1.prems"(2) vis by simp
  note step = read_auth_line.simps[of keep max_len buf StData t, unfolded rd prod.case clean(1) if_not_P[OF chunk]]
  from eq show ?case
  proof (cases rule: line_prefix_cases)
    case (inside d)
    have none: "find_line_end (buf @ chunk) keep = None"
      using find_line_end_inside[of keep "buf @ chunk" d e rest] "1.prems"(3) inside(1) by simp
    have len: "length (buf @ chunk) \<le> length l" using inside(1) by simp
    then have "\<not> max_len < length (buf @ chunk)" using "1.prems"(5) by simp
    then show ?thesis
      using "1.hyps"[OF rd[symmetric] chunk clean(1)[symmetric] none _ R(3) eq "1.prems"(3) clean(2) "1.prems"(5) len]
      by (simp add: step none)
  next
    case (beyond d)
    obtain k paired where f: "find_line_end (l @ d) keep = Some (length l, k, paired)"
      "if paired then drop k (l @ d) = [] \<and> (visible t1 = rest \<and> take 1 rest \<noteq> [LF] \<or> visible t1 = LF # rest)
       else drop k (l @ d) @ visible t1 = rest"
      using find_line_end_beyond[OF "1.prems"(3) beyond(1,3)] by auto
    let ?t = "unread (drop k (l @ d)) t1"
    have ok: "tp_ok ?t" "\<not> tp_skip ?t" "visible ?t = drop k (l @ d) @ visible t1"
      using R(2,3) visible_unread[OF R(2), of "drop k (l @ d)"] by simp_all
    have "visible (if paired then drop_line_feed ?t else ?t) = rest"
      using f(2) ok(3) drop_line_feed_visible(1)[OF ok(2)] by (cases paired) auto
    then show ?thesis
      using ok(1) by (simp add: step beyond(2) f(1) drop_line_feed_visible(2) Let_def del: drop_append)
  qed
qed

section \<open>The lines of a session\<close>

fun auth_lines :: "bool \<Rightarrow> nat \<Rightarrow> nat \<Rightarrow> iac_state \<Rightarrow> transport \<Rightarrow> string option list \<times> transport" where
  "auth_lines keep max_len 0 s t = ([], t)"
| "auth_lines keep max_len (Suc n) s t =
     (case read_auth_line keep max_len [] s t of (line, s1, t1) \<Rightarrow>
        (case auth_lines keep max_len n s1 t1 of (ls, t2) \<Rightarrow> (line # ls, t2)))"

definition plain_line :: "bytes \<Rightarrow> bool" where
  "plain_line l \<longleftrightarrow> (\<forall>c \<in> set l. code c < 128 \<and> c \<noteq> CR \<and> c \<noteq> LF)"

lemma plain_line_facts:
  assumes "plain_line l"
  shows "rstrip_cr (decode_text_ignore l) = l" "rstrip_cr (decode_text_ignore (l @ [CR])) = l"
    "IAC \<notin> set l" "LF \<notin> set l" "CR \<notin> set l"
proof -
  have ascii: "\<forall>c \<in> set l. code c < 128" and no_cr: "CR \<notin> set l" using assms by (auto simp: plain_line_def)
  have cr: "code CR < 128" by (simp add: CR_def)
  have d: "decode_text_ignore b = b" if "\<forall>c \<in> set b. code c < 128" for b
    using decode_encode_text[of b] encode_ascii[OF that] by simp
  have r: "rstrip_cr l = l"
    using no_cr by (cases l rule: rev_cases) (auto simp: rstrip_cr_def)
  show "rstrip_cr (decode_text_ignore l) = l" using d[OF ascii] r by simp
  have "decode_text_ignore (l @ [CR]) = l @ [CR]" using ascii cr by (intro d) auto
  then show "rstrip_cr (decode_text_ignore (l @ [CR])) = l" using r by (simp add: rstrip_cr_def)
  show "IAC \<notin> set l" using ascii by (auto simp: IAC_def)
  show "LF \<notin> set l" "CR \<notin> set l" using assms by (auto simp: plain_line_def)
qed

lemma crlf_line:
  assumes "plain_line l" "length l < max_len" "tp_ok t" "visible t = l @ LINE_END @ rest" "IAC \<notin> set rest"
  shows "\<exists>t'. read_auth_line keep max_len [] StData t = (Some l, StData, t') \<and> tp_ok t' \<and> visible t' = rest"
proof -
  note P = plain_line_facts[OF assms(1)]
  have v: "IAC \<notin> set (visible t)" using P(3) assms(4,5) by (simp add: LINE_END_def)
  show ?thesis
  proof (cases keep)
    case True
    have "ends_line keep l LINE_END rest" using P(4,5) True by (simp add: ends_line_def LINE_END_def)
    from read_auth_line_spec[OF assms(3) _ this v, of "[]" max_len] show ?thesis
      using assms(2,4) P(1) by simp
  next
    case False
    have "ends_line keep (l @ [CR]) [LF] rest" using P(4) False by (simp add: ends_line_def)
    from read_auth_line_spec[OF assms(3) _ this v, of "[]" max_len] show ?thesis
      using assms(2,4) P(2) by (simp add: LINE_END_def)
  qed
qed

text \<open>However the network cuts what a client types, and whatever an earlier prompt left over, the
  login and menu phase reads the typed lines one by one, each without its line end, and leaves
  every byte after the last one to the session.\<close>

theorem lines_read_in_order:
  assumes "tp_ok t" "visible t = concat (map (\<lambda>l. l @ LINE_END) ls) @ rest" "IAC \<notin> set rest"
    and "\<forall>l \<in> set ls. plain_line l \<and> length l < max_len"
  shows "\<exists>t'. auth_lines keep max_len (length ls) StData t = (map Some ls, t') \<and> visible t' = rest"
  using assms
proof (induction ls arbitrary: t)
  case (Cons l ls)
  have "IAC \<notin> set (concat (map (\<lambda>l. l @ LINE_END) ls) @ rest)"
    using Cons.prems(3,4) plain_line_facts(3) by (auto simp: LINE_END_def)
  moreover have "plain_line l" "length l < max_len" using Cons.prems(4) by simp_all
  ultimately obtain t' where t': "read_auth_line keep max_len [] StData t = (Some l, StData, t')" "tp_ok t'"
    "visible t' = concat (map (\<lambda>l. l @ LINE_END) ls) @ rest"
    using crlf_line[of l max_len t "concat (map (\<lambda>l. l @ LINE_END) ls) @ rest" keep] Cons.prems(1,2) by auto
  from Cons.IH[OF t'(2,3) Cons.prems(3)] Cons.prems(4) t'(1) show ?case by auto
qed auto

definition typed :: "bytes list \<Rightarrow> transport" where
  "typed segs = \<lparr>tp_skip = False, tp_pushback = [], tp_input = segs\<rparr>"

theorem lines_read_in_order_witness:
  "fst (auth_lines False 256 2 StData (typed [''al'' @ [CR], [LF] @ ''pw'' @ [CR, LF] @ ''x''])) = [Some ''al'', Some ''pw'']"
proof -
  let ?t = "typed [''al'' @ [CR], [LF] @ ''pw'' @ [CR, LF] @ ''x'']"
  have "visible ?t = concat (map (\<lambda>l. l @ LINE_END) [''al'', ''pw'']) @ ''x''" "tp_ok ?t"
    by (simp_all add: typed_def visible_def remaining_def LINE_END_def tp_ok_def)
  moreover have "IAC \<notin> set ''x''" "\<forall>l \<in> set [''al'', ''pw'']. plain_line l \<and> length l < 256"
    by (simp_all add: plain_line_def IAC_def CR_def LF_def char_of_def bit_iff_odd)
  ultimately show ?thesis
    using lines_read_in_order[of ?t "[''al'', ''pw'']" "''x''" 256 False]
    by (auto simp: numeral_2_eq_2 simp del: auth_lines.simps)
qed

text \<open>The order breaks when a telnet command is cut: the stripper has seen its first two bytes, the
  typed-ahead bytes go back to the transport, and the stripper takes their first byte for the
  missing one.  The same bytes in one segment read as \<open>al\<close> and \<open>bob\<close>, in two as \<open>al\<close>, \<open>ob\<close> and the
  option byte.\<close>

theorem cut_command_eats_a_byte:
  "fst (auth_lines False 256 2 StData (typed [''al'' @ [LF] @ ''bob'' @ [IAC, char_of (253::nat), char_of (1::nat), LF]]))
     = [Some ''al'', Some ''bob''] \<and>
   fst (auth_lines False 256 2 StData (typed [''al'' @ [LF] @ ''bob'' @ [IAC, char_of (253::nat)], [char_of (1::nat), LF]]))
     = [Some ''al'', Some (''ob'' @ [char_of (1::nat)])]"
  by code_simp

section \<open>Login lines\<close>

fun split_colon :: "string \<Rightarrow> (string \<times> string) option" where
  "split_colon (a # b # s) =
     (if a = CHR '':'' then
        (if b = CHR '':'' then map_option (\<lambda>(l, r). (a # b # l, r)) (split_colon s) else Some ([], b # s))
      else map_option (\<lambda>(l, r). (a # l, r)) (split_colon (b # s)))"
| "split_colon [a] = (if a = CHR '':'' then Some ([], []) else None)"
| "split_colon [] = None"

definition parse_login :: "string \<Rightarrow> string \<times> string option" where
  "parse_login line0 =
     (let line = strip line0 in
      if CHR ''+'' \<in> set line
      then (strip (takeWhile (\<lambda>c. c \<noteq> CHR ''+'') line), Some (strip (drop 1 (dropWhile (\<lambda>c. c \<noteq> CHR ''+'') line))))
      else
        (case split_colon line of
           Some (l, r) \<Rightarrow> (strip l, Some (strip r))
         | None \<Rightarrow> (line, None)))"

lemma split_colon_first:
  "CHR '':'' \<notin> set u \<Longrightarrow> take 1 p \<noteq> [CHR '':''] \<Longrightarrow> split_colon (u @ CHR '':'' # p) = Some (u, p)"
proof (induction u)
  case Nil
  then show ?case by (cases p) auto
next
  case (Cons a u)
  have c: "CHR '':'' \<notin> set u" "a \<noteq> CHR '':''" using Cons.prems(1) by auto
  obtain b s where b: "u @ CHR '':'' # p = b # s" by (cases u) auto
  show ?case using Cons.IH[OF c(1) Cons.prems(2)] c(2) unfolding append_Cons b by simp
qed

text \<open>A user name and a composed target, whose own double colon stays whole.\<close>

lemma parse_login_colon:
  assumes "\<forall>c \<in> set (u @ p). \<not> isspace c \<and> c \<noteq> CHR ''+''" "CHR '':'' \<notin> set u" "take 1 p \<noteq> [CHR '':'']"
  shows "parse_login (u @ '':'' @ p) = (u, Some p)"
proof -
  have "\<not> isspace (CHR '':'')" by (simp add: isspace_def)
  then have "strip (u @ CHR '':'' # p) = u @ CHR '':'' # p" using assms(1) by (intro strip_id) auto
  moreover have "CHR ''+'' \<notin> set (u @ CHR '':'' # p)" using assms(1) by auto
  moreover have "strip u = u" "strip p = p" using assms(1) by (auto intro!: strip_id)
  ultimately show ?thesis
    using split_colon_first[OF assms(2,3)] by (simp add: parse_login_def)
qed

end
