(* ===== verification/AuthManager.thy ===== *)
theory AuthManager
  imports Utf8
begin

text \<open>
  \<^verbatim>\<open>openmux/server/auth_manager.py\<close>: passwords, API keys, public-key and HMAC challenges, the
  result cache, permissions and groups, and the lockout of failing logins.  The cryptographic
  functions, the external helper and the group database of the system are an environment; a clock
  reading is an integer.  \<open>users\<close> and \<open>api_keys\<close> are the sections of the configuration.
\<close>

section \<open>State\<close>

record auth_user =
  au_name :: string
  au_hash :: string
  au_permissions :: "string option"
  au_groups :: "string list"

record api_key =
  ak_key :: string
  ak_name :: "string option"
  ak_permissions :: "string option"
  ak_groups :: "string list"

record pk_record =
  pk_username :: "string option"
  pk_id :: "string option"
  pk_key :: string
  pk_disabled :: bool
  pk_uses :: "string list"

record fail_rec =
  fr_failures :: int
  fr_first :: int
  fr_until :: int

record pw_challenge =
  pc_nonce :: bytes
  pc_expires :: int
  pc_hex :: string

record pk_challenge =
  kc_nonce :: bytes
  kc_pub :: string
  kc_expires :: int

record auth_state =
  am_users :: "auth_user list"
  am_api_keys :: "api_key list"
  am_public_keys :: "pk_record list"
  am_cache :: "(string, int) pydict"
  am_pk_challenges :: "(string \<times> string, pk_challenge) pydict"
  am_pw_challenges :: "(string, pw_challenge) pydict"
  am_fails :: "(string \<times> string, fail_rec) pydict"
  am_window :: int
  am_base_lock :: int
  am_threshold :: int
  am_ext_enabled :: bool
  am_ext_root :: bool
  am_ext_allowed :: "string list option"
  am_ext_groups :: "string \<times> string \<times> string"
  am_ext_default :: "string option"
  am_ext_cache :: "(string, string list \<times> int) pydict"

text \<open>What the helper process answers: nothing (missing, timed out, failed to start), or its exit code with
  the \<open>ok\<close> field and the groups of its JSON output, when it wrote one.\<close>

datatype helper_answer = HelperFailed | HelperExit int "(bool \<times> string list option) option"

record auth_env =
  sha256_hex :: "string \<Rightarrow> string"
  hmac_sha256 :: "bytes \<Rightarrow> bytes \<Rightarrow> bytes"
  unhex :: "string \<Rightarrow> bytes option"
  unbase64 :: "string \<Rightarrow> bytes option"
  load_key :: "pk_record \<Rightarrow> string option"
  verify_sig :: "string \<Rightarrow> bytes \<Rightarrow> bytes \<Rightarrow> bool"
  run_helper :: "string \<Rightarrow> string \<Rightarrow> helper_answer"
  unix_groups :: "string \<Rightarrow> string list"

section \<open>Lockout\<close>

definition fail_key :: "string \<Rightarrow> string option \<Rightarrow> string \<times> string" where
  "fail_key username src_ip =
     (username, case src_ip of None \<Rightarrow> ''?'' | Some ip \<Rightarrow> if ip = [] then ''?'' else ip)"

definition register_auth_failure :: "int \<Rightarrow> string \<Rightarrow> string option \<Rightarrow> auth_state \<Rightarrow> auth_state" where
  "register_auth_failure now username src_ip st =
     (let key = fail_key username src_ip in
      st\<lparr>am_fails := dict_set key
        (case dict_get (am_fails st) key of
           None \<Rightarrow> \<lparr>fr_failures = 1, fr_first = now, fr_until = 0\<rparr>
         | Some rec \<Rightarrow>
             if now - fr_first rec > am_window st then \<lparr>fr_failures = 1, fr_first = now, fr_until = 0\<rparr>
             else
               (let n = fr_failures rec + 1 in
                rec\<lparr>fr_failures := n,
                    fr_until :=
                      (if n \<ge> am_threshold st
                       then max (fr_until rec) (now + min (am_base_lock st * 2 ^ nat (n - am_threshold st)) 3600)
                       else fr_until rec)\<rparr>))
        (am_fails st)\<rparr>)"

definition clear_auth_failures :: "string \<Rightarrow> string option \<Rightarrow> auth_state \<Rightarrow> auth_state" where
  "clear_auth_failures username src_ip st =
     st\<lparr>am_fails := dict_del (fail_key username src_ip) (am_fails st)\<rparr>"

definition is_user_locked :: "int \<Rightarrow> string \<Rightarrow> string option \<Rightarrow> auth_state \<Rightarrow> bool \<times> auth_state" where
  "is_user_locked now username src_ip st =
     (let key = fail_key username src_ip in
      case dict_get (am_fails st) key of
        None \<Rightarrow> (False, st)
      | Some rec \<Rightarrow>
          if fr_until rec > now then (True, st)
          else
            (let st1 = (if fr_until rec \<noteq> 0
                        then st\<lparr>am_fails := dict_set key (rec\<lparr>fr_until := 0\<rparr>) (am_fails st)\<rparr> else st)
             in (False,
                 if now - fr_first rec > am_window st then st1\<lparr>am_fails := dict_del key (am_fails st1)\<rparr>
                 else st1)))"

section \<open>Passwords\<close>

definition get_password_hash_hex :: "string \<Rightarrow> auth_state \<Rightarrow> string option" where
  "get_password_hash_hex username st =
     map_option au_hash (find (\<lambda>u. au_name u = username) (am_users st))"

definition start_password_hmac_challenge ::
  "int \<Rightarrow> bytes \<Rightarrow> string \<Rightarrow> auth_state \<Rightarrow> bytes option \<times> auth_state" where
  "start_password_hmac_challenge now nonce username st =
     (case get_password_hash_hex username st of
        None \<Rightarrow> (None, st)
      | Some h \<Rightarrow>
          if h = [] then (None, st)
          else (Some nonce,
            st\<lparr>am_pw_challenges := dict_set username \<lparr>pc_nonce = nonce, pc_expires = now + 30, pc_hex = h\<rparr>
                 (am_pw_challenges st)\<rparr>))"

definition drop_pw_challenge :: "string \<Rightarrow> auth_state \<Rightarrow> auth_state" where
  "drop_pw_challenge username st = st\<lparr>am_pw_challenges := dict_del username (am_pw_challenges st)\<rparr>"

definition verify_password_hmac ::
  "auth_env \<Rightarrow> int \<Rightarrow> string \<Rightarrow> string \<Rightarrow> string option \<Rightarrow> auth_state \<Rightarrow> bool \<times> auth_state" where
  "verify_password_hmac e now username hmac_b64 src_ip st0 =
     (case is_user_locked now username src_ip st0 of
        (True, st) \<Rightarrow> (False, st)
      | (False, st) \<Rightarrow>
          (let fail = register_auth_failure now username src_ip in
           case dict_get (am_pw_challenges st) username of
             None \<Rightarrow> (False, fail st)
           | Some entry \<Rightarrow>
               (let st1 = drop_pw_challenge username st in
                if now > pc_expires entry then (False, fail st1)
                else
                  (case unbase64 e hmac_b64 of
                     None \<Rightarrow> (False, fail st1)
                   | Some received \<Rightarrow>
                       if pc_hex entry = [] then (False, fail st1)
                       else
                         (case unhex e (pc_hex entry) of
                            None \<Rightarrow> (False, fail st1)
                          | Some key \<Rightarrow>
                              if hmac_sha256 e key (pc_nonce entry) = received
                              then (True, clear_auth_failures username src_ip st1)
                              else (False, fail st1))))))"

definition verify_password :: "auth_env \<Rightarrow> string \<Rightarrow> string \<Rightarrow> bool" where
  "verify_password e password stored_hash \<longleftrightarrow> sha256_hex e password = stored_hash"

definition external_authenticate ::
  "auth_env \<Rightarrow> int \<Rightarrow> string \<Rightarrow> string \<Rightarrow> auth_state \<Rightarrow> bool \<times> auth_state" where
  "external_authenticate e now username password st =
     (if \<not> am_ext_root st \<and> username = ''root'' then (False, st)
      else if (case am_ext_allowed st of None \<Rightarrow> False | Some users \<Rightarrow> username \<notin> set users) then (False, st)
      else
        (case run_helper e username password of
           HelperFailed \<Rightarrow> (False, st)
         | HelperExit rc None \<Rightarrow> (rc = 0, st)
         | HelperExit rc (Some (ok_field, groups)) \<Rightarrow>
             (let ok = (rc = 0 \<and> ok_field) in
              (ok,
               case groups of
                 None \<Rightarrow> st
               | Some gs \<Rightarrow>
                   if ok then st\<lparr>am_ext_cache := dict_set username (gs, now + 300) (am_ext_cache st)\<rparr> else st))))"

definition cache_key :: "string \<Rightarrow> string \<Rightarrow> string" where
  "cache_key username password = username @ '':'' @ password"

definition local_match :: "auth_env \<Rightarrow> string \<Rightarrow> string \<Rightarrow> auth_state \<Rightarrow> bool" where
  "local_match e username password st \<longleftrightarrow>
     list_ex (\<lambda>u. au_name u = username \<and> verify_password e password (au_hash u)) (am_users st)"

definition authenticate ::
  "auth_env \<Rightarrow> int \<Rightarrow> string \<Rightarrow> string \<Rightarrow> auth_state \<Rightarrow> bool \<times> auth_state" where
  "authenticate e now username password st =
     (let key = cache_key username password in
      if (case dict_get (am_cache st) key of None \<Rightarrow> False | Some t \<Rightarrow> now - t < 300) then (True, st)
      else
        (case (if local_match e username password st then (True, st)
               else if am_ext_enabled st then external_authenticate e now username password st
               else (False, st)) of
           (result, st1) \<Rightarrow>
             (result, if result then st1\<lparr>am_cache := dict_set key now (am_cache st1)\<rparr> else st1)))"

section \<open>API keys\<close>

definition find_api_key :: "string \<Rightarrow> auth_state \<Rightarrow> api_key option" where
  "find_api_key api_key st = find (\<lambda>k. ak_key k = api_key) (am_api_keys st)"

definition verify_api_key :: "string \<Rightarrow> auth_state \<Rightarrow> bool" where
  "verify_api_key api_key st \<longleftrightarrow> find_api_key api_key st \<noteq> None"

definition or_read_only :: "string option \<Rightarrow> string" where
  "or_read_only p = (case p of None \<Rightarrow> ''read-only'' | Some s \<Rightarrow> s)"

definition get_api_key_permissions :: "string \<Rightarrow> auth_state \<Rightarrow> string option" where
  "get_api_key_permissions api_key st = map_option (\<lambda>k. or_read_only (ak_permissions k)) (find_api_key api_key st)"

definition get_api_key_name :: "string \<Rightarrow> auth_state \<Rightarrow> string option" where
  "get_api_key_name api_key st =
     map_option (\<lambda>k. case ak_name k of Some n \<Rightarrow> (if n = [] then api_key else n) | None \<Rightarrow> api_key)
       (find_api_key api_key st)"

section \<open>Permissions and groups\<close>

definition resolve_external_groups :: "auth_env \<Rightarrow> int \<Rightarrow> string \<Rightarrow> auth_state \<Rightarrow> string set" where
  "resolve_external_groups e now username st =
     (case dict_get (am_ext_cache st) username of
        None \<Rightarrow> {} | Some (gs, expires) \<Rightarrow> if now < expires then set gs else {})
     \<union> set (unix_groups e username)"

definition ext_auth_group_permissions :: "auth_env \<Rightarrow> int \<Rightarrow> string \<Rightarrow> auth_state \<Rightarrow> string option" where
  "ext_auth_group_permissions e now username st =
     (case am_ext_groups st of (admin_g, write_g, read_g) \<Rightarrow>
        (let groups = resolve_external_groups e now username st in
         if admin_g \<noteq> [] \<and> admin_g \<in> groups then Some ''admin''
         else if write_g \<noteq> [] \<and> write_g \<in> groups then Some ''read-write''
         else if read_g \<noteq> [] \<and> read_g \<in> groups then Some ''read-only''
         else am_ext_default st))"

definition get_user_permissions :: "auth_env \<Rightarrow> int \<Rightarrow> string \<Rightarrow> auth_state \<Rightarrow> string option" where
  "get_user_permissions e now username st =
     (case find (\<lambda>u. au_name u = username) (am_users st) of
        Some u \<Rightarrow> (case au_permissions u of Some p \<Rightarrow> Some p | None \<Rightarrow> Some ''read-write'')
      | None \<Rightarrow>
          (case find (\<lambda>k. ak_name k = Some username) (am_api_keys st) of
             Some k \<Rightarrow> Some (or_read_only (ak_permissions k))
           | None \<Rightarrow>
               if am_ext_enabled st then
                 (case ext_auth_group_permissions e now username st of
                    Some p \<Rightarrow> if p = [] then None else Some p
                  | None \<Rightarrow> None)
               else None))"

definition get_user_groups :: "auth_env \<Rightarrow> int \<Rightarrow> string \<Rightarrow> auth_state \<Rightarrow> string set" where
  "get_user_groups e now username st =
     (if get_user_permissions e now username st = None then {}
      else
        insert ''user''
          (case find (\<lambda>u. au_name u = username) (am_users st) of
             Some u \<Rightarrow> set (au_groups u)
           | None \<Rightarrow>
               (case find (\<lambda>k. ak_name k = Some username) (am_api_keys st) of
                  Some k \<Rightarrow> set (ak_groups k)
                | None \<Rightarrow> if am_ext_enabled st then resolve_external_groups e now username st else {})))"

section \<open>Public keys\<close>

definition resolve_public_key_record :: "string \<Rightarrow> string option \<Rightarrow> auth_state \<Rightarrow> pk_record option" where
  "resolve_public_key_record username key_id st =
     (case filter (\<lambda>r. pk_username r = Some username \<and> \<not> pk_disabled r \<and> ''client'' \<in> set (pk_uses r))
         (am_public_keys st) of
        [] \<Rightarrow> None
      | r # rs \<Rightarrow>
          (case key_id of
             None \<Rightarrow> Some r
           | Some i \<Rightarrow> if i = [] then Some r else find (\<lambda>x. pk_id x = Some i) (r # rs)))"

definition start_pubkey_challenge ::
  "auth_env \<Rightarrow> int \<Rightarrow> bytes \<Rightarrow> string \<Rightarrow> string option \<Rightarrow> auth_state \<Rightarrow> (string \<times> bytes) option \<times> auth_state" where
  "start_pubkey_challenge e now nonce username key_id st =
     (case resolve_public_key_record username key_id st of
        None \<Rightarrow> (None, st)
      | Some r \<Rightarrow>
          (let kid = (case pk_id r of Some i \<Rightarrow> (if i = [] then ''default'' else i) | None \<Rightarrow> ''default'') in
           case load_key e r of
             None \<Rightarrow> (None, st)
           | Some pub \<Rightarrow>
               (Some (kid, nonce),
                st\<lparr>am_pk_challenges := dict_set (username, kid)
                     \<lparr>kc_nonce = nonce, kc_pub = pub, kc_expires = now + 30\<rparr> (am_pk_challenges st)\<rparr>)))"

definition verify_pubkey_response ::
  "auth_env \<Rightarrow> int \<Rightarrow> string \<Rightarrow> string \<Rightarrow> string \<Rightarrow> auth_state \<Rightarrow> bool \<times> auth_state" where
  "verify_pubkey_response e now username key_id signature_b64 st =
     (case dict_get (am_pk_challenges st) (username, key_id) of
        None \<Rightarrow> (False, st)
      | Some entry \<Rightarrow>
          (let st1 = st\<lparr>am_pk_challenges := dict_del (username, key_id) (am_pk_challenges st)\<rparr> in
           if now > kc_expires entry then (False, st1)
           else
             (case unbase64 e signature_b64 of
                None \<Rightarrow> (False, st)
              | Some sig \<Rightarrow> if verify_sig e (kc_pub entry) sig (kc_nonce entry) then (True, st1) else (False, st))))"

section \<open>Lockout facts\<close>

text \<open>What happens to one login identity: a failed attempt, a question whether it is locked, a success.\<close>

datatype login_event = FailedLogin | AskLocked | GoodLogin

fun login_step :: "string \<Rightarrow> string option \<Rightarrow> auth_state \<Rightarrow> int \<times> login_event \<Rightarrow> auth_state" where
  "login_step username ip st (now, FailedLogin) = register_auth_failure now username ip st"
| "login_step username ip st (now, AskLocked) = snd (is_user_locked now username ip st)"
| "login_step username ip st (now, GoodLogin) = clear_auth_failures username ip st"

definition login_run :: "string \<Rightarrow> string option \<Rightarrow> auth_state \<Rightarrow> (int \<times> login_event) list \<Rightarrow> auth_state" where
  "login_run username ip st evs = foldl (login_step username ip) st evs"

lemma login_run_simps [simp]:
  "login_run u ip st [] = st"
  "login_run u ip st (ev # evs) = login_run u ip (login_step u ip st ev) evs"
  "login_run u ip st (evs @ evs') = login_run u ip (login_run u ip st evs) evs'"
  by (simp_all add: login_run_def)

lemma login_step_params [simp]:
  "am_window (login_step u ip st ev) = am_window st" "am_threshold (login_step u ip st ev) = am_threshold st"
  "am_base_lock (login_step u ip st ev) = am_base_lock st"
  by (cases "(u, ip, st, ev)" rule: login_step.cases;
      simp add: register_auth_failure_def clear_auth_failures_def is_user_locked_def Let_def split: option.splits)+

lemma login_run_params [simp]:
  "am_window (login_run u ip st evs) = am_window st" "am_threshold (login_run u ip st evs) = am_threshold st"
  "am_base_lock (login_run u ip st evs) = am_base_lock st"
  by (induction evs arbitrary: st) simp_all

definition failed_logins :: "(int \<times> login_event) list \<Rightarrow> nat" where
  "failed_logins evs = length (filter (\<lambda>ev. snd ev = FailedLogin) evs)"

lemma failed_logins_simps [simp]:
  "failed_logins [] = 0" "failed_logins (ev # evs) = (if snd ev = FailedLogin then 1 else 0) + failed_logins evs"
  by (simp_all add: failed_logins_def)

text \<open>Inside one counting window, with no success in between, the record counts every failure.\<close>

definition counted :: "string \<Rightarrow> string option \<Rightarrow> int \<Rightarrow> nat \<Rightarrow> auth_state \<Rightarrow> bool" where
  "counted u ip t0 n st \<longleftrightarrow>
     (case dict_get (am_fails st) (fail_key u ip) of
        None \<Rightarrow> n = 0
      | Some rec \<Rightarrow> n \<ge> 1 \<and> fr_failures rec = int n \<and> t0 \<le> fr_first rec)"

lemma counted_step:
  assumes "counted u ip t0 n st" "t0 \<le> now" "now \<le> t0 + am_window st" "ev \<noteq> GoodLogin"
  shows "counted u ip t0 (n + (if ev = FailedLogin then 1 else 0)) (login_step u ip st (now, ev))"
proof (cases ev)
  case FailedLogin
  then show ?thesis
    using assms by (auto simp: counted_def register_auth_failure_def Let_def split: option.splits)
next
  case AskLocked
  then show ?thesis
    using assms by (auto simp: counted_def is_user_locked_def Let_def split: option.splits)
qed (use assms(4) in simp)

lemma counted_run:
  "counted u ip t0 n st \<Longrightarrow> \<forall>(now, ev) \<in> set evs. t0 \<le> now \<and> now \<le> t0 + am_window st \<and> ev \<noteq> GoodLogin \<Longrightarrow>
     counted u ip t0 (n + failed_logins evs) (login_run u ip st evs)"
proof (induction evs arbitrary: n st)
  case (Cons p evs)
  obtain now ev where p: "p = (now, ev)" by (cases p)
  have "counted u ip t0 (n + (if ev = FailedLogin then 1 else 0)) (login_step u ip st (now, ev))"
    using Cons.prems by (intro counted_step) (auto simp: p)
  from Cons.IH[OF this] Cons.prems(2) show ?case by (simp add: p add.assoc)
qed simp

text \<open>Failures within one counting window lock the identity as soon as there are as many as the
  threshold, whatever locked-questions come in between; the lock then holds for the base time at
  least, and for an hour at most.  The threshold has to be two or more.\<close>

theorem failures_lock_the_login:
  assumes "dict_get (am_fails st) (fail_key u ip) = None" "2 \<le> am_threshold st" "0 \<le> am_base_lock st"
    and "\<forall>(t, ev) \<in> set (evs @ [(now, FailedLogin)]). t0 \<le> t \<and> t \<le> t0 + am_window st \<and> ev \<noteq> GoodLogin"
    and "am_threshold st \<le> int (failed_logins evs) + 1"
  shows "\<forall>t. t < now + min (am_base_lock st) 3600 \<longrightarrow>
      fst (is_user_locked t u ip (login_run u ip st (evs @ [(now, FailedLogin)])))"
proof (intro allI impI)
  fix t assume t: "t < now + min (am_base_lock st) 3600"
  let ?st = "login_run u ip st evs" and ?n = "failed_logins evs"
  have "counted u ip t0 0 st" using assms(1) by (simp add: counted_def)
  from counted_run[OF this, of evs] assms(4) have c: "counted u ip t0 ?n ?st" by simp
  have "?n \<ge> 1" using assms(2,5) by simp
  with c obtain rec where rec: "dict_get (am_fails ?st) (fail_key u ip) = Some rec" "fr_failures rec = int ?n"
    "t0 \<le> fr_first rec" by (auto simp: counted_def split: option.splits)
  let ?k = "nat (int ?n + 1 - am_threshold st)"
  have "am_base_lock st * 1 \<le> am_base_lock st * 2 ^ ?k" by (rule mult_left_mono) (use assms(3) in simp_all)
  then have "t < max (fr_until rec) (now + min (am_base_lock st * 2 ^ ?k) 3600)" using t by linarith
  moreover have "\<not> now - fr_first rec > am_window st" using assms(4) rec(3) by simp
  ultimately show "fst (is_user_locked t u ip (login_run u ip st (evs @ [(now, FailedLogin)])))"
    using rec assms(5) by (simp add: register_auth_failure_def is_user_locked_def Let_def)
qed

text \<open>No lock ends later than an hour after the last event.\<close>

lemma lock_deadline_step:
  assumes "\<And>rec. dict_get (am_fails st) (fail_key u ip) = Some rec \<Longrightarrow> fr_until rec \<le> max 0 (t + 3600)" "t \<le> now"
    "dict_get (am_fails (login_step u ip st (now, ev))) (fail_key u ip) = Some rec"
  shows "fr_until rec \<le> max 0 (now + 3600)"
proof (cases "dict_get (am_fails st) (fail_key u ip)")
  case None
  then show ?thesis using assms(3)
    by (cases ev) (auto simp: register_auth_failure_def is_user_locked_def clear_auth_failures_def)
next
  case (Some rec0)
  then show ?thesis using assms(1)[OF Some] assms(2,3)
    by (cases ev) (auto simp: register_auth_failure_def is_user_locked_def clear_auth_failures_def Let_def split: if_splits)
qed

text \<open>The first failure of an identity sets no lock, also with a threshold of one.\<close>

lemma first_failure_never_locks:
  "dict_get (am_fails st) (fail_key u ip) = None \<Longrightarrow> 0 \<le> t \<Longrightarrow>
     \<not> fst (is_user_locked t u ip (register_auth_failure now u ip st))"
  by (simp add: register_auth_failure_def is_user_locked_def Let_def)

text \<open>Fixtures: one local user, no external helper, the default limits.\<close>

definition plain_env :: auth_env where
  "plain_env = \<lparr>sha256_hex = (\<lambda>p. p), hmac_sha256 = (\<lambda>k n. k @ n), unhex = Some, unbase64 = Some,
     load_key = (\<lambda>_. None), verify_sig = (\<lambda>_ _ _. False), run_helper = (\<lambda>_ _. HelperFailed),
     unix_groups = (\<lambda>_. [])\<rparr>"

definition one_user :: auth_state where
  "one_user = \<lparr>am_users = [\<lparr>au_name = ''alice'', au_hash = ''x:y'', au_permissions = None, au_groups = []\<rparr>],
     am_api_keys = [], am_public_keys = [], am_cache = [], am_pk_challenges = [], am_pw_challenges = [],
     am_fails = [], am_window = 300, am_base_lock = 30, am_threshold = 5, am_ext_enabled = False,
     am_ext_root = False, am_ext_allowed = None, am_ext_groups = ([], [], []), am_ext_default = None,
     am_ext_cache = []\<rparr>"

theorem failures_lock_the_login_witness:
  "fst (is_user_locked 33 ''bob'' None (login_run ''bob'' None one_user
     (concat (replicate 4 [(0, AskLocked), (1, FailedLogin)]) @ [(4, FailedLogin)])))"
proof -
  let ?evs = "concat (replicate 4 [(0, AskLocked), (1, FailedLogin)])"
  have "\<forall>(t, ev) \<in> set (?evs @ [(4, FailedLogin)]). (0::int) \<le> t \<and> t \<le> 0 + am_window one_user \<and> ev \<noteq> GoodLogin"
    by (simp add: one_user_def eval_nat_numeral)
  moreover have "am_threshold one_user \<le> int (failed_logins ?evs) + 1"
    by (simp add: one_user_def eval_nat_numeral)
  ultimately show ?thesis
    using failures_lock_the_login[of one_user "''bob''" None ?evs 4 0] by (simp add: one_user_def)
qed

section \<open>Who can log in with a password\<close>

definition accepted :: "auth_env \<Rightarrow> string \<Rightarrow> string \<Rightarrow> auth_state \<Rightarrow> bool" where
  "accepted e u p st \<longleftrightarrow> local_match e u p st \<or> (am_ext_enabled st \<and> fst (external_authenticate e 0 u p st))"

text \<open>Password checks change the caches only.\<close>

definition same_login_config :: "auth_state \<Rightarrow> auth_state \<Rightarrow> bool" where
  "same_login_config a b \<longleftrightarrow> am_users a = am_users b \<and> am_ext_enabled a = am_ext_enabled b \<and> am_ext_root a = am_ext_root b
     \<and> am_ext_allowed a = am_ext_allowed b"

lemma external_config:
  assumes "external_authenticate e now u p st = (ok, st1)"
  shows "same_login_config st1 st" "am_cache st1 = am_cache st" "fst (external_authenticate e n u p st) = ok"
  using assms
  by (auto simp: external_authenticate_def same_login_config_def Let_def split: if_splits helper_answer.splits option.splits)

lemma accepted_config:
  assumes "same_login_config a b" shows "accepted e u p a = accepted e u p b"
proof -
  have "fst (external_authenticate e 0 u p a) = fst (external_authenticate e 0 u p b)"
    using assms unfolding same_login_config_def external_authenticate_def
    by (auto simp: Let_def split: helper_answer.splits option.splits)
  then show ?thesis using assms by (simp add: accepted_def local_match_def same_login_config_def)
qed

definition cache_sound :: "auth_env \<Rightarrow> auth_state \<Rightarrow> bool" where
  "cache_sound e st \<longleftrightarrow> (\<forall>k \<in> dict_keys (am_cache st). \<exists>u p. CHR '':'' \<notin> set u \<and> k = cache_key u p \<and> accepted e u p st)"

lemma cache_key_inject:
  "CHR '':'' \<notin> set u \<Longrightarrow> CHR '':'' \<notin> set v \<Longrightarrow> cache_key u p = cache_key v q \<Longrightarrow> u = v \<and> p = q"
proof (induction u arbitrary: v)
  case Nil
  then show ?case by (cases v) (auto simp: cache_key_def)
next
  case (Cons c u)
  then show ?case by (cases v) (auto simp: cache_key_def)
qed

lemma authenticate_sound:
  assumes "cache_sound e st" "CHR '':'' \<notin> set u" "authenticate e now u p st = (ok, st')"
  shows "same_login_config st' st" "ok \<Longrightarrow> accepted e u p st" "cache_sound e st'"
proof -
  let ?key = "cache_key u p"
  have "same_login_config st' st \<and> (ok \<longrightarrow> accepted e u p st) \<and> cache_sound e st'"
  proof (cases "case dict_get (am_cache st) ?key of None \<Rightarrow> False | Some t \<Rightarrow> now - t < 300")
    case True
    then have "?key \<in> dict_keys (am_cache st)" by (cases "dict_get (am_cache st) ?key") (auto simp: dict_keys_def dest!: map_of_SomeD intro: rev_image_eqI)
    then obtain v q where v: "CHR '':'' \<notin> set v" "?key = cache_key v q" "accepted e v q st"
      using assms(1) unfolding cache_sound_def by blast
    then have "accepted e u p st" using cache_key_inject[OF assms(2) v(1,2)] by simp
    then show ?thesis using True assms(1,3) by (simp add: authenticate_def same_login_config_def)
  next
    case False
    obtain res st1 where r: "(if local_match e u p st then (True, st)
        else if am_ext_enabled st then external_authenticate e now u p st else (False, st)) = (res, st1)"
      by (meson surj_pair)
    then have out: "ok = res" "st' = (if res then st1\<lparr>am_cache := dict_set ?key now (am_cache st1)\<rparr> else st1)"
      using False assms(3) by (auto simp: authenticate_def)
    have st1: "same_login_config st1 st" "am_cache st1 = am_cache st" "res \<Longrightarrow> accepted e u p st"
      using r external_config(1,2)[of e now u p st res st1] external_config(3)[of e now u p st res st1 0]
      by (auto simp: same_login_config_def accepted_def split: if_splits)
    have cfg: "same_login_config st' st" using st1(1) out(2) by (auto simp: same_login_config_def)
    have "cache_sound e st'"
      unfolding cache_sound_def
    proof
      fix k assume "k \<in> dict_keys (am_cache st')"
      then have "k \<in> dict_keys (am_cache st) \<or> (res \<and> k = ?key)"
        using out(2) st1(2) by (auto split: if_splits)
      then have "\<exists>v q. CHR '':'' \<notin> set v \<and> k = cache_key v q \<and> accepted e v q st"
        using assms(1,2) st1(3) unfolding cache_sound_def by blast
      then show "\<exists>v q. CHR '':'' \<notin> set v \<and> k = cache_key v q \<and> accepted e v q st'"
        using accepted_config[OF cfg] by simp
    qed
    then show ?thesis using cfg st1(3) out(1) by simp
  qed
  then show "same_login_config st' st" "ok \<Longrightarrow> accepted e u p st" "cache_sound e st'" by blast+
qed

fun auth_run :: "auth_env \<Rightarrow> auth_state \<Rightarrow> (int \<times> string \<times> string) list \<Rightarrow> auth_state" where
  "auth_run e st [] = st"
| "auth_run e st ((now, u, p) # atts) = auth_run e (snd (authenticate e now u p st)) atts"

lemma auth_run_sound:
  "cache_sound e st \<Longrightarrow> \<forall>(now, u, p) \<in> set atts. CHR '':'' \<notin> set u \<Longrightarrow>
     cache_sound e (auth_run e st atts) \<and> same_login_config (auth_run e st atts) st"
proof (induction atts arbitrary: st)
  case (Cons a atts)
  obtain now u p where a: "a = (now, u, p)" by (cases a)
  obtain ok st' where r: "authenticate e now u p st = (ok, st')" by (cases "authenticate e now u p st")
  note S = authenticate_sound[OF Cons.prems(1) _ r]
  have "CHR '':'' \<notin> set u" using Cons.prems(2) a by simp
  note S = S[OF this]
  show ?case using Cons.IH[OF S(3)] S(1) Cons.prems(2) by (auto simp: a r same_login_config_def)
qed (simp add: same_login_config_def)



text \<open>With a colon the cache does let somebody else in: after a login of \<open>alice\<close> with the password
  \<open>x:y\<close>, the name \<open>alice:x\<close>, which no user has, is accepted with the password \<open>y\<close>.\<close>

theorem colon_name_uses_anothers_login:
  "\<not> accepted plain_env ''alice:x'' ''y'' one_user \<and>
   fst (authenticate plain_env 5 ''alice:x'' ''y'' (snd (authenticate plain_env 0 ''alice'' ''x:y'' one_user)))"
  by (simp add: accepted_def authenticate_def local_match_def verify_password_def plain_env_def one_user_def
      cache_key_def Let_def)

end
