(* ===== verification/PyFormat.thy ===== *)
theory PyFormat
  imports PyText
begin

text \<open>
  Text formatting of the Python library: \<open>repr\<close> of a \<open>str\<close> and of a byte, the format codes \<open>%.0f\<close> and
  \<open>:>2\<close>, \<open>str.split\<close> without an argument, and \<open>sorted\<close> on strings, which compares code points.
\<close>

definition hex_digit :: "nat \<Rightarrow> char" where
  "hex_digit n = (if n < 10 then char_of (48 + n) else char_of (87 + n))"

definition QUOTE :: char where "QUOTE = CHR 0x27"
definition DQUOTE :: char where "DQUOTE = CHR 0x22"
definition BACKSLASH :: char where "BACKSLASH = CHR 0x5C"

definition escaped :: "(nat \<Rightarrow> bool) \<Rightarrow> char \<Rightarrow> char \<Rightarrow> string" where
  "escaped printable q c =
     (let n = code c in
      if c = q \<or> c = BACKSLASH then [BACKSLASH, c]
      else if n = 9 then [BACKSLASH, CHR ''t''] else if n = 10 then [BACKSLASH, CHR ''n'']
      else if n = 13 then [BACKSLASH, CHR ''r'']
      else if printable n then [c]
      else [BACKSLASH, CHR ''x'', hex_digit (n div 16), hex_digit (n mod 16)])"

definition quoted :: "(nat \<Rightarrow> bool) \<Rightarrow> string \<Rightarrow> string" where
  "quoted printable s =
     (let q = (if QUOTE \<in> set s \<and> DQUOTE \<notin> set s then DQUOTE else QUOTE)
      in [q] @ concat (map (escaped printable q) s) @ [q])"

definition ascii_printable :: "nat \<Rightarrow> bool" where
  "ascii_printable n \<longleftrightarrow> 32 \<le> n \<and> n < 127"

definition str_repr :: "string \<Rightarrow> string" where
  "str_repr s = quoted (\<lambda>n. ascii_printable n \<or> (161 \<le> n \<and> n \<noteq> 173)) s"

definition bytes_repr :: "string \<Rightarrow> string" where
  "bytes_repr bs = ''b'' @ quoted ascii_printable bs"

text \<open>\<open>%.0f\<close> rounds half to even and keeps the sign of a negative number that rounds to zero.\<close>

definition round_even :: "rat \<Rightarrow> int" where
  "round_even q =
     (let f = \<lfloor>q\<rfloor>; d = q - of_int f in
      if d < 1 / 2 then f else if d > 1 / 2 then f + 1 else if even f then f else f + 1)"

definition fixed0 :: "rat \<Rightarrow> string" where
  "fixed0 q = (if q < 0 \<and> round_even q = 0 then ''-0'' else int_str (round_even q))"

definition right2 :: "nat \<Rightarrow> string" where
  "right2 n = replicate (2 - length (nat_str n)) (CHR '' '') @ nat_str n"

fun words_from :: "string \<Rightarrow> string \<Rightarrow> string list" where
  "words_from w [] = (if w = [] then [] else [w])"
| "words_from w (c # cs) =
     (if isspace c then (if w = [] then words_from [] cs else w # words_from [] cs)
      else words_from (w @ [c]) cs)"

definition py_split :: "string \<Rightarrow> string list" where
  "py_split s = words_from [] s"

fun str_le :: "string \<Rightarrow> string \<Rightarrow> bool" where
  "str_le [] t = True"
| "str_le (c # s) [] = False"
| "str_le (c # s) (d # t) = (code c < code d \<or> (c = d \<and> str_le s t))"

text \<open>\<open>sorted\<close> is stable: an element stays before those it is not greater than.\<close>

fun insert_with :: "('a \<Rightarrow> 'a \<Rightarrow> bool) \<Rightarrow> 'a \<Rightarrow> 'a list \<Rightarrow> 'a list" where
  "insert_with le x [] = [x]"
| "insert_with le x (y # ys) = (if le x y then x # y # ys else y # insert_with le x ys)"

definition sort_with :: "('a \<Rightarrow> 'a \<Rightarrow> bool) \<Rightarrow> 'a list \<Rightarrow> 'a list" where
  "sort_with le xs = foldr (insert_with le) xs []"

definition sort_str :: "('a \<Rightarrow> string) \<Rightarrow> 'a list \<Rightarrow> 'a list" where
  "sort_str key xs = sort_with (\<lambda>x y. str_le (key x) (key y)) xs"

definition sorted_strs :: "string list \<Rightarrow> string list" where
  "sorted_strs xs = sort_str (\<lambda>s. s) xs"

section \<open>Facts\<close>

lemma words_from_word:
  "\<forall>c \<in> set v. \<not> isspace c \<Longrightarrow> words_from w (v @ cs) = words_from (w @ v) cs"
  by (induction v arbitrary: w) auto

text \<open>Words joined by one space split back.\<close>

lemma words_join:
  "\<forall>w \<in> set ws. w \<noteq> [] \<and> (\<forall>c \<in> set w. \<not> isspace c) \<Longrightarrow> py_split (join '' '' ws) = ws"
proof (induction ws)
  case (Cons w ws)
  have w: "w \<noteq> []" "\<forall>c \<in> set w. \<not> isspace c" using Cons.prems by simp_all
  have sp: "isspace (CHR '' '')" by (simp add: isspace_def)
  show ?case
  proof (cases ws)
    case Nil
    then show ?thesis using w words_from_word[of w "[]" "[]"] by (simp add: py_split_def)
  next
    case (Cons v vs)
    have "py_split (join '' '' ws) = ws" using Cons.IH Cons.prems by simp
    moreover have "join '' '' (w # ws) = w @ CHR '' '' # join '' '' ws" using Cons by simp
    ultimately show ?thesis
      using w words_from_word[of w "[]" "CHR '' '' # join '' '' ws"] sp by (simp add: py_split_def)
  qed
qed (simp add: py_split_def)

lemma set_insert_with [simp]: "set (insert_with le x xs) = insert x (set xs)"
  by (induction xs) auto

lemma set_sort_with [simp]: "set (sort_with le xs) = set xs"
  unfolding sort_with_def by (induction xs) auto

lemma set_sort_str [simp]: "set (sort_str key xs) = set xs" "set (sorted_strs ys) = set ys"
  by (simp_all add: sort_str_def sorted_strs_def)

end
