(* ===== verification/PowerOutlets.thy ===== *)
theory PowerOutlets
  imports Federation PyFormat
begin

text \<open>
  \<^verbatim>\<open>openmux/server/adapters/pdu.py\<close>: the outlets of the power units, what their drivers last
  read, and the consoles they feed; with the driver interface and the in-memory driver of
  \<^verbatim>\<open>power_drivers\<close>.  \<open>ps_ports\<close> is what the adapter reads of the port registry.  Events (port
  notices, state listeners, audit lines) are appended to \<open>ps_events\<close>; telemetry is a rational number.
  A poll task is the flag \<open>pd_task\<close>: each of its rounds is one \<open>refresh_readings\<close>.
\<close>

section \<open>Drivers\<close>

record reading =
  rd_on :: "bool option"
  rd_watts :: "rat option"
  rd_amps :: "rat option"
  rd_volts :: "rat option"
  rd_error :: string

definition no_reading :: reading where
  "no_reading = \<lparr>rd_on = None, rd_watts = None, rd_amps = None, rd_volts = None, rd_error = []\<rparr>"

text \<open>The interface \<open>PduDriver\<close>; an exception is its text.  \<open>read_states\<close> answers \<open>None\<close> while it backs off.\<close>

record 'd driver_ops =
  list_outlets :: "'d \<Rightarrow> string + string list"
  read_states :: "'d \<Rightarrow> (string + (string, reading) pydict option) \<times> 'd"
  set_state :: "string \<Rightarrow> bool \<Rightarrow> 'd \<Rightarrow> (string + reading) \<times> 'd"

locale power_driver =
  fixes ops :: "'d driver_ops"
    and inv :: "'d \<Rightarrow> bool"
  assumes set_reports: "inv d \<Longrightarrow> set_state ops oid on d = (Inr r, d1) \<Longrightarrow> rd_on r = Some on \<and> rd_error r = []"
    and set_inv: "inv d \<Longrightarrow> inv (snd (set_state ops oid on d))"
    and read_inv: "inv d \<Longrightarrow> inv (snd (read_states ops d))"
    and read_after_set:
      "inv d \<Longrightarrow> set_state ops oid on d = (Inr r, d1) \<Longrightarrow> read_states ops d1 = (Inr (Some rs), d2) \<Longrightarrow>
         dict_get rs oid = Some r"
begin

lemma switch_is_read_back:
  "inv d \<Longrightarrow> set_state ops oid on d = (Inr r, d1) \<Longrightarrow> read_states ops d1 = (Inr (Some rs), d2) \<Longrightarrow>
     map_option rd_on (dict_get rs oid) = Some (Some on)"
  using set_reports read_after_set by fastforce

end

subsection \<open>The in-memory driver\<close>

record dummy_driver =
  dm_ids :: "string list"
  dm_watts_on :: rat
  dm_volts :: rat
  dm_fail_discovery :: bool
  dm_fail_reads :: bool
  dm_state :: "(string, bool) pydict"

definition new_dummy :: "string list \<Rightarrow> dummy_driver" where
  "new_dummy ids = \<lparr>dm_ids = ids, dm_watts_on = 120, dm_volts = 230, dm_fail_discovery = False,
     dm_fail_reads = False, dm_state = map (\<lambda>i. (i, True)) ids\<rparr>"

definition dummy_list_outlets :: "dummy_driver \<Rightarrow> string + string list" where
  "dummy_list_outlets d = (if dm_fail_discovery d then Inl ''dummy discovery failure'' else Inr (dm_ids d))"

definition dummy_reading :: "dummy_driver \<Rightarrow> string \<Rightarrow> reading" where
  "dummy_reading d oid =
     (case dict_get (dm_state d) oid of
        None \<Rightarrow> no_reading
      | Some on \<Rightarrow> \<lparr>rd_on = Some on, rd_watts = Some (dm_watts_on d), rd_amps = Some (dm_watts_on d / dm_volts d),
          rd_volts = Some (dm_volts d), rd_error = []\<rparr>)"

definition dummy_read_states :: "dummy_driver \<Rightarrow> (string + (string, reading) pydict option) \<times> dummy_driver" where
  "dummy_read_states d =
     (if dm_fail_reads d then Inl ''dummy read failure''
      else Inr (Some (map (\<lambda>oid. (oid, dummy_reading d oid)) (dm_ids d))), d)"

definition dummy_set_state :: "string \<Rightarrow> bool \<Rightarrow> dummy_driver \<Rightarrow> (string + reading) \<times> dummy_driver" where
  "dummy_set_state oid on d =
     (if dict_get (dm_state d) oid = None then (Inl (''unknown outlet '' @ str_repr oid), d)
      else (let d1 = d\<lparr>dm_state := dict_set oid on (dm_state d)\<rparr> in (Inr (dummy_reading d1 oid), d1)))"

definition dummy_ops :: "dummy_driver driver_ops" where
  "dummy_ops = \<lparr>list_outlets = dummy_list_outlets, read_states = dummy_read_states, set_state = dummy_set_state\<rparr>"

text \<open>The ids are the keys of the state.\<close>

definition dummy_ok :: "dummy_driver \<Rightarrow> bool" where
  "dummy_ok d \<longleftrightarrow> set (dm_ids d) = dict_keys (dm_state d)"

lemma map_of_ids: "dict_get (map (\<lambda>i. (i, f i)) ids) k = (if k \<in> set ids then Some (f k) else None)"
  by (induction ids) auto

lemma dict_get_none_iff: "dict_get d k = None \<longleftrightarrow> k \<notin> dict_keys d"
  by (simp add: dict_keys_def map_of_eq_None_iff)

lemma dummy_set_ok: "dummy_ok d \<Longrightarrow> dummy_ok (snd (dummy_set_state oid on d))"
  by (auto simp: dummy_set_state_def dummy_ok_def Let_def dict_get_none_iff)

interpretation dummy: power_driver dummy_ops dummy_ok
proof
  fix d oid on r d1 d2 rs
  show "dummy_ok d \<Longrightarrow> set_state dummy_ops oid on d = (Inr r, d1) \<Longrightarrow> rd_on r = Some on \<and> rd_error r = []"
    by (auto simp: dummy_ops_def dummy_set_state_def dummy_reading_def Let_def split: if_splits)
  show "dummy_ok d \<Longrightarrow> dummy_ok (snd (set_state dummy_ops oid on d))"
    by (simp add: dummy_ops_def dummy_set_ok)
  show "dummy_ok d \<Longrightarrow> dummy_ok (snd (read_states dummy_ops d))"
    by (simp add: dummy_ops_def dummy_read_states_def)
  show "dummy_ok d \<Longrightarrow> set_state dummy_ops oid on d = (Inr r, d1) \<Longrightarrow> read_states dummy_ops d1 = (Inr (Some rs), d2) \<Longrightarrow>
      dict_get rs oid = Some r"
    by (auto simp: dummy_ops_def dummy_set_state_def dummy_read_states_def dummy_ok_def Let_def map_of_ids
        dict_get_none_iff split: if_splits)
qed

section \<open>The adapter\<close>

record 'd pdu =
  pd_description :: string
  pd_driver_name :: string
  pd_poll_interval :: rat
  pd_annotations :: "(string, string) pydict"
  pd_driver :: 'd
  pd_online :: "bool option"
  pd_readings :: "(string, reading) pydict"
  pd_task :: bool

text \<open>What the adapter reads of a registered port: the \<open>power\<close> list and, of a federated proxy, its name and
  server on the origin, the states the origin last reported, the link and the open sessions.\<close>

record remote_view =
  rv_name :: string
  rv_origin :: "string option"
  rv_states :: "(string, bool option) pydict option"
  rv_connected :: bool
  rv_sessions :: "string list"

record pwport =
  pp_refs :: "string list"
  pp_description :: string
  pp_remote :: "remote_view option"

record impact =
  im_change :: string
  im_losing :: "(string \<times> string) list"
  im_staying :: "(string \<times> string \<times> string list) list"

datatype power_event =
    PortNotice string string "bool option" bool "string list"
  | StateListeners string "bool option" "string list"
  | AuditLine string
  | PortLog string string "string option" string bool string

record 'd pstate =
  ps_enabled :: bool
  ps_pdus :: "(string, 'd pdu) pydict"
  ps_ports :: "(string, pwport) pydict"
  ps_events :: "power_event list"

definition power_emit :: "power_event list \<Rightarrow> 'd pstate \<Rightarrow> 'd pstate" where
  "power_emit es s = s\<lparr>ps_events := ps_events s @ es\<rparr>"

definition put_pdu :: "string \<Rightarrow> 'd pdu \<Rightarrow> 'd pstate \<Rightarrow> 'd pstate" where
  "put_pdu n p s = s\<lparr>ps_pdus := dict_set n p (ps_pdus s)\<rparr>"

subsection \<open>References and consoles\<close>

definition parse_ref :: "string \<Rightarrow> string + string \<times> string" where
  "parse_ref ref =
     (if split_remote_ref ref \<noteq> None then
        Inl (''invalid local outlet ref '' @ str_repr ref @ ''; the origin prefix belongs to a remote ref'')
      else
        (case split_on (CHR ''.'') ref of
           [pdu, outlet] \<Rightarrow>
             if valid_ref_token pdu \<and> valid_ref_token outlet then Inr (pdu, outlet)
             else Inl (''invalid outlet ref '' @ str_repr ref)
         | _ \<Rightarrow> Inl (''invalid outlet ref '' @ str_repr ref @ ''; expected <pdu>.<id>'')))"

definition port_power_map :: "string \<Rightarrow> 'd pstate \<Rightarrow> string list" where
  "port_power_map n s = (case dict_get (ps_ports s) n of None \<Rightarrow> [] | Some p \<Rightarrow> pp_refs p)"

definition outlet_on_state :: "string \<Rightarrow> 'd pstate \<Rightarrow> bool option" where
  "outlet_on_state ref s =
     (case parse_ref ref of
        Inl _ \<Rightarrow> None
      | Inr (pdu, oid) \<Rightarrow>
          (case dict_get (ps_pdus s) pdu of
             None \<Rightarrow> None
           | Some p \<Rightarrow> (case dict_get (pd_readings p) oid of None \<Rightarrow> None | Some r \<Rightarrow> rd_on r)))"

definition remote_feed_states :: "string \<Rightarrow> 'd pstate \<Rightarrow> (string, bool option) pydict" where
  "remote_feed_states n s =
     (case dict_get (ps_ports s) n of
        None \<Rightarrow> []
      | Some p \<Rightarrow> (case pp_remote p of None \<Rightarrow> []
          | Some rv \<Rightarrow> (case rv_states rv of None \<Rightarrow> [] | Some d \<Rightarrow> d)))"

definition feed_states :: "string \<Rightarrow> 'd pstate \<Rightarrow> (string, bool option) pydict" where
  "feed_states n s =
     (case dict_get (ps_ports s) n of
        None \<Rightarrow> []
      | Some p \<Rightarrow>
          if pp_refs p = [] then []
          else if pp_remote p \<noteq> None then remote_feed_states n s
          else fold (\<lambda>r d. dict_set r (outlet_on_state r s) d) (pp_refs p) [])"

definition mapped_ports_for_ref :: "string \<Rightarrow> 'd pstate \<Rightarrow> string list" where
  "mapped_ports_for_ref ref s = map fst (filter (\<lambda>(n, p). ref \<in> set (pp_refs p)) (ps_ports s))"

definition port_label :: "string \<Rightarrow> pwport \<Rightarrow> string" where
  "port_label n p =
     (case pp_remote p of
        Some rv \<Rightarrow>
          (case rv_origin rv of
             Some origin \<Rightarrow>
               if origin \<noteq> [] then origin @ ''::'' @ (if rv_name rv \<noteq> [] then rv_name rv else n)
               else pp_description p
           | None \<Rightarrow> pp_description p)
      | None \<Rightarrow> pp_description p)"

definition compute_off_impact :: "string \<Rightarrow> bool \<Rightarrow> 'd pstate \<Rightarrow> impact" where
  "compute_off_impact ref local_ref s =
     (let declared = (\<lambda>p. if local_ref then filter (\<lambda>r. split_remote_ref r = None) (pp_refs p) else pp_refs p);
          live = (\<lambda>p. filter (\<lambda>r. outlet_on_state r s = Some True) (filter (\<lambda>r. r \<noteq> ref) (declared p)));
          fed = filter (\<lambda>(n, p). ref \<in> set (declared p)) (ps_ports s)
      in \<lparr>im_change = ''off'',
          im_losing = map (\<lambda>(n, p). (n, port_label n p)) (filter (\<lambda>(n, p). live p = []) fed),
          im_staying = map (\<lambda>(n, p). (n, port_label n p, live p)) (filter (\<lambda>(n, p). live p \<noteq> []) fed)\<rparr>)"

definition empty_impact :: "bool \<Rightarrow> impact" where
  "empty_impact on = \<lparr>im_change = (if on then ''on'' else ''off''), im_losing = [], im_staying = []\<rparr>"

subsection \<open>Changes\<close>

definition emit_outlet_change :: "string \<Rightarrow> string \<Rightarrow> bool option \<Rightarrow> 'd pstate \<Rightarrow> 'd pstate" where
  "emit_outlet_change pdu oid new_on s =
     (let ref = pdu @ ''.'' @ oid;
          affected = mapped_ports_for_ref ref s;
          notice = (\<lambda>n. let others = filter (\<lambda>r. outlet_on_state r s = Some True)
                                      (filter (\<lambda>r. r \<noteq> ref) (port_power_map n s))
                        in PortNotice n ref new_on (new_on \<noteq> Some True \<and> others = []) others)
      in power_emit (map notice affected @ [StateListeners ref new_on affected]) s)"

definition put_reading :: "string \<Rightarrow> string \<Rightarrow> reading \<Rightarrow> 'd pstate \<Rightarrow> 'd pstate" where
  "put_reading pdu oid r s =
     (case dict_get (ps_pdus s) pdu of
        None \<Rightarrow> s | Some p \<Rightarrow> put_pdu pdu (p\<lparr>pd_readings := dict_set oid r (pd_readings p)\<rparr>) s)"

text \<open>Outlet by outlet, each change announced before the reading is cleared.\<close>

definition offline_outlet :: "string \<Rightarrow> string \<Rightarrow> string \<times> reading \<Rightarrow> 'd pstate \<Rightarrow> 'd pstate" where
  "offline_outlet pdu err e s =
     (case e of (oid, r) \<Rightarrow>
        if rd_on r \<noteq> None then
          put_reading pdu oid (r\<lparr>rd_error := err, rd_on := None\<rparr>) (emit_outlet_change pdu oid None s)
        else
          put_reading pdu oid (r\<lparr>rd_error := err, rd_watts := None, rd_amps := None, rd_volts := None\<rparr>) s)"

definition mark_pdu_offline :: "string \<Rightarrow> string \<Rightarrow> 'd pstate \<Rightarrow> 'd pstate" where
  "mark_pdu_offline pdu err s =
     (case dict_get (ps_pdus s) pdu of
        None \<Rightarrow> s
      | Some p \<Rightarrow> fold (offline_outlet pdu err) (pd_readings p) (put_pdu pdu (p\<lparr>pd_online := Some False\<rparr>) s))"

definition merged_reading :: "reading option \<Rightarrow> reading \<Rightarrow> reading" where
  "merged_reading prev r =
     (case prev of Some q \<Rightarrow> if rd_error q \<noteq> [] then r\<lparr>rd_error := []\<rparr> else r | None \<Rightarrow> r)"

definition on_changed :: "reading option \<Rightarrow> reading \<Rightarrow> bool" where
  "on_changed prev r \<longleftrightarrow> (case prev of None \<Rightarrow> True | Some q \<Rightarrow> rd_on q \<noteq> rd_on r)"

definition apply_readings :: "string \<Rightarrow> (string, reading) pydict \<Rightarrow> 'd pstate \<Rightarrow> 'd pstate" where
  "apply_readings pdu rs s =
     (case dict_get (ps_pdus s) pdu of
        None \<Rightarrow> s
      | Some p \<Rightarrow>
          (let old = pd_readings p;
               merged = fold (\<lambda>(oid, r) d. dict_set oid (merged_reading (dict_get d oid) r) d) rs old;
               kept = filter (\<lambda>(oid, r). dict_has rs oid) merged;
               changed = filter (\<lambda>(oid, r). on_changed (dict_get old oid) r) rs
           in fold (\<lambda>(oid, r). emit_outlet_change pdu oid (rd_on r)) changed
                (put_pdu pdu (p\<lparr>pd_online := Some True, pd_readings := kept\<rparr>) s)))"

definition refresh_readings :: "'d driver_ops \<Rightarrow> string \<Rightarrow> 'd pstate \<Rightarrow> 'd pstate" where
  "refresh_readings ops pdu s =
     (case dict_get (ps_pdus s) pdu of
        None \<Rightarrow> s
      | Some p \<Rightarrow>
          (case read_states ops (pd_driver p) of
             (answer, d) \<Rightarrow>
               (let s1 = put_pdu pdu (p\<lparr>pd_driver := d\<rparr>) s in
                case answer of
                  Inl err \<Rightarrow> mark_pdu_offline pdu err s1
                | Inr None \<Rightarrow> s1
                | Inr (Some rs) \<Rightarrow> apply_readings pdu rs s1)))"

end
