(* ===== verification/PowerControl.thy ===== *)
theory PowerControl
  imports PowerOutlets ConsoleManager
begin

text \<open>
  Switching and reporting of \<^verbatim>\<open>openmux/server/adapters/pdu.py\<close>: \<open>set_outlet\<close> with its impact
  preview, audit and relay to the owner of a federated outlet, the snapshot and the summary of a
  port, the control frames, and start and stop.  The answer of a peer to a relayed switch and the
  permissions of a user are an environment; the group check is the console manager's
  \<open>blocked_ports_for_user\<close>.
\<close>

section \<open>Switching\<close>

text \<open>A relay takes the port, the reference on the origin, the state, the claimed ports and the client, and
  answers \<open>(ok, on, error)\<close>; without a MuxCon adapter there is none.\<close>

type_synonym relay = "(string \<Rightarrow> string \<Rightarrow> bool \<Rightarrow> string list \<Rightarrow> string \<Rightarrow> bool \<times> bool \<times> string option) option"

record switch_result =
  sr_ok :: bool
  sr_error :: string
  sr_reading :: "reading option"
  sr_impact :: impact

definition switch_refused :: "string \<Rightarrow> impact \<Rightarrow> switch_result" where
  "switch_refused err im = \<lparr>sr_ok = False, sr_error = err, sr_reading = None, sr_impact = im\<rparr>"

fun scan_origins :: "string \<Rightarrow> (string \<times> pwport) list \<Rightarrow> string option \<times> bool" where
  "scan_origins ref [] = (None, False)"
| "scan_origins ref ((n, p) # ps) =
     (let (later, local) = scan_origins ref ps in
      case pp_remote p of
        Some rv \<Rightarrow>
          (case rv_origin rv of
             Some sid \<Rightarrow> (if ref \<in> set (pp_refs p) \<and> sid \<noteq> [] then Some sid else later, local)
           | None \<Rightarrow> (later, local))
      | None \<Rightarrow> (later, local \<or> ref \<in> set (pp_refs p)))"

definition remote_origin_for_ref :: "string \<Rightarrow> 'd pstate \<Rightarrow> string option" where
  "remote_origin_for_ref ref s =
     (case split_remote_ref ref of
        Some (origin, _) \<Rightarrow> Some origin
      | None \<Rightarrow> (case scan_origins ref (ps_ports s) of (origin, local) \<Rightarrow> if local then None else origin))"

definition relay_anchor :: "string \<Rightarrow> string \<Rightarrow> 'd pstate \<Rightarrow> remote_view option" where
  "relay_anchor ref client s =
     (case filter (\<lambda>(n, p). ref \<in> set (pp_refs p) \<and>
             (case pp_remote p of None \<Rightarrow> False | Some rv \<Rightarrow> rv_connected rv \<and> client \<in> set (rv_sessions rv))) (ps_ports s) of
        [] \<Rightarrow> None
      | (n, p) # _ \<Rightarrow> pp_remote p)"

definition relay_power_switch :: "relay \<Rightarrow> string \<Rightarrow> bool \<Rightarrow> string option \<Rightarrow> 'd pstate \<Rightarrow> switch_result" where
  "relay_power_switch rl ref on client s =
     (let origin = (case remote_origin_for_ref ref s of Some i \<Rightarrow> i | None \<Rightarrow> ''None'');
          local_ref = (case split_remote_ref ref of Some (_, l) \<Rightarrow> l | None \<Rightarrow> ref);
          not_anchored = switch_refused (ref @ '' is owned by federated node '' @ origin
            @ ''; switch it from a session attached to a port it powers'') (empty_impact on)
      in case client of
           None \<Rightarrow> not_anchored
         | Some c \<Rightarrow>
             if c = [] then not_anchored
             else
               (case relay_anchor ref c s of
                  None \<Rightarrow> not_anchored
                | Some rv \<Rightarrow>
                    (case rl of
                       None \<Rightarrow> switch_refused ''no active federation link to the origin node'' (empty_impact on)
                     | Some send \<Rightarrow>
                         (case send (rv_name rv) local_ref on (mapped_ports_for_ref ref s) c of
                            (True, now_on, _) \<Rightarrow>
                              \<lparr>sr_ok = True, sr_error = [], sr_reading = Some (no_reading\<lparr>rd_on := Some now_on\<rparr>),
                               sr_impact = empty_impact on\<rparr>
                          | (False, _, err) \<Rightarrow>
                              switch_refused (case err of None \<Rightarrow> ''switch not relayed'' | Some m \<Rightarrow> m) (empty_impact on)))))"

datatype 'd resolved = OutletRefused string | OutletRemote | OutletLocal string string "'d pdu"

definition resolve_outlet_state :: "string \<Rightarrow> 'd pstate \<Rightarrow> 'd resolved" where
  "resolve_outlet_state ref s =
     (case parse_ref ref of
        Inl err \<Rightarrow> OutletRefused err
      | Inr (pdu, oid) \<Rightarrow>
          if \<not> ps_enabled s then OutletRefused ''power management is disabled''
          else if remote_origin_for_ref ref s \<noteq> None then OutletRemote
          else
            (case dict_get (ps_pdus s) pdu of
               None \<Rightarrow> OutletRefused (''PDU '' @ pdu @ '' is not configured'')
             | Some p \<Rightarrow> OutletLocal pdu oid p))"

definition audit_control :: "string \<Rightarrow> bool \<Rightarrow> string option \<Rightarrow> string option \<Rightarrow> impact \<Rightarrow> 'd pstate \<Rightarrow> 'd pstate" where
  "audit_control ref on user client im s =
     (let who = (case user of Some u \<Rightarrow> (if u = [] then ''unknown'' else u) | None \<Rightarrow> ''unknown'');
          text = (if on then ''on'' else ''off'');
          losing = filter (\<lambda>n. n \<noteq> []) (map fst (im_losing im));
          staying = filter (\<lambda>n. n \<noteq> []) (map fst (im_staying im));
          line = join ''; '' ([''POWER CONTROL: user '' @ who @ '' turned '' @ ref @ '' '' @ text]
            @ (if losing \<noteq> [] then [''losing all power: '' @ join '', '' losing] else [])
            @ (if staying \<noteq> [] then [''staying up: '' @ join '', '' staying] else [])
            @ (case client of Some c \<Rightarrow> (if c \<noteq> [] then [''client '' @ c] else []) | None \<Rightarrow> []));
          notice = (\<lambda>n. PortLog n ref client
            (if \<not> on \<and> filter (\<lambda>r. r \<noteq> ref \<and> outlet_on_state r s = Some True) (port_power_map n s) = []
             then ''[POWER WARNING] all power feeds to this console are now off''
             else ''[POWER] feed '' @ ref @ '' is now '' @ text)
            on who)
      in power_emit (AuditLine line # map notice (mapped_ports_for_ref ref s)) s)"

definition set_local_outlet ::
  "'d driver_ops \<Rightarrow> string \<Rightarrow> string \<Rightarrow> string \<Rightarrow> 'd pdu \<Rightarrow> bool \<Rightarrow> string option \<Rightarrow> string option \<Rightarrow>
     'd pstate \<Rightarrow> switch_result \<times> 'd pstate" where
  "set_local_outlet ops ref pdu oid p on user client s =
     (let im = (if on then empty_impact on else compute_off_impact ref True s) in
      case set_state ops oid on (pd_driver p) of
        (outcome, d) \<Rightarrow>
          (let p1 = p\<lparr>pd_driver := d\<rparr>; s1 = put_pdu pdu p1 s in
           case outcome of
             Inl err \<Rightarrow> (switch_refused err im, s1)
           | Inr r0 \<Rightarrow>
               if rd_error r0 \<noteq> []
               then (\<lparr>sr_ok = False, sr_error = rd_error r0, sr_reading = Some r0, sr_impact = im\<rparr>, s1)
               else
                 (let prev = dict_get (pd_readings p1) oid;
                      r = merged_reading prev r0;
                      s2 = put_pdu pdu (p1\<lparr>pd_readings := dict_set oid r (pd_readings p1),
                             pd_online := (if pd_online p1 = Some False then Some True else pd_online p1)\<rparr>) s1;
                      s3 = (if on_changed prev r then emit_outlet_change pdu oid (rd_on r) s2 else s2)
                  in (\<lparr>sr_ok = True, sr_error = [], sr_reading = Some r, sr_impact = im\<rparr>,
                      audit_control ref on user client im s3))))"

definition set_outlet ::
  "'d driver_ops \<Rightarrow> relay \<Rightarrow> string \<Rightarrow> bool \<Rightarrow> string option \<Rightarrow> string option \<Rightarrow> 'd pstate \<Rightarrow> switch_result \<times> 'd pstate" where
  "set_outlet ops rl ref on user client s =
     (if split_remote_ref ref \<noteq> None then (relay_power_switch rl ref on client s, s)
      else
        (case resolve_outlet_state ref s of
           OutletRemote \<Rightarrow> (relay_power_switch rl ref on client s, s)
         | OutletRefused err \<Rightarrow> (switch_refused err (empty_impact on), s)
         | OutletLocal pdu oid p \<Rightarrow> set_local_outlet ops ref pdu oid p on user client s))"

section \<open>Reports\<close>

record outlet_entry =
  oe_id :: string
  oe_ref :: string
  oe_description :: string
  oe_online :: "bool option"
  oe_off_impact :: impact
  oe_reading :: reading
  oe_mapped :: "string list"

record pdu_entry =
  pe_name :: string
  pe_description :: string
  pe_driver :: string
  pe_online :: "bool option"
  pe_poll_interval :: rat
  pe_outlets :: "outlet_entry list"
  pe_outlets_on :: nat
  pe_total_watts :: "rat option"

record snapshot =
  sn_enabled :: bool
  sn_pdus :: "pdu_entry list"
  sn_unresolved :: "string list"

definition add_watts :: "reading \<Rightarrow> rat option \<Rightarrow> rat option" where
  "add_watts r acc =
     (case (rd_on r, rd_watts r) of
        (Some True, Some w) \<Rightarrow> Some ((case acc of None \<Rightarrow> 0 | Some t \<Rightarrow> t) + w)
      | _ \<Rightarrow> acc)"

definition pdu_snapshot_entry :: "string \<Rightarrow> 'd pdu \<Rightarrow> 'd pstate \<Rightarrow> pdu_entry" where
  "pdu_snapshot_entry n p s =
     (let readings = sort_str fst (pd_readings p);
          entry = (\<lambda>(oid, r). let ref = n @ ''.'' @ oid in
            \<lparr>oe_id = oid, oe_ref = ref,
             oe_description = (case dict_get (pd_annotations p) oid of None \<Rightarrow> [] | Some t \<Rightarrow> t),
             oe_online = pd_online p, oe_off_impact = compute_off_impact ref False s, oe_reading = r,
             oe_mapped = mapped_ports_for_ref ref s\<rparr>)
      in \<lparr>pe_name = n, pe_description = pd_description p, pe_driver = pd_driver_name p, pe_online = pd_online p,
          pe_poll_interval = pd_poll_interval p, pe_outlets = map entry readings,
          pe_outlets_on = length (filter (\<lambda>(oid, r). rd_on r = Some True) readings),
          pe_total_watts = fold (\<lambda>(oid, r). add_watts r) readings None\<rparr>)"

definition resolved_refs :: "'d pstate \<Rightarrow> string list" where
  "resolved_refs s = concat (map (\<lambda>(n, p). map (\<lambda>(oid, r). n @ ''.'' @ oid) (pd_readings p)) (ps_pdus s))"

definition unresolved_refs :: "'d pstate \<Rightarrow> string list" where
  "unresolved_refs s =
     fold (\<lambda>(n, p) out. if pp_remote p \<noteq> None then out
             else fold (\<lambda>r out. if split_remote_ref r \<noteq> None \<or> r \<in> set (resolved_refs s) \<or> r \<in> set out then out
                                else out @ [r]) (pp_refs p) out)
       (ps_ports s) []"

definition get_power_snapshot :: "'d pstate \<Rightarrow> snapshot" where
  "get_power_snapshot s =
     \<lparr>sn_enabled = ps_enabled s, sn_pdus = sort_str pe_name (map (\<lambda>(n, p). pdu_snapshot_entry n p s) (ps_pdus s)),
      sn_unresolved = sorted_strs (unresolved_refs s)\<rparr>"

definition feed_on_watts :: "string \<Rightarrow> bool \<Rightarrow> (string, bool option) pydict \<Rightarrow> 'd pstate \<Rightarrow> bool option \<times> rat option" where
  "feed_on_watts ref remote states s =
     (if remote then (case dict_get states ref of None \<Rightarrow> None | Some on \<Rightarrow> on, None)
      else
        (outlet_on_state ref s,
         case parse_ref ref of
           Inl _ \<Rightarrow> None
         | Inr (pdu, oid) \<Rightarrow>
             (case dict_get (ps_pdus s) pdu of
                None \<Rightarrow> None
              | Some p \<Rightarrow> (case dict_get (pd_readings p) oid of None \<Rightarrow> None | Some r \<Rightarrow> rd_watts r))))"

record port_power =
  pw_feeds :: "(string \<times> bool option \<times> rat option) list"
  pw_feeds_on :: nat
  pw_state :: string
  pw_all_lost :: bool

definition port_power_payload :: "string \<Rightarrow> 'd pstate \<Rightarrow> port_power option" where
  "port_power_payload n s =
     (let refs = port_power_map n s;
          remote = (case dict_get (ps_ports s) n of None \<Rightarrow> False | Some p \<Rightarrow> pp_remote p \<noteq> None);
          states = (if remote then remote_feed_states n s else []);
          feeds = map (\<lambda>r. (r, feed_on_watts r remote states s)) refs;
          on = length (filter (\<lambda>(r, x, w). x = Some True) feeds);
          known = length (filter (\<lambda>(r, x, w). x \<noteq> None) feeds);
          state = (if known = 0 then ''unknown'' else if on = length refs then ''all''
                   else if on = 0 then ''none'' else ''some'')
      in if refs = [] then None
         else Some \<lparr>pw_feeds = feeds, pw_feeds_on = on, pw_state = state, pw_all_lost = (state = ''none'')\<rparr>)"

section \<open>Who may switch\<close>

definition user_can_write :: "env \<Rightarrow> string option \<Rightarrow> bool" where
  "user_can_write e user =
     (case user of None \<Rightarrow> False | Some u \<Rightarrow> user_permissions e u \<in> {Some ''read-write'', Some ''admin''})"

definition power_blocked_ports :: "env \<Rightarrow> string \<Rightarrow> string option \<Rightarrow> 'd pstate \<Rightarrow> cm \<Rightarrow> string list \<times> cm" where
  "power_blocked_ports e ref user s c =
     (case user of
        None \<Rightarrow> ([], c)
      | Some u \<Rightarrow> if u = [] then ([], c) else blocked_ports_for_user e (mapped_ports_for_ref ref s) u c)"

definition outside_groups :: "string \<Rightarrow> string list \<Rightarrow> string" where
  "outside_groups ref blocked =
     ref @ '' feeds consoles outside your groups ('' @ join '', '' blocked @ ''); switching it needs admin''"

section \<open>Control frames\<close>

datatype power_reply =
    PowerFeeds "(string \<times> bool option \<times> rat option) list" string
  | PowerRefused string "impact option"
  | PowerSwitched string bool string impact

text \<open>The fields of the frame: its type, the reference and the state, when they have the right type.\<close>

definition handle_power_frame ::
  "env \<Rightarrow> 'd driver_ops \<Rightarrow> relay \<Rightarrow> string \<Rightarrow> string \<Rightarrow> string option \<Rightarrow> bool option \<Rightarrow> string option \<Rightarrow> string option \<Rightarrow>
     cm \<Rightarrow> 'd pstate \<Rightarrow> power_reply option \<times> cm \<times> 'd pstate" where
  "handle_power_frame e ops rl n rtype ref on user client c s =
     (if rtype = ''power_query'' then
        (Some (case port_power_payload n s of
                 None \<Rightarrow> PowerFeeds [] ''unknown''
               | Some pw \<Rightarrow> PowerFeeds (pw_feeds pw) (pw_state pw)), c, s)
      else if rtype \<noteq> ''power_switch'' then (None, c, s)
      else if user = Some [] \<or> \<not> user_can_write e user
      then (Some (PowerRefused ''insufficient permission (need read-write)'' None), c, s)
      else
        (case (ref, on) of
           (Some r, Some b) \<Rightarrow>
             if r = [] then (Some (PowerRefused ''invalid power switch request'' None), c, s)
             else
               (case power_blocked_ports e r user s c of
                  (blocked, c1) \<Rightarrow>
                    if blocked \<noteq> [] then (Some (PowerRefused (outside_groups r blocked) None), c1, s)
                    else
                      (case set_outlet ops rl r b user client s of
                         (res, s1) \<Rightarrow>
                           (Some (if \<not> sr_ok res then PowerRefused (sr_error res) (Some (sr_impact res))
                                  else PowerSwitched r b
                                    (case sr_reading res of
                                       None \<Rightarrow> ''unknown''
                                     | Some x \<Rightarrow> (case rd_on x of Some True \<Rightarrow> ''on'' | Some False \<Rightarrow> ''off'' | None \<Rightarrow> ''unknown''))
                                    (sr_impact res)), c1, s1)))
         | _ \<Rightarrow> (Some (PowerRefused ''invalid power switch request'' None), c, s)))"

section \<open>Start and stop\<close>

definition discover :: "'d driver_ops \<Rightarrow> string \<Rightarrow> 'd pstate \<Rightarrow> 'd pstate" where
  "discover ops pdu s =
     (case dict_get (ps_pdus s) pdu of
        None \<Rightarrow> s
      | Some p \<Rightarrow>
          (case list_outlets ops (pd_driver p) of
             Inl _ \<Rightarrow> put_pdu pdu (p\<lparr>pd_online := Some False\<rparr>) s
           | Inr found \<Rightarrow>
               (let seeded = fold (\<lambda>i d. if dict_has d i then d else dict_set i no_reading d) found (pd_readings p);
                    s1 = refresh_readings ops pdu (put_pdu pdu (p\<lparr>pd_readings := seeded\<rparr>) s)
                in case dict_get (ps_pdus s1) pdu of
                     None \<Rightarrow> s1
                   | Some q \<Rightarrow> if pd_poll_interval q \<le> 0 then s1 else put_pdu pdu (q\<lparr>pd_task := True\<rparr>) s1)))"

definition power_start :: "'d driver_ops \<Rightarrow> (string \<times> 'd pdu) list \<Rightarrow> 'd pstate \<Rightarrow> 'd pstate" where
  "power_start ops built s =
     (let s1 = fold (\<lambda>(n, p). put_pdu n p) built s in
      if \<not> ps_enabled s1 then s1 else fold (discover ops) (map fst (ps_pdus s1)) s1)"

definition power_stop :: "'d pstate \<Rightarrow> 'd pstate" where
  "power_stop s = s\<lparr>ps_pdus := []\<rparr>"

end
