(* ===== verification/PowerMenu.thy ===== *)
theory PowerMenu
  imports PowerControl ListenerTransport
begin

text \<open>
  \<^verbatim>\<open>openmux/server/adapters/power_command.py\<close>: the \<open>POWER\<close> command of the text listeners and
  the power menu of a session, over the power adapter of \<^verbatim>\<open>PowerControl.thy\<close> (\<open>None\<close> when there is
  none).  What is sent is a list of lines and of raw bytes; the live notices go to \<open>ps_events\<close>.
\<close>

section \<open>Wording\<close>

definition on_word :: "bool option \<Rightarrow> string" where
  "on_word x = (case x of None \<Rightarrow> ''unknown'' | Some b \<Rightarrow> if b then ''on'' else ''off'')"

definition format_outlet_line :: "outlet_entry \<Rightarrow> string" where
  "format_outlet_line oe =
     (let r = oe_reading oe;
          load = (case rd_watts r of
                    None \<Rightarrow> []
                  | Some w \<Rightarrow> '' '' @ fixed0 w @ ''W''
                      @ (case rd_volts r of None \<Rightarrow> [] | Some v \<Rightarrow> '' '' @ fixed0 v @ ''V''));
          feeds = (if oe_mapped oe \<noteq> [] then ''  -> '' @ join '', '' (oe_mapped oe) else []);
          err = (if rd_error r \<noteq> [] then ''  ('' @ rd_error r @ '')'' else [])
      in ''POWER '' @ oe_ref oe @ '' '' @ on_word (rd_on r) @ load @ feeds @ err)"

definition format_power_notice :: "string \<Rightarrow> bool option \<Rightarrow> bool \<Rightarrow> string" where
  "format_power_notice outlet on all_lost =
     (if all_lost
      then CRLF @ ''[POWER WARNING] all power feeds are now OFF for this console ('' @ outlet @ '')'' @ CRLF
      else CRLF @ ''[POWER] feed '' @ outlet @ '' is now '' @ on_word on @ CRLF)"

definition format_power_menu_line :: "string \<Rightarrow> bool option \<Rightarrow> string" where
  "format_power_menu_line ref on =
     (case on of Some True \<Rightarrow> ''[on]   '' @ ref | Some False \<Rightarrow> ''[off]  '' @ ref | None \<Rightarrow> ''[unknown] '' @ ref)"

definition POWER_USAGE :: string where
  "POWER_USAGE = ''ERROR:POWER: usage: POWER [<pdu>[.<outlet>] [on|off]]''"

section \<open>The command\<close>

definition parse_power_command :: "string \<Rightarrow> string + string option \<times> string option" where
  "parse_power_command command =
     (case py_split command of
        [w] \<Rightarrow> if w = ''POWER'' then Inr (None, None) else Inl POWER_USAGE
      | [w, a] \<Rightarrow> if w = ''POWER'' then Inr (Some a, None) else Inl POWER_USAGE
      | [w, a, v] \<Rightarrow> if w = ''POWER'' then Inr (Some a, Some (lower v)) else Inl POWER_USAGE
      | _ \<Rightarrow> Inl POWER_USAGE)"

record 'd power_ctx =
  px_env :: env
  px_ops :: "'d driver_ops"
  px_relay :: relay
  px_user :: "string option"
  px_client :: "string option"

record 'd power_world =
  pw_cm :: cm
  pw_adapter :: "'d pstate option"

definition off_warnings :: "string \<Rightarrow> 'd pstate \<Rightarrow> string list" where
  "off_warnings ref s =
     (let im = compute_off_impact ref False s in
      map (\<lambda>(n, d). ''WARNING:POWER: removing all power to: '' @ n @ (if d \<noteq> [] then '' ('' @ d @ '')'' else [])) (im_losing im)
      @ map (\<lambda>(n, d, via). ''NOTE:POWER: '' @ n @ '' stays up via ''
               @ (if join '', '' via \<noteq> [] then join '', '' via else ''other feed'')) (im_staying im))"

definition switch_outlet ::
  "'d power_ctx \<Rightarrow> string \<Rightarrow> string \<Rightarrow> cm \<Rightarrow> 'd pstate \<Rightarrow> bool \<times> string list \<times> cm \<times> 'd pstate" where
  "switch_outlet x ref verb c s =
     (if verb \<noteq> ''on'' \<and> verb \<noteq> ''off''
      then (False, [''ERROR:POWER: target state must be '' @ str_repr ''on'' @ '' or '' @ str_repr ''off''], c, s)
      else if CHR ''.'' \<notin> set ref
      then (False, [''ERROR:POWER: switching needs a full outlet ref '' @ str_repr ''<pdu>.<outlet>''], c, s)
      else if \<not> user_can_write (px_env x) (px_user x)
      then (False, [''ERROR:POWER: insufficient permission (need read-write)''], c, s)
      else
        (case power_blocked_ports (px_env x) ref (px_user x) s c of
           (blocked, c1) \<Rightarrow>
             if blocked \<noteq> [] then (False, [''ERROR:POWER: '' @ outside_groups ref blocked], c1, s)
             else
               (let on = (verb = ''on''); warnings = (if on then [] else off_warnings ref s) in
                case set_outlet (px_ops x) (px_relay x) ref on (px_user x) (px_client x) s of
                  (res, s1) \<Rightarrow>
                    if \<not> sr_ok res then (False, warnings @ [''ERROR:POWER: '' @ sr_error res], c1, s1)
                    else
                      (True, warnings @ [''POWER '' @ ref @ '' -> ''
                         @ (case sr_reading res of Some r \<Rightarrow> (if rd_on r = Some True then ''on'' else ''off'') | None \<Rightarrow> ''off'')],
                       c1, s1))))"

definition list_all_pdus :: "'d pstate \<Rightarrow> string list" where
  "list_all_pdus s =
     (let snap = get_power_snapshot s in
      concat (map (\<lambda>p. (''PDU '' @ pe_name p @ '' ('' @ pe_driver p @ '')''
                         @ (if pe_online p = Some True then [] else '' [OFFLINE]'')
                         @ ''  '' @ nat_str (pe_outlets_on p) @ ''/'' @ nat_str (length (pe_outlets p)) @ '' on'')
                       # map (\<lambda>oe. ''  '' @ format_outlet_line oe) (pe_outlets p)) (sn_pdus snap))
      @ (if sn_unresolved snap \<noteq> [] then [''NOTE:POWER: unresolved feeds: '' @ join '', '' (sn_unresolved snap)] else []))"

definition list_one_or_report_outlet :: "string \<Rightarrow> 'd pstate \<Rightarrow> string list" where
  "list_one_or_report_outlet ref s =
     (let pdus = sn_pdus (get_power_snapshot s) in
      case find (\<lambda>p. pe_name p = ref) (rev pdus) of
        Some p \<Rightarrow> map format_outlet_line (pe_outlets p)
      | None \<Rightarrow>
          if CHR ''.'' \<notin> set ref then [''ERROR:POWER: unknown PDU: '' @ ref]
          else
            (case find (\<lambda>oe. oe_ref oe = ref) (concat (map pe_outlets pdus)) of
               Some oe \<Rightarrow> [format_outlet_line oe]
             | None \<Rightarrow> [''ERROR:POWER: unknown outlet: '' @ ref]))"

definition NOT_CONFIGURED :: string where
  "NOT_CONFIGURED = ''ERROR:POWER: power management is not configured''"

definition run_power_command :: "'d power_ctx \<Rightarrow> string \<Rightarrow> 'd power_world \<Rightarrow> bool \<times> string list \<times> 'd power_world" where
  "run_power_command x command w =
     (case pw_adapter w of
        None \<Rightarrow> (False, [NOT_CONFIGURED], w)
      | Some s \<Rightarrow>
          if \<not> ps_enabled s then (False, [NOT_CONFIGURED], w)
          else
            (case parse_power_command command of
               Inl err \<Rightarrow> (False, [err], w)
             | Inr (Some ref, Some verb) \<Rightarrow>
                 (case switch_outlet x ref verb (pw_cm w) s of
                    (ok, out, c1, s1) \<Rightarrow> (ok, out, w\<lparr>pw_cm := c1, pw_adapter := Some s1\<rparr>))
             | Inr (Some ref, None) \<Rightarrow> (False, list_one_or_report_outlet ref s, w)
             | Inr (None, _) \<Rightarrow> (False, list_all_pdus s, w)))"

section \<open>The menu\<close>

datatype term_out = Line string | Raw bytes

definition world_feed_states :: "string \<Rightarrow> 'd power_world \<Rightarrow> (string, bool option) pydict" where
  "world_feed_states n w = (case pw_adapter w of None \<Rightarrow> [] | Some s \<Rightarrow> feed_states n s)"

definition state_of :: "(string, bool option) pydict \<Rightarrow> string \<Rightarrow> bool option" where
  "state_of d ref = (case dict_get d ref of None \<Rightarrow> None | Some on \<Rightarrow> on)"

definition switch_line :: "string \<Rightarrow> bool \<Rightarrow> string" where
  "switch_line ref on = ''POWER '' @ ref @ (if on then '' on'' else '' off'')"

fun set_feeds :: "'d power_ctx \<Rightarrow> bool \<Rightarrow> (string \<Rightarrow> 'd power_world \<Rightarrow> bool option) \<Rightarrow> string list \<Rightarrow>
     'd power_world \<Rightarrow> string list \<times> 'd power_world" where
  "set_feeds x on current [] w = ([], w)"
| "set_feeds x on current (r # rs) w =
     (if current r w = Some on then set_feeds x on current rs w
      else
        (case run_power_command x (switch_line r on) w of
           (ok, out, w1) \<Rightarrow> (case set_feeds x on current rs w1 of (out2, w2) \<Rightarrow> (out @ out2, w2))))"

definition set_all_feeds_at :: "'d power_ctx \<Rightarrow> string \<Rightarrow> string list \<Rightarrow> bool \<Rightarrow> 'd power_world \<Rightarrow>
     string list \<times> 'd power_world" where
  "set_all_feeds_at x n refs on w =
     (let states = (if n = [] then [] else world_feed_states n w) in
      set_feeds x on
        (\<lambda>r w1. if states \<noteq> [] then state_of states r
                else case pw_adapter w1 of None \<Rightarrow> None | Some s \<Rightarrow> outlet_on_state r s) refs w)"

definition toggle_feeds :: "'d power_ctx \<Rightarrow> string \<Rightarrow> string list \<Rightarrow> nat option \<Rightarrow> 'd power_world \<Rightarrow>
     string list \<times> 'd power_world" where
  "toggle_feeds x n refs entry w =
     (let states = world_feed_states n w in
      case entry of
        None \<Rightarrow> set_all_feeds_at x n refs (state_of states (hd refs) \<noteq> Some True) w
      | Some idx \<Rightarrow>
          if 1 \<le> idx \<and> idx \<le> length refs then
            (let ref = refs ! (idx - 1) in
             case run_power_command x (switch_line ref (state_of states ref \<noteq> Some True)) w of
               (ok, out, w1) \<Rightarrow> (out, w1))
          else ([''POWER: number out of range (1-'' @ nat_str (length refs) @ '')''], w))"

definition menu_lines :: "string list \<Rightarrow> (string, bool option) pydict \<Rightarrow> string list" where
  "menu_lines refs states =
     map (\<lambda>(i, r). right2 i @ ''  '' @ format_power_menu_line r (state_of states r)) (List.enumerate 1 refs)"

text \<open>The menu ends, or an exception leaves it: \<open>isdigit\<close> accepts superscripts, which \<open>int\<close> does not.\<close>

datatype menu_end = MenuExit | MenuLeft | MenuRaised

function power_menu_loop :: "'d power_ctx \<Rightarrow> string \<Rightarrow> string list \<Rightarrow> 'd power_world \<Rightarrow> transport \<Rightarrow>
     term_out list \<times> menu_end \<times> 'd power_world \<times> transport" where
  "power_menu_loop x n refs w t =
     (let menu = map Line (menu_lines refs (world_feed_states n w)) in
      case read_prompt_line ''> '' t of
        (echo, (text, keep_going), t1) \<Rightarrow>
          if \<not> keep_going then (menu @ [Raw echo], MenuLeft, w, t1)
          else
            (let entry = lower (strip text) in
             if entry = [] then (menu @ [Raw echo, Line ''[EXITING POWER]''], MenuExit, w, t1)
             else if entry = ''a'' \<or> entry = ''all'' then
               (case toggle_feeds x n refs None w of
                  (out, w1) \<Rightarrow>
                    (case power_menu_loop x n refs w1 t1 of
                       (rest, r) \<Rightarrow> (menu @ [Raw echo] @ map Line out @ rest, r)))
             else if list_all isdigit entry then
               (case py_int entry of
                  None \<Rightarrow> (menu @ [Raw echo], MenuRaised, w, t1)
                | Some k \<Rightarrow>
                    (case toggle_feeds x n refs (Some (nat k)) w of
                       (out, w1) \<Rightarrow>
                         (case power_menu_loop x n refs w1 t1 of
                            (rest, r) \<Rightarrow> (menu @ [Raw echo] @ map Line out @ rest, r))))
             else
               (case power_menu_loop x n refs w t1 of
                  (rest, r) \<Rightarrow>
                    (menu @ [Raw echo, Line (''POWER: enter a feed number, '' @ str_repr ''a'' @ '' for all, or Enter to exit'')]
                      @ rest, r))))"
  by pat_completeness auto
termination
  by (relation "measure (\<lambda>(x, n, refs, w, t). length (remaining t))")
    (auto dest: prompt_le[OF sym])

declare power_menu_loop.simps [simp del]

definition run_power_menu :: "'d power_ctx \<Rightarrow> string \<Rightarrow> 'd power_world \<Rightarrow> transport \<Rightarrow>
     term_out list \<times> menu_end \<times> 'd power_world \<times> transport" where
  "run_power_menu x n w t =
     (case pw_adapter w of
        None \<Rightarrow> ([Line NOT_CONFIGURED], MenuExit, w, t)
      | Some s \<Rightarrow>
          if \<not> ps_enabled s then ([Line NOT_CONFIGURED], MenuExit, w, t)
          else
            (let refs = port_power_map n s in
             if refs = [] then
               (case read_prompt_line ''> '' t of
                  (echo, (_, keep_going), t1) \<Rightarrow>
                    ([Line (''POWER: '' @ n @ '' has no power feeds (Enter exits)''), Raw echo]
                       @ (if keep_going then [Line ''[EXITING POWER]''] else []), MenuExit, w, t1))
             else
               (case power_menu_loop x n refs w t of
                  (out, r) \<Rightarrow>
                    (Line (''POWER: feeds for '' @ n @ ''  (a number = toggle, a = all, Enter = exit)'') # out, r))))"

text \<open>The menu reads by prompts only.\<close>

lemma power_menu_reads:
  assumes trans: "\<And>t u v. R t u \<Longrightarrow> R u v \<Longrightarrow> R t v" and read: "\<And>t echo r u. read_prompt_line ''> '' t = (echo, r, u) \<Longrightarrow> R t u"
  shows "power_menu_loop x n refs w t = (out, fin, w', t') \<Longrightarrow> R t t'"
proof (induction x n refs w t arbitrary: out rule: power_menu_loop.induct)
  case (1 x n refs w t)
  obtain echo typed_text keep_going t1 where rd: "read_prompt_line ''> '' t = (echo, (typed_text, keep_going), t1)"
    by (cases "read_prompt_line ''> '' t") auto
  note le = read[OF rd]
  let ?entry = "lower (strip typed_text)"
  note IH = "1.IH"[OF refl rd[symmetric] refl refl]
  show ?case
  proof (cases "keep_going \<and> ?entry \<noteq> []")
    case False
    then show ?thesis using rd le "1.prems" by (cases keep_going) (auto simp: power_menu_loop.simps[of x n refs w t] Let_def)
  next
    case True
    then have go: "\<not> \<not> keep_going" "?entry \<noteq> []" by simp_all
    obtain o1 w1 where all: "toggle_feeds x n refs None w = (o1, w1)" by fastforce
    obtain o2 w2 where one: "toggle_feeds x n refs (Some (nat (the (py_int ?entry)))) w = (o2, w2)" by fastforce
    consider "?entry = ''a'' \<or> ?entry = ''all''"
      | "\<not> (?entry = ''a'' \<or> ?entry = ''all'')" "list_all isdigit ?entry" "py_int ?entry = None"
      | k where "\<not> (?entry = ''a'' \<or> ?entry = ''all'')" "list_all isdigit ?entry" "py_int ?entry = Some k"
      | "\<not> (?entry = ''a'' \<or> ?entry = ''all'')" "\<not> list_all isdigit ?entry"
      by (cases "py_int ?entry") auto
    then show ?thesis
    proof cases
      case 1
      then have "R t1 t'" using IH(1)[OF go(1) refl go(2) 1 all[symmetric]] "1.prems" rd go all
        by (auto simp: power_menu_loop.simps[of x n refs w t] Let_def split: prod.splits)
      then show ?thesis by (rule trans[OF le])
    next
      case 2
      then show ?thesis using "1.prems" rd go le by (auto simp: power_menu_loop.simps[of x n refs w t] Let_def)
    next
      case (3 k)
      then have "R t1 t'" using IH(2)[OF go(1) refl go(2) 3(1,2,3) one[symmetric, unfolded 3(3) option.sel]] "1.prems" rd go one
        by (auto simp: power_menu_loop.simps[of x n refs w t] Let_def split: prod.splits)
      then show ?thesis by (rule trans[OF le])
    next
      case 4
      then have "R t1 t'" using IH(3)[OF go(1) refl go(2) 4] "1.prems" rd go
        by (auto simp: power_menu_loop.simps[of x n refs w t] Let_def split: prod.splits)
      then show ?thesis by (rule trans[OF le])
    qed
  qed
qed

lemma run_power_menu_reads:
  assumes same: "\<And>t. R t t" and trans: "\<And>t u v. R t u \<Longrightarrow> R u v \<Longrightarrow> R t v"
    and read: "\<And>t echo r u. read_prompt_line ''> '' t = (echo, r, u) \<Longrightarrow> R t u"
    and run: "run_power_menu x n w t = (out, fin, w', t')"
  shows "R t t'"
proof -
  have loop: "R t t'" if "power_menu_loop x n refs w t = (o1, fin, w', t')" for refs o1
    using trans read that by (rule power_menu_reads)
  show ?thesis using run loop same read
    by (auto simp: run_power_menu_def Let_def split: option.splits if_splits prod.splits)
qed

lemma run_power_menu_le:
  "run_power_menu x n w t = (out, fin, w', t') \<Longrightarrow> length (remaining t') \<le> length (remaining t)"
  by (rule run_power_menu_reads[where R = "\<lambda>t u. length (remaining u) \<le> length (remaining t)"])
    (auto dest!: prompt_le)

lemma run_power_menu_ok: "run_power_menu x n w t = (out, fin, w', t') \<Longrightarrow> tp_ok t \<Longrightarrow> tp_ok t'"
  by (rule run_power_menu_reads[where R = "\<lambda>t u. tp_ok t \<longrightarrow> tp_ok u", THEN mp]) (auto dest: prompt_ok)

end
