(* ===== verification/ListenerSession.thy ===== *)
theory ListenerSession
  imports PowerMenu SlotRaces
begin

text \<open>
  \<^verbatim>\<open>openmux/server/listener_session.py\<close>: one Client session from attach to detach over the
  byte transport of \<^verbatim>\<open>ListenerTransport.thy\<close>, the console manager of
  \<^verbatim>\<open>ConsoleManager.thy\<close> and the power menu of \<^verbatim>\<open>PowerMenu.thy\<close>: the escape scanner, the
  Control menu, the read-write gate, the pump, attach and detach.  A write to the client that fails
  is logged and changes nothing, so what is written is appended to \<open>ss_text\<close>.  Byte counters and
  log lines are left out.
\<close>

section \<open>The escape scanner\<close>

record escape_state =
  escape_char1 :: char
  escape_char2 :: char
  esc_state :: nat

definition default_escape :: escape_state where
  "default_escape = \<lparr>escape_char1 = char_of (5::nat), escape_char2 = CHR ''c'', esc_state = 0\<rparr>"

definition feed_escape_byte :: "escape_state \<Rightarrow> char \<Rightarrow> (bytes \<times> char option) \<times> escape_state" where
  "feed_escape_byte st b =
     (if esc_state st = 0 then
        (if b = escape_char1 st then (([], None), st\<lparr>esc_state := 1\<rparr>) else (([b], None), st))
      else if esc_state st = 1 then
        (if b = escape_char2 st then (([], None), st\<lparr>esc_state := 2\<rparr>)
         else (([escape_char1 st, b], None), st\<lparr>esc_state := 0\<rparr>))
      else (([], Some b), st\<lparr>esc_state := 0\<rparr>))"

section \<open>Sessions\<close>

record lsession =
  ls_client :: string
  ls_listener :: string
  ls_read_only :: bool
  ls_port :: string
  ls_host :: string
  ls_user :: string
  ls_mode :: amode
  ls_escape :: escape_state

text \<open>Everything the session can touch; \<open>ss_text\<close> is what the client was sent.\<close>

record 'd sstate =
  ss_world :: "'d power_world"
  ss_tp :: transport
  ss_session :: lsession
  ss_text :: bytes

record 'd session_env =
  se_env :: env
  se_dev :: "string \<Rightarrow> bytes \<Rightarrow> dev_result"
  se_ops :: "'d driver_ops"
  se_relay :: relay
  se_version :: string

abbreviation ss_cm :: "'d sstate \<Rightarrow> cm" where
  "ss_cm s \<equiv> pw_cm (ss_world s)"

definition write_bytes :: "bytes \<Rightarrow> 'd sstate \<Rightarrow> 'd sstate" where
  "write_bytes data s = s\<lparr>ss_text := ss_text s @ data\<rparr>"

definition write_session :: "string \<Rightarrow> 'd sstate \<Rightarrow> 'd sstate" where
  "write_session text s = write_bytes (encode_text text) s"

definition bracketed :: "string \<Rightarrow> string" where
  "bracketed text = CRLF @ ''['' @ text @ '']'' @ CRLF"

definition READ_ONLY_WARNING :: string where
  "READ_ONLY_WARNING = bracketed ''WARNING: console is in read-only mode''"

definition CONTROL_MENU_HELP :: string where
  "CONTROL_MENU_HELP = CRLF @ ''--- OpenMux Control Menu ---'' @ CRLF
     @ ''a  Request read-write access'' @ CRLF
     @ ''f  Take the write slot (ask which holder, or latest)'' @ CRLF
     @ ''s  Release read-write access (switch to read-only)'' @ CRLF
     @ ''w  Show who holds read-write access'' @ CRLF
     @ ''u  Show who is viewing this port'' @ CRLF
     @ ''i  Show session info'' @ CRLF
     @ ''v  Show version'' @ CRLF
     @ ''p  Power (this console'' @ [CHR 0x27] @ ''s feeds: number = toggle, a = all)'' @ CRLF
     @ ''e  Change escape sequence'' @ CRLF
     @ ''.  Disconnect'' @ CRLF
     @ ''?  Show this menu'' @ CRLF"

text \<open>A viewer dictionary is read with defaults; its values are strings.\<close>

definition viewer_field :: "(pyval \<times> pyval) list \<Rightarrow> string \<Rightarrow> string \<Rightarrow> string" where
  "viewer_field v k v0 = (case map_of v (PStr k) of Some (PStr s) \<Rightarrow> s | _ \<Rightarrow> v0)"

definition format_viewer_label :: "(pyval \<times> pyval) list \<Rightarrow> string" where
  "format_viewer_label v =
     (let who = viewer_field v ''username'' ''unknown'' @ ''@'' @ viewer_field v ''ip'' ''unknown'';
          server_id = viewer_field v ''server_id'' []
      in if server_id \<noteq> [] then server_id @ ''/'' @ who else who)"

definition format_viewers_notice :: "(pyval \<times> pyval) list list \<Rightarrow> string" where
  "format_viewers_notice viewers =
     (if viewers = [] then bracketed ''No one is currently viewing this port''
      else CRLF @ ''--- Viewers on this port ---'' @ CRLF
        @ join CRLF (map (\<lambda>v. format_viewer_label v @ '' ('' @ viewer_field v ''mode'' ''read-only'' @ '')'') viewers)
        @ CRLF)"

text \<open>\<open>decision.text\<close>, which never raises (\<open>AccessFacts\<close>).\<close>

definition decision_text :: "decision \<Rightarrow> string" where
  "decision_text d = (case d_text d of Inr t \<Rightarrow> t | Inl _ \<Rightarrow> [])"

definition format_session_info :: "lsession \<Rightarrow> string" where
  "format_session_info ls =
     CRLF @ ''--- Session Info ---'' @ CRLF
     @ ''Port: '' @ ls_port ls @ CRLF
     @ ''Mode: '' @ mode_value (ls_mode ls) @ CRLF
     @ ''Remote host: '' @ ls_host ls @ CRLF
     @ ''Escape sequence: '' @ bytes_repr [escape_char1 (ls_escape ls)] @ ''+''
     @ bytes_repr [escape_char2 (ls_escape ls)] @ CRLF"

section \<open>Commands\<close>

definition reply_access_decision :: "decision \<Rightarrow> 'd sstate \<Rightarrow> 'd sstate" where
  "reply_access_decision d s =
     write_session (decision_text d) (s\<lparr>ss_session := (ss_session s)\<lparr>ls_mode := d_mode d\<rparr>\<rparr>)"

definition READ_ONLY_LISTENER :: string where
  "READ_ONLY_LISTENER = bracketed ''This listener is configured read-only''"

definition with_cm :: "(cm \<Rightarrow> 'a \<times> cm) \<Rightarrow> 'd sstate \<Rightarrow> 'a \<times> 'd sstate" where
  "with_cm f s =
     (let (r, c) = f (ss_cm s) in (r, s\<lparr>ss_world := (ss_world s)\<lparr>pw_cm := c\<rparr>\<rparr>))"

definition cmd_request_rw :: "'d session_env \<Rightarrow> 'd sstate \<Rightarrow> 'd sstate" where
  "cmd_request_rw e s =
     (let ls = ss_session s in
      if ls_read_only ls then write_session READ_ONLY_LISTENER s
      else
        (case with_cm (promote_client_to_read_write (se_env e) (ls_client ls) (ls_port ls)) s of
           (d, s1) \<Rightarrow> reply_access_decision d s1))"

definition cmd_force_rw :: "'d session_env \<Rightarrow> 'd sstate \<Rightarrow> 'd sstate" where
  "cmd_force_rw e s =
     (let ls = ss_session s in
      if ls_read_only ls then write_session READ_ONLY_LISTENER s
      else
        (case read_take_target (ss_tp s) of (echo, (target, keep_going), tp) \<Rightarrow>
           (let s1 = write_bytes echo (s\<lparr>ss_tp := tp\<rparr>) in
            if \<not> keep_going then s1
            else
              (case with_cm (take_write_slot (se_env e) (ls_client ls) (ls_port ls) target) s1 of
                 (d, s2) \<Rightarrow> reply_access_decision d s2))))"

definition cmd_release_rw :: "'d session_env \<Rightarrow> 'd sstate \<Rightarrow> 'd sstate" where
  "cmd_release_rw e s =
     (let ls = ss_session s in
      case with_cm (demote_client_to_read_only (se_env e) (ls_client ls) (ls_port ls) True) s of
        (d, s1) \<Rightarrow> reply_access_decision d s1)"

text \<open>Menu lines go out with a line end, echoes as they are.\<close>

fun render_out :: "term_out list \<Rightarrow> bytes" where
  "render_out [] = []"
| "render_out (Line l # out) = encode_text (l @ CRLF) @ render_out out"
| "render_out (Raw b # out) = b @ render_out out"

datatype chunk_end = GoOn | Stop | Raised

definition cmd_power :: "'d session_env \<Rightarrow> 'd sstate \<Rightarrow> chunk_end \<times> 'd sstate" where
  "cmd_power e s =
     (let ls = ss_session s;
          x = \<lparr>px_env = se_env e, px_ops = se_ops e, px_relay = se_relay e, px_user = Some (ls_user ls),
               px_client = Some (ls_client ls)\<rparr>
      in case run_power_menu x (ls_port ls) (ss_world s) (ss_tp s) of
           (out, fin, w, tp) \<Rightarrow>
             (if fin = MenuRaised then Raised else GoOn,
              write_bytes (render_out out) (s\<lparr>ss_world := w, ss_tp := tp\<rparr>)))"

definition handle_control_command :: "'d session_env \<Rightarrow> char \<Rightarrow> 'd sstate \<Rightarrow> chunk_end \<times> 'd sstate" where
  "handle_control_command e cmd s =
     (let ls = ss_session s in
      if cmd = CHR ''a'' then (GoOn, cmd_request_rw e s)
      else if cmd = CHR ''f'' then (GoOn, cmd_force_rw e s)
      else if cmd = CHR ''s'' then (GoOn, cmd_release_rw e s)
      else if cmd = CHR ''w'' then
        (GoOn, write_session (render_terminal_text
           [''['' @ holders_text (get_rw_holders_display (se_env e) (ss_cm s) (ls_port ls)) None @ '']'']) s)
      else if cmd = CHR ''u'' then
        (GoOn, write_session (format_viewers_notice (get_viewers_display (se_env e) (ss_cm s) (ls_port ls))) s)
      else if cmd = CHR ''?'' then (GoOn, write_session CONTROL_MENU_HELP s)
      else if cmd = CHR ''i'' then (GoOn, write_session (format_session_info ls) s)
      else if cmd = CHR ''v'' then (GoOn, write_session (bracketed (''OpenMux Server v'' @ se_version e)) s)
      else if cmd = CHR ''p'' then cmd_power e s
      else if cmd = CHR ''.'' then (Stop, write_session (bracketed ''Disconnecting...'') s)
      else (GoOn, s))"

section \<open>The pump\<close>

definition session_may_write :: "lsession \<Rightarrow> bool" where
  "session_may_write ls \<longleftrightarrow> \<not> ls_read_only ls \<and> ls_mode ls = ReadWrite"

text \<open>The gate.  What the device answers is the port manager's to report, never an exception here.\<close>

definition forward_payload :: "'d session_env \<Rightarrow> bytes \<Rightarrow> 'd sstate \<Rightarrow> 'd sstate" where
  "forward_payload e payload s =
     (let ls = ss_session s in
      if \<not> session_may_write ls then
        (if CR \<in> set payload \<or> LF \<in> set payload then write_session READ_ONLY_WARNING s else s)
      else snd (with_cm (cm_write_to_port (se_dev e) (ls_port ls) payload (ls_client ls)) s))"

definition forward_nonempty :: "'d session_env \<Rightarrow> bytes \<Rightarrow> 'd sstate \<Rightarrow> 'd sstate" where
  "forward_nonempty e payload s = (if payload = [] then s else forward_payload e payload s)"

definition set_escape :: "char \<Rightarrow> char \<Rightarrow> 'd sstate \<Rightarrow> 'd sstate" where
  "set_escape c1 c2 s =
     write_session (bracketed ''Escape sequence changed'')
       (s\<lparr>ss_session := (ss_session s)\<lparr>ls_escape := (ls_escape (ss_session s))\<lparr>escape_char1 := c1, escape_char2 := c2\<rparr>\<rparr>\<rparr>)"

text \<open>The bytes after an \<open>e\<close>: the first two of what is buffered, else of the transport.\<close>

definition change_escape_sequence :: "bytes \<Rightarrow> 'd sstate \<Rightarrow> bytes \<times> 'd sstate" where
  "change_escape_sequence rest s =
     (let (whole, s1) =
        (if length rest < 2 then
           (case tp_readexactly (2 - length rest) [] (ss_tp s) of
              (Inr got, tp) \<Rightarrow> (rest @ got, s\<lparr>ss_tp := tp\<rparr>)
            | (Inl _, tp) \<Rightarrow> (rest, s\<lparr>ss_tp := tp\<rparr>))
         else (rest, s))
      in case whole of
           c1 # c2 # left \<Rightarrow> (left, set_escape c1 c2 s1)
         | _ \<Rightarrow> ([], s1))"

lemma change_escape_shrinks: "length (fst (change_escape_sequence rest s)) \<le> length rest"
proof (cases "length rest < 2")
  case True
  obtain r tp where r: "tp_readexactly (2 - length rest) [] (ss_tp s) = (r, tp)"
    by (cases "tp_readexactly (2 - length rest) [] (ss_tp s)")
  show ?thesis
  proof (cases r)
    case (Inl b)
    then show ?thesis using r True by (auto simp: change_escape_sequence_def split: list.splits)
  next
    case (Inr got)
    then have "length got = 2 - length rest" using r readexactly_length[of "[]" "2 - length rest" "ss_tp s" got tp] by simp
    then have "length (rest @ got) = 2" using True by simp
    then obtain a b where "rest @ got = [a, b]"
      by (cases "rest @ got"; cases "tl (rest @ got)"; cases "tl (tl (rest @ got))") auto
    then show ?thesis using r True Inr by (simp add: change_escape_sequence_def)
  qed
next
  case False
  then obtain a b l where "rest = a # b # l" by (cases rest; cases "tl rest") auto
  then show ?thesis by (auto simp: change_escape_sequence_def)
qed

lemma change_escape_le: "change_escape_sequence rest s = (left, s1) \<Longrightarrow> length left \<le> length rest"
  using change_escape_shrinks[of rest s] by simp

text \<open>\<open>payload\<close> is what the chunk has collected for the port since the last command.\<close>

function process_input_chunk :: "'d session_env \<Rightarrow> bytes \<Rightarrow> bytes \<Rightarrow> 'd sstate \<Rightarrow> chunk_end \<times> 'd sstate" where
  "process_input_chunk e payload [] s = (GoOn, forward_nonempty e payload s)"
| "process_input_chunk e payload (b # rest) s =
     (case feed_escape_byte (ls_escape (ss_session s)) b of ((extra, cmd), esc) \<Rightarrow>
        (let s1 = s\<lparr>ss_session := (ss_session s)\<lparr>ls_escape := esc\<rparr>\<rparr> in
         case cmd of
           None \<Rightarrow> process_input_chunk e (payload @ extra) rest s1
         | Some c \<Rightarrow>
             (let s2 = forward_nonempty e (payload @ extra) s1 in
              if c = CHR ''e'' then
                (case change_escape_sequence rest s2 of (left, s3) \<Rightarrow> process_input_chunk e [] left s3)
              else
                (case handle_control_command e c s2 of (fin, s3) \<Rightarrow>
                   if fin = GoOn then process_input_chunk e [] rest s3 else (fin, s3)))))"
  by pat_completeness auto
termination
  by (relation "measure (\<lambda>(e, payload, data, s). length data)")
    (auto simp: less_Suc_eq_le split: prod.splits dest: change_escape_le)

end
