(* ===== verification/PowerFacts.thy ===== *)
theory PowerFacts
  imports PowerMenu ConsoleSteps
begin

text \<open>
  What a switch does: the preview of a switch-off against the state it leaves, who can make the
  adapter switch at all, and three behaviours of the code that its comments do not promise.
\<close>

section \<open>References\<close>

lemma parse_ref_split: "parse_ref r = Inr (pdu, oid) \<Longrightarrow> r = pdu @ ''.'' @ oid"
  using join_split[of "CHR ''.''" r] by (auto simp: parse_ref_def split: if_splits list.splits)

lemma parse_ref_remote: "split_remote_ref r \<noteq> None \<Longrightarrow> \<exists>err. parse_ref r = Inl err"
  by (simp add: parse_ref_def)

lemma parse_ref_local:
  assumes "parse_ref r = Inr a" shows "split_remote_ref r = None"
proof (rule ccontr)
  assume "split_remote_ref r \<noteq> None"
  from parse_ref_remote[OF this] obtain err where "parse_ref r = Inl err" ..
  with assms show False by simp
qed

lemma remote_ref_unread [simp]: "split_remote_ref r \<noteq> None \<Longrightarrow> outlet_on_state r s = None"
  using parse_ref_remote[of r] by (auto simp: outlet_on_state_def)

lemma outlet_on_cong: "ps_pdus s = ps_pdus t \<Longrightarrow> outlet_on_state r s = outlet_on_state r t"
  unfolding outlet_on_state_def by (auto split: sum.split prod.split)

lemma power_emit_fields [simp]:
  "ps_pdus (power_emit es s) = ps_pdus s" "ps_ports (power_emit es s) = ps_ports s"
  "ps_enabled (power_emit es s) = ps_enabled s" "outlet_on_state r (power_emit es s) = outlet_on_state r s"
  by (simp_all add: power_emit_def) (rule outlet_on_cong, simp)

lemma put_pdu_fields [simp]:
  "ps_ports (put_pdu n p s) = ps_ports s" "ps_pdus (put_pdu n p s) = dict_set n p (ps_pdus s)"
  "ps_enabled (put_pdu n p s) = ps_enabled s"
  by (simp_all add: put_pdu_def)

lemma emit_change_fields [simp]:
  "ps_pdus (emit_outlet_change pdu oid x s) = ps_pdus s" "ps_ports (emit_outlet_change pdu oid x s) = ps_ports s"
  "outlet_on_state r (emit_outlet_change pdu oid x s) = outlet_on_state r s"
  by (simp_all add: emit_outlet_change_def Let_def)

lemma audit_fields [simp]:
  "ps_pdus (audit_control ref on u c im s) = ps_pdus s" "ps_ports (audit_control ref on u c im s) = ps_ports s"
  "outlet_on_state r (audit_control ref on u c im s) = outlet_on_state r s"
  by (simp_all add: audit_control_def Let_def)

lemma merged_on [simp]: "rd_on (merged_reading q r) = rd_on r"
  by (simp add: merged_reading_def split: option.splits)

text \<open>A switch changes the state of its own outlet only.\<close>

lemma set_local_outlet_states:
  assumes "parse_ref ref = Inr (pdu, oid)" "dict_get (ps_pdus s) pdu = Some p"
    "set_local_outlet ops ref pdu oid p on user client s = (res, t)" "sr_ok res"
  shows "ps_ports t = ps_ports s" "r \<noteq> ref \<Longrightarrow> outlet_on_state r t = outlet_on_state r s"
    "\<exists>x. sr_reading res = Some x \<and> outlet_on_state ref t = rd_on x"
    "sr_impact res = (if on then empty_impact on else compute_off_impact ref True s)"
proof -
  obtain outcome d where d: "set_state ops oid on (pd_driver p) = (outcome, d)" by fastforce
  then obtain x0 where x0: "outcome = Inr x0" "rd_error x0 = []"
    using assms(3,4) by (cases outcome) (auto simp: set_local_outlet_def switch_refused_def Let_def split: if_splits)
  let ?prev = "dict_get (pd_readings p) oid"
  let ?x = "merged_reading ?prev x0"
  let ?p = "p\<lparr>pd_driver := d, pd_readings := dict_set oid ?x (pd_readings p),
      pd_online := (if pd_online p = Some False then Some True else pd_online p)\<rparr>"
  have pdus: "ps_pdus t = dict_set pdu ?p (dict_set pdu (p\<lparr>pd_driver := d\<rparr>) (ps_pdus s))" "ps_ports t = ps_ports s"
    "sr_reading res = Some ?x" "sr_impact res = (if on then empty_impact on else compute_off_impact ref True s)"
    using assms(3) d x0 by (auto simp: set_local_outlet_def Let_def)
  then show "ps_ports t = ps_ports s" "sr_impact res = (if on then empty_impact on else compute_off_impact ref True s)"
    by simp_all
  have "outlet_on_state ref t = rd_on ?x" using assms(1) pdus(1) by (simp add: outlet_on_state_def)
  then show "\<exists>x. sr_reading res = Some x \<and> outlet_on_state ref t = rd_on x" using pdus(3) by blast
  show "outlet_on_state r t = outlet_on_state r s" if "r \<noteq> ref"
  proof (cases "parse_ref r")
    case (Inr a)
    then obtain pdu' oid' where a: "parse_ref r = Inr (pdu', oid')" by (cases a) auto
    have "(pdu', oid') \<noteq> (pdu, oid)" using that parse_ref_split[OF a] parse_ref_split[OF assms(1)] by auto
    then show ?thesis using a pdus(1) assms(2) by (auto simp: outlet_on_state_def)
  qed (simp add: outlet_on_state_def)
qed

section \<open>The preview of a switch-off\<close>

definition feeds_on :: "'d pstate \<Rightarrow> pwport \<Rightarrow> string list" where
  "feeds_on s q = filter (\<lambda>r. outlet_on_state r s = Some True) (pp_refs q)"

text \<open>C33: When an outlet of this server was switched off and its driver reports it off, the preview
  computed beforehand was right: the consoles it listed as losing power are exactly those fed by
  the outlet with no feed left that reads on, the others are listed with exactly the feeds that
  still read on.\<close>

theorem off_preview_comes_true:
  assumes "set_outlet ops rl ref False user client s = (res, t)" "sr_ok res"
    and "resolve_outlet_state ref s = OutletLocal pdu oid p" "\<exists>x. sr_reading res = Some x \<and> rd_on x = Some False"
  shows "im_losing (sr_impact res) =
      map (\<lambda>(n, q). (n, port_label n q)) (filter (\<lambda>(n, q). ref \<in> set (pp_refs q) \<and> feeds_on t q = []) (ps_ports t))
    \<and> im_staying (sr_impact res) =
      map (\<lambda>(n, q). (n, port_label n q, feeds_on t q))
        (filter (\<lambda>(n, q). ref \<in> set (pp_refs q) \<and> feeds_on t q \<noteq> []) (ps_ports t))"
proof -
  have parse: "parse_ref ref = Inr (pdu, oid)" "dict_get (ps_pdus s) pdu = Some p"
    using assms(3) by (auto simp: resolve_outlet_state_def split: sum.splits prod.splits if_splits option.splits)
  have local: "split_remote_ref ref = None" using parse(1) by (rule parse_ref_local)
  then have "set_local_outlet ops ref pdu oid p False user client s = (res, t)"
    using assms(1,3) by (simp add: set_outlet_def)
  note S = set_local_outlet_states[OF parse this assms(2)]
  have off: "outlet_on_state ref t = Some False" using S(3) assms(4) by auto
  have live: "filter (\<lambda>r. split_remote_ref r = None \<and> r \<noteq> ref \<and> outlet_on_state r s = Some True) (pp_refs q)
      = feeds_on t q" for q
    unfolding feeds_on_def
  proof (rule filter_cong[OF refl])
    fix r
    show "(split_remote_ref r = None \<and> r \<noteq> ref \<and> outlet_on_state r s = Some True) = (outlet_on_state r t = Some True)"
    proof (cases "r = ref")
      case True
      then show ?thesis using off by simp
    next
      case False
      then have "outlet_on_state r t = outlet_on_state r s" by (rule S(2))
      moreover have "outlet_on_state r s = None" if "split_remote_ref r \<noteq> None" using that by (rule remote_ref_unread)
      ultimately show ?thesis using False by (cases "split_remote_ref r = None") simp_all
    qed
  qed
  show "im_losing (sr_impact res) =
      map (\<lambda>(n, q). (n, port_label n q)) (filter (\<lambda>(n, q). ref \<in> set (pp_refs q) \<and> feeds_on t q = []) (ps_ports t))
    \<and> im_staying (sr_impact res) = map (\<lambda>(n, q). (n, port_label n q, feeds_on t q))
        (filter (\<lambda>(n, q). ref \<in> set (pp_refs q) \<and> feeds_on t q \<noteq> []) (ps_ports t))"
    unfolding S(1,4) compute_off_impact_def
    by (simp_all add: Let_def live local filter_filter split_def)
qed

text \<open>Fixtures: a unit with two outlets that feed one console, and a console of another server.\<close>

definition rack :: "dummy_driver \<Rightarrow> dummy_driver pstate" where
  "rack d =
     \<lparr>ps_enabled = True,
      ps_pdus = [(''rack'', \<lparr>pd_description = [], pd_driver_name = ''dummy'', pd_poll_interval = 10, pd_annotations = [],
        pd_driver = d, pd_online = Some True,
        pd_readings = map (\<lambda>i. (i, dummy_reading (new_dummy [''1'', ''2'']) i)) [''1'', ''2''], pd_task = True\<rparr>)],
      ps_ports = [(''con'', \<lparr>pp_refs = [''rack.1'', ''rack.2''], pp_description = ''core'', pp_remote = None\<rparr>),
        (''far'', \<lparr>pp_refs = [''hub::rack.1'', ''hub::rack.2''], pp_description = [],
           pp_remote = Some \<lparr>rv_name = ''far'', rv_origin = Some ''hub'',
             rv_states = Some [(''hub::rack.1'', Some True), (''hub::rack.2'', Some True)],
             rv_connected = True, rv_sessions = [''alice'']\<rparr>\<rparr>)],
      ps_events = []\<rparr>"

definition rack_up :: "dummy_driver pstate" where
  "rack_up = rack (new_dummy [''1'', ''2''])"

definition switched_off :: "switch_result \<times> dummy_driver pstate" where
  "switched_off = set_outlet dummy_ops None ''rack.1'' False (Some ''alice'') None rack_up"

lemma switched_off_facts:
  "case resolve_outlet_state ''rack.1'' rack_up of OutletLocal pdu oid p \<Rightarrow> True | _ \<Rightarrow> False"
  "sr_ok (fst switched_off)" "map_option rd_on (sr_reading (fst switched_off)) = Some (Some False)"
  by code_simp+

theorem off_preview_comes_true_witness:
  "im_staying (sr_impact (fst switched_off)) =
     map (\<lambda>(n, q). (n, port_label n q, feeds_on (snd switched_off) q))
       (filter (\<lambda>(n, q). ''rack.1'' \<in> set (pp_refs q) \<and> feeds_on (snd switched_off) q \<noteq> []) (ps_ports (snd switched_off)))"
proof -
  obtain pdu oid p where r: "resolve_outlet_state ''rack.1'' rack_up = OutletLocal pdu oid p"
    using switched_off_facts(1) by (cases "resolve_outlet_state ''rack.1'' rack_up") auto
  have e: "set_outlet dummy_ops None ''rack.1'' False (Some ''alice'') None rack_up = (fst switched_off, snd switched_off)"
    by (simp add: switched_off_def)
  show ?thesis
    using off_preview_comes_true[OF e switched_off_facts(2) r] switched_off_facts(3) by auto
qed

section \<open>Who can switch\<close>

text \<open>The check of the console manager: an administrator, or a user who may drive every console fed.\<close>

lemma get_port_twice: "fst (get_port n (snd (get_port m s))) = fst (get_port n s)"
  by (auto simp: get_port_def put_port_def Let_def split: option.splits)

lemma blocked_ports_open:
  "fst (blocked_ports e perm u ns c) = [] \<longleftrightarrow>
     (\<forall>n \<in> set ns. may_drive (taker_entitled e (fst (get_port n (cm_pm c))) perm u))"
proof (induction ns arbitrary: c)
  case (Cons m ns)
  have "with_pm (get_port m) c = (fst (get_port m (cm_pm c)), c\<lparr>cm_pm := snd (get_port m (cm_pm c))\<rparr>)"
    by (simp add: with_pm_def split: prod.split)
  then show ?case using Cons.IH[of "c\<lparr>cm_pm := snd (get_port m (cm_pm c))\<rparr>"]
    by (auto simp: get_port_twice split: prod.splits)
qed simp

definition may_switch :: "env \<Rightarrow> string option \<Rightarrow> string \<Rightarrow> 'd pstate \<Rightarrow> cm \<Rightarrow> bool" where
  "may_switch e user ref s c \<longleftrightarrow> user_can_write e user \<and> fst (power_blocked_ports e ref user s c) = []"

lemma switch_outlet_needs_right:
  assumes "switch_outlet x ref verb c s = (ok, out, c1, s1)" "s1 \<noteq> s \<or> ok"
  shows "may_switch (px_env x) (px_user x) ref s c"
proof (rule ccontr)
  obtain blocked c2 where b: "power_blocked_ports (px_env x) ref (px_user x) s c = (blocked, c2)" by fastforce
  assume "\<not> may_switch (px_env x) (px_user x) ref s c"
  then have "\<not> user_can_write (px_env x) (px_user x) \<or> blocked \<noteq> []" using b by (simp add: may_switch_def)
  then have "s1 = s \<and> \<not> ok" using assms(1) b by (auto simp: switch_outlet_def split: if_splits)
  with assms(2) show False by simp
qed

lemma command_needs_right:
  assumes "run_power_command x cmd w = (ok, out, w')" "pw_adapter w' \<noteq> pw_adapter w \<or> ok"
  obtains s ref verb where "pw_adapter w = Some s" "parse_power_command cmd = Inr (Some ref, Some verb)"
    "may_switch (px_env x) (px_user x) ref s (pw_cm w)"
proof (cases "pw_adapter w")
  case None
  then show ?thesis using assms by (simp add: run_power_command_def)
next
  case (Some s)
  then obtain ref verb where p: "parse_power_command cmd = Inr (Some ref, Some verb)" "ps_enabled s"
    using assms by (auto simp: run_power_command_def split: if_splits sum.splits option.splits)
  obtain ok1 out1 c1 s1 where sw: "switch_outlet x ref verb (pw_cm w) s = (ok1, out1, c1, s1)"
    by (metis prod_cases4)
  then have "ok1 = ok" "pw_adapter w' = Some s1" using assms(1) Some p by (auto simp: run_power_command_def)
  then have "may_switch (px_env x) (px_user x) ref s (pw_cm w)"
    using switch_outlet_needs_right[OF sw] assms(2) Some by auto
  then show ?thesis using that Some p by blast
qed

text \<open>What every command keeps, a whole menu keeps.\<close>

definition commands_keep :: "'d power_ctx \<Rightarrow> ('d power_world \<Rightarrow> bool) \<Rightarrow> bool" where
  "commands_keep x P \<longleftrightarrow> (\<forall>cmd w. P w \<longrightarrow> P (snd (snd (run_power_command x cmd w))))"

lemma set_feeds_keep: "commands_keep x P \<Longrightarrow> P w \<Longrightarrow> P (snd (set_feeds x on current rs w))"
proof (induction rs arbitrary: w)
  case (Cons r rs)
  obtain ok out w1 where r: "run_power_command x (switch_line r on) w = (ok, out, w1)" by (metis prod_cases3)
  then have "P w1" using Cons.prems unfolding commands_keep_def by (metis snd_conv)
  from Cons.IH[OF Cons.prems(1) this] Cons.IH[OF Cons.prems] r show ?case by (auto split: prod.splits)
qed simp

lemma toggle_keeps:
  assumes "commands_keep x P" "P w" shows "P (snd (toggle_feeds x n refs entry w))"
proof (cases entry)
  case None
  then show ?thesis by (simp add: toggle_feeds_def set_all_feeds_at_def Let_def set_feeds_keep[OF assms])
next
  case (Some k)
  let ?r = "refs ! (k - 1)"
  obtain ok out w1 where r: "run_power_command x (switch_line ?r (state_of (world_feed_states n w) ?r \<noteq> Some True)) w
      = (ok, out, w1)" by (metis prod_cases3)
  then have "P w1" using assms unfolding commands_keep_def by (metis snd_conv)
  then show ?thesis using r assms(2) by (simp add: Some toggle_feeds_def Let_def)
qed

lemma menu_loop_keeps:
  "commands_keep x P \<Longrightarrow> P w \<Longrightarrow> P (fst (snd (snd (power_menu_loop x n refs w t))))"
proof (induction x n refs w t rule: power_menu_loop.induct)
  case (1 x n refs w t)
  obtain echo typed_text keep_going t1 where rd: "read_prompt_line ''> '' t = (echo, (typed_text, keep_going), t1)"
    by (cases "read_prompt_line ''> '' t") auto
  let ?entry = "lower (strip typed_text)"
  have tog: "P (snd (toggle_feeds x n refs k w))" for k using toggle_keeps[OF "1.prems"] .
  note IH = "1.IH"[OF refl rd[symmetric] refl refl]
  show ?case
  proof (cases "keep_going \<and> ?entry \<noteq> []")
    case False
    then show ?thesis using rd "1.prems" by (auto simp: power_menu_loop.simps[of x n refs w t] Let_def)
  next
    case True
    then have go: "\<not> \<not> keep_going" "?entry \<noteq> []" by simp_all
    show ?thesis
    proof (cases "?entry = ''a'' \<or> ?entry = ''all''")
      case all: True
      obtain out w1 where tg: "toggle_feeds x n refs None w = (out, w1)" by fastforce
      show ?thesis using IH(1)[OF go(1) refl go(2) all tg[symmetric] "1.prems"(1)] tog[of None] tg rd go all
        by (auto simp: power_menu_loop.simps[of x n refs w t] Let_def split: prod.splits)
    next
      case other: False
      show ?thesis
      proof (cases "list_all isdigit ?entry")
        case digits: True
        show ?thesis
        proof (cases "py_int ?entry")
          case (Some a)
          obtain out w1 where tg: "toggle_feeds x n refs (Some (nat a)) w = (out, w1)" by fastforce
          show ?thesis
            using IH(2)[OF go(1) refl go(2) other digits Some tg[symmetric] "1.prems"(1)] tog[of "Some (nat a)"] tg
              rd go other digits Some
            by (auto simp: power_menu_loop.simps[of x n refs w t] Let_def split: prod.splits)
        qed (use rd go other digits "1.prems" in \<open>auto simp: power_menu_loop.simps[of x n refs w t] Let_def\<close>)
      next
        case False
        show ?thesis using IH(3)[OF go(1) refl go(2) other False "1.prems"] rd go other False
          by (auto simp: power_menu_loop.simps[of x n refs w t] Let_def split: prod.splits)
      qed
    qed
  qed
qed

lemma menu_keeps:
  assumes "commands_keep x P" "P w"
  shows "P (fst (snd (snd (run_power_menu x n w t))))"
  using assms menu_loop_keeps[OF assms]
  by (auto simp: run_power_menu_def Let_def split: option.splits prod.splits) (metis fst_conv snd_conv)+

text \<open>Whatever a user without write permission types into the menu, the adapter stays as it is.\<close>

lemma run_menu_refused:
  fixes w :: "'d power_world"
  assumes "\<not> user_can_write (px_env x) (px_user x)"
  shows "pw_adapter (fst (snd (snd (run_power_menu x n w t)))) = pw_adapter w"
proof (rule menu_keeps[where P = "\<lambda>w1. pw_adapter w1 = pw_adapter w"])
  show "commands_keep x (\<lambda>w1. pw_adapter w1 = pw_adapter w)"
    unfolding commands_keep_def
  proof (intro allI impI)
    fix cmd and w1 :: "'d power_world" assume "pw_adapter w1 = pw_adapter w"
    moreover obtain ok out w2 where r: "run_power_command x cmd w1 = (ok, out, w2)" by (metis prod_cases3)
    have "pw_adapter w2 = pw_adapter w1"
      by (rule ccontr, rule command_needs_right[OF r]) (use assms in \<open>auto simp: may_switch_def\<close>)
    ultimately show "pw_adapter (snd (snd (run_power_command x cmd w1))) = pw_adapter w" using r by simp
  qed
qed simp

text \<open>The menu looks at ports and changes none: seats and routing of the console manager stay.\<close>

definition quiet :: "cm \<Rightarrow> cm \<Rightarrow> bool" where
  "quiet c d \<longleftrightarrow> client_port_map d = client_port_map c \<and> modes d = modes c \<and> (cm_ok c \<longrightarrow> cm_ok d)"

lemma quiet_refl [simp]: "quiet c c"
  by (simp add: quiet_def)

lemma quiet_trans: "quiet c d \<Longrightarrow> quiet d f \<Longrightarrow> quiet c f"
  by (simp add: quiet_def)

lemma quiet_get_port: "quiet c (snd (with_pm (get_port n) c))"
proof -
  have "cm_ok (snd (with_pm (get_port n) c))" if "cm_ok c"
    using that by (intro cm_ok_keep[OF that]) (simp_all add: with_pm_Pair get_port_ok cm_okD modes_eq)
  then show ?thesis by (simp add: quiet_def)
qed

lemma blocked_ports_quiet: "quiet c (snd (blocked_ports e perm u ns c))"
proof (induction ns arbitrary: c)
  case (Cons n ns)
  show ?case using quiet_trans[OF quiet_get_port Cons.IH] by (simp add: split_beta Let_def)
qed simp

lemma command_quiet: "quiet (pw_cm w) (pw_cm (snd (snd (run_power_command x cmd w))))"
proof -
  have b: "quiet c (snd (power_blocked_ports e ref user s c))" for e ref user s c
    by (auto simp: power_blocked_ports_def blocked_ports_for_user_def Let_def blocked_ports_quiet split: option.split)
  have "quiet c c1" if "switch_outlet x ref verb c s = (ok, out, c1, s1)" for ref verb c s ok out c1 s1
    using that b[of c "px_env x" ref "px_user x" s]
    by (auto simp: switch_outlet_def Let_def split: if_splits prod.splits)
  then show ?thesis
    by (auto simp: run_power_command_def split: option.splits sum.splits prod.splits)
qed

lemma run_menu_quiet: "quiet (pw_cm w) (pw_cm (fst (snd (snd (run_power_menu x n w t)))))"
proof (rule menu_keeps[where P = "\<lambda>w1. quiet (pw_cm w) (pw_cm w1)"])
  show "commands_keep x (\<lambda>w1. quiet (pw_cm w) (pw_cm w1))"
    unfolding commands_keep_def using command_quiet quiet_trans by blast
qed simp

definition drives_all :: "env \<Rightarrow> string \<Rightarrow> string list \<Rightarrow> cm \<Rightarrow> bool" where
  "drives_all e u ns c \<longleftrightarrow> user_permissions e u = Some ''admin'' \<or>
     (\<forall>n \<in> set ns. may_drive (taker_entitled e (fst (get_port n (cm_pm c))) (user_permissions e u) u))"

lemma may_switch_cases:
  assumes "may_switch e user ref s c"
  obtains u where "user = Some u" "user_permissions e u \<in> {Some ''read-write'', Some ''admin''}"
    "u = [] \<or> drives_all e u (mapped_ports_for_ref ref s) c"
proof -
  obtain u where u: "user = Some u" using assms by (cases user) (simp_all add: may_switch_def user_can_write_def)
  have "u = [] \<or> drives_all e u (mapped_ports_for_ref ref s) c"
    using assms blocked_ports_open[of e "user_permissions e u" u "mapped_ports_for_ref ref s" c]
    by (auto simp: u may_switch_def power_blocked_ports_def blocked_ports_for_user_def drives_all_def Let_def split: if_splits)
  then show ?thesis using that[OF u] assms by (auto simp: u may_switch_def user_can_write_def)
qed

lemma frame_needs_right:
  assumes "handle_power_frame e ops rl n rtype ref on user client c s = (reply, c1, s1)" "s1 \<noteq> s"
  obtains r where "ref = Some r" "may_switch e user r s c" "user \<noteq> Some []"
proof -
  have w: "user_can_write e user" "user \<noteq> Some []"
    using assms by (auto simp: handle_power_frame_def split: if_splits)
  obtain r b where r: "ref = Some r" "on = Some b"
    using assms by (auto simp: handle_power_frame_def split: if_splits option.splits)
  obtain blocked c2 where b: "power_blocked_ports e r user s c = (blocked, c2)" by fastforce
  have "blocked = []" using assms w r b by (auto simp: handle_power_frame_def split: if_splits)
  then show ?thesis using that r w b by (simp add: may_switch_def)
qed


definition writer_env :: env where
  "writer_env = \<lparr>user_permissions = (\<lambda>u. Some ''read-write''), user_groups = (\<lambda>u. []), security_default = None,
     fed_reply = (\<lambda>i n c r. []), meta_resolver = (\<lambda>m c. None), frame_accepted = (\<lambda>m c. True),
     data_accepted = (\<lambda>m c b. Some True)\<rparr>"

definition no_cm :: cm where
  "no_cm = \<lparr>cm_pm = \<lparr>pm_ports = [], pm_adapters = [], pm_clock = 0, pm_events = []\<rparr>, client_port_map = [],
     forwarding_tasks = [], console_clients = [], client_manager = None, client_managers = [], client_to_manager = [],
     remote_viewers = (\<lambda>n. []), cm_sent = [], cm_audit = [], cm_fed_calls = 0\<rparr>"

definition framed_off :: "power_reply option \<times> cm \<times> dummy_driver pstate" where
  "framed_off = handle_power_frame writer_env dummy_ops None ''con'' ''power_switch'' (Some ''rack.1'') (Some False)
     (Some ''alice'') None no_cm rack_up"

lemma framed_off_acts: "ps_events (snd (snd framed_off)) \<noteq> [] \<and> ps_events rack_up = []"
  by code_simp


section \<open>Three behaviours\<close>

text \<open>A unit that stops answering is announced as a power loss: the second outlet is announced when the
  first one already reads unknown, so the console is told that all its feeds are off, while the
  summary of the port says unknown, and no loss.\<close>

definition rack_dead :: "dummy_driver pstate" where
  "rack_dead = rack ((new_dummy [''1'', ''2''])\<lparr>dm_fail_reads := True\<rparr>)"

lemma unreachable_is_announced_as_lost:
  "PortNotice ''con'' ''rack.2'' None True [] \<in> set (ps_events (refresh_readings dummy_ops ''rack'' rack_dead))"
  "map_option (\<lambda>w. (pw_state w, pw_all_lost w)) (port_power_payload ''con'' (refresh_readings dummy_ops ''rack'' rack_dead))
     = Some (''unknown'', False)"
  by code_simp+

text \<open>A federated console with two feeds, both on, is announced as losing all power when one of them is
  about to be switched off: the preview reads the states of local outlets only.\<close>

lemma federated_preview_ignores_other_feeds:
  "feed_states ''far'' rack_up = [(''hub::rack.1'', Some True), (''hub::rack.2'', Some True)]"
  "off_warnings ''hub::rack.1'' rack_up = [''WARNING:POWER: removing all power to: far (hub::far)'']"
  by code_simp+

text \<open>A superscript digit is a digit for \<open>isdigit\<close> and none for \<open>int\<close>: the exception leaves the menu.\<close>

lemma superscript_leaves_the_menu:
  "fst (snd (run_power_menu \<lparr>px_env = writer_env, px_ops = dummy_ops, px_relay = None, px_user = Some ''alice'', px_client = None\<rparr>
     ''con'' \<lparr>pw_cm = no_cm, pw_adapter = Some rack_up\<rparr>
     \<lparr>tp_skip = False, tp_pushback = [], tp_input = [[char_of (178::nat), CR]]\<rparr>)) = MenuRaised"
  by code_simp

end
