(* ===== verification/ListenerPump.thy ===== *)
theory ListenerPump
  imports ListenerSession PowerFacts
begin

text \<open>
  The pump of \<^verbatim>\<open>openmux/server/listener_session.py\<close> with its termination, and what every part of a
  step keeps: the input only shrinks, and the mode shown is never more than the mode on the port.
\<close>

section \<open>No step gives input back\<close>

abbreviation input_left :: "'d sstate \<Rightarrow> nat" where
  "input_left s \<equiv> length (remaining (ss_tp s))"

lemma write_fields [simp]:
  "ss_tp (write_bytes b s) = ss_tp s" "ss_tp (write_session x s) = ss_tp s"
  "ss_session (write_bytes b s) = ss_session s" "ss_session (write_session x s) = ss_session s"
  "ss_world (write_bytes b s) = ss_world s" "ss_world (write_session x s) = ss_world s"
  by (simp_all add: write_bytes_def write_session_def)

lemma with_cm_fields:
  assumes "with_cm f s = (r, s1)"
  shows "ss_tp s1 = ss_tp s" "ss_session s1 = ss_session s"
    "f (ss_cm s) = (r, ss_cm s1)" "pw_adapter (ss_world s1) = pw_adapter (ss_world s)"
  using assms by (auto simp: with_cm_def split: prod.splits)

lemma with_cm_snd [simp]:
  "ss_tp (snd (with_cm f s)) = ss_tp s" "ss_session (snd (with_cm f s)) = ss_session s"
  "ss_cm (snd (with_cm f s)) = snd (f (ss_cm s))"
  by (auto simp: with_cm_def split: prod.splits)

lemma reply_fields [simp]:
  "ss_tp (reply_access_decision d s) = ss_tp s" "ss_world (reply_access_decision d s) = ss_world s"
  "ss_session (reply_access_decision d s) = (ss_session s)\<lparr>ls_mode := d_mode d\<rparr>"
  by (simp_all add: reply_access_decision_def)

lemma forward_tp [simp]: "ss_tp (forward_nonempty e p s) = ss_tp s" "ss_session (forward_nonempty e p s) = ss_session s"
  by (simp_all add: forward_nonempty_def forward_payload_def Let_def)

lemma command_le: "handle_control_command e c s = (fin, s1) \<Longrightarrow> input_left s1 \<le> input_left s"
  by (auto simp: handle_control_command_def cmd_request_rw_def cmd_force_rw_def cmd_release_rw_def cmd_power_def Let_def
      dest!: take_target_le run_power_menu_le dest: with_cm_fields(1) split: if_splits prod.splits)

lemma change_escape_left: "change_escape_sequence rest s = (left, s1) \<Longrightarrow> input_left s1 \<le> input_left s"
  by (auto simp: change_escape_sequence_def set_escape_def Let_def
      dest!: readexactly_le split: if_splits prod.splits sum.splits list.splits)

text \<open>What every part of a step does, a whole chunk does.\<close>

lemma chunk_relation:
  fixes R :: "'d sstate \<Rightarrow> 'd sstate \<Rightarrow> bool"
  assumes same: "\<And>s. R s s" and trans: "\<And>s t u. R s t \<Longrightarrow> R t u \<Longrightarrow> R s u"
    and esc: "\<And>s x. R s (s\<lparr>ss_session := (ss_session s)\<lparr>ls_escape := x\<rparr>\<rparr>)"
    and fwd: "\<And>e s p. R s (forward_nonempty e p s)"
    and change: "\<And>s rest left t. change_escape_sequence rest s = (left, t) \<Longrightarrow> R s t"
    and command: "\<And>e s c fin t. handle_control_command e c s = (fin, t) \<Longrightarrow> R s t"
  shows "process_input_chunk e p data s = (fin, t) \<Longrightarrow> R s t"
proof (induction e p data s arbitrary: fin t rule: process_input_chunk.induct)
  case (1 e p s)
  then show ?case using fwd by auto
next
  case (2 e p b rest s)
  obtain extra cmd esc where f: "feed_escape_byte (ls_escape (ss_session s)) b = ((extra, cmd), esc)"
    by (metis surj_pair)
  let ?s1 = "s\<lparr>ss_session := (ss_session s)\<lparr>ls_escape := esc\<rparr>\<rparr>"
  let ?s2 = "forward_nonempty e (p @ extra) ?s1"
  show ?case
  proof (cases cmd)
    case None
    have "R ?s1 t" using "2.IH"(1)[OF f[symmetric] refl refl None] "2.prems" f None by simp
    then show ?thesis using trans[OF esc] by blast
  next
    case (Some c)
    have s2: "R s ?s2" using trans[OF esc fwd] .
    obtain left s3 where ce: "change_escape_sequence rest ?s2 = (left, s3)" by fastforce
    obtain fin3 s4 where hc: "handle_control_command e c ?s2 = (fin3, s4)" by fastforce
    note IH = "2.IH"[OF f[symmetric] refl refl]
    show ?thesis
    proof (cases "c = CHR ''e''")
      case True
      have "R s3 t" using IH(2)[OF Some refl True ce[symmetric]] "2.prems" f Some True ce by simp
      then show ?thesis using trans[OF trans[OF s2 change[OF ce]]] by blast
    next
      case False
      have "fin3 = GoOn \<Longrightarrow> R s4 t" "fin3 \<noteq> GoOn \<Longrightarrow> t = s4"
        using IH(3)[OF Some refl False hc[symmetric]] "2.prems" f Some False hc by (auto split: if_splits)
      then show ?thesis using trans[OF trans[OF s2 command[OF hc]]] same[of s4] by metis
    qed
  qed
qed

lemma chunk_le: "process_input_chunk e p data s = (fin, t) \<Longrightarrow> input_left t \<le> input_left s"
  by (rule chunk_relation[where R = "\<lambda>s t. input_left t \<le> input_left s"])
    (auto dest: change_escape_left command_le)

section \<open>The pump\<close>

datatype pump_end = EndOfInput | Disconnected | Failed

function pump :: "'d session_env \<Rightarrow> 'd sstate \<Rightarrow> pump_end \<times> 'd sstate" where
  "pump e s =
     (case tp_read 4096 (ss_tp s) of (data, tp) \<Rightarrow>
        (let s1 = s\<lparr>ss_tp := tp\<rparr> in
         if data = [] then (EndOfInput, s1)
         else
           (case process_input_chunk e [] data s1 of
              (GoOn, s2) \<Rightarrow> pump e s2
            | (Stop, s2) \<Rightarrow> (Disconnected, s2)
            | (Raised, s2) \<Rightarrow> (Failed, s2))))"
  by pat_completeness auto
termination
  by (relation "measure (\<lambda>(e, s). input_left s)") (auto dest!: chunk_le[OF sym] tp_read_shrinks[OF sym])

declare pump.simps [simp del]

section \<open>The session agrees with the port\<close>

definition truthful :: "cm \<Rightarrow> lsession \<Rightarrow> bool" where
  "truthful c ls \<longleftrightarrow> cm_ok c \<and> mapped_to c (ls_client ls) (ls_port ls) \<and>
     (ls_mode ls = ReadWrite \<longrightarrow> modes c (ls_port ls) (ls_client ls) = Some ReadWrite)"

abbreviation session_truthful :: "'d sstate \<Rightarrow> bool" where
  "session_truthful s \<equiv> truthful (ss_cm s) (ss_session s)"

definition same_identity :: "lsession \<Rightarrow> lsession \<Rightarrow> bool" where
  "same_identity a b \<longleftrightarrow> ls_client a = ls_client b \<and> ls_port a = ls_port b \<and> ls_read_only a = ls_read_only b
     \<and> ls_user a = ls_user b \<and> ls_host a = ls_host b"

lemma identity_refl [simp]: "same_identity a a"
  by (simp add: same_identity_def)

lemma identity_trans: "same_identity a b \<Longrightarrow> same_identity b c \<Longrightarrow> same_identity a c"
  by (simp add: same_identity_def)

lemma identity_updates [simp]:
  "same_identity a (b\<lparr>ls_mode := m\<rparr>) = same_identity a b" "same_identity a (b\<lparr>ls_escape := x\<rparr>) = same_identity a b"
  by (simp_all add: same_identity_def)

lemma truthful_escape [simp]: "truthful c (ls\<lparr>ls_escape := x\<rparr>) = truthful c ls"
  by (simp add: truthful_def)

lemma truthful_quiet: "truthful c ls \<Longrightarrow> quiet c d \<Longrightarrow> truthful d ls"
  by (simp add: truthful_def quiet_def mapped_to_def)

text \<open>The decision of each command is the mode the port holds.\<close>

lemma promote_truthful:
  assumes "truthful c ls" "promote_client_to_read_write e (ls_client ls) (ls_port ls) c = (d, c1)"
  shows "truthful c1 (ls\<lparr>ls_mode := d_mode d\<rparr>)"
proof -
  have ok: "cm_ok c" using assms(1) by (simp add: truthful_def)
  note R = promote_result[OF assms(2) cm_okD[OF ok]]
  have "cm_ok c1" using promote_cm_ok[OF ok, of e "ls_client ls" "ls_port ls"] assms(2) by simp
  then show ?thesis using assms(1) R(2,3,5) by (simp add: truthful_def mapped_to_def)
qed

lemma take_truthful:
  assumes "truthful c ls" "take_write_slot e (ls_client ls) (ls_port ls) target c = (d, c1)"
  shows "truthful c1 (ls\<lparr>ls_mode := d_mode d\<rparr>)"
proof -
  have ok: "cm_ok c" using assms(1) by (simp add: truthful_def)
  note R = take_write_slot_sound[OF assms(2) cm_okD[OF ok]]
  have "cm_ok c1" using take_cm_ok[OF ok, of e "ls_client ls" "ls_port ls" target] assms(2) by simp
  then show ?thesis using assms(1) R by (auto simp: truthful_def mapped_to_def take_sound_def take_effect_def)
qed

lemma release_truthful:
  assumes "truthful c ls" "demote_client_to_read_only e (ls_client ls) (ls_port ls) True c = (d, c1)"
  shows "truthful c1 (ls\<lparr>ls_mode := d_mode d\<rparr>)" "d_mode d = ReadOnly"
proof -
  have ok: "cm_ok c" "mapped_to c (ls_client ls) (ls_port ls)" using assms(1) by (simp_all add: truthful_def)
  then have there: "modes c (ls_port ls) (ls_client ls) \<noteq> None" by (simp add: cm_ok_def)
  note R = demote_effect[OF assms(2)]
  have "cm_ok c1" using demote_cm_ok[OF ok(1), of e "ls_client ls" "ls_port ls" True] assms(2) by simp
  then show "truthful c1 (ls\<lparr>ls_mode := d_mode d\<rparr>)" "d_mode d = ReadOnly"
    using R(2,3,5) there ok(2) by (simp_all add: truthful_def mapped_to_def)
qed

definition step_keeps :: "'d sstate \<Rightarrow> 'd sstate \<Rightarrow> bool" where
  "step_keeps s t \<longleftrightarrow> same_identity (ss_session s) (ss_session t) \<and> (session_truthful s \<longrightarrow> session_truthful t)"

lemma step_keeps_refl [simp]: "step_keeps s s"
  by (simp add: step_keeps_def)

lemma step_keeps_trans: "step_keeps s t \<Longrightarrow> step_keeps t u \<Longrightarrow> step_keeps s u"
  unfolding step_keeps_def using identity_trans by blast

lemma step_keeps_same:
  "ss_session t = ss_session s \<Longrightarrow> ss_world t = ss_world s \<Longrightarrow> step_keeps s t"
  by (simp add: step_keeps_def)

lemma write_quiet: "quiet c (snd (cm_write_to_port dev n data cid c))"
proof -
  have "cm_ok (snd (cm_write_to_port dev n data cid c))" if "cm_ok c"
    using that write_ok[OF cm_okD[OF that]]
    by (intro cm_ok_keep[OF that]) (simp_all add: cm_write_to_port_def with_pm_Pair modes_eq)
  then show ?thesis by (simp add: quiet_def cm_write_to_port_def with_pm_Pair modes_eq)
qed

lemma forward_keeps: "step_keeps s (forward_nonempty e p s)"
  using truthful_quiet[OF _ write_quiet]
  by (auto simp: step_keeps_def forward_nonempty_def forward_payload_def Let_def)

lemma with_cm_reply_keeps:
  assumes "with_cm f s = (d, s1)"
    "session_truthful s \<Longrightarrow> truthful (snd (f (ss_cm s))) ((ss_session s)\<lparr>ls_mode := d_mode (fst (f (ss_cm s)))\<rparr>)"
  shows "step_keeps s (reply_access_decision d s1)"
  using assms with_cm_fields[OF assms(1)] by (auto simp: step_keeps_def)

lemma command_keeps:
  assumes "handle_control_command e c s = (fin, t)" shows "step_keeps s t"
proof -
  have rw: "step_keeps s (cmd_request_rw e s)"
    by (auto simp: cmd_request_rw_def Let_def split: prod.split
        intro!: step_keeps_same with_cm_reply_keeps promote_truthful)
  have rel: "step_keeps s (cmd_release_rw e s)"
    by (auto simp: cmd_release_rw_def Let_def split: prod.split intro!: with_cm_reply_keeps release_truthful(1))
  have force: "step_keeps s (cmd_force_rw e s)"
  proof -
    obtain echo target keep_going tp where rd: "read_take_target (ss_tp s) = (echo, (target, keep_going), tp)"
      by (metis prod_cases3 surj_pair)
    let ?s1 = "write_bytes echo (s\<lparr>ss_tp := tp\<rparr>)" and ?ls = "ss_session s"
    obtain d s2 where w: "with_cm (take_write_slot (se_env e) (ls_client ?ls) (ls_port ?ls) target) ?s1 = (d, s2)"
      by fastforce
    have "step_keeps ?s1 (reply_access_decision d s2)"
      by (rule with_cm_reply_keeps[OF w]) (auto intro!: take_truthful)
    then have "step_keeps s (reply_access_decision d s2)" by (rule step_keeps_trans[OF step_keeps_same, rotated 2]) simp_all
    then show ?thesis using rd w by (auto simp: cmd_force_rw_def Let_def step_keeps_same)
  qed
  have power: "step_keeps s (snd (cmd_power e s))"
  proof -
    let ?x = "\<lparr>px_env = se_env e, px_ops = se_ops e, px_relay = se_relay e, px_user = Some (ls_user (ss_session s)),
        px_client = Some (ls_client (ss_session s))\<rparr>"
    obtain out fin w tp where r: "run_power_menu ?x (ls_port (ss_session s)) (ss_world s) (ss_tp s) = (out, fin, w, tp)"
      by (metis prod_cases4)
    then have "quiet (ss_cm s) (pw_cm w)" using run_menu_quiet[of "ss_world s" ?x "ls_port (ss_session s)" "ss_tp s"] by simp
    then show ?thesis using r by (simp add: cmd_power_def Let_def step_keeps_def truthful_quiet)
  qed
  show ?thesis using assms rw rel force power
    by (auto simp: handle_control_command_def Let_def step_keeps_same split: if_splits dest: arg_cong[of _ _ snd])
qed

lemma change_escape_keeps: "change_escape_sequence rest s = (left, t) \<Longrightarrow> step_keeps s t"
  by (auto simp: change_escape_sequence_def set_escape_def Let_def step_keeps_def
      split: if_splits prod.splits sum.splits list.splits)

lemma chunk_keeps: "process_input_chunk e p data s = (fin, t) \<Longrightarrow> step_keeps s t"
  by (rule chunk_relation[where R = step_keeps])
    (auto intro: step_keeps_trans forward_keeps change_escape_keeps command_keeps simp: step_keeps_def[of _ "_\<lparr>ss_session := _\<rparr>"])

lemma pump_relation:
  fixes R :: "'d sstate \<Rightarrow> 'd sstate \<Rightarrow> bool"
  assumes trans: "\<And>s t u. R s t \<Longrightarrow> R t u \<Longrightarrow> R s u"
    and read: "\<And>s data tp. tp_read 4096 (ss_tp s) = (data, tp) \<Longrightarrow> R s (s\<lparr>ss_tp := tp\<rparr>)"
    and chunk: "\<And>e s data fin t. process_input_chunk e [] data s = (fin, t) \<Longrightarrow> R s t"
  shows "pump e s = (fin, t) \<Longrightarrow> R s t"
proof (induction e s rule: pump.induct)
  case (1 e s)
  obtain data tp where rd: "tp_read 4096 (ss_tp s) = (data, tp)" by fastforce
  let ?s1 = "s\<lparr>ss_tp := tp\<rparr>"
  show ?case
  proof (cases "data = []")
    case True
    then show ?thesis using "1.prems" rd read[OF rd] by (simp add: pump.simps[of e s])
  next
    case False
    obtain f s2 where pr: "process_input_chunk e [] data ?s1 = (f, s2)" by fastforce
    have "R s s2" using trans[OF read[OF rd] chunk[OF pr]] .
    moreover have "f = GoOn \<Longrightarrow> R s2 t" "f \<noteq> GoOn \<Longrightarrow> t = s2"
      using "1.IH"[OF rd[symmetric] refl False pr[symmetric]] "1.prems" rd False pr
      by (cases f; simp add: pump.simps[of e s] Let_def)+
    ultimately show ?thesis using trans by metis
  qed
qed

lemma pump_keeps: "pump e s = (fin, t) \<Longrightarrow> step_keeps s t"
  by (rule pump_relation[where R = step_keeps]) (auto intro: step_keeps_trans step_keeps_same chunk_keeps)

end
