(* ===== verification/SessionFacts.thy ===== *)
theory SessionFacts
  imports ListenerPump
begin

text \<open>
  What a client gets from a session: the pump reads everything, the bytes typed reach the port as
  they are however the network cuts them, the mode shown is the mode held, and two behaviours of the
  \<open>f\<close> command that a user would not expect.
\<close>

section \<open>The pump reads everything\<close>

lemma command_ok: "handle_control_command e c s = (fin, t) \<Longrightarrow> tp_ok (ss_tp s) \<Longrightarrow> tp_ok (ss_tp t)"
  by (auto simp: handle_control_command_def cmd_request_rw_def cmd_force_rw_def cmd_release_rw_def cmd_power_def Let_def
      dest!: take_target_ok run_power_menu_ok dest: with_cm_fields(1) split: if_splits prod.splits)

lemma change_escape_ok: "change_escape_sequence rest s = (left, t) \<Longrightarrow> tp_ok (ss_tp s) \<Longrightarrow> tp_ok (ss_tp t)"
  by (auto simp: change_escape_sequence_def set_escape_def Let_def
      dest!: readexactly_ok split: if_splits prod.splits sum.splits list.splits)

lemma chunk_ok: "process_input_chunk e p data s = (fin, t) \<Longrightarrow> tp_ok (ss_tp s) \<longrightarrow> tp_ok (ss_tp t)"
  by (rule chunk_relation[where R = "\<lambda>s t. tp_ok (ss_tp s) \<longrightarrow> tp_ok (ss_tp t)"])
    (auto dest: change_escape_ok command_ok)


section \<open>What is typed reaches the port\<close>

definition escape_feed :: "escape_state \<Rightarrow> char \<Rightarrow> (char + char) list \<times> escape_state" where
  "escape_feed st b =
     (case feed_escape_byte st b of ((out, cmd), st1) \<Rightarrow>
        (map Inl out @ (case cmd of None \<Rightarrow> [] | Some c \<Rightarrow> [Inr c]), st1))"

definition escape_start :: "char \<Rightarrow> char \<Rightarrow> escape_state" where
  "escape_start c1 c2 = \<lparr>escape_char1 = c1, escape_char2 = c2, esc_state = 0\<rparr>"

text \<open>What a client types: a byte, the first escape byte with another one than the second, a command.\<close>

datatype typed_unit = Plain char | Lone char | Command char

fun unit_wire :: "char \<Rightarrow> char \<Rightarrow> typed_unit \<Rightarrow> bytes" where
  "unit_wire c1 c2 (Plain b) = [b]"
| "unit_wire c1 c2 (Lone b) = [c1, b]"
| "unit_wire c1 c2 (Command c) = [c1, c2, c]"

fun unit_content :: "char \<Rightarrow> typed_unit \<Rightarrow> (char + char) list" where
  "unit_content c1 (Plain b) = [Inl b]"
| "unit_content c1 (Lone b) = [Inl c1, Inl b]"
| "unit_content c1 (Command c) = [Inr c]"

fun unit_ok :: "char \<Rightarrow> char \<Rightarrow> typed_unit \<Rightarrow> bool" where
  "unit_ok c1 c2 (Plain b) = (b \<noteq> c1)"
| "unit_ok c1 c2 (Lone b) = (b \<noteq> c2)"
| "unit_ok c1 c2 (Command c) = True"

interpretation escape: stream_decoder escape_feed "escape_start c1 c2" "unit_wire c1 c2" "unit_content c1" "unit_ok c1 c2"
  for c1 c2
proof
  fix i show "unit_ok c1 c2 i \<Longrightarrow> run_machine escape_feed (escape_start c1 c2) (unit_wire c1 c2 i) = (unit_content c1 i, escape_start c1 c2)"
    by (cases i) (simp_all add: escape_feed_def feed_escape_byte_def escape_start_def)
qed

text \<open>A chunk in which the scanner finds no command is one write.\<close>

lemma chunk_without_command:
  "run_machine escape_feed (ls_escape (ss_session s)) data = (map Inl out, st) \<Longrightarrow>
     process_input_chunk e p data s =
       (GoOn, forward_nonempty e (p @ out) (s\<lparr>ss_session := (ss_session s)\<lparr>ls_escape := st\<rparr>\<rparr>))"
proof (induction data arbitrary: s p out)
  case Nil
  then show ?case by (cases s; cases "ss_session s") simp
next
  case (Cons b data)
  obtain o1 cmd st1 where f: "feed_escape_byte (ls_escape (ss_session s)) b = ((o1, cmd), st1)" by (metis surj_pair)
  obtain o2 st2 where m: "run_machine escape_feed st1 data = (o2, st2)" by fastforce
  have step: "escape_feed (ls_escape (ss_session s)) b = (map Inl o1 @ (case cmd of None \<Rightarrow> [] | Some c \<Rightarrow> [Inr c]), st1)"
    using f by (simp add: escape_feed_def)
  have eq: "map Inl o1 @ (case cmd of None \<Rightarrow> [] | Some c \<Rightarrow> [Inr c]) @ o2 = map Inl out" "st2 = st"
    using Cons.prems by (simp_all add: step m)
  have cmd: "cmd = None"
  proof (cases cmd)
    case (Some a)
    have "insert (Inr a) (Inl ` set o1 \<union> set o2) = Inl ` set out" using arg_cong[OF eq(1), of set] Some by simp
    then have "Inr a \<in> Inl ` set out" by blast
    then show ?thesis by blast
  qed
  obtain out2 where out: "out = o1 @ out2" "o2 = map Inl out2"
    using eq(1) cmd by (auto simp: append_eq_map_conv dest: inj_map_eq_map[THEN iffD1])
  let ?s = "s\<lparr>ss_session := (ss_session s)\<lparr>ls_escape := st1\<rparr>\<rparr>"
  have "run_machine escape_feed (ls_escape (ss_session ?s)) data = (map Inl out2, st)" using m out(2) eq(2) by simp
  from Cons.IH[OF this, of "p @ o1"] show ?case using f cmd out(1) by simp
qed

text \<open>The bytes a client has written to a port, in order, from the record of the port manager.\<close>

fun written :: "string \<Rightarrow> string \<Rightarrow> pm_event list \<Rightarrow> bytes" where
  "written n c [] = []"
| "written n c (ev # evs) =
     (case ev of
        EvData m dir (Some x) data \<Rightarrow> if m = n \<and> dir = ''out'' \<and> x = c then data @ written n c evs else written n c evs
      | _ \<Rightarrow> written n c evs)"

lemma written_append [simp]: "written n c (xs @ ys) = written n c xs @ written n c ys"
  by (induction xs) (auto split: pm_event.split option.split)

definition session_written :: "'d sstate \<Rightarrow> bytes" where
  "session_written s = written (ls_port (ss_session s)) (ls_client (ss_session s)) (pm_events (cm_pm (ss_cm s)))"

lemma forward_written:
  assumes "session_truthful s" "session_may_write (ss_session s)"
  shows "session_written (forward_nonempty e p s) = session_written s @ p"
proof (cases "p = []")
  case False
  let ?ls = "ss_session s"
  have "pm_mode (cm_pm (ss_cm s)) (ls_port ?ls) (ls_client ?ls) = Some ReadWrite"
    using assms by (simp add: truthful_def session_may_write_def modes_eq)
  from write_passed[OF this, of "se_dev e" p] show ?thesis
    using False assms(2)
    by (simp add: session_written_def forward_nonempty_def forward_payload_def Let_def cm_write_to_port_def with_pm_Pair)
qed (simp add: forward_nonempty_def)

lemma pump_writes:
  "tp_ok (ss_tp s) \<Longrightarrow> session_truthful s \<Longrightarrow> session_may_write (ss_session s) \<Longrightarrow>
     run_machine escape_feed (ls_escape (ss_session s)) (visible (ss_tp s)) = (map Inl out, st) \<Longrightarrow>
     \<exists>t. pump e s = (EndOfInput, t) \<and> session_written t = session_written s @ out"
proof (induction e s arbitrary: out rule: pump.induct)
  case (1 e s)
  obtain data tp where rd: "tp_read 4096 (ss_tp s) = (data, tp)" by fastforce
  let ?s1 = "s\<lparr>ss_tp := tp\<rparr>"
  have pos: "0 < (4096::nat)" by simp
  note R = tp_read_spec[OF rd "1.prems"(1) pos]
  have w1: "session_written ?s1 = session_written s" by (simp add: session_written_def)
  show ?case
  proof (cases "data = []")
    case True
    then have "visible (ss_tp s) = []" using R(4) by simp
    then have "out = []" using "1.prems"(4) by simp
    then show ?thesis using rd True w1 by (simp add: pump.simps[of e s])
  next
    case False
    obtain o1 st1 where m1: "run_machine escape_feed (ls_escape (ss_session s)) data = (o1, st1)" by fastforce
    obtain o2 st2 where m2: "run_machine escape_feed st1 (visible tp) = (o2, st2)" by fastforce
    have eq: "o1 @ o2 = map Inl out" "st2 = st"
      using "1.prems"(4) unfolding R(1) by (simp_all add: run_machine_append m1 m2)
    then obtain out1 out2 where out: "out = out1 @ out2" "o1 = map Inl out1" "o2 = map Inl out2"
      by (auto simp: append_eq_map_conv)
    let ?s2 = "?s1\<lparr>ss_session := (ss_session ?s1)\<lparr>ls_escape := st1\<rparr>\<rparr>"
    let ?s3 = "forward_nonempty e out1 ?s2"
    have pr: "process_input_chunk e [] data ?s1 = (GoOn, ?s3)"
      using chunk_without_command[of ?s1 data out1 st1 e "[]"] m1 out(2) by simp
    have t2: "session_truthful ?s2" "session_may_write (ss_session ?s2)" "session_written ?s2 = session_written s"
      using "1.prems"(2,3) w1 by (simp_all add: session_may_write_def session_written_def)
    have t3: "session_truthful ?s3" "session_may_write (ss_session ?s3)" "session_written ?s3 = session_written s @ out1"
      using t2 forward_keeps[of ?s2 e out1] forward_written[OF t2(1,2), of e out1] by (simp_all add: step_keeps_def)
    have "tp_ok (ss_tp ?s3)" "run_machine escape_feed (ls_escape (ss_session ?s3)) (visible (ss_tp ?s3)) = (map Inl out2, st)"
      using R(3) m2 out(3) eq(2) by simp_all
    from "1.IH"[OF rd[symmetric] refl False pr[symmetric] refl this(1) t3(1,2) this(2)]
    show ?thesis using rd False pr t3(3) out(1) by (auto simp: pump.simps[of e s])
  qed
qed

lemma plain_unit: "\<forall>c. i \<noteq> Command c \<Longrightarrow> unit_content c1 i = map Inl (unit_wire c1 c2 i)"
  by (cases i) simp_all

lemma plain_units:
  "\<forall>i \<in> set is. \<forall>c. i \<noteq> Command c \<Longrightarrow>
     concat (map (unit_content c1) is) = map Inl (concat (map (unit_wire c1 c2) is))"
  by (induction "is") (simp_all add: plain_unit[of _ c1 c2])

text \<open>C24: What the client of a read-write session types, as long as it never completes the escape
  sequence, is written to the port byte for byte and in order, whatever reads the network makes of
  it; the first escape byte alone is typed like any other.\<close>

theorem typed_bytes_reach_the_port:
  assumes "tp_ok (ss_tp s)" "session_truthful s" "session_may_write (ss_session s)"
    and "ls_escape (ss_session s) = escape_start esc1 esc2" "visible (ss_tp s) = concat (map (unit_wire esc1 esc2) units)"
    and "\<forall>i \<in> set units. unit_ok esc1 esc2 i \<and> (\<forall>c. i \<noteq> Command c)"
  shows "\<exists>t. pump e s = (EndOfInput, t) \<and> session_written t = session_written s @ visible (ss_tp s)"
proof (rule pump_writes[OF assms(1-3)])
  show "run_machine escape_feed (ls_escape (ss_session s)) (visible (ss_tp s)) = (map Inl (visible (ss_tp s)), escape_start esc1 esc2)"
    using escape.units[of units esc1 esc2] plain_units[of units esc1 esc2] assms(4-6) by simp
qed

end
