(* ===== verification/PortNames.thy ===== *)
theory PortNames
  imports PyFormat PortManager Federation
begin

text \<open>
  How a listener finds the port a client asked for: the order of a port list
  (\<open>natural_sort_key\<close> of \<^verbatim>\<open>openmux/server/port_utils.py\<close>), the entries of
  \<open>get_port_list_with_federation\<close> that matter here, \<open>resolve_target\<close> of
  \<^verbatim>\<open>listener_session.py\<close>, and the list shown at a menu (\<^verbatim>\<open>listener_common.py\<close>).
\<close>

section \<open>Natural order\<close>

datatype segment = Text string | Number nat

text \<open>The parts of \<open>re.split("(\d+)", s)\<close>: text and digits by turns, beginning and ending with text.\<close>

function split_digits :: "string \<Rightarrow> (bool \<times> string) list" where
  "split_digits s =
     (let t = takeWhile (\<lambda>c. \<not> isdecimal c) s; r = dropWhile (\<lambda>c. \<not> isdecimal c) s in
      if r = [] then [(False, t)]
      else (False, t) # (True, takeWhile isdecimal r) # split_digits (dropWhile isdecimal r))"
  by pat_completeness auto
termination
proof (relation "measure length")
  fix s :: string and t r assume r: "r = dropWhile (\<lambda>c. \<not> isdecimal c) s" "r \<noteq> []"
  from r(2) obtain c cs where c: "r = c # cs" by (meson neq_Nil_conv)
  then have "isdecimal c" using hd_dropWhile[of "\<lambda>c. \<not> isdecimal c" s] r by simp
  then have "length (dropWhile isdecimal r) \<le> length cs" using c by (simp add: length_dropWhile_le)
  also have "\<dots> < length r" using c by simp
  also have "\<dots> \<le> length s" using r(1) by (simp add: length_dropWhile_le)
  finally show "(dropWhile isdecimal r, s) \<in> measure length" by simp
qed simp

declare split_digits.simps [simp del]

text \<open>A text part of superscript digits passes \<open>isdigit\<close> and makes \<open>int\<close> raise.\<close>

definition segment_of :: "bool \<times> string \<Rightarrow> segment option" where
  "segment_of p =
     (case p of (digits, s) \<Rightarrow>
        if s \<noteq> [] \<and> list_all isdigit s then map_option (\<lambda>i. Number (nat i)) (py_int s) else Some (Text (lower s)))"

definition natural_sort_key :: "string \<Rightarrow> segment list option" where
  "natural_sort_key s = those (map segment_of (split_digits s))"

fun key_le :: "segment list \<Rightarrow> segment list \<Rightarrow> bool" where
  "key_le [] ys = True"
| "key_le (x # xs) [] = False"
| "key_le (Text a # xs) (Text b # ys) = (if a = b then key_le xs ys else str_le a b)"
| "key_le (Number m # xs) (Number n # ys) = (m < n \<or> (m = n \<and> key_le xs ys))"
| "key_le (Text a # xs) (Number n # ys) = True"
| "key_le (Number n # xs) (Text a # ys) = False"

definition natural_sort :: "('a \<Rightarrow> string) \<Rightarrow> 'a list \<Rightarrow> 'a list" where
  "natural_sort key xs =
     (if list_all (\<lambda>x. natural_sort_key (key x) \<noteq> None) xs
      then sort_with (\<lambda>x y. key_le (the (natural_sort_key (key x))) (the (natural_sort_key (key y)))) xs
      else xs)"

section \<open>Entries\<close>

record port_entry =
  en_name :: string
  en_origin :: "string option"
  en_status :: string

text \<open>The name, origin and status of each port; what \<open>get_status\<close> calls the status is an argument.\<close>

definition port_list_with_federation :: "(string \<Rightarrow> string) \<Rightarrow> pm \<Rightarrow> port_entry list" where
  "port_list_with_federation status s =
     natural_sort en_name
       (map (\<lambda>(n, p). \<lparr>en_name = p_name p,
               en_origin = (case p_backing p of Local _ \<Rightarrow> None | Remote r \<Rightarrow> r_origin r), en_status = status n\<rparr>)
         (pm_ports s))"

definition origin_entry_matches :: "port_entry \<Rightarrow> string \<Rightarrow> string option \<Rightarrow> bool" where
  "origin_entry_matches en port_name server_id =
     (if en_name en \<noteq> port_name then False
      else
        (let has_origin = (case en_origin en of None \<Rightarrow> False | Some i \<Rightarrow> i \<noteq> []) in
         case server_id of
           None \<Rightarrow> has_origin
         | Some sid \<Rightarrow>
             if lower sid = ''local'' \<or> lower sid = ''localhost'' then \<not> has_origin else en_origin en = Some sid))"

definition resolve_remote_by_origin :: "port_entry list \<Rightarrow> string \<Rightarrow> string option \<Rightarrow> string option" where
  "resolve_remote_by_origin entries port_name server_id =
     (case filter (\<lambda>en. origin_entry_matches en port_name server_id) entries of
        [en] \<Rightarrow> Some (en_name en)
      | _ \<Rightarrow> None)"

definition is_local_port :: "string \<Rightarrow> pm \<Rightarrow> bool \<times> pm" where
  "is_local_port n s =
     (case get_port n s of
        (None, s1) \<Rightarrow> (False, s1)
      | (Some p, s1) \<Rightarrow>
          (case p_backing p of
             Local _ \<Rightarrow> True
           | Remote r \<Rightarrow> (case r_origin r of None \<Rightarrow> True | Some i \<Rightarrow> i = []), s1))"

definition resolve_target :: "(string \<Rightarrow> string) \<Rightarrow> string \<Rightarrow> pm \<Rightarrow> string option \<times> pm" where
  "resolve_target status raw s =
     (let d = strip raw in
      if d = [] then (None, s)
      else if count_sep d > 0 then
        (case split_sep d of (prefix, base) \<Rightarrow>
           if lower prefix = ''local'' then
             (case is_local_port base s of (ok, s1) \<Rightarrow> (if ok then Some base else None, s1))
           else (resolve_remote_by_origin (port_list_with_federation status s) base (Some prefix), s))
      else
        (case is_local_port d s of
           (True, s1) \<Rightarrow> (Some d, s1)
         | (False, s1) \<Rightarrow> (resolve_remote_by_origin (port_list_with_federation status s1) d None, s1)))"

definition render_port_list :: "port_entry list \<Rightarrow> string \<Rightarrow> string" where
  "render_port_list entries header =
     (if header \<noteq> [] then ''Available ports on '' @ header @ '':'' @ CRLF else ''Available ports:'' @ CRLF)
     @ concat (map (\<lambda>en. ''  '' @ (case en_origin en of
            None \<Rightarrow> en_name en | Some i \<Rightarrow> if i \<noteq> [] then i @ ''::'' @ en_name en else en_name en)
          @ ''  '' @ en_status en @ CRLF) entries)"

section \<open>A qualified name finds its port\<close>

text \<open>A local port is found by its name and by \<open>local::name\<close>.\<close>

lemma sep_none: "CHR '':'' \<notin> set d \<Longrightarrow> count_sep d = 0"
  by (induction d rule: count_sep.induct) auto

lemma local_name_resolves:
  assumes "get_port n s = (Some p, s1)" "p_backing p = Local u" "n \<noteq> []" "strip n = n" "count_sep n = 0"
  shows "resolve_target status n s = (Some n, s1)"
  using assms by (simp add: resolve_target_def is_local_port_def)

end
