(* ===== verification/SessionLife.thy ===== *)
theory SessionLife
  imports SessionFacts PortNames
begin

text \<open>
  \<open>ListenerSessionManager\<close> of \<^verbatim>\<open>openmux/server/listener_session.py\<close> around the pump: the
  registry of sessions, attach, serve and detach, the frames and data other parts of the server send
  to a session, and what the mode shown to a client says from attach to detach.
\<close>

section \<open>Attach and detach\<close>

type_synonym registry = "(string, lsession) pydict"

definition create_session :: "string \<Rightarrow> string \<Rightarrow> bool \<Rightarrow> string \<Rightarrow> string \<Rightarrow> string \<Rightarrow> string \<Rightarrow> lsession" where
  "create_session display listener read_only uuid port_name peer_ip username =
     \<lparr>ls_client = lower display @ '':'' @ listener @ '':'' @ uuid, ls_listener = listener, ls_read_only = read_only,
      ls_port = port_name, ls_host = peer_ip, ls_user = username, ls_mode = ReadOnly, ls_escape = default_escape\<rparr>"

definition attach :: "env \<Rightarrow> string \<Rightarrow> lsession \<Rightarrow> cm \<Rightarrow> decision \<times> lsession \<times> cm" where
  "attach e owner ls c =
     (case connect_client_to_port e (ls_client ls) (ls_port ls) (ls_user ls) c of
        (d, c1) \<Rightarrow>
          if d_ok d then (d, ls\<lparr>ls_mode := d_mode d\<rparr>, register_client_channel (ls_client ls) owner c1)
          else (d, ls, c1))"

definition registered :: "decision \<Rightarrow> lsession \<Rightarrow> registry \<Rightarrow> registry" where
  "registered d ls r = (if d_ok d then dict_set (ls_client ls) ls r else r)"

definition disconnect_session :: "env \<Rightarrow> string \<Rightarrow> registry \<Rightarrow> cm \<Rightarrow> registry \<times> cm" where
  "disconnect_session e cid r c =
     (case dict_get r cid of
        None \<Rightarrow> (r, c)
      | Some ls \<Rightarrow>
          (dict_del cid r, snd (disconnect_client_from_port e cid (ls_port ls) (unregister_client_channel cid c))))"

definition disconnect_all :: "env \<Rightarrow> string list \<Rightarrow> registry \<Rightarrow> cm \<Rightarrow> registry \<times> cm" where
  "disconnect_all e cids r c = fold (\<lambda>cid (r, c). disconnect_session e cid r c) cids (r, c)"

definition drop_listener_sessions :: "env \<Rightarrow> string \<Rightarrow> registry \<Rightarrow> cm \<Rightarrow> registry \<times> cm" where
  "drop_listener_sessions e listener r c =
     disconnect_all e (map fst (filter (\<lambda>(cid, ls). ls_listener ls = listener) r)) r c"

text \<open>Data of the port for a session; \<open>alive\<close> says whether the transport takes it, and one that does not
  ends the session.\<close>

definition send_data :: "env \<Rightarrow> bool \<Rightarrow> string \<Rightarrow> bytes \<Rightarrow> registry \<Rightarrow> cm \<Rightarrow> (bool \<times> bytes) \<times> registry \<times> cm" where
  "send_data e alive cid data r c =
     (if dict_get r cid = None then ((False, []), r, c)
      else if alive then ((True, data), r, c)
      else ((False, []), disconnect_session e cid r c))"

text \<open>The warning, the pump, and the detach that always follows.\<close>

definition serve :: "'d session_env \<Rightarrow> 'd sstate \<Rightarrow> pump_end \<times> 'd sstate" where
  "serve e s =
     (let ls = ss_session s;
          s1 = (if session_may_write ls then s else write_session READ_ONLY_WARNING s)
      in case pump e s1 of
           (fin, t) \<Rightarrow>
             (fin, t\<lparr>ss_world := (ss_world t)\<lparr>pw_cm :=
                snd (disconnect_session (se_env e) (ls_client ls) [(ls_client ls, ss_session t)] (ss_cm t))\<rparr>\<rparr>))"

section \<open>What reaches a session\<close>

text \<open>A frame is a dictionary or an access decision, whose dictionary is \<open>d_frame\<close>.\<close>

definition frame_payload :: "frame \<Rightarrow> (string \<times> pyval) list" where
  "frame_payload f = (case f of FramePayload p \<Rightarrow> p | FrameDecision d \<Rightarrow> (case d_frame d of Inr p \<Rightarrow> p | Inl _ \<Rightarrow> []))"

fun text_lines :: "pyval list \<Rightarrow> string list" where
  "text_lines [] = []"
| "text_lines (PStr s # vs) = s # text_lines vs"
| "text_lines (v # vs) = text_lines vs"

definition payload_list :: "(string \<times> pyval) list \<Rightarrow> string \<Rightarrow> string list" where
  "payload_list p k = (case map_of p k of Some (PList vs) \<Rightarrow> text_lines vs | _ \<Rightarrow> [])"

definition format_rw_notice :: "(string \<times> pyval) list \<Rightarrow> string" where
  "format_rw_notice p =
     (if map_of p ''type'' = Some (PStr ''rw_holders'') then
        render_terminal_text
          [''['' @ holders_text (payload_list p ''holders'')
             (case map_of p ''max_rw_users'' of Some (PInt i) \<Rightarrow> Some i | _ \<Rightarrow> None) @ '']'']
      else if map_of p ''type'' = Some (PStr ''presence'') then []
      else render_terminal_text (payload_list p ''lines''))"

definition payload_mode :: "(string \<times> pyval) list \<Rightarrow> amode option" where
  "payload_mode p = (case map_of p ''mode'' of
      Some (PStr s) \<Rightarrow> (if s = mode_value ReadWrite then Some ReadWrite else if s = mode_value ReadOnly then Some ReadOnly else None)
    | _ \<Rightarrow> None)"

definition send_frame :: "string \<Rightarrow> frame \<Rightarrow> registry \<Rightarrow> (bool \<times> bytes) \<times> registry" where
  "send_frame cid f r =
     (case dict_get r cid of
        None \<Rightarrow> ((False, []), r)
      | Some ls \<Rightarrow>
          (let p = frame_payload f in
           ((True, encode_text (format_rw_notice p)),
            case payload_mode p of None \<Rightarrow> r | Some m \<Rightarrow> dict_set cid (ls\<lparr>ls_mode := m\<rparr>) r)))"

definition client_meta_of :: "string \<Rightarrow> string \<Rightarrow> registry \<Rightarrow> (string \<times> string \<times> string) option" where
  "client_meta_of display cid r = map_option (\<lambda>ls. (lower display, ls_host ls, ls_user ls)) (dict_get r cid)"

text \<open>The sessions that get a power notice, in the order of the registry.\<close>

definition on_port_meta :: "string \<Rightarrow> power_event \<Rightarrow> registry \<Rightarrow> (string \<times> bytes) list" where
  "on_port_meta n ev r =
     (case ev of
        PortNotice m outlet on all_lost others \<Rightarrow>
          if n = [] then []
          else map (\<lambda>(cid, ls). (cid, encode_text (format_power_notice outlet on all_lost)))
                 (filter (\<lambda>(cid, ls). ls_port ls = n) r)
      | _ \<Rightarrow> [])"

section \<open>From attach to detach\<close>

lemma decision_frame_mode: "payload_mode (frame_payload (FrameDecision d)) = Some (d_mode d)"
proof -
  obtain p where p: "d_frame d = Inr p"
    using frame_defined by blast
  have "map_of p ''mode'' = Some (PStr (mode_value (d_mode d)))"
    using p by (auto simp: d_frame_def frame_head_def split: sum.splits if_splits)
  then show ?thesis using p by (cases "d_mode d") (simp_all add: payload_mode_def frame_payload_def)
qed

lemma register_channel_frames [simp]:
  "cm_pm (register_client_channel c m s) = cm_pm s" "client_port_map (register_client_channel c m s) = client_port_map s"
  "forwarding_tasks (register_client_channel c m s) = forwarding_tasks s"
  "cm_pm (unregister_client_channel c s) = cm_pm s" "client_port_map (unregister_client_channel c s) = client_port_map s"
  "forwarding_tasks (unregister_client_channel c s) = forwarding_tasks s"
  by (simp_all add: register_client_channel_def unregister_client_channel_def)

lemma channel_ok [simp]: "cm_ok (register_client_channel c m s) = cm_ok s" "cm_ok (unregister_client_channel c s) = cm_ok s"
  by (simp_all add: cm_ok_def mapped_to_def modes_eq)

lemma attach_truthful:
  assumes "cm_ok c" "attach e owner ls c = (d, ls1, c1)" "d_ok d"
  shows "truthful c1 ls1" "same_identity ls ls1" "cm_ok c1"
proof -
  obtain c2 where r: "connect_client_to_port e (ls_client ls) (ls_port ls) (ls_user ls) c = (d, c2)"
    "ls1 = ls\<lparr>ls_mode := d_mode d\<rparr>" "c1 = register_client_channel (ls_client ls) owner c2"
    using assms(2,3) by (auto simp: attach_def split: prod.splits if_splits)
  note C = connect_result[OF r(1) assms(1)]
  show "truthful c1 ls1" "same_identity ls ls1" "cm_ok c1"
    using C assms(3) by (auto simp: r truthful_def connect_sound_def mapped_to_def modes_eq same_identity_def)
qed

text \<open>C23: From attach on, whatever is typed (control commands, takeovers, power menus, broken escape
  sequences, in any segmentation), a session that shows read-write holds the write slot of its port:
  the mode on the screen is never more than the mode on the port.\<close>

theorem shown_mode_is_held:
  assumes "cm_ok c" "attach (se_env e) owner ls c = (d, ls1, c1)" "d_ok d"
    and "ss_session s = ls1" "ss_cm s = c1" "pump e s = (fin, t)"
  shows "ls_mode (ss_session t) = ReadWrite \<longrightarrow> modes (ss_cm t) (ls_port ls) (ls_client ls) = Some ReadWrite"
proof -
  note A = attach_truthful[OF assms(1-3)]
  have "session_truthful s" using A(1) assms(4,5) by simp
  then have "session_truthful t" "same_identity (ss_session s) (ss_session t)"
    using pump_keeps[OF assms(6)] by (simp_all add: step_keeps_def)
  then show "ls_mode (ss_session t) = ReadWrite \<longrightarrow> modes (ss_cm t) (ls_port ls) (ls_client ls) = Some ReadWrite"
    using A(2) assms(4) by (simp_all add: truthful_def same_identity_def)
qed

end
