(* ===== verification/TelnetLogin.thy ===== *)
theory TelnetLogin
  imports AuthLines AuthManager SessionLife
begin

text \<open>
  A telnet connection before and around its session:
  \<^verbatim>\<open>openmux/server/adapters/telnet_listener.py\<close> from the access list to \<open>serve\<close>, and the access
  list of \<^verbatim>\<open>listener_common.py\<close>.  The parsers of \<^verbatim>\<open>ipaddress\<close> are arguments, the clock of a login
  attempt is a function of the attempts left.
\<close>

section \<open>Access list\<close>

type_synonym ip = "nat \<times> nat"

datatype acl_entry = AclAddress ip | AclNetwork ip nat

record ip_parsers =
  ip_address :: "string \<Rightarrow> ip option"
  ip_network :: "string \<Rightarrow> (ip \<times> nat) option"

definition compile_acl :: "ip_parsers \<Rightarrow> string list \<Rightarrow> acl_entry list" where
  "compile_acl ps rules =
     List.map_filter (\<lambda>rule. if CHR ''/'' \<in> set rule then map_option (\<lambda>(a, len). AclNetwork a len) (ip_network ps rule)
                             else map_option AclAddress (ip_address ps rule)) rules"

definition ip_bits :: "nat \<Rightarrow> nat" where
  "ip_bits version = (if version = 4 then 32 else 128)"

fun acl_match :: "ip \<Rightarrow> acl_entry \<Rightarrow> bool" where
  "acl_match a (AclAddress b) = (a = b)"
| "acl_match (v, a) (AclNetwork (w, b) len) \<longleftrightarrow>
     v = w \<and> a div 2 ^ (ip_bits v - len) = b div 2 ^ (ip_bits v - len)"

definition ip_allowed :: "ip_parsers \<Rightarrow> string \<Rightarrow> acl_entry list \<Rightarrow> bool" where
  "ip_allowed ps peer acl =
     (if acl = [] then True
      else (case ip_address ps peer of None \<Rightarrow> False | Some a \<Rightarrow> list_ex (acl_match a) acl))"

section \<open>Login\<close>

record login_state =
  lg_tp :: transport
  lg_out :: bytes
  lg_auth :: auth_state

definition say :: "bytes \<Rightarrow> login_state \<Rightarrow> login_state" where
  "say data s = s\<lparr>lg_out := lg_out s @ data\<rparr>"

definition IAC_WILL_ECHO :: bytes where "IAC_WILL_ECHO = [IAC, char_of (251::nat), char_of (1::nat)]"
definition IAC_WONT_ECHO :: bytes where "IAC_WONT_ECHO = [IAC, char_of (252::nat), char_of (1::nat)]"
definition AUTH_LINE_MAX_LEN :: nat where "AUTH_LINE_MAX_LEN = 256"
definition AUTH_LOGIN_MAX_ATTEMPTS :: nat where "AUTH_LOGIN_MAX_ATTEMPTS = 3"
definition AUTH_PORT_MAX_ATTEMPTS :: nat where "AUTH_PORT_MAX_ATTEMPTS = 5"

definition read_line :: "bool \<Rightarrow> iac_state \<Rightarrow> login_state \<Rightarrow> string option \<times> iac_state \<times> login_state" where
  "read_line keep st s =
     (case read_auth_line keep AUTH_LINE_MAX_LEN [] st (lg_tp s) of (line, st1, tp) \<Rightarrow> (line, st1, s\<lparr>lg_tp := tp\<rparr>))"

definition with_auth :: "(auth_state \<Rightarrow> 'a \<times> auth_state) \<Rightarrow> login_state \<Rightarrow> 'a \<times> login_state" where
  "with_auth f s = (case f (lg_auth s) of (r, a) \<Rightarrow> (r, s\<lparr>lg_auth := a\<rparr>))"

definition LOGIN_INCORRECT :: bytes where "LOGIN_INCORRECT = ''Login incorrect'' @ CRLF"

fun login_attempts :: "auth_env \<Rightarrow> (nat \<Rightarrow> int) \<Rightarrow> string \<Rightarrow> nat \<Rightarrow> iac_state \<Rightarrow> login_state \<Rightarrow>
     (string \<times> string option) option \<times> login_state" where
  "login_attempts e clock peer 0 st s = (None, s)"
| "login_attempts e clock peer (Suc k) st s =
     (case read_line False st (say ''login: '' s) of
        (None, st1, s1) \<Rightarrow> (None, s1)
      | (Some line, st1, s1) \<Rightarrow>
          (case parse_login line of (username, descriptor) \<Rightarrow>
             if username = [] then login_attempts e clock peer k st1 s1
             else
               (case with_auth (is_user_locked (clock k) username (Some peer)) s1 of
                  (True, s2) \<Rightarrow> (None, say LOGIN_INCORRECT s2)
                | (False, s2) \<Rightarrow>
                    (case read_line False st1 (say (IAC_WILL_ECHO @ ''Password: '') s2) of
                       (password, st3, s3) \<Rightarrow>
                         (let s4 = say (IAC_WONT_ECHO @ CRLF) s3 in
                          case password of
                            None \<Rightarrow> (None, s4)
                          | Some pw \<Rightarrow>
                              (case with_auth (authenticate e (clock k) username pw) s4 of
                                 (True, s5) \<Rightarrow>
                                   (Some (username, descriptor),
                                    s5\<lparr>lg_auth := clear_auth_failures username (Some peer) (lg_auth s5)\<rparr>)
                               | (False, s5) \<Rightarrow>
                                   login_attempts e clock peer k st3
                                     (say LOGIN_INCORRECT
                                       (s5\<lparr>lg_auth := register_auth_failure (clock k) username (Some peer) (lg_auth s5)\<rparr>))))))))"

definition run_login :: "auth_env \<Rightarrow> (nat \<Rightarrow> int) \<Rightarrow> string \<Rightarrow> login_state \<Rightarrow> (string \<times> string option) option \<times> login_state" where
  "run_login e clock peer s = login_attempts e clock peer AUTH_LOGIN_MAX_ATTEMPTS StData s"

section \<open>The port menu\<close>

text \<open>\<open>label\<close> is the server's label and \<open>status\<close> the status of a port, as in \<^verbatim>\<open>PortNames.thy\<close>.\<close>

record menu_env =
  mn_label :: string
  mn_status :: "string \<Rightarrow> string"

definition send_port_list :: "menu_env \<Rightarrow> pm \<Rightarrow> login_state \<Rightarrow> login_state" where
  "send_port_list m p s =
     say (encode_text (render_port_list (port_list_with_federation (mn_status m) p) (mn_label m))) s"

fun menu_attempts :: "menu_env \<Rightarrow> nat \<Rightarrow> iac_state \<Rightarrow> pm \<Rightarrow> login_state \<Rightarrow> string option \<times> pm \<times> login_state" where
  "menu_attempts m 0 st p s = (None, p, s)"
| "menu_attempts m (Suc k) st p s =
     (case read_line True st (say ''Port: '' s) of
        (None, st1, s1) \<Rightarrow> (None, p, s1)
      | (Some raw, st1, s1) \<Rightarrow>
          (let choice = strip raw in
           if choice = [] \<or> choice = ''?'' \<or> choice = ''list'' then menu_attempts m k st1 p (send_port_list m p s1)
           else if choice = ''quit'' \<or> choice = ''exit'' then (None, p, s1)
           else
             (case resolve_target (mn_status m) choice p of
                (Some n, p1) \<Rightarrow>
                  if n \<noteq> [] then (Some n, p1, s1)
                  else menu_attempts m k st1 p1 (say (encode_text (''Unknown port: '' @ choice @ CRLF)) s1)
              | (None, p1) \<Rightarrow>
                  menu_attempts m k st1 p1 (say (encode_text (''Unknown port: '' @ choice @ CRLF)) s1))))"

definition run_port_menu :: "menu_env \<Rightarrow> pm \<Rightarrow> login_state \<Rightarrow> string option \<times> pm \<times> login_state" where
  "run_port_menu m p s = menu_attempts m AUTH_PORT_MAX_ATTEMPTS StData p (send_port_list m p s)"

section \<open>A connection\<close>

record listener =
  ln_name :: string
  ln_target :: string
  ln_read_only :: bool
  ln_require_auth :: bool
  ln_acl :: "acl_entry list"

definition resolve_or_close :: "menu_env \<Rightarrow> string \<Rightarrow> string \<Rightarrow> pm \<Rightarrow> login_state \<Rightarrow>
     (string \<times> string) option \<times> pm \<times> login_state" where
  "resolve_or_close m username descriptor p s =
     (case resolve_target (mn_status m) descriptor p of
        (Some n, p1) \<Rightarrow>
          if n \<noteq> [] then (Some (username, n), p1, s)
          else (None, p1, say (encode_text (''Port '' @ descriptor @ '' unavailable'' @ CRLF)) s)
      | (None, p1) \<Rightarrow> (None, p1, say (encode_text (''Port '' @ descriptor @ '' unavailable'' @ CRLF)) s))"

definition choose_port :: "menu_env \<Rightarrow> listener \<Rightarrow> string \<Rightarrow> string option \<Rightarrow> pm \<Rightarrow> login_state \<Rightarrow>
     (string \<times> string) option \<times> pm \<times> login_state" where
  "choose_port m cfg username descriptor p s =
     (if ln_target cfg = ''*'' then
        (case descriptor of
           Some d \<Rightarrow>
             if d \<noteq> [] then resolve_or_close m username d p s
             else (case run_port_menu m p s of (n, p1, s1) \<Rightarrow> (map_option (\<lambda>x. (username, x)) n, p1, s1))
         | None \<Rightarrow> (case run_port_menu m p s of (n, p1, s1) \<Rightarrow> (map_option (\<lambda>x. (username, x)) n, p1, s1)))
      else resolve_or_close m username (ln_target cfg) p s)"

definition resolve_session_target :: "auth_env option \<Rightarrow> (nat \<Rightarrow> int) \<Rightarrow> menu_env \<Rightarrow> listener \<Rightarrow> string \<Rightarrow> pm \<Rightarrow>
     login_state \<Rightarrow> (string \<times> string) option \<times> pm \<times> login_state" where
  "resolve_session_target am clock m cfg peer p s =
     (if \<not> ln_require_auth cfg then choose_port m cfg (''telnet_'' @ ln_name cfg) None p s
      else
        (case am of
           None \<Rightarrow> (None, p, say (''Server misconfigured: authentication unavailable'' @ CRLF) s)
         | Some e \<Rightarrow>
             (case run_login e clock peer s of
                (None, s1) \<Rightarrow> (None, p, s1)
              | (Some (username, descriptor), s1) \<Rightarrow> choose_port m cfg username descriptor p s1)))"

text \<open>The connection as a whole; \<open>uuid\<close> makes the client id.\<close>

definition handle_connection :: "auth_env option \<Rightarrow> (nat \<Rightarrow> int) \<Rightarrow> ip_parsers \<Rightarrow> menu_env \<Rightarrow> 'd session_env \<Rightarrow>
     listener \<Rightarrow> string \<Rightarrow> string \<Rightarrow> 'd power_world \<Rightarrow> login_state \<Rightarrow> bytes \<times> 'd power_world \<times> auth_state" where
  "handle_connection am clock ps m se cfg uuid peer w s =
     (if \<not> ip_allowed ps peer (ln_acl cfg) then (lg_out s @ ''Access denied'' @ CRLF, w, lg_auth s)
      else
        (case resolve_session_target am clock m cfg peer (cm_pm (pw_cm w)) s of
           (r, p, s1) \<Rightarrow>
             (let c = (pw_cm w)\<lparr>cm_pm := p\<rparr> in
              case r of
                None \<Rightarrow> (lg_out s1, w\<lparr>pw_cm := c\<rparr>, lg_auth s1)
              | Some (username, n) \<Rightarrow>
                  (case attach (se_env se) ''telnet''
                          (create_session ''Telnet'' (ln_name cfg) (ln_read_only cfg) uuid n peer username) c of
                     (d, ls, c1) \<Rightarrow>
                       if \<not> d_ok d then (lg_out s1 @ encode_text (decision_text d), w\<lparr>pw_cm := c1\<rparr>, lg_auth s1)
                       else
                         (case serve se \<lparr>ss_world = w\<lparr>pw_cm := c1\<rparr>, ss_tp = lg_tp s1, ss_session = ls, ss_text = []\<rparr> of
                            (fin, t) \<Rightarrow> (lg_out s1 @ ss_text t, ss_world t, lg_auth s1))))))"

end
