(* ===== verification/LoginFacts.thy ===== *)
theory LoginFacts
  imports TelnetLogin
begin

text \<open>The login phase: what is typed is understood however it arrives, a locked identity stays out, and a
  listener refuses before it asks.\<close>

section \<open>Frames\<close>

lemma say_fields [simp]: "lg_tp (say d s) = lg_tp s" "lg_auth (say d s) = lg_auth s"
  by (simp_all add: say_def)

lemma read_line_auth: "read_line keep st s = (line, st1, s1) \<Longrightarrow> lg_auth s1 = lg_auth s"
  by (auto simp: read_line_def split: prod.splits)

lemma with_auth_split: "with_auth f s = (fst (f (lg_auth s)), s\<lparr>lg_auth := snd (f (lg_auth s))\<rparr>)"
  by (simp add: with_auth_def split: prod.split)

lemma external_fails: "am_fails (snd (external_authenticate e now u p st)) = am_fails st"
  by (auto simp: external_authenticate_def Let_def split: helper_answer.split option.split)

lemma authenticate_fails [simp]: "am_fails (snd (authenticate e now u p st)) = am_fails st"
  using external_fails[of e now u p st] by (auto simp: authenticate_def Let_def split: option.split prod.split)

text \<open>One identity's failure record is its own.\<close>

lemma locked_other [simp]:
  "v \<noteq> u \<Longrightarrow> dict_get (am_fails (snd (is_user_locked now v ip st))) (fail_key u ip) = dict_get (am_fails st) (fail_key u ip)"
  by (auto simp: is_user_locked_def fail_key_def Let_def split: option.split)

lemma register_other [simp]:
  "v \<noteq> u \<Longrightarrow> dict_get (am_fails (register_auth_failure now v ip st)) (fail_key u ip) = dict_get (am_fails st) (fail_key u ip)"
  by (auto simp: register_auth_failure_def fail_key_def Let_def)

section \<open>A locked identity stays out\<close>

definition locked_until :: "int \<Rightarrow> string \<Rightarrow> string \<Rightarrow> auth_state \<Rightarrow> bool" where
  "locked_until t u peer a \<longleftrightarrow> (\<exists>rec. dict_get (am_fails a) (fail_key u (Some peer)) = Some rec \<and> t < fr_until rec)"

lemma locked_asked: "locked_until t u peer a \<Longrightarrow> now \<le> t \<Longrightarrow> fst (is_user_locked now u (Some peer) a)"
  by (auto simp: locked_until_def is_user_locked_def Let_def)

lemma attempts_keep_out:
  "locked_until t u peer (lg_auth s) \<Longrightarrow> \<forall>i. clock i \<le> t \<Longrightarrow> login_attempts e clock peer k st s = (r, s1) \<Longrightarrow>
     map_option fst r \<noteq> Some u"
proof (induction k arbitrary: st s)
  case 0
  then show ?case by simp
next
  case (Suc k)
  obtain line st1 s1 where rd: "read_line False st (say ''login: '' s) = (line, st1, s1)" by (metis prod_cases3)
  have a1: "lg_auth s1 = lg_auth s" using read_line_auth[OF rd] by simp
  show ?case
  proof (cases line)
    case None
    then show ?thesis using Suc.prems(3) rd by simp
  next
    case (Some l)
    obtain v d where p: "parse_login l = (v, d)" by fastforce
    let ?lk = "is_user_locked (clock k) v (Some peer) (lg_auth s1)"
    show ?thesis
    proof (cases "v = [] \<or> v = u")
      case True
      then show ?thesis
        using Suc.IH[of s1 st1] Suc.prems rd Some p a1 locked_asked[OF Suc.prems(1), of "clock k"]
        by (cases "v = []") (auto simp: with_auth_split)
    next
      case False
      show ?thesis
      proof (cases "fst ?lk")
        case True
        then show ?thesis using Suc.prems(3) rd Some p False by (simp add: with_auth_split)
      next
        case unlocked: False
        let ?s2 = "s1\<lparr>lg_auth := snd ?lk\<rparr>"
        obtain password st3 s3 where pw: "read_line False st1 (say (IAC_WILL_ECHO @ ''Password: '') ?s2) = (password, st3, s3)"
          by (metis prod_cases3)
        have a3: "lg_auth s3 = snd ?lk" using read_line_auth[OF pw] by simp
        show ?thesis
        proof (cases password)
          case None
          then show ?thesis using Suc.prems(3) rd Some p False unlocked pw by (simp add: with_auth_split)
        next
          case password: (Some w)
          let ?au = "authenticate e (clock k) v w (snd ?lk)"
          show ?thesis
          proof (cases "fst ?au")
            case True
            then show ?thesis using Suc.prems(3) rd Some p False unlocked pw password a3 by (auto simp: with_auth_split)
          next
            case rejected: False
            let ?a = "register_auth_failure (clock k) v (Some peer) (snd ?au)"
            have "locked_until t u peer ?a" using Suc.prems(1) False a1 by (simp add: locked_until_def)
            then show ?thesis
              using Suc.IH[of "say LOGIN_INCORRECT ((say (IAC_WONT_ECHO @ CRLF) s3)\<lparr>lg_auth := ?a\<rparr>)" st3] Suc.prems(2,3)
                rd Some p False unlocked pw password a3 rejected
              by (simp add: with_auth_split)
          qed
        qed
      qed
    qed
  qed
qed


section \<open>A login as it is typed\<close>

lemma read_typed_line:
  assumes "plain_line l" "length l < AUTH_LINE_MAX_LEN" "tp_ok (lg_tp s)" "visible (lg_tp s) = l @ LINE_END @ rest"
    "IAC \<notin> set rest"
  shows "\<exists>tp. read_line keep StData s = (Some l, StData, s\<lparr>lg_tp := tp\<rparr>) \<and> tp_ok tp \<and> visible tp = rest"
  using crlf_line[OF assms, of keep] by (auto simp: read_line_def)

text \<open>A user who types name and password is let in exactly as the authentication manager decides, in
  whatever segments the lines arrive and whatever was read before; the name and the port given with
  it are those of the line, the failures of the identity are forgotten, and the bytes after the
  password are left to the menu or the session.\<close>

theorem typed_login:
  assumes "tp_ok (lg_tp s)" "visible (lg_tp s) = l @ LINE_END @ w @ LINE_END @ rest" "IAC \<notin> set rest"
    and "plain_line l" "plain_line w" "length l < AUTH_LINE_MAX_LEN" "length w < AUTH_LINE_MAX_LEN"
    and "parse_login l = (u, d)" "u \<noteq> []" "is_user_locked (clock 2) u (Some peer) (lg_auth s) = (False, a)"
    and "fst (authenticate e (clock 2) u w a)"
  shows "\<exists>s1. run_login e clock peer s = (Some (u, d), s1) \<and> visible (lg_tp s1) = rest
    \<and> dict_get (am_fails (lg_auth s1)) (fail_key u (Some peer)) = None"
proof -
  let ?s = "say ''login: '' s"
  have r1: "IAC \<notin> set (w @ LINE_END @ rest)" using plain_line_facts(3)[OF assms(5)] assms(3) by (simp add: LINE_END_def)
  obtain tp where t1: "read_line False StData ?s = (Some l, StData, ?s\<lparr>lg_tp := tp\<rparr>)" "tp_ok tp"
    "visible tp = w @ LINE_END @ rest"
    using read_typed_line[OF assms(4,6), of ?s "w @ LINE_END @ rest" False] assms(1,2) r1 by auto
  let ?s2 = "say (IAC_WILL_ECHO @ ''Password: '') (?s\<lparr>lg_tp := tp, lg_auth := a\<rparr>)"
  obtain tp2 where t2: "read_line False StData ?s2 = (Some w, StData, ?s2\<lparr>lg_tp := tp2\<rparr>)" "visible tp2 = rest"
    using read_typed_line[OF assms(5,7), of ?s2 rest False] t1(2,3) assms(3) by auto
  have three: "AUTH_LOGIN_MAX_ATTEMPTS = Suc (Suc (Suc 0))" "clock (Suc (Suc 0)) = clock 2"
    by (simp_all add: AUTH_LOGIN_MAX_ATTEMPTS_def numeral_2_eq_2 numeral_3_eq_3)
  show ?thesis
    using t1(1) t2 assms(8-11)
    by (simp add: run_login_def three with_auth_split clear_auth_failures_def)
qed

section \<open>Witnesses\<close>

definition at_prompt :: "auth_state \<Rightarrow> bytes list \<Rightarrow> login_state" where
  "at_prompt a segs = \<lparr>lg_tp = typed segs, lg_out = [], lg_auth = a\<rparr>"

definition locked_alice :: auth_state where
  "locked_alice = one_user\<lparr>am_fails := [((''alice'', ''10.0.0.9''), \<lparr>fr_failures = 5, fr_first = 0, fr_until = 34\<rparr>)]\<rparr>"


lemma alice_line_plain: "plain_line ''alice''" "plain_line ''x:y''"
  by (simp_all add: plain_line_def CR_def LF_def char_of_def bit_iff_odd)

theorem typed_login_witness:
  "map_option fst (fst (run_login plain_env (\<lambda>i. 5) ''10.0.0.9'' (at_prompt one_user [''al'', ''ice'' @ [CR], [LF] @ ''x:y'' @ [CR, LF] @ ''ls''])))
     = Some ''alice''"
proof -
  let ?s = "at_prompt one_user [''al'', ''ice'' @ [CR], [LF] @ ''x:y'' @ [CR, LF] @ ''ls'']"
  have "tp_ok (lg_tp ?s)" "visible (lg_tp ?s) = ''alice'' @ LINE_END @ ''x:y'' @ LINE_END @ ''ls''"
    by (simp_all add: at_prompt_def typed_def tp_ok_def visible_def remaining_def LINE_END_def)
  moreover have "IAC \<notin> set ''ls''" by (simp add: IAC_def char_of_def bit_iff_odd)
  moreover have "parse_login ''alice'' = (''alice'', None)" by code_simp
  moreover have "is_user_locked 5 ''alice'' (Some ''10.0.0.9'') (lg_auth ?s) = (False, one_user)"
    by (simp add: at_prompt_def is_user_locked_def one_user_def)
  moreover have "fst (authenticate plain_env 5 ''alice'' ''x:y'' one_user)"
    by (simp add: authenticate_def local_match_def verify_password_def plain_env_def one_user_def Let_def)
  ultimately have "\<exists>s1. run_login plain_env (\<lambda>i. 5) ''10.0.0.9'' ?s = (Some (''alice'', None), s1) \<and> visible (lg_tp s1) = ''ls''
      \<and> dict_get (am_fails (lg_auth s1)) (fail_key ''alice'' (Some ''10.0.0.9'')) = None"
    using typed_login[of ?s "''alice''" "''x:y''" "''ls''" "''alice''" None "\<lambda>i. 5" "''10.0.0.9''" one_user plain_env]
      alice_line_plain by (simp add: AUTH_LINE_MAX_LEN_def)
  then show ?thesis by auto
qed

text \<open>A login line can carry a user name with a colon: the plus sign is looked for first.\<close>

lemma colon_name_can_be_typed: "parse_login ''alice:x+con'' = (''alice:x'', Some ''con'')"
  by code_simp

end
