(* ===== verification/SessionCases.thy ===== *)
theory SessionCases
  imports SessionLife AuthLines
begin

text \<open>Sessions on a one-writer port, run from attach on: the witnesses of \<^verbatim>\<open>SessionLife.thy\<close> and
  \<^verbatim>\<open>SessionFacts.thy\<close>, and what a user of the \<open>f\<close> command meets.\<close>

definition line_env :: "dummy_driver session_env" where
  "line_env = \<lparr>se_env = race_env, se_dev = (\<lambda>n d. DevBool True), se_ops = dummy_ops, se_relay = None, se_version = ''1''\<rparr>"

definition alice_line :: lsession where
  "alice_line = \<lparr>ls_client = ''alice'', ls_listener = ''l'', ls_read_only = False, ls_port = ''p'', ls_host = ''10.0.0.1'',
     ls_user = ''alice'', ls_mode = ReadOnly, ls_escape = default_escape\<rparr>"

definition on_line :: "lsession \<Rightarrow> cm \<Rightarrow> bytes list \<Rightarrow> dummy_driver sstate" where
  "on_line ls c segs = \<lparr>ss_world = \<lparr>pw_cm = c, pw_adapter = None\<rparr>, ss_tp = typed segs, ss_session = ls, ss_text = []\<rparr>"

lemma line_race_mapped: "mapped_to race_start ''alice'' ''p''"
  by code_simp

text \<open>The session of \<open>alice\<close>, attached with the write slot.\<close>

definition alice_on :: "cm \<Rightarrow> bytes list \<Rightarrow> dummy_driver sstate" where
  "alice_on c segs = on_line (alice_line\<lparr>ls_mode := ReadWrite\<rparr>) c segs"

definition alice_attached :: "decision \<times> lsession \<times> cm" where
  "alice_attached = attach race_env ''telnet'' alice_line (empty_cm one_port)"

abbreviation alone :: cm where
  "alone \<equiv> snd (snd alice_attached)"

definition after :: "dummy_driver sstate \<Rightarrow> string \<times> amode \<times> amode option" where
  "after s = (case pump line_env s of (fin, t) \<Rightarrow>
     (session_written t, ls_mode (ss_session t), modes (ss_cm t) ''p'' ''alice''))"

text \<open>A writer who presses \<open>f\<close> and names somebody else is refused, and the refusal says read-only: the session
  shows read-only and drops what is typed, while the port still counts it as the writer.\<close>

lemma writer_locked_out:
  "after (alice_on alone [[char_of (5::nat)] @ ''cf'', ''bob'' @ [CR], ''x'']) = ([], ReadOnly, Some ReadWrite)"
  by code_simp

text \<open>The prompt of \<open>f\<close> reads the connection and not the rest of the chunk: an answer that arrived with the
  command goes to the port.\<close>

lemma early_answer_goes_to_the_port:
  "after (alice_on alone [[char_of (5::nat)] @ ''cfbob'' @ [CR] @ ''x'']) = (''bob'' @ [CR] @ ''x'', ReadWrite, Some ReadWrite)"
  by code_simp

section \<open>Witnesses\<close>

lemma typed_ok: "[] \<notin> set segs \<Longrightarrow> tp_ok (ss_tp (on_line ls c segs))"
  by (simp add: on_line_def typed_def tp_ok_def)


lemma alice_is_writer: "truthful race_start (alice_line\<lparr>ls_mode := m\<rparr>)"
  using race_start_ok race_modes(1) line_race_mapped by (simp add: truthful_def alice_line_def)

theorem typed_bytes_reach_the_port_witness:
  "session_written (snd (pump line_env (alice_on race_start [''hi'' @ [char_of (5::nat)], ''x'']))) = ''hi'' @ [char_of (5::nat)] @ ''x''"
proof -
  let ?s = "alice_on race_start [''hi'' @ [char_of (5::nat)], ''x'']"
  let ?is = "[Plain CHR ''h'', Plain CHR ''i'', Lone CHR ''x'']"
  have v: "visible (ss_tp ?s) = ''hi'' @ [char_of (5::nat)] @ ''x''" "session_written ?s = []" by code_simp+
  have "\<exists>t. pump line_env ?s = (EndOfInput, t) \<and> session_written t = session_written ?s @ visible (ss_tp ?s)"
  proof (rule typed_bytes_reach_the_port[where units = ?is and ?esc1.0 = "char_of (5::nat)" and ?esc2.0 = "CHR ''c''"])
    show "tp_ok (ss_tp ?s)" using typed_ok by (simp add: alice_on_def)
    show "truthful (ss_cm ?s) (ss_session ?s)" using alice_is_writer by (simp add: alice_on_def on_line_def)
    show "session_may_write (ss_session ?s)"
      by (simp add: alice_on_def on_line_def alice_line_def session_may_write_def)
    show "ls_escape (ss_session ?s) = escape_start (char_of (5::nat)) CHR ''c''"
      by (simp add: alice_on_def on_line_def alice_line_def default_escape_def escape_start_def)
    show "visible (ss_tp ?s) = concat (map (unit_wire (char_of (5::nat)) CHR ''c'') ?is)" using v(1) by simp
    show "\<forall>i \<in> set ?is. unit_ok (char_of (5::nat)) CHR ''c'' i \<and> (\<forall>c. i \<noteq> Command c)" by (simp add: char_of_def bit_iff_odd)
  qed
  then show ?thesis using v by auto
qed

lemma alice_attached_ok: "d_ok (fst alice_attached)"
  by code_simp

theorem shown_mode_is_held_witness:
  "let t = snd (pump line_env (on_line (fst (snd alice_attached)) (snd (snd alice_attached)) [[char_of (5::nat)] @ ''cs'']))
   in ls_mode (ss_session t) = ReadWrite \<longrightarrow> modes (ss_cm t) ''p'' ''alice'' = Some ReadWrite"
proof -
  let ?s = "on_line (fst (snd alice_attached)) (snd (snd alice_attached)) [[char_of (5::nat)] @ ''cs'']"
  have e: "se_env line_env = race_env" by (simp add: line_env_def)
  have a: "attach (se_env line_env) ''telnet'' alice_line (empty_cm one_port) = (fst alice_attached, fst (snd alice_attached), snd (snd alice_attached))"
    by (simp add: alice_attached_def e)
  show ?thesis
    using shown_mode_is_held[OF empty_cm_ok a alice_attached_ok, of ?s "fst (pump line_env ?s)" "snd (pump line_env ?s)"]
    by (simp add: Let_def on_line_def alice_line_def)
qed

end
