(* ===== verification/MuxHello.thy ===== *)
theory MuxHello
  imports MuxRestart PyFormat
begin

text \<open>
  The HELLO exchange of a link: the line an initiator sends
  (\<^verbatim>\<open>muxcon.py\<close>, \<open>_perform_client_handshake\<close>), its parser \<open>MuxConHandshake.parse\<close> of
  \<^verbatim>\<open>common/federation_types.py\<close>, the answer of \<^verbatim>\<open>muxcon_protocol.py\<close> and what the
  initiator reads from it.
\<close>

datatype client_type = HubClient | PortRegistration | RegularClient

primrec client_type_value :: "client_type \<Rightarrow> string" where
  "client_type_value HubClient = ''hub_client''"
| "client_type_value PortRegistration = ''port_registration''"
| "client_type_value RegularClient = ''regular_client''"

definition client_type_of :: "string \<Rightarrow> client_type option" where
  "client_type_of v = find (\<lambda>t. client_type_value t = v) [HubClient, PortRegistration, RegularClient]"

record hello =
  hl_version :: string
  hl_type :: client_type
  hl_caps :: "string list"
  hl_server :: "string option"
  hl_instance :: "string option"
  hl_pkid :: "string option"

definition or_none :: "string \<Rightarrow> string option" where
  "or_none s = (if s = [] then None else Some s)"

definition read_hello_part :: "string \<Rightarrow> hello \<Rightarrow> hello" where
  "read_hello_part part h =
     (if startswith ''TYPE='' part
      then h\<lparr>hl_type := (case client_type_of (drop 5 part) of Some t \<Rightarrow> t | None \<Rightarrow> RegularClient)\<rparr>
      else if startswith ''CAPS='' part
      then h\<lparr>hl_caps := (if drop 5 part = [] then [] else split_on (CHR '','') (drop 5 part))\<rparr>
      else if startswith ''ID='' part then h\<lparr>hl_server := or_none (drop 3 part)\<rparr>
      else if startswith ''INST='' part then h\<lparr>hl_instance := or_none (drop 5 part)\<rparr>
      else if startswith ''PKID='' part then h\<lparr>hl_pkid := or_none (drop 5 part)\<rparr>
      else h)"

definition parse_handshake :: "string \<Rightarrow> hello option" where
  "parse_handshake line =
     (case py_split (strip line) of
        w # version # parts \<Rightarrow>
          if w \<noteq> ''HELLO'' then None
          else Some (fold read_hello_part parts
            \<lparr>hl_version = version, hl_type = RegularClient, hl_caps = [], hl_server = None, hl_instance = None,
             hl_pkid = None\<rparr>)
      | _ \<Rightarrow> None)"

text \<open>\<open>pkid\<close> is the key id of an initiator that has a private key.\<close>

definition client_hello :: "string \<Rightarrow> string \<Rightarrow> string option \<Rightarrow> string" where
  "client_hello server_id instance_id pkid =
     ''HELLO MuxCon/1.0 TYPE='' @ client_type_value RegularClient @ '' ID='' @ server_id @ '' INST='' @ instance_id
     @ (case pkid of None \<Rightarrow> [] | Some k \<Rightarrow> if k = [] then [] else '' PKID='' @ k)"

definition create_handshake_response :: "string list \<Rightarrow> string option \<Rightarrow> string option \<Rightarrow> string" where
  "create_handshake_response capabilities server_id instance_id =
     (let opt = (\<lambda>k v. case v of None \<Rightarrow> [] | Some s \<Rightarrow> if s = [] then [] else [k @ s]) in
      join '' '' ([''OK'', ''MuxCon/1.0'']
        @ (if capabilities \<noteq> [] then [''CAPS='' @ join '','' capabilities] else [])
        @ opt ''ID='' server_id @ opt ''INST='' instance_id))"

definition read_ok_part :: "string \<Rightarrow> string option \<times> string option \<Rightarrow> string option \<times> string option" where
  "read_ok_part part st =
     (if startswith ''ID='' part then (Some (drop 3 part), snd st)
      else if startswith ''INST='' part then (fst st, Some (drop 5 part))
      else st)"

text \<open>The server id and the instance id of the answer; any other line is an error.\<close>

definition parse_ok :: "string \<Rightarrow> (string option \<times> string option) option" where
  "parse_ok raw =
     (let line = strip raw in
      if startswith ''OK '' line then Some (fold read_ok_part (drop 2 (py_split line)) (None, None)) else None)"

section \<open>The exchange\<close>

definition is_word :: "string \<Rightarrow> bool" where
  "is_word w \<longleftrightarrow> w \<noteq> [] \<and> (\<forall>c \<in> set w. \<not> isspace c)"

lemma split_words: "list_all is_word ws \<Longrightarrow> py_split (join '' '' ws) = ws"
  by (rule words_join) (simp add: is_word_def list_all_iff)

lemma is_word_append [simp]: "is_word (v @ w) \<longleftrightarrow> (v @ w \<noteq> [] \<and> (\<forall>c \<in> set v \<union> set w. \<not> isspace c))"
  by (auto simp: is_word_def)

lemma last_join: "ws \<noteq> [] \<Longrightarrow> list_all is_word ws \<Longrightarrow> last (join '' '' ws) = last (last ws) \<and> join '' '' ws \<noteq> []"
  by (induction "'' ''" ws rule: join.induct) (auto simp: is_word_def)

lemma hd_join: "ws \<noteq> [] \<Longrightarrow> list_all is_word ws \<Longrightarrow> hd (join '' '' ws) = hd (hd ws)"
  by (cases ws rule: list.exhaust; cases "tl ws") (auto simp: is_word_def)

lemma strip_words:
  assumes "ws \<noteq> []" "list_all is_word ws"
  shows "strip (join '' '' ws) = join '' '' ws"
proof (rule strip_edges)
  note L = last_join[OF assms] and H = hd_join[OF assms]
  have e: "is_word (hd ws)" "is_word (last ws)" using assms by (simp_all add: list_all_iff)
  show "join '' '' ws \<noteq> []" using L by simp
  show "\<not> isspace (hd (join '' '' ws))" using H e(1) by (simp add: is_word_def)
  show "\<not> isspace (last (join '' '' ws))" using L e(2) by (simp add: is_word_def)
qed

text \<open>The lines as words.\<close>

lemma client_hello_words:
  "client_hello sid inst pk = join '' '' ([''HELLO'', ''MuxCon/1.0'', ''TYPE=regular_client'', ''ID='' @ sid, ''INST='' @ inst]
     @ (case pk of None \<Rightarrow> [] | Some k \<Rightarrow> if k = [] then [] else [''PKID='' @ k]))"
  by (auto simp: client_hello_def split: option.splits)

lemma hello_read:
  assumes "is_word sid" "is_word inst" "\<forall>k. pk = Some k \<longrightarrow> is_word k"
  shows "parse_handshake (client_hello sid inst pk) =
    Some \<lparr>hl_version = ''MuxCon/1.0'', hl_type = RegularClient, hl_caps = [], hl_server = Some sid,
      hl_instance = Some inst, hl_pkid = pk\<rparr>"
proof -
  let ?ws = "[''HELLO'', ''MuxCon/1.0'', ''TYPE=regular_client'', ''ID='' @ sid, ''INST='' @ inst]
     @ (case pk of None \<Rightarrow> [] | Some k \<Rightarrow> if k = [] then [] else [''PKID='' @ k])"
  have "list_all is_word ?ws"
    using assms by (auto simp: is_word_def isspace_def split: option.splits)
  then have "py_split (strip (client_hello sid inst pk)) = ?ws"
    unfolding client_hello_words by (simp add: strip_words split_words del: append.simps)
  then show ?thesis
    using assms by (auto simp: parse_handshake_def read_hello_part_def startswith_def client_type_of_def or_none_def
      is_word_def split: option.splits)
qed

lemma capability_words:
  assumes "c \<in> set (validate_capabilities cs)" shows "is_word c"
  using assms by (auto simp: validate_capabilities_def is_word_def isspace_def)

lemma join_chars: "x \<in> set (join sep ws) \<Longrightarrow> x \<in> set sep \<or> (\<exists>w \<in> set ws. x \<in> set w)"
  by (induction sep ws rule: join.induct) auto


end
