(* ===== verification/MuxPaths.thy ===== *)
theory MuxPaths
  imports MuxHello
begin

text \<open>
  The links of a server and the paths they make: the connection records, the multipath groups and
  the choice of a path in \<^verbatim>\<open>openmux/server/adapters/muxcon.py\<close> (\<open>_derive_peer_key_from_conn_id\<close> to
  \<open>_send_data_mpath\<close>).  A clock reading is an integer.  A frame written to a link is appended to
  \<open>mx_sent\<close>; a close that the code schedules as a task is put on \<open>mx_closing\<close>.  The tables that
  only serve the status page and the log lines are left out.
\<close>

section \<open>State\<close>

record challenge =
  ch_key :: string
  ch_nonce :: bytes
  ch_expires :: int

text \<open>A connection record.  The handshake of an initiator is a dictionary without identity: \<open>None\<close>.\<close>

record peer_conn =
  pc_client :: bool
  pc_writer :: bool
  pc_hello :: "hello option"
  pc_server :: "string option"
  pc_instance :: "string option"
  pc_opened :: int
  pc_seen :: int
  pc_auth_ok :: bool
  pc_challenge :: "challenge option"
  pc_pref :: "int option"
  pc_advertised :: bool

record path =
  pt_opened :: int
  pt_pref :: int
  pt_seen :: int
  pt_rx :: int

record mgroup =
  gr_conns :: "(string, path) pydict"
  gr_primary :: "string option"
  gr_changed :: "int option"

record beat =
  bt_req :: int
  bt_ack :: int
  bt_missed :: nat
  bt_rtt :: "int option"

text \<open>The options of the adapter; \<open>mc_peers\<close> are host, port and preference of the initiators.\<close>

record mux_cfg =
  mc_server :: string
  mc_instance :: string
  mc_peers :: "(string \<times> int \<times> int) list"
  mc_stale :: int
  mc_check :: int
  mc_best_pref :: bool
  mc_preempt :: bool
  mc_idle_drop :: int
  mc_heartbeat :: int
  mc_gap_stuck :: int
  mc_auth_required :: bool
  mc_pubkeys :: "(string, string) pydict"
  mc_key_id :: "string option"
  mc_priv :: "string option"

text \<open>What the frames of a link ask of the parts above: a payload for the handlers of ports, viewers, power
  and write slots, a stream to open or to close, a data frame in its order.\<close>

datatype mux_event =
    PayloadFor string string
  | StreamOpened string int string
  | StreamClosed string int
  | Routed string data_frame

record mux =
  mx_links :: "(string, peer_conn) pydict"
  mx_groups :: "(string, mgroup) pydict"
  mx_beats :: "(string, beat) pydict"
  mx_frozen :: "string list"
  mx_dropping :: "string list"
  mx_wire :: "(string, int) pydict"
  mx_next_seq :: int
  mx_tx :: "(string, tx_state) pydict"
  mx_rx :: "(string, rx_state) pydict"
  mx_retx :: "(string, int) pydict"
  mx_stream_id :: "(string, int) pydict"
  mx_sent :: "(string \<times> bytes) list"
  mx_closing :: "string list"
  mx_shut :: "string list"
  mx_conn_key :: "(string, string) pydict"
  mx_events :: "mux_event list"

definition put_group :: "string \<Rightarrow> mgroup \<Rightarrow> mux \<Rightarrow> mux" where
  "put_group key g s = s\<lparr>mx_groups := dict_set key g (mx_groups s)\<rparr>"

definition put_link :: "string \<Rightarrow> peer_conn \<Rightarrow> mux \<Rightarrow> mux" where
  "put_link cid l s = s\<lparr>mx_links := dict_set cid l (mx_links s)\<rparr>"

definition mux_write :: "string \<Rightarrow> bytes \<Rightarrow> mux \<Rightarrow> mux" where
  "mux_write cid frame s = s\<lparr>mx_sent := mx_sent s @ [(cid, frame)]\<rparr>"

definition next_frame_seq :: "string \<Rightarrow> mux \<Rightarrow> int \<times> mux" where
  "next_frame_seq cid s =
     (let bump = (\<lambda>q. if q + 1 \<ge> 2 ^ 63 then 1 else q + 1) in
      case dict_get (mx_wire s) cid of
        Some q \<Rightarrow> (q, s\<lparr>mx_wire := dict_set cid (bump q) (mx_wire s)\<rparr>)
      | None \<Rightarrow> (mx_next_seq s, s\<lparr>mx_next_seq := bump (mx_next_seq s)\<rparr>))"

section \<open>Peer keys\<close>

definition link_server_id :: "peer_conn \<Rightarrow> string option" where
  "link_server_id l =
     (case (case pc_hello l of None \<Rightarrow> None | Some h \<Rightarrow> hl_server h) of
        Some i \<Rightarrow> if i \<noteq> [] then Some i else (case pc_server l of Some j \<Rightarrow> or_none j | None \<Rightarrow> None)
      | None \<Rightarrow> (case pc_server l of Some j \<Rightarrow> or_none j | None \<Rightarrow> None))"

definition address_key :: "string \<Rightarrow> string" where
  "address_key cid =
     (case split_on (CHR '':'') cid of
        direction # host # port # _ # _ \<Rightarrow> if direction = ''out'' then host @ '':'' @ port else ''host:'' @ host
      | _ \<Rightarrow> ''unknown:0'')"

definition peer_key_of :: "string \<Rightarrow> peer_conn option \<Rightarrow> string" where
  "peer_key_of cid l =
     (case (case l of None \<Rightarrow> None | Some x \<Rightarrow> link_server_id x) of
        Some i \<Rightarrow> ''node:'' @ i
      | None \<Rightarrow> address_key cid)"

definition derive_peer_key :: "mux \<Rightarrow> string \<Rightarrow> string" where
  "derive_peer_key s cid = peer_key_of cid (dict_get (mx_links s) cid)"

definition mpath_derive_pref :: "mux_cfg \<Rightarrow> string \<Rightarrow> mux \<Rightarrow> int" where
  "mpath_derive_pref cfg cid s =
     (if startswith ''out:'' cid then
        (case split_on (CHR '':'') cid of
           _ # host # port # _ # _ \<Rightarrow>
             (case py_int port of
                None \<Rightarrow> 0
              | Some p \<Rightarrow>
                  (case find (\<lambda>(h, q, pref). h = host \<and> q = p) (mc_peers cfg) of
                     None \<Rightarrow> 0 | Some (_, _, pref) \<Rightarrow> pref))
         | _ \<Rightarrow> 0)
      else if startswith ''in:'' cid then
        (case dict_get (mx_links s) cid of
           None \<Rightarrow> 0 | Some l \<Rightarrow> (case pc_pref l of None \<Rightarrow> 0 | Some p \<Rightarrow> p))
      else 0)"

section \<open>Groups\<close>

definition new_group :: mgroup where
  "new_group = \<lparr>gr_conns = [], gr_primary = None, gr_changed = None\<rparr>"

definition group_at :: "string \<Rightarrow> mux \<Rightarrow> mgroup" where
  "group_at key s = (case dict_get (mx_groups s) key of None \<Rightarrow> new_group | Some g \<Rightarrow> g)"

definition pref_in :: "mgroup \<Rightarrow> string \<Rightarrow> int" where
  "pref_in g cid = (case dict_get (gr_conns g) cid of None \<Rightarrow> 0 | Some m \<Rightarrow> pt_pref m)"

definition apply_promotion :: "mux_cfg \<Rightarrow> string \<Rightarrow> mgroup \<Rightarrow> mgroup" where
  "apply_promotion cfg cid g =
     (case gr_primary g of
        None \<Rightarrow> g
      | Some current \<Rightarrow>
          if mc_preempt cfg \<and> current \<noteq> cid \<and> pref_in g current < pref_in g cid
          then g\<lparr>gr_primary := Some cid\<rparr> else g)"

definition register_path :: "mux_cfg \<Rightarrow> int \<Rightarrow> string \<Rightarrow> mux \<Rightarrow> mux" where
  "register_path cfg now cid s =
     (let key = derive_peer_key s cid;
          g = group_at key s;
          m = \<lparr>pt_opened = (case dict_get (mx_links s) cid of None \<Rightarrow> 0 | Some l \<Rightarrow> pc_opened l),
               pt_pref = mpath_derive_pref cfg cid s, pt_seen = now, pt_rx = now\<rparr>;
          g1 = g\<lparr>gr_conns := dict_set cid m (gr_conns g)\<rparr>
      in put_group key
           (if gr_primary g1 = None then g1\<lparr>gr_primary := Some cid\<rparr> else apply_promotion cfg cid g1) s)"

definition first_key :: "(string \<times> 'a) list \<Rightarrow> string option" where
  "first_key xs = (case xs of [] \<Rightarrow> None | (k, _) # _ \<Rightarrow> Some k)"

definition drop_path :: "string \<Rightarrow> mgroup \<Rightarrow> mgroup" where
  "drop_path cid g =
     (let cs = dict_del cid (gr_conns g) in
      g\<lparr>gr_conns := cs, gr_primary := (if gr_primary g = Some cid then first_key cs else gr_primary g)\<rparr>)"

definition store_group :: "string \<Rightarrow> mgroup \<Rightarrow> mux \<Rightarrow> mux" where
  "store_group key g s =
     (if gr_conns g = [] then s\<lparr>mx_groups := dict_del key (mx_groups s)\<rparr> else put_group key g s)"

definition unregister_path :: "string \<Rightarrow> mux \<Rightarrow> mux" where
  "unregister_path cid s =
     (let key = derive_peer_key s cid in
      case dict_get (mx_groups s) key of
        None \<Rightarrow> s
      | Some g \<Rightarrow> store_group key (drop_path cid g) s)"

subsection \<open>Moving a connection to another key\<close>

definition dict_merge :: "('k, 'v) pydict \<Rightarrow> ('k, 'v) pydict \<Rightarrow> ('k, 'v) pydict" where
  "dict_merge d extra = fold (\<lambda>(k, v). dict_set k v) extra d"

definition peer_tx :: "string \<Rightarrow> mux \<Rightarrow> tx_state" where
  "peer_tx key s = (case dict_get (mx_tx s) key of None \<Rightarrow> \<lparr>tx_seq = 1, tx_sendbuf = []\<rparr> | Some t \<Rightarrow> t)"

definition merge_count :: "(int \<Rightarrow> int \<Rightarrow> int) \<Rightarrow> string \<Rightarrow> string \<Rightarrow> (string, int) pydict \<Rightarrow> (string, int) pydict" where
  "merge_count f old new d =
     (case dict_get d old of
        None \<Rightarrow> d
      | Some x \<Rightarrow>
          (let d1 = dict_del old d in
           dict_set new (f x (case dict_get d1 new of None \<Rightarrow> 0 | Some y \<Rightarrow> y)) d1))"

definition rekey_migrate_peer_state :: "string \<Rightarrow> string \<Rightarrow> mux \<Rightarrow> mux" where
  "rekey_migrate_peer_state old new s =
     (let s1 = (case dict_get (mx_tx s) old of
                  None \<Rightarrow> s
                | Some t \<Rightarrow>
                    (let t2 = peer_tx new s in
                     s\<lparr>mx_tx := dict_set new
                         \<lparr>tx_seq = max (tx_seq t) (tx_seq t2), tx_sendbuf = dict_merge (tx_sendbuf t2) (tx_sendbuf t)\<rparr>
                         (dict_del old (mx_tx s))\<rparr>));
          s2 = (case dict_get (mx_rx s1) old of
                  None \<Rightarrow> s1
                | Some r \<Rightarrow>
                    (let d = dict_del old (mx_rx s1) in
                     s1\<lparr>mx_rx := (if dict_has d new then d else dict_set new r d)\<rparr>))
      in s2\<lparr>mx_retx := merge_count (+) old new (mx_retx s2), mx_stream_id := merge_count max old new (mx_stream_id s2)\<rparr>)"

definition rekey_find_current_key :: "string \<Rightarrow> mux \<Rightarrow> string option" where
  "rekey_find_current_key cid s = map_option fst (find (\<lambda>(k, g). dict_has (gr_conns g) cid) (mx_groups s))"

definition rekey_path :: "string \<Rightarrow> mux \<Rightarrow> mux" where
  "rekey_path cid s =
     (let new = derive_peer_key s cid in
      case rekey_find_current_key cid s of
        None \<Rightarrow> s
      | Some old \<Rightarrow>
          if old = new then s
          else
            (let g = group_at old s in
             case dict_get (gr_conns g) cid of
               None \<Rightarrow> s
             | Some m \<Rightarrow>
                 (let g1 = drop_path cid g;
                      s1 = store_group old g1 s;
                      s2 = (if gr_conns g1 = [] then rekey_migrate_peer_state old new s1 else s1);
                      ng = group_at new s2;
                      ng1 = ng\<lparr>gr_conns := dict_set cid m (gr_conns ng),
                               gr_primary := (if gr_primary ng = None then Some cid else gr_primary ng)\<rparr>
                  in put_group new ng1 s2)))"

subsection \<open>Older generations\<close>

definition has_text :: "string option \<Rightarrow> bool" where
  "has_text x \<longleftrightarrow> (case x of None \<Rightarrow> False | Some s \<Rightarrow> s \<noteq> [])"

fun retire_scan :: "string \<Rightarrow> peer_conn \<Rightarrow> string list \<Rightarrow> (string \<times> peer_conn) list \<Rightarrow> string list" where
  "retire_scan cid current closing [] = closing"
| "retire_scan cid current closing ((c, l) # ls) =
     (if c \<noteq> cid \<and> pc_server l = pc_server current \<and> has_text (pc_instance l) \<and> pc_instance l \<noteq> pc_instance current
      then (if pc_opened current \<ge> pc_opened l then retire_scan cid current (closing @ [c]) ls else [cid])
      else retire_scan cid current closing ls)"

definition retire_old_generation :: "string \<Rightarrow> mux \<Rightarrow> mux" where
  "retire_old_generation cid s =
     (case dict_get (mx_links s) cid of
        None \<Rightarrow> s
      | Some current \<Rightarrow>
          if has_text (pc_server current) \<and> has_text (pc_instance current)
          then s\<lparr>mx_closing := mx_closing s @ retire_scan cid current [] (mx_links s)\<rparr> else s)"

section \<open>The choice of a path\<close>

definition path_stale :: "mux_cfg \<Rightarrow> mux \<Rightarrow> int \<Rightarrow> string \<times> path \<Rightarrow> bool" where
  "path_stale cfg s now e \<longleftrightarrow>
     (mc_stale cfg > 0 \<and> pt_rx (snd e) < now - mc_stale cfg) \<or> fst e \<in> set (mx_frozen s)"

definition path_ge :: "string \<times> path \<Rightarrow> string \<times> path \<Rightarrow> bool" where
  "path_ge a b \<longleftrightarrow> pt_pref (snd a) > pt_pref (snd b)
     \<or> (pt_pref (snd a) = pt_pref (snd b) \<and> pt_opened (snd a) \<ge> pt_opened (snd b))"

text \<open>The first of the list sorted by preference and opening time, descending.\<close>

definition best_path :: "(string \<times> path) list \<Rightarrow> string option" where
  "best_path ps = first_key (sort_with path_ge ps)"

definition promote_primary :: "mux_cfg \<Rightarrow> mux \<Rightarrow> int \<Rightarrow> mgroup \<Rightarrow> string option" where
  "promote_primary cfg s now g =
     (let live = filter (\<lambda>e. \<not> path_stale cfg s now e) (gr_conns g) in
      best_path (if live = [] then gr_conns g else live))"

definition current_primary :: "mux_cfg \<Rightarrow> mux \<Rightarrow> int \<Rightarrow> mgroup \<Rightarrow> (string \<times> path) option" where
  "current_primary cfg s now g =
     (case gr_primary g of
        None \<Rightarrow> None
      | Some c \<Rightarrow>
          (case dict_get (gr_conns g) c of
             None \<Rightarrow> None | Some m \<Rightarrow> if path_stale cfg s now (c, m) then None else Some (c, m)))"

definition try_preempt :: "mux_cfg \<Rightarrow> mux \<Rightarrow> int \<Rightarrow> mgroup \<Rightarrow> path \<Rightarrow> string option" where
  "try_preempt cfg s now g m =
     best_path (filter (\<lambda>e. \<not> path_stale cfg s now e \<and> pt_pref (snd e) > pt_pref m) (gr_conns g))"

definition select_path :: "mux_cfg \<Rightarrow> int \<Rightarrow> string \<Rightarrow> mux \<Rightarrow> string option \<times> mux" where
  "select_path cfg now key s =
     (case dict_get (mx_groups s) key of
        None \<Rightarrow> (None, s)
      | Some g \<Rightarrow>
          (case current_primary cfg s now g of
             None \<Rightarrow> (let p = promote_primary cfg s now g in (p, put_group key (g\<lparr>gr_primary := p\<rparr>) s))
           | Some (c, m) \<Rightarrow>
               if mc_preempt cfg \<and> mc_best_pref cfg then
                 (case try_preempt cfg s now g m of
                    None \<Rightarrow> (Some c, s)
                  | Some i \<Rightarrow> (Some i, put_group key (g\<lparr>gr_primary := Some i\<rparr>) s))
               else (Some c, s)))"

section \<open>Sending to a peer\<close>

text \<open>The selected path, when its connection is still there with a writer.\<close>

definition select_writer :: "mux_cfg \<Rightarrow> int \<Rightarrow> string \<Rightarrow> mux \<Rightarrow> string option \<times> mux" where
  "select_writer cfg now key s =
     (case select_path cfg now key s of
        (None, s1) \<Rightarrow> (None, s1)
      | (Some c, s1) \<Rightarrow>
          (case dict_get (mx_links s1) c of
             None \<Rightarrow> (None, s1) | Some l \<Rightarrow> (if pc_writer l then Some c else None, s1)))"

definition send_sequenced :: "mux_cfg \<Rightarrow> int \<Rightarrow> string \<Rightarrow> (int \<Rightarrow> bytes) \<Rightarrow> mux \<Rightarrow> bool \<times> mux" where
  "send_sequenced cfg now key frame s =
     (case select_writer cfg now key s of
        (None, s1) \<Rightarrow> (False, s1)
      | (Some c, s1) \<Rightarrow> (case next_frame_seq c s1 of (q, s2) \<Rightarrow> (True, mux_write c (frame q) s2)))"

definition send_control_mpath :: "mux_cfg \<Rightarrow> int \<Rightarrow> string \<Rightarrow> string \<Rightarrow> mux \<Rightarrow> bool \<times> mux" where
  "send_control_mpath cfg now key payload s =
     send_sequenced cfg now key (\<lambda>q. create_control_frame 0 q payload) s"

definition send_stream_open_mpath :: "mux_cfg \<Rightarrow> int \<Rightarrow> string \<Rightarrow> int \<Rightarrow> string \<Rightarrow> mux \<Rightarrow> bool \<times> mux" where
  "send_stream_open_mpath cfg now key sid port_name s =
     send_sequenced cfg now key (\<lambda>q. create_stream_open_frame sid q port_name) s"

definition send_stream_close_mpath :: "mux_cfg \<Rightarrow> int \<Rightarrow> string \<Rightarrow> int \<Rightarrow> string \<Rightarrow> mux \<Rightarrow> bool \<times> mux" where
  "send_stream_close_mpath cfg now key sid reason s =
     send_sequenced cfg now key
       (\<lambda>q. create_stream_close_frame sid q (if reason = [] then ''client_disconnect'' else reason)) s"

text \<open>Data is numbered per peer and kept until it is acknowledged (\<open>send_data_mpath\<close>).\<close>

definition mux_send_data :: "mux_cfg \<Rightarrow> int \<Rightarrow> string \<Rightarrow> int \<Rightarrow> bytes \<Rightarrow> mux \<Rightarrow> bool \<times> mux" where
  "mux_send_data cfg now key sid data s =
     (case select_writer cfg now key s of
        (path, s1) \<Rightarrow>
          (case send_data_mpath path now sid data (peer_tx key s1) of
             (None, tx) \<Rightarrow> (False, s1)
           | (Some (q, sid1, d), tx) \<Rightarrow>
               (True, mux_write (the path) (create_data_frame sid1 q d) (s1\<lparr>mx_tx := dict_set key tx (mx_tx s1)\<rparr>))))"

end
