(* ===== verification/Base64.thy ===== *)
theory Base64
  imports Utf8
begin

text \<open>
  \<open>base64.b64encode\<close> and \<open>base64.b64decode\<close> of the Python library (RFC 4648).  The decoder skips
  characters outside the alphabet, stops at the padding that completes a quantum and refuses text
  with an incomplete one; a \<open>str\<close> has to be ASCII.
\<close>

definition sextet_char :: "nat \<Rightarrow> char" where
  "sextet_char n =
     (if n < 26 then char_of (65 + n) else if n < 52 then char_of (71 + n) else if n < 62 then char_of (n - 4)
      else if n = 62 then CHR ''+'' else CHR ''/'')"

definition char_sextet :: "char \<Rightarrow> nat option" where
  "char_sextet c =
     (let n = code c in
      if 65 \<le> n \<and> n \<le> 90 then Some (n - 65) else if 97 \<le> n \<and> n \<le> 122 then Some (n - 71)
      else if 48 \<le> n \<and> n \<le> 57 then Some (n + 4) else if c = CHR ''+'' then Some 62
      else if c = CHR ''/'' then Some 63 else None)"

fun b64encode :: "bytes \<Rightarrow> string" where
  "b64encode [] = []"
| "b64encode [a] = (let x = code a in [sextet_char (x div 4), sextet_char (x mod 4 * 16), CHR ''='', CHR ''=''])"
| "b64encode [a, b] =
     (let x = code a; y = code b in
      [sextet_char (x div 4), sextet_char (x mod 4 * 16 + y div 16), sextet_char (y mod 16 * 4), CHR ''=''])"
| "b64encode (a # b # c # rest) =
     (let x = code a; y = code b; z = code c in
      [sextet_char (x div 4), sextet_char (x mod 4 * 16 + y div 16), sextet_char (y mod 16 * 4 + z div 64),
       sextet_char (z mod 64)] @ b64encode rest)"

text \<open>The bytes that the sextets of an unfinished quantum have completed.\<close>

fun quantum :: "nat list \<Rightarrow> bytes" where
  "quantum [p, q] = [char_of (p * 4 + q div 16)]"
| "quantum [p, q, r] = [char_of (p * 4 + q div 16), char_of (q mod 16 * 16 + r div 4)]"
| "quantum [p, q, r, s] =
     [char_of (p * 4 + q div 16), char_of (q mod 16 * 16 + r div 4), char_of (r mod 4 * 64 + s)]"
| "quantum _ = []"

text \<open>\<open>acc\<close> is the current quantum, \<open>pads\<close> the padding seen since its last sextet.\<close>

fun b64_run :: "nat list \<Rightarrow> nat \<Rightarrow> string \<Rightarrow> bytes option" where
  "b64_run acc pads [] = (if acc = [] then Some [] else None)"
| "b64_run acc pads (c # cs) =
     (if c = CHR ''='' then
        (if 2 \<le> length acc then
           (if 4 \<le> length acc + Suc pads then Some (quantum acc) else b64_run acc (Suc pads) cs)
         else b64_run acc pads cs)
      else
        (case char_sextet c of
           None \<Rightarrow> b64_run acc pads cs
         | Some v \<Rightarrow>
             if length acc = 3 then map_option (\<lambda>out. quantum (acc @ [v]) @ out) (b64_run [] 0 cs)
             else b64_run (acc @ [v]) 0 cs))"

definition b64decode :: "string \<Rightarrow> bytes option" where
  "b64decode s = (if \<exists>c \<in> set s. code c \<ge> 128 then None else b64_run [] 0 s)"

section \<open>Round trip\<close>

lemma char_sextet_char [simp]:
  assumes "n < 64" shows "char_sextet (sextet_char n) = Some n"
proof -
  have b: "k < 256 \<Longrightarrow> code (char_of k) = k" for k :: nat by simp
  consider "n < 26" | "26 \<le> n" "n < 52" | "52 \<le> n" "n < 62" | "n = 62" | "n = 63" using assms by linarith
  then show ?thesis
    by cases (auto simp: sextet_char_def char_sextet_def Let_def b)
qed

lemma sextet_not_pad [simp]: "sextet_char n \<noteq> CHR ''=''"
proof
  assume "sextet_char n = CHR ''=''"
  then have "code (sextet_char n) = 61" by simp
  moreover have "k < 256 \<Longrightarrow> code (char_of k) = k" for k :: nat by simp
  ultimately show False by (auto simp: sextet_char_def split: if_splits)
qed

lemma sextet_ascii: "code (sextet_char n) < 128"
proof -
  have "k < 256 \<Longrightarrow> code (char_of k) = k" for k :: nat by simp
  then show ?thesis by (auto simp: sextet_char_def)
qed

lemma encode_ascii_chars: "c \<in> set (b64encode bs) \<Longrightarrow> code c < 128"
  by (induction bs rule: b64encode.induct) (auto simp: Let_def sextet_ascii)

lemma byte_bound: "code (c::char) < 256"
  using of_char_mod_256[of c, where 'a = nat] by (metis mod_less_divisor zero_less_numeral)

lemma byte_split: "char_of (code c div 4 * 4 + code c mod 4) = c"
  by simp

lemma pack_nibble: "k < 16 \<Longrightarrow> (m * 16 + k) div 16 = m \<and> (m * 16 + k) mod 16 = k" for m k :: nat
  by simp

lemma pack_pair: "k < 4 \<Longrightarrow> (m * 4 + k) div 4 = m \<and> (m * 4 + k) mod 4 = k" for m k :: nat
  by simp

lemma byte_parts: "code c div 4 < 64" "code c div 16 < 16" "code c div 64 < 4"
  using byte_bound[of c] by (simp_all add: div_less_iff_less_mult)

lemma pack_bounds: "k < 16 \<Longrightarrow> m < 4 \<Longrightarrow> m * 16 + k < 64" "k < 4 \<Longrightarrow> m < 16 \<Longrightarrow> m * 4 + k < 64" for m k :: nat
  by simp_all

lemma b64_run_encode: "b64_run [] 0 (b64encode bs) = Some bs"
proof (induction bs rule: b64encode.induct)
  case (2 a)
  show ?case using byte_parts(1)[of a] by (simp add: Let_def)
next
  case (3 a b)
  have k: "code b div 16 < 16" "code a div 4 < 64" by (rule byte_parts)+
  have "code a mod 4 * 16 + code b div 16 < 64" "code b mod 16 * 4 < 64" using k by auto
  then show ?case using k pack_nibble[OF k(1), of "code a mod 4"] by (simp add: Let_def)
next
  case (4 a b c rest)
  have k: "code b div 16 < 16" "code a div 4 < 64" "code c div 64 < 4"
    by (rule byte_parts)+
  have "code a mod 4 * 16 + code b div 16 < 64" "code b mod 16 * 4 + code c div 64 < 64"
    by (rule pack_bounds; use k in simp)+
  then show ?case
    using k pack_nibble[OF k(1), of "code a mod 4"] pack_pair[OF k(3), of "code b mod 16"] 4 by (simp add: Let_def)
qed simp

lemma b64_roundtrip [simp]: "b64decode (b64encode bs) = Some bs"
  using encode_ascii_chars[of _ bs] b64_run_encode[of bs] by (auto simp: b64decode_def not_le)

end
