(* ===== verification/MuxLinks.thy ===== *)
theory MuxLinks
  imports MuxPaths Base64
begin

text \<open>
  The life of a link in \<^verbatim>\<open>openmux/server/adapters/muxcon.py\<close>: the handshake of both sides with the
  Ed25519 challenge, the frames of the read loop with their authentication gates, the control commands
  of the link itself, and the close.  Signatures, the parser of floating-point numbers and the text of
  the advertised port list are an environment.  A handler above the link is an event
  (\<open>mx_events\<close>); what closing does to streams and proxies follows from the events.
\<close>

record mux_env =
  mv_sign :: "string \<Rightarrow> bytes \<Rightarrow> bytes"
  mv_verify :: "string \<Rightarrow> bytes \<Rightarrow> bytes \<Rightarrow> bool"
  mv_float :: "string \<Rightarrow> int option option"
  mv_ports :: "string \<Rightarrow> string"

section \<open>Closing and writing\<close>

definition close_link :: "string \<Rightarrow> mux \<Rightarrow> mux" where
  "close_link cid s =
     (let s1 = unregister_path cid s in
      s1\<lparr>mx_links := dict_del cid (mx_links s1), mx_wire := dict_del cid (mx_wire s1),
         mx_beats := dict_del cid (mx_beats s1)\<rparr>)"

definition control :: "string \<Rightarrow> string \<Rightarrow> mux \<Rightarrow> mux" where
  "control cid text s =
     (case next_frame_seq cid s of (q, s1) \<Rightarrow> mux_write cid (create_control_frame 0 q text) s1)"

definition mux_emit :: "mux_event \<Rightarrow> mux \<Rightarrow> mux" where
  "mux_emit ev s = s\<lparr>mx_events := mx_events s @ [ev]\<rparr>"

section \<open>Authentication\<close>

definition is_conn_authenticated :: "mux_cfg \<Rightarrow> mux \<Rightarrow> string \<Rightarrow> bool" where
  "is_conn_authenticated cfg s cid =
     (case dict_get (mx_links s) cid of
        None \<Rightarrow> False
      | Some l \<Rightarrow>
          if pc_client l then (if mc_priv cfg \<noteq> None \<or> mc_key_id cfg \<noteq> None then pc_auth_ok l else True)
          else (if \<not> mc_auth_required cfg then True else pc_auth_ok l))"

definition maybe_advertise :: "mux_cfg \<Rightarrow> mux_env \<Rightarrow> string \<Rightarrow> mux \<Rightarrow> mux" where
  "maybe_advertise cfg env cid s =
     (case dict_get (mx_links s) cid of
        None \<Rightarrow> s
      | Some l \<Rightarrow>
          if pc_advertised l \<or> \<not> is_conn_authenticated cfg s cid \<or> \<not> pc_writer l then s
          else put_link cid (l\<lparr>pc_advertised := True\<rparr>) (control cid (mv_ports env cid) s))"

definition apply_filters_of_key :: "string \<Rightarrow> string option \<Rightarrow> mux \<Rightarrow> mux" where
  "apply_filters_of_key cid key_id s =
     (case key_id of
        None \<Rightarrow> s
      | Some k \<Rightarrow> if k = [] then s else s\<lparr>mx_conn_key := dict_set cid k (mx_conn_key s)\<rparr>)"

definition ctl_auth_challenge :: "mux_cfg \<Rightarrow> mux_env \<Rightarrow> string \<Rightarrow> string \<Rightarrow> string \<Rightarrow> mux \<Rightarrow> mux" where
  "ctl_auth_challenge cfg env cid kid nonce_b64 s =
     (case (mc_priv cfg, mc_key_id cfg) of
        (Some priv, Some k) \<Rightarrow>
          if k \<noteq> [] \<and> kid = k then
            (case b64decode nonce_b64 of
               None \<Rightarrow> s
             | Some nonce \<Rightarrow>
                 control cid (''AUTH:PK:RESPONSE:'' @ kid @ '':'' @ b64encode (mv_sign env priv nonce)) s)
          else control cid ''AUTH:ERROR:no_client_key'' s
      | _ \<Rightarrow> control cid ''AUTH:ERROR:no_client_key'' s)"

text \<open>The signature is good: a configured key verifies it over the nonce of the challenge.\<close>

definition good_signature :: "mux_cfg \<Rightarrow> mux_env \<Rightarrow> string \<Rightarrow> string \<Rightarrow> challenge \<Rightarrow> bool" where
  "good_signature cfg env kid sig_b64 ch =
     (case dict_get (mc_pubkeys cfg) kid of
        None \<Rightarrow> False
      | Some pub \<Rightarrow> (case b64decode sig_b64 of None \<Rightarrow> False | Some sig \<Rightarrow> mv_verify env pub sig (ch_nonce ch)))"

definition ctl_auth_response :: "mux_cfg \<Rightarrow> mux_env \<Rightarrow> int \<Rightarrow> string \<Rightarrow> string \<Rightarrow> string \<Rightarrow> mux \<Rightarrow> mux" where
  "ctl_auth_response cfg env now cid kid sig_b64 s =
     (case dict_get (mx_links s) cid of
        None \<Rightarrow> s
      | Some l \<Rightarrow>
          (case pc_challenge l of
             None \<Rightarrow> s
           | Some ch \<Rightarrow>
               if ch_key ch \<noteq> kid then s
               else if now > ch_expires ch then close_link cid (control cid ''AUTH:ERROR:expired'' s)
               else if \<not> good_signature cfg env kid sig_b64 ch
               then close_link cid (control cid ''AUTH:ERROR:bad_signature'' s)
               else
                 maybe_advertise cfg env cid
                   (control cid ''AUTH:OK''
                     (apply_filters_of_key cid (Some kid)
                       (put_link cid (l\<lparr>pc_auth_ok := True, pc_challenge := None\<rparr>) s)))))"

definition ctl_auth_ok :: "mux_cfg \<Rightarrow> mux_env \<Rightarrow> string \<Rightarrow> mux \<Rightarrow> mux" where
  "ctl_auth_ok cfg env cid s =
     (case dict_get (mx_links s) cid of
        None \<Rightarrow> s
      | Some l \<Rightarrow>
          if pc_client l then
            maybe_advertise cfg env cid
              (apply_filters_of_key cid (mc_key_id cfg) (put_link cid (l\<lparr>pc_auth_ok := True\<rparr>) s))
          else close_link cid s)"

text \<open>The forms of \<open>AUTH:\<close> that are handled; any other goes on to the next dispatcher.\<close>

definition ctl_auth :: "mux_cfg \<Rightarrow> mux_env \<Rightarrow> int \<Rightarrow> string \<Rightarrow> string \<Rightarrow> mux \<Rightarrow> mux option" where
  "ctl_auth cfg env now cid payload s =
     (let rest = (if payload = ''AUTH:OK'' then Some (ctl_auth_ok cfg env cid s)
                  else if startswith ''AUTH:ERROR'' payload then Some (close_link cid s) else None)
      in case split_on (CHR '':'') payload of
           _ # pk # verb # kid # text # _ \<Rightarrow>
             if pk = ''PK'' \<and> verb = ''CHALLENGE'' then Some (ctl_auth_challenge cfg env cid kid text s)
             else if pk = ''PK'' \<and> verb = ''RESPONSE'' then Some (ctl_auth_response cfg env now cid kid text s)
             else rest
         | _ \<Rightarrow> rest)"

section \<open>Control commands of the link\<close>

definition touch :: "int \<Rightarrow> string \<Rightarrow> mux \<Rightarrow> mux" where
  "touch now cid s =
     (case dict_get (mx_links s) cid of
        None \<Rightarrow> s
      | Some l \<Rightarrow>
          (let s1 = put_link cid (l\<lparr>pc_seen := now\<rparr>) s; key = derive_peer_key s1 cid in
           case dict_get (mx_groups s1) key of
             None \<Rightarrow> s1
           | Some g \<Rightarrow>
               (case dict_get (gr_conns g) cid of
                  None \<Rightarrow> s1
                | Some m \<Rightarrow>
                    put_group key (g\<lparr>gr_conns := dict_set cid (m\<lparr>pt_seen := now, pt_rx := now\<rparr>) (gr_conns g)\<rparr>) s1)))"

definition new_beat :: beat where
  "new_beat = \<lparr>bt_req = 0, bt_ack = 0, bt_missed = 0, bt_rtt = None\<rparr>"

definition beat_of :: "string \<Rightarrow> mux \<Rightarrow> beat" where
  "beat_of cid s = (case dict_get (mx_beats s) cid of None \<Rightarrow> new_beat | Some b \<Rightarrow> b)"

definition put_beat :: "string \<Rightarrow> beat \<Rightarrow> mux \<Rightarrow> mux" where
  "put_beat cid b s = s\<lparr>mx_beats := dict_set cid b (mx_beats s)\<rparr>"

definition ctl_hb_req :: "mux_cfg \<Rightarrow> mux_env \<Rightarrow> int \<Rightarrow> string \<Rightarrow> string \<Rightarrow> mux \<Rightarrow> mux" where
  "ctl_hb_req cfg env now cid raw s =
     (if \<not> is_conn_authenticated cfg s cid then s
      else
        (case next_frame_seq cid s of
           (q, s1) \<Rightarrow>
             (case (case mv_float env raw of None \<Rightarrow> Some now | Some t \<Rightarrow> t) of
                None \<Rightarrow> s1
              | Some ts \<Rightarrow>
                  (case create_heartbeat_ack ts q of
                     Inl _ \<Rightarrow> s1
                   | Inr frame \<Rightarrow> touch now cid (mux_write cid frame s1)))))"

definition ctl_hb_ack :: "mux_cfg \<Rightarrow> int \<Rightarrow> string \<Rightarrow> mux \<Rightarrow> mux" where
  "ctl_hb_ack cfg now cid s =
     (if \<not> is_conn_authenticated cfg s cid then s
      else
        (let b = beat_of cid s in
         touch now cid
           (put_beat cid
             (b\<lparr>bt_ack := now, bt_missed := 0,
                bt_rtt := (if bt_req b \<noteq> 0 then Some (max 0 ((now - bt_req b) * 1000)) else bt_rtt b)\<rparr>) s)))"

definition mark_shut :: "string \<Rightarrow> mux \<Rightarrow> mux" where
  "mark_shut cid s = (if cid \<in> set (mx_shut s) then s else s\<lparr>mx_shut := mx_shut s @ [cid]\<rparr>)"

definition ctl_shutdown_begin :: "mux_cfg \<Rightarrow> string \<Rightarrow> mux \<Rightarrow> mux" where
  "ctl_shutdown_begin cfg cid s =
     (if \<not> is_conn_authenticated cfg s cid \<or> cid \<in> set (mx_shut s) then s
      else close_link cid (mark_shut cid (control cid ''MPATH:END'' s)))"

definition ctl_mpath_end :: "mux_cfg \<Rightarrow> string \<Rightarrow> mux \<Rightarrow> mux" where
  "ctl_mpath_end cfg cid s =
     (if \<not> is_conn_authenticated cfg s cid then s else close_link cid (mark_shut cid s))"

definition initiate_graceful_shutdown :: "string \<Rightarrow> string option \<Rightarrow> mux \<Rightarrow> mux" where
  "initiate_graceful_shutdown cid reason s =
     (if cid \<in> set (mx_shut s) then s
      else
        (let text = ''MPATH:SHUTDOWN:BEGIN'' @ (case reason of Some r \<Rightarrow> (if r \<noteq> [] then '':'' @ r else []) | None \<Rightarrow> [])
         in close_link cid (mark_shut cid (control cid ''MPATH:END'' (control cid text s)))))"

text \<open>The commands whose handlers live above the link, after the gate.\<close>

definition UPPER_COMMANDS :: "string list" where
  "UPPER_COMMANDS = [''PORTS:FEDERATED:'', ''VIEWERS:'', ''PORT_STATUS:'', ''POWER:STATE:'', ''POWER:SWITCH:'',
     ''POWER:RESULT:'', ''FEDRW:'', ''FEDRWACK:'']"

definition ctl_dispatch :: "mux_cfg \<Rightarrow> mux_env \<Rightarrow> int \<Rightarrow> string \<Rightarrow> string \<Rightarrow> mux \<Rightarrow> mux" where
  "ctl_dispatch cfg env now cid payload s =
     (if startswith ''MPATH:SHUTDOWN:BEGIN'' payload then ctl_shutdown_begin cfg cid s
      else if payload = ''MPATH:END'' then ctl_mpath_end cfg cid s
      else if startswith ''REQ:'' payload then ctl_hb_req cfg env now cid (drop 4 payload) s
      else if startswith ''HB:REQ:'' payload then ctl_hb_req cfg env now cid (drop 7 payload) s
      else if startswith ''ACK:'' payload \<or> startswith ''HB:ACK:'' payload then ctl_hb_ack cfg now cid s
      else if payload = ''PORTS:LIST:FEDERATED'' then s
      else if list_ex (\<lambda>p. startswith p payload) UPPER_COMMANDS
      then (if is_conn_authenticated cfg s cid then mux_emit (PayloadFor cid payload) s else s)
      else s)"

definition process_control :: "mux_cfg \<Rightarrow> mux_env \<Rightarrow> int \<Rightarrow> string \<Rightarrow> string \<Rightarrow> mux \<Rightarrow> mux" where
  "process_control cfg env now cid text s =
     (let payload = strip text in
      case (if startswith ''AUTH:'' payload then ctl_auth cfg env now cid payload s else None) of
        Some t \<Rightarrow> t
      | None \<Rightarrow> ctl_dispatch cfg env now cid payload s)"

section \<open>Frames\<close>

definition send_auth_required :: "string \<Rightarrow> mux \<Rightarrow> mux" where
  "send_auth_required cid s = control cid ''AUTH:REQUIRED'' s"

definition route_inbound :: "mux_cfg \<Rightarrow> int \<Rightarrow> string \<Rightarrow> data_frame \<Rightarrow> mux \<Rightarrow> mux" where
  "route_inbound cfg now cid f s =
     (case dict_get (mx_links s) cid of
        None \<Rightarrow> s
      | Some l \<Rightarrow>
          (let key = derive_peer_key s cid in
           case inbound_data (mc_gap_stuck cfg) now (pc_instance l) (pc_opened l) f (dict_get (mx_rx s) key, peer_tx key s) of
             (out, rx, tx) \<Rightarrow>
               s\<lparr>mx_rx := (case rx of None \<Rightarrow> mx_rx s | Some r \<Rightarrow> dict_set key r (mx_rx s)),
                  mx_tx := dict_set key tx (mx_tx s), mx_events := mx_events s @ map (Routed cid) out\<rparr>))"

definition rl_handle_data :: "mux_cfg \<Rightarrow> int \<Rightarrow> string \<Rightarrow> frame_obj \<Rightarrow> mux \<Rightarrow> mux" where
  "rl_handle_data cfg now cid f s =
     (if \<not> is_conn_authenticated cfg s cid then send_auth_required cid s
      else
        (let s1 = route_inbound cfg now cid (fr_seq f, fr_stream f, fr_payload f) (touch now cid s) in
         case next_frame_seq cid s1 of (q, s2) \<Rightarrow> mux_write cid (create_ack_frame (fr_seq f) q) s2))"

definition rl_handle_open :: "mux_cfg \<Rightarrow> int \<Rightarrow> string \<Rightarrow> frame_obj \<Rightarrow> mux \<Rightarrow> mux" where
  "rl_handle_open cfg now cid f s =
     (if \<not> is_conn_authenticated cfg s cid then send_auth_required cid s
      else mux_emit (StreamOpened cid (fr_stream f) (strip (decode_text_ignore (fr_payload f)))) (touch now cid s))"

definition rl_handle_close :: "mux_cfg \<Rightarrow> int \<Rightarrow> string \<Rightarrow> frame_obj \<Rightarrow> mux \<Rightarrow> mux" where
  "rl_handle_close cfg now cid f s =
     (if \<not> is_conn_authenticated cfg s cid then send_auth_required cid s
      else mux_emit (StreamClosed cid (fr_stream f)) (touch now cid s))"

text \<open>An acknowledgement needs no authentication, and neither control nor heartbeat frames are gated here.\<close>

definition mux_handle_ack :: "string \<Rightarrow> frame_obj \<Rightarrow> mux \<Rightarrow> mux" where
  "mux_handle_ack cid f s =
     (let key = derive_peer_key s cid in
      case dict_get (mx_tx s) key of
        None \<Rightarrow> s
      | Some tx \<Rightarrow> s\<lparr>mx_tx := dict_set key (rl_handle_ack (fr_payload f) tx) (mx_tx s)\<rparr>)"

definition handle_frame :: "mux_cfg \<Rightarrow> mux_env \<Rightarrow> int \<Rightarrow> string \<Rightarrow> frame_obj \<Rightarrow> mux \<Rightarrow> mux" where
  "handle_frame cfg env now cid f s =
     (if fr_type f = ''C'' \<or> fr_type f = ''HB''
      then process_control cfg env now cid (decode_text_ignore (fr_payload f)) (touch now cid s)
      else if fr_type f = ''D'' then rl_handle_data cfg now cid f s
      else if fr_type f = ''O'' then rl_handle_open cfg now cid f s
      else if fr_type f = ''E'' then rl_handle_close cfg now cid f s
      else if fr_type f = ''A'' then mux_handle_ack cid f s
      else s)"

section \<open>Handshake\<close>

definition open_link :: "string \<Rightarrow> peer_conn \<Rightarrow> mux \<Rightarrow> mux" where
  "open_link cid l s = (put_link cid l s)\<lparr>mx_wire := dict_set cid 1 (mx_wire s)\<rparr>"

definition join_group :: "mux_cfg \<Rightarrow> int \<Rightarrow> string \<Rightarrow> mux \<Rightarrow> mux" where
  "join_group cfg now cid s = retire_old_generation cid (rekey_path cid (register_path cfg now cid s))"

text \<open>The record of an accepted connection, written after the \<open>OK\<close> line.\<close>

definition open_inbound :: "mux_cfg \<Rightarrow> int \<Rightarrow> string \<Rightarrow> hello \<Rightarrow> mux \<Rightarrow> mux" where
  "open_inbound cfg now cid h s =
     open_link cid
       \<lparr>pc_client = False, pc_writer = True, pc_hello = Some h, pc_server = hl_server h, pc_instance = hl_instance h,
        pc_opened = now, pc_seen = now, pc_auth_ok = (\<not> mc_auth_required cfg), pc_challenge = None, pc_pref = None,
        pc_advertised = False\<rparr>
       (mux_write cid
         (encode_text (create_handshake_response (validate_capabilities (hl_caps h)) (Some (mc_server cfg))
            (Some (mc_instance cfg))) @ [NL]) s)"

definition refuse_key :: "string \<Rightarrow> mux \<Rightarrow> mux" where
  "refuse_key cid s = close_link cid (control cid ''AUTH:ERROR:missing_or_unknown_pkid'' s)"

definition issue_challenge :: "int \<Rightarrow> bytes \<Rightarrow> string \<Rightarrow> string \<Rightarrow> mux \<Rightarrow> mux" where
  "issue_challenge now nonce k cid s =
     (case dict_get (mx_links s) cid of
        None \<Rightarrow> s
      | Some l \<Rightarrow>
          control cid (''AUTH:PK:CHALLENGE:'' @ k @ '':'' @ b64encode nonce)
            (put_link cid (l\<lparr>pc_challenge := Some \<lparr>ch_key = k, ch_nonce = nonce, ch_expires = now + 30\<rparr>\<rparr>) s))"

text \<open>The accepting side; a line that is no HELLO raises and leaves nothing behind.\<close>

definition server_handshake :: "mux_cfg \<Rightarrow> mux_env \<Rightarrow> int \<Rightarrow> bytes \<Rightarrow> string \<Rightarrow> bytes \<Rightarrow> mux \<Rightarrow> mux" where
  "server_handshake cfg env now nonce cid line s =
     (case parse_handshake (strip (decode_text_ignore line)) of
        None \<Rightarrow> s
      | Some h \<Rightarrow>
          if \<not> mc_auth_required cfg
          then maybe_advertise cfg env cid (join_group cfg now cid (open_inbound cfg now cid h s))
          else
            (case hl_pkid h of
               None \<Rightarrow> refuse_key cid (open_inbound cfg now cid h s)
             | Some k \<Rightarrow>
                 if \<not> dict_has (mc_pubkeys cfg) k then refuse_key cid (open_inbound cfg now cid h s)
                 else
                   maybe_advertise cfg env cid
                     (join_group cfg now cid (issue_challenge now nonce k cid (open_inbound cfg now cid h s)))))"

definition annotate_inbound :: "mux_cfg \<Rightarrow> string \<Rightarrow> int option \<Rightarrow> mux \<Rightarrow> mux" where
  "annotate_inbound cfg cid path_pref s =
     (case dict_get (mx_links s) cid of
        None \<Rightarrow> s
      | Some l \<Rightarrow>
          (let s1 = put_link cid (l\<lparr>pc_pref := path_pref\<rparr>) s; key = derive_peer_key s1 cid in
           case (path_pref, dict_get (mx_groups s1) key) of
             (Some p, Some g) \<Rightarrow>
               (case dict_get (gr_conns g) cid of
                  None \<Rightarrow> s1
                | Some m \<Rightarrow>
                    put_group key
                      (apply_promotion cfg cid (g\<lparr>gr_conns := dict_set cid (m\<lparr>pt_pref := p\<rparr>) (gr_conns g)\<rparr>)) s1)
           | _ \<Rightarrow> s1))"

definition request_remote_ports :: "string \<Rightarrow> mux \<Rightarrow> mux" where
  "request_remote_ports cid s =
     (if dict_has (mx_links s) cid
      then (case next_frame_seq cid s of (q, s1) \<Rightarrow> mux_write cid (create_port_list_request q) s1) else s)"

definition accept_client :: "mux_cfg \<Rightarrow> mux_env \<Rightarrow> int \<Rightarrow> bytes \<Rightarrow> int option \<Rightarrow> string \<Rightarrow> bytes \<Rightarrow> mux \<Rightarrow> mux" where
  "accept_client cfg env now nonce path_pref cid line s =
     (let s1 = annotate_inbound cfg cid path_pref (server_handshake cfg env now nonce cid line s) in
      if is_conn_authenticated cfg s1 cid then request_remote_ports cid s1 else s1)"

text \<open>The initiating side; any answer but \<open>OK\<close> raises.\<close>

definition client_handshake :: "mux_cfg \<Rightarrow> mux_env \<Rightarrow> int \<Rightarrow> string \<Rightarrow> bytes \<Rightarrow> mux \<Rightarrow> mux" where
  "client_handshake cfg env now cid line s =
     (let pkid = (case (mc_priv cfg, mc_key_id cfg) of (Some _, Some k) \<Rightarrow> Some k | _ \<Rightarrow> None);
          s1 = mux_write cid (encode_text (client_hello (mc_server cfg) (mc_instance cfg) pkid) @ [NL]) s
      in case parse_ok (decode_text_ignore line) of
           None \<Rightarrow> s1
         | Some (server_id, instance_id) \<Rightarrow>
             (let l = \<lparr>pc_client = True, pc_writer = True, pc_hello = None, pc_server = server_id,
                    pc_instance = instance_id, pc_opened = now, pc_seen = now, pc_auth_ok = False,
                    pc_challenge = None, pc_pref = None, pc_advertised = False\<rparr>
              in maybe_advertise cfg env cid (join_group cfg now cid (open_link cid l s1))))"

end
