(* ===== verification/MuxBeat.thy ===== *)
theory MuxBeat
  imports MuxLinks
begin

text \<open>
  The periodic work on links in \<^verbatim>\<open>openmux/server/adapters/muxcon.py\<close>: the heartbeat pass
  (\<open>_heartbeat_tick\<close>), the failover sweep over the path groups (\<open>_mfl_sweep_once\<close>), the liveness of
  a peer, the fault injection of the administrator, and the closes that were scheduled as tasks.
  The factors 1.5 and 2.5 of the code are written with both sides doubled.
\<close>

section \<open>Heartbeats\<close>

text \<open>The last request is more than two and a half intervals old.\<close>

definition req_overdue :: "mux_cfg \<Rightarrow> int \<Rightarrow> beat \<Rightarrow> bool" where
  "req_overdue cfg now b \<longleftrightarrow> 2 * (now - bt_req b) > 5 * mc_heartbeat cfg"

definition miss_beat :: "beat \<Rightarrow> beat" where
  "miss_beat b = b\<lparr>bt_missed := bt_missed b + 1\<rparr>"

definition hb_frozen_step :: "mux_cfg \<Rightarrow> int \<Rightarrow> string \<Rightarrow> mux \<Rightarrow> mux" where
  "hb_frozen_step cfg now cid s =
     (let b = beat_of cid s; s1 = put_beat cid b s in
      if bt_req b \<noteq> 0 \<and> req_overdue cfg now b
      then (let s2 = put_beat cid (miss_beat b) s1 in
            if bt_missed (miss_beat b) \<ge> 3 then close_link cid s2 else s2)
      else s1)"

definition hb_drop_step :: "mux_cfg \<Rightarrow> int \<Rightarrow> string \<Rightarrow> mux \<Rightarrow> mux" where
  "hb_drop_step cfg now cid s =
     (let b = beat_of cid s in
      put_beat cid (if bt_req b \<noteq> 0 \<and> req_overdue cfg now b then miss_beat b else b) s)"

definition hb_check_timeout :: "mux_cfg \<Rightarrow> int \<Rightarrow> string \<Rightarrow> mux \<Rightarrow> mux" where
  "hb_check_timeout cfg now cid s =
     (let b = beat_of cid s in
      if bt_ack b < bt_req b \<and> req_overdue cfg now b
      then (let s1 = put_beat cid (miss_beat b) s in
            if bt_missed (miss_beat b) \<ge> 3 then close_link cid s1 else s1)
      else s)"

definition hb_bump_last_seen :: "int \<Rightarrow> string \<Rightarrow> mux \<Rightarrow> mux" where
  "hb_bump_last_seen now cid s =
     (case dict_get (mx_links s) cid of
        None \<Rightarrow> s
      | Some l \<Rightarrow>
          (let s1 = put_link cid (l\<lparr>pc_seen := now\<rparr>) s; key = derive_peer_key s1 cid in
           case dict_get (mx_groups s1) key of
             None \<Rightarrow> s1
           | Some g \<Rightarrow>
               (case dict_get (gr_conns g) cid of
                  None \<Rightarrow> s1
                | Some m \<Rightarrow> put_group key (g\<lparr>gr_conns := dict_set cid (m\<lparr>pt_seen := now\<rparr>) (gr_conns g)\<rparr>) s1)))"

definition hb_send_step :: "mux_cfg \<Rightarrow> int \<Rightarrow> string \<Rightarrow> peer_conn \<Rightarrow> mux \<Rightarrow> mux" where
  "hb_send_step cfg now cid l s =
     (if \<not> pc_writer l then s
      else
        (case next_frame_seq cid (put_beat cid ((beat_of cid s)\<lparr>bt_req := now\<rparr>) s) of
           (q, s1) \<Rightarrow>
             (case create_heartbeat_request now q of
                Inl _ \<Rightarrow> s1
              | Inr frame \<Rightarrow>
                  hb_bump_last_seen now cid (hb_check_timeout cfg now cid (mux_write cid frame s1)))))"

definition hb_step :: "mux_cfg \<Rightarrow> int \<Rightarrow> string \<times> peer_conn \<Rightarrow> mux \<Rightarrow> mux" where
  "hb_step cfg now e s =
     (case e of (cid, l) \<Rightarrow>
        if cid \<in> set (mx_frozen s) then hb_frozen_step cfg now cid s
        else if cid \<in> set (mx_dropping s) then hb_drop_step cfg now cid s
        else hb_send_step cfg now cid l s)"

definition heartbeat_tick :: "mux_cfg \<Rightarrow> int \<Rightarrow> mux \<Rightarrow> mux" where
  "heartbeat_tick cfg now s = fold (hb_step cfg now) (mx_links s) s"

section \<open>Liveness of a peer\<close>

text \<open>The later of the last frame received and the last heartbeat acknowledged.\<close>

definition last_ack_of :: "string \<Rightarrow> mux \<Rightarrow> int" where
  "last_ack_of cid s = (case dict_get (mx_beats s) cid of None \<Rightarrow> 0 | Some b \<Rightarrow> bt_ack b)"

definition last_activity :: "mux \<Rightarrow> string \<times> path \<Rightarrow> int" where
  "last_activity s e = max (if pt_rx (snd e) \<noteq> 0 then pt_rx (snd e) else pt_seen (snd e)) (last_ack_of (fst e) s)"

text \<open>The window doubled: 1.5 heartbeats at least.\<close>

definition mpath_effective_stale_window :: "mux_cfg \<Rightarrow> int" where
  "mpath_effective_stale_window cfg = max (3 * mc_heartbeat cfg) (2 * mc_stale cfg)"

definition mpath_has_live_path :: "mux \<Rightarrow> string \<Rightarrow> int \<Rightarrow> int \<Rightarrow> bool" where
  "mpath_has_live_path s key now window2 \<longleftrightarrow>
     (case dict_get (mx_groups s) key of
        None \<Rightarrow> False
      | Some g \<Rightarrow>
          list_ex (\<lambda>e. fst e \<notin> set (mx_frozen s) \<and> last_activity s e \<noteq> 0 \<and> 2 * (now - last_activity s e) \<le> window2)
            (gr_conns g))"

section \<open>The failover sweep\<close>

text \<open>The oldest activity that is not stale, doubled; 2.5 heartbeats at least.\<close>

definition mfl_stale_window :: "mux_cfg \<Rightarrow> int \<Rightarrow> int option" where
  "mfl_stale_window cfg now =
     (let w2 = max (2 * mc_stale cfg) (5 * mc_heartbeat cfg) in if w2 > 0 then Some (2 * now - w2) else None)"

definition below_cutoff :: "int option \<Rightarrow> int \<Rightarrow> bool" where
  "below_cutoff cutoff2 t \<longleftrightarrow> (case cutoff2 of None \<Rightarrow> False | Some c \<Rightarrow> 2 * t < c)"

definition mfl_prune_one_idle :: "mux_cfg \<Rightarrow> int \<Rightarrow> string \<Rightarrow> string \<times> path \<Rightarrow> mux \<Rightarrow> mux" where
  "mfl_prune_one_idle cfg now key e s =
     (let act = last_activity s e in
      if act \<noteq> 0 \<and> now - act \<ge> mc_idle_drop cfg then
        (let s1 = (case dict_get (mx_groups s) key of
                     None \<Rightarrow> s | Some g \<Rightarrow> store_group key (drop_path (fst e) g) s)
         in s1\<lparr>mx_closing := mx_closing s1 @ [fst e]\<rparr>)
      else s)"

definition mfl_prune_idle :: "mux_cfg \<Rightarrow> int \<Rightarrow> string \<Rightarrow> mux \<Rightarrow> mux" where
  "mfl_prune_idle cfg now key s =
     (if mc_idle_drop cfg > 0
      then fold (mfl_prune_one_idle cfg now key) (gr_conns (group_at key s)) s else s)"

definition set_changed :: "string \<Rightarrow> int \<Rightarrow> mux \<Rightarrow> mux" where
  "set_changed key t s =
     (case dict_get (mx_groups s) key of None \<Rightarrow> s | Some g \<Rightarrow> put_group key (g\<lparr>gr_changed := Some t\<rparr>) s)"

text \<open>Paths other than the primary with recent activity; frozen ones are not left out here.\<close>

definition alternatives :: "mux \<Rightarrow> int option \<Rightarrow> string \<Rightarrow> mgroup \<Rightarrow> (string \<times> path) list" where
  "alternatives s cutoff2 primary g =
     filter (\<lambda>e. fst e \<noteq> primary \<and> \<not> below_cutoff cutoff2 (last_activity s e)) (gr_conns g)"

definition changed_at :: "mgroup \<Rightarrow> int" where
  "changed_at g = (case gr_changed g of None \<Rightarrow> 0 | Some t \<Rightarrow> t)"

definition mfl_stale_promote :: "mux_cfg \<Rightarrow> int \<Rightarrow> string \<Rightarrow> string \<Rightarrow> int option \<Rightarrow> mux \<Rightarrow> mux" where
  "mfl_stale_promote cfg now key primary cutoff2 s =
     (let g = group_at key s in
      if alternatives s cutoff2 primary g = [] then s
      else if 2 * (now - changed_at g) < 3 * mc_check cfg then s
      else
        (case select_path cfg now key s of
           (new, s1) \<Rightarrow> (case new of None \<Rightarrow> s1 | Some p \<Rightarrow> if p \<noteq> [] \<and> p \<noteq> primary then set_changed key now s1 else s1)))"

definition mfl_preemptive_scan :: "mux_cfg \<Rightarrow> int \<Rightarrow> string \<Rightarrow> string \<Rightarrow> path \<Rightarrow> int option \<Rightarrow> mux \<Rightarrow> mux" where
  "mfl_preemptive_scan cfg now key primary m cutoff2 s =
     (let g = group_at key s in
      case best_path (filter (\<lambda>e. pt_pref (snd e) > pt_pref m) (alternatives s cutoff2 primary g)) of
        None \<Rightarrow> s
      | Some new \<Rightarrow>
          if new \<noteq> primary \<and> now - changed_at g \<ge> mc_check cfg
          then put_group key (g\<lparr>gr_primary := Some new, gr_changed := Some now\<rparr>) s else s)"

definition mfl_eval_primary :: "mux_cfg \<Rightarrow> int \<Rightarrow> string \<Rightarrow> string \<Rightarrow> path \<Rightarrow> int option \<Rightarrow> mux \<Rightarrow> mux" where
  "mfl_eval_primary cfg now key primary m cutoff2 s =
     (let s1 = (if gr_changed (group_at key s) = None
                then set_changed key (if pt_opened m \<noteq> 0 then pt_opened m else now) s else s)
      in if below_cutoff cutoff2 (last_activity s1 (primary, m)) then mfl_stale_promote cfg now key primary cutoff2 s1
         else if mc_preempt cfg \<and> mc_best_pref cfg then mfl_preemptive_scan cfg now key primary m cutoff2 s1
         else s1)"

definition mfl_sweep_group :: "mux_cfg \<Rightarrow> int \<Rightarrow> string \<Rightarrow> mux \<Rightarrow> mux" where
  "mfl_sweep_group cfg now key s =
     (let s1 = mfl_prune_idle cfg now key s; g = group_at key s1 in
      case gr_primary g of
        None \<Rightarrow> snd (select_path cfg now key s1)
      | Some p \<Rightarrow>
          (case dict_get (gr_conns g) p of
             None \<Rightarrow> snd (select_path cfg now key s1)
           | Some m \<Rightarrow> mfl_eval_primary cfg now key p m (mfl_stale_window cfg now) s1))"

definition mfl_sweep_once :: "mux_cfg \<Rightarrow> int \<Rightarrow> mux \<Rightarrow> mux" where
  "mfl_sweep_once cfg now s = fold (\<lambda>(key, g). mfl_sweep_group cfg now key) (mx_groups s) s"

section \<open>Fault injection and scheduled closes\<close>

definition age_beat :: "mux_cfg \<Rightarrow> string \<Rightarrow> mux \<Rightarrow> mux" where
  "age_beat cfg cid s =
     (case dict_get (mx_beats s) cid of
        None \<Rightarrow> s | Some b \<Rightarrow> put_beat cid (b\<lparr>bt_req := bt_req b - mc_heartbeat cfg * 5\<rparr>) s)"

definition set_member :: "string \<Rightarrow> bool \<Rightarrow> string list \<Rightarrow> string list" where
  "set_member x on xs = (if on then (if x \<in> set xs then xs else xs @ [x]) else removeAll x xs)"

definition freeze_connection :: "mux_cfg \<Rightarrow> string \<Rightarrow> mux \<Rightarrow> bool \<times> mux" where
  "freeze_connection cfg cid s =
     (if \<not> dict_has (mx_links s) cid then (False, s)
      else
        (let s1 = s\<lparr>mx_frozen := set_member cid True (mx_frozen s)\<rparr> in
         (True, age_beat cfg cid (hb_bump_last_seen 0 cid s1))))"

definition unfreeze_connection :: "int \<Rightarrow> string \<Rightarrow> mux \<Rightarrow> bool \<times> mux" where
  "unfreeze_connection now cid s =
     (if \<not> dict_has (mx_links s) cid then (False, s)
      else if cid \<in> set (mx_frozen s)
      then (True, hb_bump_last_seen now cid (s\<lparr>mx_frozen := set_member cid False (mx_frozen s)\<rparr>))
      else (True, s))"

definition set_drop_heartbeats :: "string \<Rightarrow> bool \<Rightarrow> mux \<Rightarrow> bool \<times> mux" where
  "set_drop_heartbeats cid drop_them s =
     (if \<not> dict_has (mx_links s) cid then (False, s)
      else (True, s\<lparr>mx_dropping := set_member cid drop_them (mx_dropping s)\<rparr>))"

definition force_close_connection :: "string \<Rightarrow> mux \<Rightarrow> bool \<times> mux" where
  "force_close_connection cid s =
     (if \<not> dict_has (mx_links s) cid then (False, s) else (True, close_link cid s))"

text \<open>The oldest scheduled close runs.\<close>

definition run_close :: "mux \<Rightarrow> mux" where
  "run_close s =
     (case mx_closing s of [] \<Rightarrow> s | cid # rest \<Rightarrow> close_link cid (s\<lparr>mx_closing := rest\<rparr>))"

end
