(* ===== verification/MuxRun.thy ===== *)
theory MuxRun
  imports MuxBeat
begin

text \<open>
  The runs of a federation server: what happens to its links, in any order, and the invariant of the
  path groups.
\<close>

section \<open>Runs\<close>

datatype mux_op =
    Accept string bytes bytes "int option"
  | Dial string bytes
  | Incoming string frame_obj
  | Hangup string
  | SendData string int bytes
  | SendText string string
  | OpenStream string int string
  | CloseStream string int string
  | Heartbeats
  | Sweep
  | RunClose
  | Freeze string
  | Unfreeze string
  | DropBeats string bool
  | ForceClose string
  | ShutDown string "string option"

definition mux_do :: "mux_cfg \<Rightarrow> mux_env \<Rightarrow> int \<Rightarrow> mux_op \<Rightarrow> mux \<Rightarrow> mux" where
  "mux_do cfg env now op s =
     (case op of
        Accept cid line nonce pref \<Rightarrow> accept_client cfg env now nonce pref cid line s
      | Dial cid line \<Rightarrow> client_handshake cfg env now cid line s
      | Incoming cid f \<Rightarrow> handle_frame cfg env now cid f s
      | Hangup cid \<Rightarrow> close_link cid s
      | SendData key sid data \<Rightarrow> snd (mux_send_data cfg now key sid data s)
      | SendText key payload \<Rightarrow> snd (send_control_mpath cfg now key payload s)
      | OpenStream key sid p \<Rightarrow> snd (send_stream_open_mpath cfg now key sid p s)
      | CloseStream key sid r \<Rightarrow> snd (send_stream_close_mpath cfg now key sid r s)
      | Heartbeats \<Rightarrow> heartbeat_tick cfg now s
      | Sweep \<Rightarrow> mfl_sweep_once cfg now s
      | RunClose \<Rightarrow> run_close s
      | Freeze cid \<Rightarrow> snd (freeze_connection cfg cid s)
      | Unfreeze cid \<Rightarrow> snd (unfreeze_connection now cid s)
      | DropBeats cid on \<Rightarrow> snd (set_drop_heartbeats cid on s)
      | ForceClose cid \<Rightarrow> snd (force_close_connection cid s)
      | ShutDown cid r \<Rightarrow> initiate_graceful_shutdown cid r s)"

definition mux0 :: mux where
  "mux0 = \<lparr>mx_links = [], mx_groups = [], mx_beats = [], mx_frozen = [], mx_dropping = [], mx_wire = [],
     mx_next_seq = 1, mx_tx = [], mx_rx = [], mx_retx = [], mx_stream_id = [], mx_sent = [], mx_closing = [],
     mx_shut = [], mx_conn_key = [], mx_events = []\<rparr>"

text \<open>The connection id that an operation introduces.\<close>

definition opens :: "mux_op \<Rightarrow> string option" where
  "opens op = (case op of Accept cid _ _ _ \<Rightarrow> Some cid | Dial cid _ \<Rightarrow> Some cid | _ \<Rightarrow> None)"

inductive mux_run :: "mux_cfg \<Rightarrow> mux_env \<Rightarrow> (int \<times> mux_op) list \<Rightarrow> mux \<Rightarrow> bool" where
  start: "mux_run cfg env [] mux0"
| happens: "mux_run cfg env h s \<Longrightarrow> \<forall>cid. opens op = Some cid \<longrightarrow> \<not> dict_has (mx_links s) cid
    \<Longrightarrow> mux_run cfg env (h @ [(now, op)]) (mux_do cfg env now op s)"

section \<open>What an operation leaves alone\<close>

lemma put_link_fields [simp]:
  "mx_links (put_link cid l s) = dict_set cid l (mx_links s)" "mx_groups (put_link cid l s) = mx_groups s"
  "mx_wire (put_link cid l s) = mx_wire s" "mx_next_seq (put_link cid l s) = mx_next_seq s"
  "mx_events (put_link cid l s) = mx_events s" "mx_tx (put_link cid l s) = mx_tx s"
  "mx_frozen (put_link cid l s) = mx_frozen s" "mx_closing (put_link cid l s) = mx_closing s"
  by (simp_all add: put_link_def)

lemma put_group_fields [simp]:
  "mx_groups (put_group key g s) = dict_set key g (mx_groups s)" "mx_links (put_group key g s) = mx_links s"
  "mx_wire (put_group key g s) = mx_wire s" "mx_next_seq (put_group key g s) = mx_next_seq s"
  "mx_events (put_group key g s) = mx_events s" "mx_tx (put_group key g s) = mx_tx s"
  "mx_frozen (put_group key g s) = mx_frozen s" "mx_closing (put_group key g s) = mx_closing s"
  by (simp_all add: put_group_def)

lemma put_beat_fields [simp]:
  "mx_links (put_beat cid b s) = mx_links s" "mx_groups (put_beat cid b s) = mx_groups s"
  "mx_wire (put_beat cid b s) = mx_wire s" "mx_next_seq (put_beat cid b s) = mx_next_seq s"
  "mx_events (put_beat cid b s) = mx_events s" "mx_frozen (put_beat cid b s) = mx_frozen s"
  "mx_beats (put_beat cid b s) = dict_set cid b (mx_beats s)"
  by (simp_all add: put_beat_def)

lemma mux_write_fields [simp]:
  "mx_links (mux_write cid b s) = mx_links s" "mx_groups (mux_write cid b s) = mx_groups s"
  "mx_wire (mux_write cid b s) = mx_wire s" "mx_next_seq (mux_write cid b s) = mx_next_seq s"
  "mx_events (mux_write cid b s) = mx_events s" "mx_tx (mux_write cid b s) = mx_tx s"
  "mx_frozen (mux_write cid b s) = mx_frozen s" "mx_closing (mux_write cid b s) = mx_closing s"
  "mx_beats (mux_write cid b s) = mx_beats s" "mx_sent (mux_write cid b s) = mx_sent s @ [(cid, b)]"
  by (simp_all add: mux_write_def)

lemma next_frame_seq_fields [simp]:
  "mx_links (snd (next_frame_seq cid s)) = mx_links s" "mx_groups (snd (next_frame_seq cid s)) = mx_groups s"
  "mx_events (snd (next_frame_seq cid s)) = mx_events s" "mx_tx (snd (next_frame_seq cid s)) = mx_tx s"
  "mx_frozen (snd (next_frame_seq cid s)) = mx_frozen s" "mx_closing (snd (next_frame_seq cid s)) = mx_closing s"
  "mx_beats (snd (next_frame_seq cid s)) = mx_beats s" "mx_sent (snd (next_frame_seq cid s)) = mx_sent s"
  by (simp_all add: next_frame_seq_def Let_def split: option.splits)

lemma control_eq: "control cid text s =
    mux_write cid (create_control_frame 0 (fst (next_frame_seq cid s)) text) (snd (next_frame_seq cid s))"
  by (simp add: control_def split: prod.splits)

lemma control_fields [simp]:
  "mx_links (control cid t s) = mx_links s" "mx_groups (control cid t s) = mx_groups s"
  "mx_events (control cid t s) = mx_events s" "mx_tx (control cid t s) = mx_tx s"
  "mx_frozen (control cid t s) = mx_frozen s" "mx_closing (control cid t s) = mx_closing s"
  by (simp_all add: control_eq)

lemma mux_emit_fields [simp]:
  "mx_links (mux_emit e s) = mx_links s" "mx_groups (mux_emit e s) = mx_groups s"
  "mx_wire (mux_emit e s) = mx_wire s" "mx_next_seq (mux_emit e s) = mx_next_seq s"
  "mx_events (mux_emit e s) = mx_events s @ [e]"
  by (simp_all add: mux_emit_def)

lemma mark_shut_fields [simp]:
  "mx_links (mark_shut cid s) = mx_links s" "mx_groups (mark_shut cid s) = mx_groups s"
  "mx_wire (mark_shut cid s) = mx_wire s" "mx_next_seq (mark_shut cid s) = mx_next_seq s"
  "mx_events (mark_shut cid s) = mx_events s"
  by (simp_all add: mark_shut_def)

lemma apply_filters_fields [simp]:
  "mx_links (apply_filters_of_key cid k s) = mx_links s" "mx_groups (apply_filters_of_key cid k s) = mx_groups s"
  "mx_wire (apply_filters_of_key cid k s) = mx_wire s" "mx_next_seq (apply_filters_of_key cid k s) = mx_next_seq s"
  "mx_events (apply_filters_of_key cid k s) = mx_events s"
  by (simp_all add: apply_filters_of_key_def split: option.splits)

section \<open>The path groups\<close>

text \<open>A group holds connections of its own peer, and its primary is one of them.\<close>

definition group_ok :: "mux \<Rightarrow> string \<Rightarrow> mgroup \<Rightarrow> bool" where
  "group_ok s key g \<longleftrightarrow> gr_conns g \<noteq> [] \<and> dict_wf (gr_conns g)
     \<and> (\<exists>p. gr_primary g = Some p \<and> dict_has (gr_conns g) p)
     \<and> (\<forall>cid. dict_has (gr_conns g) cid \<longrightarrow> dict_has (mx_links s) cid \<and> derive_peer_key s cid = key)"

definition paths_ok :: "mux \<Rightarrow> bool" where
  "paths_ok s \<longleftrightarrow> dict_wf (mx_groups s) \<and> dict_wf (mx_links s)
     \<and> (\<forall>key g. dict_get (mx_groups s) key = Some g \<longrightarrow> group_ok s key g)"

lemma paths_ok_cong:
  "mx_links t = mx_links s \<Longrightarrow> mx_groups t = mx_groups s \<Longrightarrow> paths_ok t = paths_ok s"
  by (simp add: paths_ok_def group_ok_def derive_peer_key_def)

lemma paths_ok_fields [simp]:
  "paths_ok (mux_write cid b s) = paths_ok s" "paths_ok (control cid t s) = paths_ok s"
  "paths_ok (put_beat cid bt s) = paths_ok s" "paths_ok (mux_emit e s) = paths_ok s"
  "paths_ok (mark_shut cid s) = paths_ok s" "paths_ok (apply_filters_of_key cid k s) = paths_ok s"
  "paths_ok (snd (next_frame_seq cid s)) = paths_ok s"
  by (rule paths_ok_cong; simp)+

lemma paths_ok_groupD: "paths_ok s \<Longrightarrow> dict_get (mx_groups s) key = Some g \<Longrightarrow> group_ok s key g"
  by (simp add: paths_ok_def)

lemma paths_ok_put_group [preserves]:
  "paths_ok s \<Longrightarrow> group_ok s key g \<Longrightarrow> paths_ok (put_group key g s)"
  by (auto simp: paths_ok_def group_ok_def derive_peer_key_def)

lemma group_ok_grow:
  "group_ok s key g \<Longrightarrow> \<forall>cid. dict_has (mx_links s) cid \<longrightarrow> dict_has (mx_links t) cid \<and> derive_peer_key t cid = derive_peer_key s cid
     \<Longrightarrow> group_ok t key g"
  by (simp add: group_ok_def)

lemma paths_ok_grow:
  assumes "paths_ok s" "mx_groups t = mx_groups s" "dict_wf (mx_links t)"
    and "\<forall>cid. dict_has (mx_links s) cid \<longrightarrow> dict_has (mx_links t) cid \<and> derive_peer_key t cid = derive_peer_key s cid"
  shows "paths_ok t"
  using assms unfolding paths_ok_def by (metis group_ok_grow)

lemma paths_ok_put_link [preserves]:
  assumes "paths_ok s" "dict_get (mx_links s) cid = Some l" "link_server_id l' = link_server_id l"
  shows "paths_ok (put_link cid l' s)"
  using assms by (intro paths_ok_grow[OF assms(1)])
    (auto simp: derive_peer_key_def peer_key_of_def dict_has_def paths_ok_def intro: dict_wf_set)

lemma paths_ok_new_link [preserves]:
  assumes "paths_ok s" "\<not> dict_has (mx_links s) cid" shows "paths_ok (put_link cid l s)"
  using assms by (intro paths_ok_grow[OF assms(1)])
    (auto simp: derive_peer_key_def dict_has_def paths_ok_def intro: dict_wf_set)

lemma group_ok_members: "group_ok s key g \<Longrightarrow> dict_wf conns \<Longrightarrow> dict_keys conns = dict_keys (gr_conns g)
    \<Longrightarrow> group_ok s key (g\<lparr>gr_conns := conns\<rparr>)"
  by (auto simp: group_ok_def dict_has_iff dict_keys_def)

lemma group_ok_primary: "group_ok s key g \<Longrightarrow> dict_has (gr_conns g) p \<Longrightarrow> group_ok s key (g\<lparr>gr_primary := Some p\<rparr>)"
  by (auto simp: group_ok_def)

lemma dict_get_mem: "dict_get d k = Some v \<Longrightarrow> k \<in> dict_keys d"
  by (simp add: dict_has_iff[symmetric] dict_has_def)

lemma group_ok_set_path: "group_ok s key g \<Longrightarrow> dict_get (gr_conns g) cid = Some m
    \<Longrightarrow> group_ok s key (g\<lparr>gr_conns := dict_set cid m' (gr_conns g)\<rparr>)"
  by (rule group_ok_members) (auto simp: group_ok_def insert_absorb dict_get_mem intro: dict_wf_set)

lemma group_ok_changed [simp]: "group_ok s key (g\<lparr>gr_changed := t\<rparr>) = group_ok s key g"
  by (simp add: group_ok_def)

lemma group_ok_promotion: "group_ok s key g \<Longrightarrow> dict_has (gr_conns g) cid \<Longrightarrow> group_ok s key (apply_promotion cfg cid g)"
  by (auto simp: apply_promotion_def group_ok_primary split: option.splits)

section \<open>Operations on the groups\<close>

lemma update_nonempty [simp]: "dict_set k v d \<noteq> []"
  by (cases d) auto

lemma paths_ok_store_group [preserves]:
  "paths_ok s \<Longrightarrow> (gr_conns g \<noteq> [] \<Longrightarrow> group_ok s key g) \<Longrightarrow> paths_ok (store_group key g s)"
  by (auto simp: store_group_def paths_ok_put_group paths_ok_def group_ok_def derive_peer_key_def intro: dict_wf_del)

lemma paths_ok_register [preserves]:
  assumes "paths_ok s" "dict_has (mx_links s) cid" shows "paths_ok (register_path cfg now cid s)"
proof -
  let ?key = "derive_peer_key s cid"
  define m where "m = \<lparr>pt_opened = (case dict_get (mx_links s) cid of None \<Rightarrow> 0 | Some l \<Rightarrow> pc_opened l),
               pt_pref = mpath_derive_pref cfg cid s, pt_seen = now, pt_rx = now\<rparr>"
  define g1 where "g1 = (group_at ?key s)\<lparr>gr_conns := dict_set cid m (gr_conns (group_at ?key s))\<rparr>"
  have "group_ok s ?key (if gr_primary g1 = None then g1\<lparr>gr_primary := Some cid\<rparr> else apply_promotion cfg cid g1)"
  proof (cases "dict_get (mx_groups s) ?key")
    case None
    then show ?thesis using assms by (auto simp: g1_def group_at_def new_group_def group_ok_def dict_has_def dict_wf_def)
  next
    case (Some g)
    have g: "group_ok s ?key g" by (rule paths_ok_groupD[OF assms(1) Some])
    then have "group_ok s ?key g1" using assms Some
      by (auto simp: g1_def group_at_def group_ok_def dict_has_def intro: dict_wf_set)
    then show ?thesis using Some
      by (auto intro!: group_ok_promotion group_ok_primary simp: g1_def dict_has_def)
  qed
  then show ?thesis unfolding register_path_def Let_def m_def[symmetric] g1_def[symmetric]
    by (rule paths_ok_put_group[OF assms(1)])
qed

lemma first_key_mem: "d \<noteq> [] \<Longrightarrow> \<exists>k. first_key d = Some k \<and> dict_has d k"
  by (cases d) (auto simp: first_key_def dict_has_def)

lemma group_ok_drop:
  assumes "group_ok s key g" "gr_conns (drop_path cid g) \<noteq> []" shows "group_ok s key (drop_path cid g)"
proof -
  let ?d = "dict_del cid (gr_conns g)"
  have "?d \<noteq> []" using assms(2) by (simp add: drop_path_def Let_def)
  from first_key_mem[OF this] obtain k where k: "first_key ?d = Some k" "dict_has ?d k" by blast
  have "dict_wf ?d" using assms(1) by (auto simp: group_ok_def intro: dict_wf_del)
  moreover have "\<forall>c. dict_has ?d c \<longleftrightarrow> c \<noteq> cid \<and> dict_has (gr_conns g) c" by (simp add: dict_has_def)
  ultimately show ?thesis using assms(1) \<open>?d \<noteq> []\<close> k by (auto simp: group_ok_def drop_path_def Let_def)
qed

lemma paths_ok_unregister [preserves]: "paths_ok s \<Longrightarrow> paths_ok (unregister_path cid s)"
  by (auto simp: unregister_path_def Let_def intro!: paths_ok_store_group group_ok_drop dest: paths_ok_groupD split: option.splits)

lemma store_group_get: "dict_get (mx_groups (store_group key g s)) k =
    (if k = key then (if gr_conns g = [] then None else Some g) else dict_get (mx_groups s) k)"
  by (simp add: store_group_def)

lemma store_group_fields [simp]: "mx_links (store_group key g s) = mx_links s" "mx_wire (store_group key g s) = mx_wire s"
  "mx_next_seq (store_group key g s) = mx_next_seq s" "mx_events (store_group key g s) = mx_events s"
  "mx_frozen (store_group key g s) = mx_frozen s"
  by (simp_all add: store_group_def)

lemma unregister_fields [simp]: "mx_links (unregister_path cid s) = mx_links s" "mx_wire (unregister_path cid s) = mx_wire s"
  "mx_next_seq (unregister_path cid s) = mx_next_seq s" "mx_events (unregister_path cid s) = mx_events s"
  "mx_frozen (unregister_path cid s) = mx_frozen s"
  by (simp_all add: unregister_path_def Let_def split: option.splits)

lemma unregistered:
  assumes "paths_ok s" "dict_get (mx_groups (unregister_path cid s)) key = Some g"
  shows "\<not> dict_has (gr_conns g) cid"
proof (cases "key = derive_peer_key s cid")
  case True
  with assms(2) show ?thesis
    by (auto simp: unregister_path_def Let_def store_group_get drop_path_def dict_has_def split: option.splits if_splits)
next
  case False
  with assms(2) have "dict_get (mx_groups s) key = Some g"
    by (auto simp: unregister_path_def Let_def store_group_get split: option.splits if_splits)
  with paths_ok_groupD[OF assms(1)] False show ?thesis by (auto simp: group_ok_def)
qed

lemma close_link_fields [simp]:
  "mx_links (close_link cid s) = dict_del cid (mx_links s)" "mx_groups (close_link cid s) = mx_groups (unregister_path cid s)"
  "mx_next_seq (close_link cid s) = mx_next_seq s" "mx_events (close_link cid s) = mx_events s"
  "mx_wire (close_link cid s) = dict_del cid (mx_wire s)" "mx_frozen (close_link cid s) = mx_frozen s"
  by (simp_all add: close_link_def Let_def)

lemma paths_ok_close [preserves]:
  assumes "paths_ok s" shows "paths_ok (close_link cid s)"
proof -
  let ?u = "unregister_path cid s"
  have u: "paths_ok ?u" using assms by (rule paths_ok_unregister)
  have "group_ok (close_link cid s) key g" if g: "dict_get (mx_groups ?u) key = Some g" for key g
    using paths_ok_groupD[OF u g] unregistered[OF assms g]
    by (auto simp: group_ok_def derive_peer_key_def dict_has_def)
  with u show ?thesis by (auto simp: paths_ok_def intro: dict_wf_del)
qed

text \<open>A connection is in no group but its own, so moving it finds nothing to do.\<close>

lemma rekey_idle: assumes "paths_ok s" shows "rekey_path cid s = s"
proof (cases "rekey_find_current_key cid s")
  case (Some old)
  then obtain g where "(old, g) \<in> set (mx_groups s)" "dict_has (gr_conns g) cid"
    unfolding rekey_find_current_key_def by (auto dest!: find_Some_mem)
  with assms have "old = derive_peer_key s cid"
    by (auto simp: paths_ok_def group_ok_def dict_mem_iff)
  with Some show ?thesis by (simp add: rekey_path_def)
qed (simp add: rekey_path_def)

lemma retire_fields [simp]:
  "mx_links (retire_old_generation cid s) = mx_links s" "mx_groups (retire_old_generation cid s) = mx_groups s"
  "mx_wire (retire_old_generation cid s) = mx_wire s" "mx_next_seq (retire_old_generation cid s) = mx_next_seq s"
  "mx_events (retire_old_generation cid s) = mx_events s"
  by (simp_all add: retire_old_generation_def split: option.splits)

lemma paths_ok_join [preserves]:
  "paths_ok s \<Longrightarrow> dict_has (mx_links s) cid \<Longrightarrow> paths_ok (join_group cfg now cid s)"
  unfolding join_group_def
  by (subst paths_ok_cong[where s = "register_path cfg now cid s"]) (simp_all add: rekey_idle paths_ok_register)

section \<open>The choice of a path\<close>

lemma best_path_mem: "best_path ps = Some c \<Longrightarrow> \<exists>m. (c, m) \<in> set ps"
  unfolding best_path_def first_key_def
  by (auto split: list.splits prod.splits) (metis list.set_intros(1) set_sort_with)

lemma best_path_None [simp]: "best_path ps = None \<longleftrightarrow> ps = []"
proof -
  have "set (sort_with path_ge ps) = set ps" by simp
  then have "sort_with path_ge ps = [] \<longleftrightarrow> ps = []" by (metis set_empty)
  then show ?thesis by (auto simp: best_path_def first_key_def split: list.splits)
qed

lemma dict_memI: "(k, v) \<in> set d \<Longrightarrow> dict_has d k"
  by (auto simp: dict_has_iff dict_keys_def intro: image_eqI[of k fst "(k, v)"])

lemma best_path_sub: "ps \<noteq> [] \<Longrightarrow> set ps \<subseteq> set d \<Longrightarrow> \<exists>p. best_path ps = Some p \<and> dict_has d p"
  by (cases "best_path ps") (auto dest!: best_path_mem intro: dict_memI)

lemma promote_primary_mem:
  "gr_conns g \<noteq> [] \<Longrightarrow> \<exists>p. promote_primary cfg s now g = Some p \<and> dict_has (gr_conns g) p"
  unfolding promote_primary_def Let_def by (rule best_path_sub) auto

lemma paths_ok_select [preserves]: assumes "paths_ok s" shows "paths_ok (snd (select_path cfg now key s))"
proof (cases "dict_get (mx_groups s) key")
  case (Some g)
  have g: "group_ok s key g" by (rule paths_ok_groupD[OF assms Some])
  then obtain p where p: "promote_primary cfg s now g = Some p" "dict_has (gr_conns g) p"
    using promote_primary_mem[of g cfg s now] by (auto simp: group_ok_def)
  have "dict_has (gr_conns g) i" if "try_preempt cfg s now g m = Some i" for i m
    using that by (auto simp: try_preempt_def dest!: best_path_mem intro: dict_memI)
  with p g assms Some show ?thesis
    by (auto simp: select_path_def Let_def intro!: paths_ok_put_group group_ok_primary split: option.splits)
qed (simp add: select_path_def assms)

section \<open>Frames and handshakes\<close>

lemma server_id_update [simp]:
  "link_server_id (l\<lparr>pc_pref := a\<rparr>) = link_server_id l" "link_server_id (l\<lparr>pc_seen := b\<rparr>) = link_server_id l"
  "link_server_id (l\<lparr>pc_auth_ok := c\<rparr>) = link_server_id l" "link_server_id (l\<lparr>pc_challenge := d\<rparr>) = link_server_id l"
  "link_server_id (l\<lparr>pc_advertised := c\<rparr>) = link_server_id l"
  by (simp_all add: link_server_id_def split: option.split)

lemma own_group_path:
  assumes "paths_ok s"
  shows "paths_ok (case dict_get (mx_groups s) key of None \<Rightarrow> s | Some g \<Rightarrow>
    (case dict_get (gr_conns g) cid of None \<Rightarrow> s
     | Some m \<Rightarrow> put_group key (g\<lparr>gr_conns := dict_set cid (F m) (gr_conns g)\<rparr>) s))"
  using assms by (auto intro: paths_ok_put_group[OF _ group_ok_set_path[OF paths_ok_groupD]] split: option.split)

lemma paths_ok_touch [preserves]: assumes "paths_ok s" shows "paths_ok (touch now cid s)"
proof (cases "dict_get (mx_links s) cid")
  case (Some l)
  show ?thesis unfolding touch_def Some option.case Let_def
    by (rule own_group_path, rule paths_ok_put_link[OF assms Some], simp)
qed (simp add: touch_def assms)

lemma paths_ok_bump [preserves]: assumes "paths_ok s" shows "paths_ok (hb_bump_last_seen now cid s)"
proof (cases "dict_get (mx_links s) cid")
  case (Some l)
  show ?thesis unfolding hb_bump_last_seen_def Some option.case Let_def
    by (rule own_group_path, rule paths_ok_put_link[OF assms Some], simp)
qed (simp add: hb_bump_last_seen_def assms)

lemma maybe_advertise_links: "dict_has (mx_links (maybe_advertise cfg env cid s)) c = dict_has (mx_links s) c"
  by (auto simp: maybe_advertise_def dict_has_def split: option.splits)

lemma paths_ok_advertise [preserves]: "paths_ok s \<Longrightarrow> paths_ok (maybe_advertise cfg env cid s)"
  by (auto simp: maybe_advertise_def intro!: paths_ok_put_link split: option.splits)

lemma paths_ok_auth [preserves]: "paths_ok s \<Longrightarrow> ctl_auth cfg env now cid payload s = Some t \<Longrightarrow> paths_ok t"
  by (auto simp: ctl_auth_def Let_def ctl_auth_challenge_def ctl_auth_response_def ctl_auth_ok_def
    intro!: paths_ok_close paths_ok_advertise paths_ok_put_link split: option.splits list.splits if_splits)

lemma paths_ok_hb [preserves]:
  "paths_ok s \<Longrightarrow> paths_ok (ctl_hb_req cfg env now cid raw s)"
  "paths_ok s \<Longrightarrow> paths_ok (ctl_hb_ack cfg now cid s)"
  using paths_ok_fields(7)[of cid s]
  by (auto simp: ctl_hb_req_def ctl_hb_ack_def Let_def intro!: paths_ok_touch split: option.splits prod.splits sum.splits
    simp del: paths_ok_fields(7))

lemma paths_ok_dispatch [preserves]: "paths_ok s \<Longrightarrow> paths_ok (ctl_dispatch cfg env now cid payload s)"
  by (simp add: ctl_dispatch_def ctl_shutdown_begin_def ctl_mpath_end_def paths_ok_hb paths_ok_close)

lemma paths_ok_control [preserves]: "paths_ok s \<Longrightarrow> paths_ok (process_control cfg env now cid text s)"
  by (auto simp: process_control_def Let_def intro: paths_ok_dispatch paths_ok_auth split: option.splits)

lemma route_inbound_fields [simp]:
  "mx_links (route_inbound cfg now cid f s) = mx_links s" "mx_groups (route_inbound cfg now cid f s) = mx_groups s"
  "mx_wire (route_inbound cfg now cid f s) = mx_wire s" "mx_next_seq (route_inbound cfg now cid f s) = mx_next_seq s"
  by (simp_all add: route_inbound_def Let_def split: option.splits prod.splits)

lemma mux_handle_ack_fields [simp]:
  "mx_links (mux_handle_ack cid f s) = mx_links s" "mx_groups (mux_handle_ack cid f s) = mx_groups s"
  "mx_wire (mux_handle_ack cid f s) = mx_wire s" "mx_next_seq (mux_handle_ack cid f s) = mx_next_seq s"
  "mx_events (mux_handle_ack cid f s) = mx_events s"
  by (simp_all add: mux_handle_ack_def Let_def split: option.splits)

lemma paths_ok_seq: "paths_ok s \<Longrightarrow> paths_ok (case next_frame_seq cid s of (q, t) \<Rightarrow> mux_write c (F q) t)"
  using paths_ok_fields(7)[of cid s] by (cases "next_frame_seq cid s") simp

lemma paths_ok_frame [preserves]: assumes "paths_ok s" shows "paths_ok (handle_frame cfg env now cid f s)"
proof -
  have "paths_ok (route_inbound cfg now cid x (touch now cid s))" for x
    by (subst paths_ok_cong[OF route_inbound_fields(1,2)]) (rule paths_ok_touch[OF assms])
  moreover have "paths_ok (mux_handle_ack cid f s)"
    by (subst paths_ok_cong[OF mux_handle_ack_fields(1,2)]) (rule assms)
  ultimately show ?thesis using assms
    by (simp add: handle_frame_def rl_handle_data_def rl_handle_open_def rl_handle_close_def send_auth_required_def
      Let_def paths_ok_control paths_ok_touch paths_ok_seq)
qed

lemma paths_ok_open_link [preserves]:
  "paths_ok s \<Longrightarrow> \<not> dict_has (mx_links s) cid \<Longrightarrow> paths_ok (open_link cid l s)"
  unfolding open_link_def by (subst paths_ok_cong[where s = "put_link cid l s"]) (simp_all add: paths_ok_new_link)

lemma open_link_fields [simp]: "mx_links (open_link cid l s) = dict_set cid l (mx_links s)"
  "mx_groups (open_link cid l s) = mx_groups s" "mx_wire (open_link cid l s) = dict_set cid 1 (mx_wire s)"
  "mx_next_seq (open_link cid l s) = mx_next_seq s" "mx_events (open_link cid l s) = mx_events s"
  by (simp_all add: open_link_def)

lemma paths_ok_annotate [preserves]: assumes "paths_ok s" shows "paths_ok (annotate_inbound cfg cid pref s)"
proof (cases "dict_get (mx_links s) cid")
  case (Some l)
  let ?s1 = "\<lambda>p. put_link cid (l\<lparr>pc_pref := p\<rparr>) s"
  have s1: "paths_ok (?s1 p)" for p
    by (rule paths_ok_put_link[OF assms Some]) simp
  then have "group_ok (?s1 p) key g" if "dict_get (mx_groups s) key = Some g" for key g p
    using paths_ok_groupD[OF s1[of p], of key g] that by simp
  with Some s1 show ?thesis
    by (auto simp: annotate_inbound_def Let_def dict_has_def split: option.splits
      intro!: paths_ok_put_group group_ok_promotion group_ok_set_path)
qed (simp add: annotate_inbound_def assms)

lemmas server_handshake_defs = server_handshake_def open_inbound_def refuse_key_def issue_challenge_def

lemma paths_ok_reopen [preserves]:
  assumes "paths_ok s" "\<not> dict_has (mx_links s) cid" shows "paths_ok (put_link cid l' (open_link cid l s))"
  using assms by (intro paths_ok_grow[OF assms(1)])
    (auto simp: derive_peer_key_def dict_has_def paths_ok_def intro!: dict_wf_set)

lemma paths_ok_accept [preserves]:
  assumes "paths_ok s" "\<not> dict_has (mx_links s) cid"
  shows "paths_ok (accept_client cfg env now nonce pref cid line s)"
proof -
  have "paths_ok (server_handshake cfg env now nonce cid line s)"
    using assms unfolding server_handshake_defs
    by (auto simp: Let_def dict_has_def split: option.splits
      intro!: paths_ok_advertise paths_ok_join paths_ok_close paths_ok_reopen paths_ok_open_link)
  then show ?thesis
    by (simp add: accept_client_def Let_def request_remote_ports_def paths_ok_seq paths_ok_annotate)
qed

lemma paths_ok_dial [preserves]:
  "paths_ok s \<Longrightarrow> \<not> dict_has (mx_links s) cid \<Longrightarrow> paths_ok (client_handshake cfg env now cid line s)"
  unfolding client_handshake_def Let_def
  by (auto simp: dict_has_def split: option.splits
    intro!: paths_ok_advertise paths_ok_join paths_ok_open_link)

section \<open>Sending and the periodic work\<close>

lemma select_writer_state: "snd (select_writer cfg now key s) = snd (select_path cfg now key s)"
  by (simp add: select_writer_def split: prod.splits option.splits)

lemma paths_ok_writer: "paths_ok s \<Longrightarrow> select_writer cfg now key s = (p, t) \<Longrightarrow> paths_ok t"
  using paths_ok_select[of s cfg now key] select_writer_state[of cfg now key s] by simp

lemma paths_ok_next: "paths_ok t \<Longrightarrow> next_frame_seq c t = (q, u) \<Longrightarrow> paths_ok u"
  using paths_ok_fields(7)[of c t] by simp

lemma paths_ok_sequenced [preserves]: "paths_ok s \<Longrightarrow> paths_ok (snd (send_sequenced cfg now key frame s))"
proof (cases "select_writer cfg now key s")
  case (Pair p t)
  assume "paths_ok s"
  then have "paths_ok t" using Pair by (rule paths_ok_writer)
  then show ?thesis using Pair
    by (auto simp: send_sequenced_def intro: paths_ok_next split: option.splits prod.splits)
qed

lemma paths_ok_send_data [preserves]: "paths_ok s \<Longrightarrow> paths_ok (snd (mux_send_data cfg now key sid data s))"
proof (cases "select_writer cfg now key s")
  case (Pair p t)
  assume "paths_ok s"
  then have t: "paths_ok t" using Pair by (rule paths_ok_writer)
  then have "paths_ok (t\<lparr>mx_tx := d\<rparr>)" for d by (subst paths_ok_cong[where s = t]) simp_all
  with t show ?thesis using Pair by (auto simp: mux_send_data_def split: option.splits prod.splits)
qed

lemma fold_keeps: "(\<And>x s. P s \<Longrightarrow> P (f x s)) \<Longrightarrow> P s \<Longrightarrow> P (fold f xs s)"
  by (induction xs arbitrary: s) auto

lemma paths_ok_hb_step [preserves]: assumes "paths_ok s" shows "paths_ok (hb_step cfg now e s)"
proof -
  have check: "paths_ok (hb_check_timeout cfg now c t)" if "paths_ok t" for c t
    using that by (simp add: hb_check_timeout_def Let_def paths_ok_close)
  have "paths_ok t" if "next_frame_seq c (put_beat c b s) = (q, t)" for c b q t
    using paths_ok_fields(7)[of c "put_beat c b s"] that assms by simp
  with assms show ?thesis
    by (auto simp: hb_step_def hb_frozen_step_def hb_drop_step_def hb_send_step_def Let_def paths_ok_close
      intro!: paths_ok_bump check split: prod.splits sum.splits)
qed

lemma paths_ok_tick [preserves]: "paths_ok s \<Longrightarrow> paths_ok (heartbeat_tick cfg now s)"
  unfolding heartbeat_tick_def by (rule fold_keeps[where P = paths_ok, OF paths_ok_hb_step])

lemma paths_ok_prune_one [preserves]:
  assumes "paths_ok s" shows "paths_ok (mfl_prune_one_idle cfg now key e s)"
proof -
  have "paths_ok (case dict_get (mx_groups s) key of None \<Rightarrow> s | Some g \<Rightarrow> store_group key (drop_path (fst e) g) s)"
    using assms by (auto intro: paths_ok_store_group[OF _ group_ok_drop] dest: paths_ok_groupD split: option.split)
  then show ?thesis using assms unfolding mfl_prune_one_idle_def Let_def
    by (auto simp: paths_ok_def group_ok_def derive_peer_key_def)
qed

lemma paths_ok_prune [preserves]: "paths_ok s \<Longrightarrow> paths_ok (mfl_prune_idle cfg now key s)"
  unfolding mfl_prune_idle_def by (auto intro: fold_keeps[where P = paths_ok, OF paths_ok_prune_one])

lemma paths_ok_set_changed [preserves]: "paths_ok s \<Longrightarrow> paths_ok (set_changed key t s)"
  by (auto simp: set_changed_def intro!: paths_ok_put_group dest: paths_ok_groupD split: option.split)

lemma paths_ok_scan [preserves]:
  assumes "paths_ok s" shows "paths_ok (mfl_preemptive_scan cfg now key p m c s)"
proof (cases "dict_get (mx_groups s) key")
  case None
  then show ?thesis using assms
    by (simp add: mfl_preemptive_scan_def Let_def alternatives_def group_at_def new_group_def split: option.split)
      (simp add: best_path_def first_key_def sort_with_def)
next
  case (Some g)
  have g: "group_ok s key g" by (rule paths_ok_groupD[OF assms Some])
  have "dict_has (gr_conns g) n" if "best_path (filter P (alternatives s c p g)) = Some n" for n P
    using that by (auto simp: alternatives_def dest!: best_path_mem intro: dict_memI)
  then have "group_ok s key (g\<lparr>gr_primary := Some n, gr_changed := Some now\<rparr>)"
    if "best_path (filter P (alternatives s c p g)) = Some n" for n P
    using group_ok_primary[OF g, of n] group_ok_changed[of s key "Some now" "g\<lparr>gr_primary := Some n\<rparr>"] that by simp
  then show ?thesis using assms Some
    by (auto simp: mfl_preemptive_scan_def Let_def group_at_def intro!: paths_ok_put_group split: option.split)
qed

lemma paths_ok_sweep_group [preserves]:
  assumes "paths_ok s" shows "paths_ok (mfl_sweep_group cfg now key s)"
proof -
  have "paths_ok (mfl_stale_promote cfg now k p c t)" if "paths_ok t" for k p c t
    using paths_ok_select[OF that, of cfg now k] that
    by (auto simp: mfl_stale_promote_def Let_def intro: paths_ok_set_changed split: prod.split option.split)
  then have "paths_ok (mfl_eval_primary cfg now k p m c t)" if "paths_ok t" for k p m c t
    using that by (auto simp: mfl_eval_primary_def Let_def paths_ok_scan paths_ok_set_changed)
  then show ?thesis using assms
    by (auto simp: mfl_sweep_group_def Let_def paths_ok_prune paths_ok_select split: option.split)
qed

lemma paths_ok_sweep [preserves]: "paths_ok s \<Longrightarrow> paths_ok (mfl_sweep_once cfg now s)"
  unfolding mfl_sweep_once_def by (rule fold_keeps[where P = paths_ok]) (auto intro: paths_ok_sweep_group)

lemma paths_ok_faults [preserves]:
  assumes "paths_ok s"
  shows "paths_ok (snd (freeze_connection cfg cid s))" "paths_ok (snd (unfreeze_connection now cid s))"
    "paths_ok (snd (set_drop_heartbeats cid on s))" "paths_ok (snd (force_close_connection cid s))"
proof -
  have f: "paths_ok (s\<lparr>mx_frozen := xs\<rparr>)" "paths_ok (s\<lparr>mx_dropping := xs\<rparr>)" for xs
    by (subst paths_ok_cong[where s = s]; simp add: assms)+
  then show "paths_ok (snd (freeze_connection cfg cid s))" "paths_ok (snd (unfreeze_connection now cid s))"
    "paths_ok (snd (set_drop_heartbeats cid on s))" "paths_ok (snd (force_close_connection cid s))"
    using assms by (simp_all add: freeze_connection_def unfreeze_connection_def set_drop_heartbeats_def
      force_close_connection_def Let_def age_beat_def paths_ok_bump paths_ok_close split: option.split)
qed

lemma paths_ok_run_close [preserves]: assumes "paths_ok s" shows "paths_ok (run_close s)"
proof -
  have "paths_ok (s\<lparr>mx_closing := xs\<rparr>)" for xs by (subst paths_ok_cong[where s = s]) (simp_all add: assms)
  then show ?thesis using assms by (simp add: run_close_def paths_ok_close split: list.split)
qed

lemma paths_ok_do [preserves]:
  assumes "paths_ok s" "\<forall>cid. opens op = Some cid \<longrightarrow> \<not> dict_has (mx_links s) cid"
  shows "paths_ok (mux_do cfg env now op s)"
  using assms by (cases op)
    (simp_all add: mux_do_def opens_def paths_ok_accept paths_ok_dial paths_ok_frame paths_ok_close paths_ok_send_data
      send_control_mpath_def send_stream_open_mpath_def send_stream_close_mpath_def paths_ok_sequenced paths_ok_tick
      paths_ok_sweep paths_ok_run_close paths_ok_faults initiate_graceful_shutdown_def Let_def)

lemma paths_ok_run: "mux_run cfg env h s \<Longrightarrow> paths_ok s"
  by (induction rule: mux_run.induct) (simp_all add: paths_ok_do, simp add: mux0_def paths_ok_def)

end
