(* ===== verification/MuxAuth.thy ===== *)
theory MuxAuth
  imports MuxRun
begin

text \<open>
  What a run of links guarantees about identity and numbering: the credentials of a link change only
  by an accepted connection and by a signed answer, the frame counters stay in 63 bits, and a frame of
  a link that has not authenticated reaches no handler.
\<close>

section \<open>Credentials and counters under an operation\<close>

definition cred :: "peer_conn \<Rightarrow> bool \<times> bool \<times> challenge option" where
  "cred l = (pc_client l, pc_auth_ok l, pc_challenge l)"

definition counter_range :: "int \<Rightarrow> bool" where
  "counter_range q \<longleftrightarrow> 1 \<le> q \<and> q < 2 ^ 63"

definition counters_ok :: "mux \<Rightarrow> bool" where
  "counters_ok s \<longleftrightarrow> counter_range (mx_next_seq s) \<and> (\<forall>c q. dict_get (mx_wire s) c = Some q \<longrightarrow> counter_range q)"

definition creds_of :: "mux \<Rightarrow> string \<Rightarrow> (bool \<times> bool \<times> challenge option) option" where
  "creds_of s c = map_option cred (dict_get (mx_links s) c)"

text \<open>Every link of \<open>t\<close> is one of \<open>s\<close> with the same credentials, and the counters stay in range.\<close>

definition tacit :: "mux \<Rightarrow> mux \<Rightarrow> bool" where
  "tacit s t \<longleftrightarrow> (\<forall>c. creds_of t c = None \<or> creds_of t c = creds_of s c) \<and> (counters_ok s \<longrightarrow> counters_ok t)"

lemma tacit_refl [simp, intro]: "tacit s s"
  by (simp add: tacit_def)

lemma tacit_trans: "tacit s t \<Longrightarrow> tacit t u \<Longrightarrow> tacit s u"
  unfolding tacit_def by metis

lemma tacitI: "(\<And>c. creds_of u c = None \<or> creds_of u c = creds_of t c) \<Longrightarrow> (counters_ok t \<Longrightarrow> counters_ok u)
    \<Longrightarrow> tacit s t \<Longrightarrow> tacit s u"
  by (rule tacit_trans[of s t]) (simp_all add: tacit_def)

lemma tacit_same: "mx_links t = mx_links s \<Longrightarrow> mx_wire t = mx_wire s \<Longrightarrow> mx_next_seq t = mx_next_seq s \<Longrightarrow> tacit s t"
  by (simp add: tacit_def counters_ok_def creds_of_def)

lemma tacit_into_same: "mx_links t = mx_links u \<Longrightarrow> mx_wire t = mx_wire u \<Longrightarrow> mx_next_seq t = mx_next_seq u
    \<Longrightarrow> tacit s t = tacit s u"
  by (simp add: tacit_def counters_ok_def creds_of_def)

lemma tacit_through [simp]:
  "tacit s (mux_write cid b t) = tacit s t" "tacit s (put_group k g t) = tacit s t"
  "tacit s (put_beat cid bt t) = tacit s t" "tacit s (mux_emit e t) = tacit s t"
  "tacit s (mark_shut cid t) = tacit s t" "tacit s (apply_filters_of_key cid ko t) = tacit s t"
  "tacit s (store_group k g t) = tacit s t" "tacit s (unregister_path cid t) = tacit s t"
  "tacit s (route_inbound cfg now cid df t) = tacit s t" "tacit s (mux_handle_ack cid f t) = tacit s t"
  "tacit s (retire_old_generation cid t) = tacit s t" "tacit s (t\<lparr>mx_frozen := xs\<rparr>) = tacit s t"
  "tacit s (t\<lparr>mx_dropping := xs\<rparr>) = tacit s t" "tacit s (t\<lparr>mx_closing := xs\<rparr>) = tacit s t"
  "tacit s (t\<lparr>mx_tx := txs\<rparr>) = tacit s t"
  by (rule tacit_into_same; simp)+

lemma counter_range_bump: "counter_range 1" "counter_range q \<Longrightarrow> \<not> 2 ^ 63 \<le> q + 1 \<Longrightarrow> counter_range (q + 1)"
  by (simp_all add: counter_range_def)

lemma counters_next: "counters_ok s \<Longrightarrow> next_frame_seq cid s = (q, t) \<Longrightarrow> counter_range q \<and> counters_ok t"
  by (auto simp: counters_ok_def next_frame_seq_def Let_def simp del: power_numeral
    intro: counter_range_bump split: option.splits if_splits) (meson counter_range_bump(2))

lemma tacit_next_pair: assumes "next_frame_seq cid t = (q, u)" "tacit s t" shows "tacit s u"
proof (rule tacitI[OF _ _ assms(2)])
  show "creds_of u c = None \<or> creds_of u c = creds_of t c" for c
    using next_frame_seq_fields(1)[of cid t] assms(1) by (simp add: creds_of_def)
qed (use counters_next[OF _ assms(1)] in blast)

lemma tacit_next: "tacit s t \<Longrightarrow> tacit s (snd (next_frame_seq cid t))"
  by (cases "next_frame_seq cid t") (simp add: tacit_next_pair)

lemma tacit_control [intro]: "tacit s t \<Longrightarrow> tacit s (control cid text t)"
  by (simp add: control_eq tacit_next)

lemma tacit_put_link [intro]:
  assumes "tacit s t" "dict_get (mx_links t) cid = Some l" "cred l' = cred l" shows "tacit s (put_link cid l' t)"
  by (rule tacitI[OF _ _ assms(1)]) (simp_all add: creds_of_def assms(2,3) counters_ok_def)

lemma tacit_close [intro]: assumes "tacit s t" shows "tacit s (close_link cid t)"
  by (rule tacitI[OF _ _ assms]) (simp_all add: creds_of_def counters_ok_def)

lemma cred_update [simp]:
  "cred (l\<lparr>pc_seen := a\<rparr>) = cred l" "cred (l\<lparr>pc_pref := b\<rparr>) = cred l" "cred (l\<lparr>pc_advertised := c\<rparr>) = cred l"
  by (simp_all add: cred_def)

lemma tacit_own_path:
  "tacit s t \<Longrightarrow> tacit s (case dict_get (mx_groups t) key of None \<Rightarrow> t | Some g \<Rightarrow>
    (case dict_get (gr_conns g) cid of None \<Rightarrow> t | Some m \<Rightarrow> put_group key (F g m) t))"
  by (auto split: option.split)

lemma tacit_touch [intro]: "tacit s t \<Longrightarrow> tacit s (touch now cid t)"
  unfolding touch_def Let_def
  by (auto intro!: tacit_own_path tacit_put_link split: option.split)

lemma tacit_bump [intro]: "tacit s t \<Longrightarrow> tacit s (hb_bump_last_seen now cid t)"
  unfolding hb_bump_last_seen_def Let_def
  by (auto intro!: tacit_own_path tacit_put_link split: option.split)

lemma tacit_advertise [intro]: "tacit s t \<Longrightarrow> tacit s (maybe_advertise cfg env cid t)"
  by (auto simp: maybe_advertise_def split: option.split)

lemma tacit_select [intro]: "tacit s t \<Longrightarrow> tacit s (snd (select_path cfg now key t))"
  by (auto simp: select_path_def Let_def split: option.split)

section \<open>The operations\<close>

lemma tacit_retire [intro]: "tacit s t \<Longrightarrow> paths_ok t \<Longrightarrow> dict_has (mx_links t) cid \<Longrightarrow> tacit s (join_group cfg now cid t)"
  by (simp add: join_group_def rekey_idle paths_ok_register) (simp add: register_path_def Let_def)

lemma tacit_writer: "tacit s t \<Longrightarrow> select_writer cfg now key t = (p, u) \<Longrightarrow> tacit s u"
  using tacit_select[of s t cfg now key] select_writer_state[of cfg now key t] by simp

lemma tacit_sequenced [intro]: "tacit s t \<Longrightarrow> tacit s (snd (send_sequenced cfg now key frame t))"
  by (auto simp: send_sequenced_def intro: tacit_next_pair tacit_writer split: prod.split option.split)

lemma tacit_send_data [intro]: "tacit s t \<Longrightarrow> tacit s (snd (mux_send_data cfg now key sid data t))"
  by (auto simp: mux_send_data_def intro: tacit_writer split: prod.split option.split)

lemma tacit_hb_step [intro]: assumes "tacit s t" shows "tacit s (hb_step cfg now e t)"
proof -
  have check: "tacit s (hb_check_timeout cfg now c u)" if "tacit s u" for c u
    using that by (simp add: hb_check_timeout_def Let_def tacit_close)
  have "tacit s (hb_send_step cfg now c l t)" for c l
    by (simp add: hb_send_step_def assms check tacit_bump
      tacit_next_pair[where t = "put_beat c ((beat_of c t)\<lparr>bt_req := now\<rparr>) t"] split: prod.split sum.split)
  with assms show ?thesis
    by (simp add: hb_step_def hb_frozen_step_def hb_drop_step_def Let_def tacit_close split: prod.split)
qed

lemma tacit_tick [intro]: "tacit s t \<Longrightarrow> tacit s (heartbeat_tick cfg now t)"
  unfolding heartbeat_tick_def by (rule fold_keeps[where P = "tacit s"]) auto

lemma tacit_set_changed [intro]: "tacit s t \<Longrightarrow> tacit s (set_changed key x t)"
  by (simp add: set_changed_def split: option.split)

lemma tacit_prune [intro]: "tacit s t \<Longrightarrow> tacit s (mfl_prune_idle cfg now key t)"
  unfolding mfl_prune_idle_def
  by (auto intro!: fold_keeps[where P = "tacit s"] simp: mfl_prune_one_idle_def Let_def split: option.split)

lemma tacit_sweep_group [intro]: assumes "tacit s t" shows "tacit s (mfl_sweep_group cfg now key t)"
proof -
  have "tacit s (mfl_stale_promote cfg now k p c u)" if "tacit s u" for k p c u
    using tacit_select[OF that, of cfg now k] that
    by (auto simp: mfl_stale_promote_def Let_def split: prod.split option.split)
  moreover have "tacit s (mfl_preemptive_scan cfg now k p m c u)" if "tacit s u" for k p m c u
    using that by (simp add: mfl_preemptive_scan_def Let_def split: option.split)
  ultimately have "tacit s (mfl_eval_primary cfg now k p m c u)" if "tacit s u" for k p m c u
    using that by (auto simp: mfl_eval_primary_def Let_def tacit_set_changed)
  then show ?thesis using tacit_prune[OF assms, of cfg now key]
    by (auto simp: mfl_sweep_group_def Let_def split: option.split)
qed

lemma tacit_sweep [intro]: "tacit s t \<Longrightarrow> tacit s (mfl_sweep_once cfg now t)"
  unfolding mfl_sweep_once_def by (rule fold_keeps[where P = "tacit s"]) auto

lemma tacit_faults [intro]:
  assumes "tacit s t"
  shows "tacit s (snd (freeze_connection cfg cid t))" "tacit s (snd (unfreeze_connection now cid t))"
    "tacit s (snd (set_drop_heartbeats cid on t))" "tacit s (snd (force_close_connection cid t))"
  using assms by (auto simp: freeze_connection_def unfreeze_connection_def set_drop_heartbeats_def
      force_close_connection_def Let_def age_beat_def split: option.split)

lemma tacit_run_close [intro]: "tacit s t \<Longrightarrow> tacit s (run_close t)"
  by (auto simp: run_close_def split: list.split)

section \<open>The signed answer\<close>

text \<open>The frame answers the challenge in time: its signature over the nonce is verified by the key the
  link named.\<close>

definition proves :: "mux_cfg \<Rightarrow> mux_env \<Rightarrow> int \<Rightarrow> frame_obj \<Rightarrow> challenge \<Rightarrow> bool" where
  "proves cfg env now f ch \<longleftrightarrow> (fr_type f = ''C'' \<or> fr_type f = ''HB'') \<and> now \<le> ch_expires ch \<and>
     (case split_on (CHR '':'') (strip (decode_text_ignore (fr_payload f))) of
        _ # pk # verb # kid # text # _ \<Rightarrow>
          pk = ''PK'' \<and> verb = ''RESPONSE'' \<and> kid = ch_key ch \<and> good_signature cfg env kid text ch
      | _ \<Rightarrow> False)"

lemma auth_response_cases:
  "tacit s (ctl_auth_response cfg env now cid kid sig s)
   \<or> (\<exists>l ch. dict_get (mx_links s) cid = Some l \<and> pc_challenge l = Some ch \<and> kid = ch_key ch \<and> now \<le> ch_expires ch
      \<and> good_signature cfg env kid sig ch
      \<and> tacit (put_link cid (l\<lparr>pc_auth_ok := True, pc_challenge := None\<rparr>) s) (ctl_auth_response cfg env now cid kid sig s))"
proof (cases "\<exists>l ch. dict_get (mx_links s) cid = Some l \<and> pc_challenge l = Some ch \<and> kid = ch_key ch \<and> now \<le> ch_expires ch
      \<and> good_signature cfg env kid sig ch")
  case True
  then show ?thesis by (auto simp: ctl_auth_response_def intro!: tacit_advertise tacit_control)
next
  case False
  then show ?thesis
    by (auto simp: ctl_auth_response_def not_less tacit_close tacit_control split: option.split)
qed

lemma auth_ok_cases:
  "tacit s (ctl_auth_ok cfg env cid s)
   \<or> (\<exists>l. dict_get (mx_links s) cid = Some l \<and> pc_client l
        \<and> tacit (put_link cid (l\<lparr>pc_auth_ok := True\<rparr>) s) (ctl_auth_ok cfg env cid s))"
  by (simp add: ctl_auth_ok_def tacit_close tacit_advertise split: option.split)

lemma tacit_challenge: "tacit s (ctl_auth_challenge cfg env cid kid n s)"
  by (auto simp: ctl_auth_challenge_def split: option.split)

lemma tacit_hb_req: "tacit s (ctl_hb_req cfg env now cid raw s)"
proof (cases "next_frame_seq cid s")
  case (Pair q t)
  have "tacit s t" by (rule tacit_next_pair[OF Pair tacit_refl])
  then show ?thesis using Pair by (simp add: ctl_hb_req_def tacit_touch split: option.split sum.split)
qed

lemma tacit_dispatch: "tacit s (ctl_dispatch cfg env now cid payload s)"
  by (simp add: ctl_dispatch_def ctl_shutdown_begin_def ctl_mpath_end_def ctl_hb_ack_def Let_def
    tacit_hb_req tacit_close tacit_control tacit_touch)

lemma tacit_handlers: "tacit s (rl_handle_data cfg now cid f s)" "tacit s (rl_handle_open cfg now cid f s)"
  "tacit s (rl_handle_close cfg now cid f s)"
proof -
  have "tacit s (route_inbound cfg now cid x (touch now cid s))" for x by (simp add: tacit_touch)
  then show "tacit s (rl_handle_data cfg now cid f s)"
    by (auto simp: rl_handle_data_def send_auth_required_def Let_def tacit_control intro: tacit_next_pair split: prod.split)
qed (simp_all add: rl_handle_open_def rl_handle_close_def send_auth_required_def tacit_control tacit_touch)

lemma five_parts:
  "(case xs of _ # pk # verb # kid # text # _ \<Rightarrow> F pk verb kid text | _ \<Rightarrow> R) = Some u
     \<Longrightarrow> R = Some u \<or> (\<exists>a pk verb kid text r. xs = a # pk # verb # kid # text # r \<and> F pk verb kid text = Some u)"
  by (auto split: list.splits)

lemma auth_cases:
  assumes "ctl_auth cfg env now cid p s = Some u"
  shows "u = ctl_auth_ok cfg env cid s \<or> u = close_link cid s \<or> (\<exists>kid n. u = ctl_auth_challenge cfg env cid kid n s)
    \<or> (\<exists>a kid sig r. split_on (CHR '':'') p = a # ''PK'' # ''RESPONSE'' # kid # sig # r
        \<and> u = ctl_auth_response cfg env now cid kid sig s)"
  using five_parts[OF assms[unfolded ctl_auth_def Let_def]]
  by (elim disjE exE conjE) (auto split: if_split_asm)

text \<open>What an incoming frame does to the credentials: nothing, an initiator's link is confirmed, or the
  challenge of the link is answered.\<close>

lemma frame_cases:
  "tacit s (handle_frame cfg env now cid f s)
   \<or> (\<exists>l. dict_get (mx_links (touch now cid s)) cid = Some l \<and> pc_client l
      \<and> tacit (put_link cid (l\<lparr>pc_auth_ok := True\<rparr>) (touch now cid s)) (handle_frame cfg env now cid f s))
   \<or> (\<exists>l ch. dict_get (mx_links (touch now cid s)) cid = Some l \<and> pc_challenge l = Some ch \<and> proves cfg env now f ch
      \<and> tacit (put_link cid (l\<lparr>pc_auth_ok := True, pc_challenge := None\<rparr>) (touch now cid s)) (handle_frame cfg env now cid f s))"
  (is "?tacit \<or> ?client \<or> ?proof")
proof -
  let ?s = "touch now cid s" and ?p = "strip (decode_text_ignore (fr_payload f))" and ?h = "handle_frame cfg env now cid f s"
  have t: "tacit s ?s" by (simp add: tacit_touch)
  have eq: "?h = (case (if startswith ''AUTH:'' ?p then ctl_auth cfg env now cid ?p ?s else None) of
      Some u \<Rightarrow> u | None \<Rightarrow> ctl_dispatch cfg env now cid ?p ?s)" if "fr_type f = ''C'' \<or> fr_type f = ''HB''"
    using that by (simp add: handle_frame_def process_control_def Let_def)
  consider "\<not> (fr_type f = ''C'' \<or> fr_type f = ''HB'')"
    | "?h = ctl_dispatch cfg env now cid ?p ?s"
    | u where "fr_type f = ''C'' \<or> fr_type f = ''HB''" "ctl_auth cfg env now cid ?p ?s = Some u" "?h = u"
    using eq by (cases "startswith ''AUTH:'' ?p"; cases "ctl_auth cfg env now cid ?p ?s") auto
  then show ?thesis
  proof cases
    case 1
    then have ?tacit by (simp add: handle_frame_def tacit_handlers)
    then show ?thesis ..
  next
    case 2
    with tacit_trans[OF t tacit_dispatch] show ?thesis by simp
  next
    case (3 u)
    from auth_cases[OF 3(2)] show ?thesis
    proof (elim disjE exE conjE)
      assume "u = ctl_auth_ok cfg env cid ?s"
      then have "?h = ctl_auth_ok cfg env cid ?s" using 3(3) by simp
      with auth_ok_cases[of ?s cfg env cid] have "tacit ?s ?h \<or> ?client" by simp
      then show ?thesis using tacit_trans[OF t, of ?h] by argo
    next
      assume "u = close_link cid ?s"
      with tacit_trans[OF t tacit_close[OF tacit_refl]] 3(3) show ?thesis by simp
    next
      fix kid n assume "u = ctl_auth_challenge cfg env cid kid n ?s"
      with tacit_trans[OF t tacit_challenge] 3(3) show ?thesis by simp
    next
      fix a kid sig r
      assume a: "split_on (CHR '':'') ?p = a # ''PK'' # ''RESPONSE'' # kid # sig # r"
        "u = ctl_auth_response cfg env now cid kid sig ?s"
      from auth_response_cases[of ?s cfg env now cid kid sig] show ?thesis
      proof (elim disjE exE conjE)
        assume "tacit ?s (ctl_auth_response cfg env now cid kid sig ?s)"
        with tacit_trans[OF t] a 3(3) show ?thesis by simp
      next
        fix l ch
        assume l: "dict_get (mx_links ?s) cid = Some l" "pc_challenge l = Some ch"
          "tacit (put_link cid (l\<lparr>pc_auth_ok := True, pc_challenge := None\<rparr>) ?s) (ctl_auth_response cfg env now cid kid sig ?s)"
          and "kid = ch_key ch" "now \<le> ch_expires ch" "good_signature cfg env kid sig ch"
        then have "proves cfg env now f ch" using a(1) 3(1) unfolding proves_def by simp
        with l a(2) 3(3) have ?proof by auto
        then show ?thesis by argo
      qed
    qed
  qed
qed

section \<open>Runs\<close>

lemma creds_put_link: "creds_of (put_link cid l s) c = (if c = cid then Some (cred l) else creds_of s c)"
  by (simp add: creds_of_def)

lemma creds_fields [simp]:
  "creds_of (mux_write cid b s) c = creds_of s c" "creds_of (control cid x s) c = creds_of s c"
  "creds_of (open_link cid l s) c = (if c = cid then Some (cred l) else creds_of s c)"
  by (simp_all add: creds_of_def)

lemma tacit_creds: "tacit s t \<Longrightarrow> creds_of t c = Some x \<Longrightarrow> creds_of s c = Some x"
  unfolding tacit_def by (metis option.distinct(1))

lemma tacit_annotate [intro]: "tacit s t \<Longrightarrow> tacit s (annotate_inbound cfg cid pref t)"
  by (auto simp: annotate_inbound_def Let_def split: option.split)

lemma counters_open: "counters_ok s \<Longrightarrow> counters_ok (open_link cid l s)"
  by (simp add: counters_ok_def counter_range_def)

lemma counters_put_link [simp]: "counters_ok (put_link cid l s) = counters_ok s" "counters_ok (mux_write cid b s) = counters_ok s"
  by (simp_all add: counters_ok_def)

lemma counters_quiet: "tacit s t \<Longrightarrow> counters_ok s \<Longrightarrow> counters_ok t"
  by (simp add: tacit_def)

lemma write_commutes:
  "open_link cid l (mux_write c b s) = mux_write c b (open_link cid l s)"
  "put_link cid l (mux_write c b s) = mux_write c b (put_link cid l s)"
  by (simp_all add: open_link_def mux_write_def put_link_def)

text \<open>What accepting a connection leaves: its link is not authenticated, with the challenge just made.\<close>

lemma accept_tacit:
  assumes "paths_ok s" "\<not> dict_has (mx_links s) cid"
  obtains "accept_client cfg env now nonce pref cid line s = s"
  | l where "tacit (open_link cid l s) (accept_client cfg env now nonce pref cid line s)"
      "mc_auth_required cfg \<Longrightarrow> cred l = (False, False, None)"
  | l l' k where "tacit (put_link cid l' (open_link cid l s)) (accept_client cfg env now nonce pref cid line s)"
      "dict_has (mc_pubkeys cfg) k" "cred l' = (False, False, Some \<lparr>ch_key = k, ch_nonce = nonce, ch_expires = now + 30\<rparr>)"
proof (cases "parse_handshake (strip (decode_text_ignore line))")
  case None
  then show ?thesis using that(1) assms(2)
    by (simp add: accept_client_def server_handshake_defs annotate_inbound_def is_conn_authenticated_def dict_has_def)
next
  case (Some h)
  have rest: "tacit u (accept_client cfg env now nonce pref cid line s)"
    if "tacit u (server_handshake cfg env now nonce cid line s)" for u
    using that by (auto simp: accept_client_def Let_def request_remote_ports_def intro!: tacit_annotate
      intro: tacit_next_pair tacit_annotate split: prod.split)
  let ?resp = "encode_text (create_handshake_response (validate_capabilities (hl_caps h)) (Some (mc_server cfg))
    (Some (mc_instance cfg))) @ [NL]"
  let ?l = "\<lparr>pc_client = False, pc_writer = True, pc_hello = Some h, pc_server = hl_server h,
    pc_instance = hl_instance h, pc_opened = now, pc_seen = now,
    pc_auth_ok = (\<not> mc_auth_required cfg), pc_challenge = None, pc_pref = None, pc_advertised = False\<rparr>"
  let ?o = "open_link cid ?l s"
  have o: "paths_ok (open_link cid l1 s)" "paths_ok (put_link cid l2 (open_link cid l1 s))" for l1 l2
    using assms by (rule paths_ok_open_link, rule paths_ok_reopen)
  show ?thesis
  proof (cases "mc_auth_required cfg \<and> (\<exists>k. hl_pkid h = Some k \<and> dict_has (mc_pubkeys cfg) k)")
    case True
    then obtain k where k: "mc_auth_required cfg" "hl_pkid h = Some k" "dict_has (mc_pubkeys cfg) k" by blast
    let ?l' = "?l\<lparr>pc_challenge := Some \<lparr>ch_key = k, ch_nonce = nonce, ch_expires = now + 30\<rparr>\<rparr>"
    have "tacit (put_link cid ?l' ?o) (server_handshake cfg env now nonce cid line s)"
      unfolding server_handshake_defs Some option.case Let_def
      using k by (auto simp: write_commutes dict_has_def o intro!: tacit_advertise tacit_retire tacit_control)
    from rest[OF this] k(1,3) show ?thesis by (intro that(3)[of ?l' ?l k]) (simp_all add: cred_def)
  next
    case False
    have "tacit ?o (server_handshake cfg env now nonce cid line s)"
      unfolding server_handshake_defs Some option.case Let_def
      using False by (auto simp: write_commutes dict_has_def o intro!: tacit_advertise tacit_retire tacit_control tacit_close split: option.split)
    from rest[OF this] show ?thesis by (intro that(2)[of ?l]) (simp_all add: cred_def)
  qed
qed

lemma dialled:
  assumes "paths_ok s" "\<not> dict_has (mx_links s) cid"
  obtains "tacit s (client_handshake cfg env now cid line s)"
  | l where "pc_client l" "tacit (open_link cid l s) (client_handshake cfg env now cid line s)"
proof (cases "parse_ok (decode_text_ignore line)")
  case None
  then show ?thesis using that(1) by (simp add: client_handshake_def Let_def)
next
  case (Some p)
  obtain sid inst where p: "p = (sid, inst)" by (cases p)
  let ?l = "\<lparr>pc_client = True, pc_writer = True, pc_hello = None, pc_server = sid,
    pc_instance = inst, pc_opened = now, pc_seen = now, pc_auth_ok = False,
    pc_challenge = None, pc_pref = None, pc_advertised = False\<rparr>"
  have "paths_ok (open_link cid ?l s)" using assms by (rule paths_ok_open_link)
  then have "tacit (open_link cid ?l s) (client_handshake cfg env now cid line s)"
    unfolding client_handshake_def Let_def Some p option.case prod.case write_commutes
    by (intro tacit_advertise tacit_retire) (simp_all add: dict_has_def)
  then show ?thesis using that(2)[of ?l] by simp
qed

text \<open>Every other operation but an incoming frame changes no credentials.\<close>

lemma other_quiet:
  assumes "opens op = None" "\<forall>cid f. op \<noteq> Incoming cid f" shows "tacit s (mux_do cfg env now op s)"
  using assms by (cases op)
    (auto simp: mux_do_def opens_def send_control_mpath_def send_stream_open_mpath_def send_stream_close_mpath_def
      initiate_graceful_shutdown_def Let_def intro!: tacit_close tacit_control)

subsection \<open>Counters\<close>

lemma counters_do:
  assumes "paths_ok s" "\<forall>cid. opens op = Some cid \<longrightarrow> \<not> dict_has (mx_links s) cid" "counters_ok s"
  shows "counters_ok (mux_do cfg env now op s)"
proof (cases op)
  case (Accept cid line nonce pref)
  then have fresh: "\<not> dict_has (mx_links s) cid" using assms(2) by (simp add: opens_def)
  show ?thesis
    by (rule accept_tacit[OF assms(1) fresh, of cfg env now nonce pref line])
      (use assms(3) Accept in \<open>auto simp: mux_do_def intro: counters_quiet counters_open counters_put_link(1)[THEN iffD2]\<close>)
next
  case (Dial cid line)
  then have fresh: "\<not> dict_has (mx_links s) cid" using assms(2) by (simp add: opens_def)
  show ?thesis
    by (rule dialled[OF assms(1) fresh, of cfg env now line])
      (use assms(3) Dial in \<open>auto simp: mux_do_def intro: counters_quiet counters_open counters_put_link(1)[THEN iffD2]\<close>)
next
  case (Incoming cid f)
  have "counters_ok (touch now cid s)" using assms(3) by (rule counters_quiet[OF tacit_touch[OF tacit_refl]])
  then show ?thesis using frame_cases[of s cfg env now cid f] assms(3) Incoming
    by (auto simp: mux_do_def intro: counters_quiet)
qed (rule counters_quiet[OF other_quiet assms(3)]; simp add: opens_def)+

lemma counters_run: "mux_run cfg env h s \<Longrightarrow> counters_ok s"
proof (induction rule: mux_run.induct)
  case (happens cfg env h s op now)
  then show ?case by (intro counters_do paths_ok_run)
qed (simp add: mux0_def counters_ok_def counter_range_def)

subsection \<open>Login\<close>

definition issued :: "mux_cfg \<Rightarrow> (int \<times> mux_op) list \<Rightarrow> string \<Rightarrow> challenge \<Rightarrow> bool" where
  "issued cfg h cid ch \<longleftrightarrow> dict_has (mc_pubkeys cfg) (ch_key ch) \<and> (\<exists>h1 t0 line pref h2.
     h = h1 @ (t0, Accept cid line (ch_nonce ch) pref) # h2 \<and> ch_expires ch = t0 + 30)"

definition signed_in :: "mux_cfg \<Rightarrow> mux_env \<Rightarrow> (int \<times> mux_op) list \<Rightarrow> string \<Rightarrow> bool" where
  "signed_in cfg env h cid \<longleftrightarrow> (\<exists>h1 t f h2 ch. h = h1 @ (t, Incoming cid f) # h2 \<and> issued cfg h1 cid ch \<and> proves cfg env t f ch)"

lemma issued_append [intro]: "issued cfg h cid ch \<Longrightarrow> issued cfg (h @ h') cid ch"
  unfolding issued_def by (metis append.assoc append_Cons)

lemma signed_in_append [intro]: "signed_in cfg env h cid \<Longrightarrow> signed_in cfg env (h @ h') cid"
  unfolding signed_in_def by (metis append.assoc append_Cons)

definition earned :: "mux_cfg \<Rightarrow> mux_env \<Rightarrow> (int \<times> mux_op) list \<Rightarrow> mux \<Rightarrow> bool" where
  "earned cfg env h s \<longleftrightarrow> (\<forall>c a x. creds_of s c = Some (False, a, x) \<longrightarrow>
     (\<forall>ch. x = Some ch \<longrightarrow> issued cfg h c ch) \<and> (a \<longrightarrow> signed_in cfg env h c))"

lemma earned_quiet: "earned cfg env h s \<Longrightarrow> tacit s t \<Longrightarrow> earned cfg env (h @ h') t"
  unfolding earned_def by (metis tacit_creds issued_append signed_in_append)

lemma earned_put_link:
  assumes "earned cfg env h s" "tacit (put_link cid l s) t"
    and "\<And>a x. cred l = (False, a, x) \<Longrightarrow> (\<forall>ch. x = Some ch \<longrightarrow> issued cfg (h @ h') cid ch) \<and> (a \<longrightarrow> signed_in cfg env (h @ h') cid)"
  shows "earned cfg env (h @ h') t"
proof -
  have "(\<forall>ch. x = Some ch \<longrightarrow> issued cfg (h @ h') c ch) \<and> (a \<longrightarrow> signed_in cfg env (h @ h') c)"
    if "creds_of t c = Some (False, a, x)" for c a x
  proof -
    have "creds_of (put_link cid l s) c = Some (False, a, x)" by (rule tacit_creds[OF assms(2) that])
    then show ?thesis using assms(1,3) by (cases "c = cid") (auto simp: creds_put_link earned_def)
  qed
  then show ?thesis by (simp add: earned_def)
qed

lemma earned_open:
  assumes "earned cfg env h s" "tacit (open_link cid l s) t" "pc_client l \<or> cred l = (False, False, None)"
  shows "earned cfg env (h @ h') t"
proof -
  have "tacit (put_link cid l s) (put_link cid l s)" by simp
  from earned_put_link[OF assms(1) this, of h'] assms(3) have e: "earned cfg env (h @ h') (put_link cid l s)"
    by (auto simp: cred_def)
  then have "earned cfg env (h @ h') (open_link cid l s)" by (simp add: earned_def creds_put_link)
  from earned_quiet[OF this assms(2), of "[]"] show ?thesis by simp
qed

lemma earned_run:
  assumes "mux_run cfg env h s" "mc_auth_required cfg" shows "earned cfg env h s"
  using assms
proof (induction rule: mux_run.induct)
  case (start cfg env)
  show ?case by (simp add: earned_def creds_of_def mux0_def)
next
  case (happens cfg env h s op now)
  then have e: "earned cfg env h s" and ok: "paths_ok s" by (simp_all add: paths_ok_run)
  show ?case
  proof (cases "opens op = None \<and> (\<forall>cid f. op \<noteq> Incoming cid f)")
    case True
    then show ?thesis using e by (intro earned_quiet[OF e] other_quiet) auto
  next
    case False
    then consider cid line nonce pref where "op = Accept cid line nonce pref" | cid line where "op = Dial cid line"
      | cid f where "op = Incoming cid f"
      by (cases op) (auto simp: opens_def)
    then show ?thesis
    proof cases
      case (1 cid line nonce pref)
      then have fresh: "\<not> dict_has (mx_links s) cid" using happens.hyps(2) by (simp add: opens_def)
      show ?thesis
      proof (rule accept_tacit[OF ok fresh, of cfg env now nonce pref line])
        assume "accept_client cfg env now nonce pref cid line s = s"
        then show ?thesis using 1 earned_quiet[OF e tacit_refl] by (simp add: mux_do_def)
      next
        fix l assume l: "tacit (open_link cid l s) (accept_client cfg env now nonce pref cid line s)"
          "mc_auth_required cfg \<Longrightarrow> cred l = (False, False, None)"
        from earned_open[OF e l(1)] l(2) happens.prems show ?thesis using 1 by (simp add: mux_do_def)
      next
        fix l l' k
        assume l: "tacit (put_link cid l' (open_link cid l s)) (accept_client cfg env now nonce pref cid line s)"
          "dict_has (mc_pubkeys cfg) k" "cred l' = (False, False, Some \<lparr>ch_key = k, ch_nonce = nonce, ch_expires = now + 30\<rparr>)"
        have "tacit (put_link cid l' s) (put_link cid l' (open_link cid l s))"
          by (rule tacitI[OF _ _ tacit_refl]) (simp_all add: creds_put_link counters_open)
        from tacit_trans[OF this l(1)] show ?thesis unfolding 1 mux_do_def mux_op.case
          by (rule earned_put_link[OF e]) (use l in \<open>auto simp: issued_def\<close>)
      qed
    next
      case (2 cid line)
      then have fresh: "\<not> dict_has (mx_links s) cid" using happens.hyps(2) by (simp add: opens_def)
      show ?thesis unfolding 2 mux_do_def mux_op.case
        by (rule dialled[OF ok fresh, of cfg env now line]) (auto intro: earned_quiet[OF e] earned_open[OF e])
    next
      case (3 cid f)
      let ?s = "touch now cid s"
      have e1: "earned cfg env h ?s" using earned_quiet[OF e tacit_touch[OF tacit_refl], of "[]"] by simp
      from frame_cases[of s cfg env now cid f] show ?thesis unfolding 3 mux_do_def mux_op.case
      proof (elim disjE exE conjE)
        assume "tacit s (handle_frame cfg env now cid f s)"
        then show "earned cfg env (h @ [(now, Incoming cid f)]) (handle_frame cfg env now cid f s)" by (rule earned_quiet[OF e])
      next
        fix l assume "pc_client l" and q: "tacit (put_link cid (l\<lparr>pc_auth_ok := True\<rparr>) ?s) (handle_frame cfg env now cid f s)"
        then show "earned cfg env (h @ [(now, Incoming cid f)]) (handle_frame cfg env now cid f s)"
          by (intro earned_put_link[OF e1 q]) (simp add: cred_def)
      next
        fix l ch
        assume l: "dict_get (mx_links ?s) cid = Some l" "pc_challenge l = Some ch" "proves cfg env now f ch"
          and q: "tacit (put_link cid (l\<lparr>pc_auth_ok := True, pc_challenge := None\<rparr>) ?s) (handle_frame cfg env now cid f s)"
        have "signed_in cfg env (h @ [(now, Incoming cid f)]) cid" if "\<not> pc_client l"
        proof -
          have "issued cfg h cid ch" using e1 l that by (auto simp: earned_def creds_of_def cred_def)
          then show ?thesis using l(3) unfolding signed_in_def by blast
        qed
        then show "earned cfg env (h @ [(now, Incoming cid f)]) (handle_frame cfg env now cid f s)"
          by (intro earned_put_link[OF e1 q]) (simp add: cred_def)
      qed
    qed
  qed
qed

end
