(* ===== verification/MuxFacts.thy ===== *)
theory MuxFacts
  imports MuxAuth
begin

text \<open>
  The properties of a federation server's links: the path groups on every run, the choice of a path,
  the range of the frame numbers, the gate in front of the handlers, and the login by a signature;
  and what a connection that has not authenticated can do all the same.
\<close>

section \<open>The best path\<close>

lemma head_of_sort:
  assumes total: "\<And>x y. le x y \<or> le y x" and trans: "\<And>x y z. le x y \<Longrightarrow> le y z \<Longrightarrow> le x z"
  shows "y \<in> set xs \<Longrightarrow> le (hd (sort_with le xs)) y"
proof (induction xs arbitrary: y)
  case (Cons x xs)
  have refl: "le z z" for z using total by blast
  show ?case
  proof (cases "sort_with le xs")
    case Nil
    then have "xs = []" using set_sort_with[of le xs] by simp
    then show ?thesis using Cons.prems refl by (simp add: sort_with_def)
  next
    case (Cons h r)
    then have xs: "le h z" if "z \<in> set xs" for z using Cons.IH[OF that] by simp
    have s: "sort_with le (x # xs) = insert_with le x (h # r)" using Cons by (simp add: sort_with_def)
    show ?thesis using Cons.prems xs trans total[of x h] refl unfolding s by auto
  qed
qed simp

lemma path_ge_total: "path_ge a b \<or> path_ge b a"
  by (auto simp: path_ge_def)

lemma path_ge_trans: "path_ge a b \<Longrightarrow> path_ge b c \<Longrightarrow> path_ge a c"
  by (auto simp: path_ge_def)

lemma best_path_best:
  assumes "best_path ps = Some c" shows "\<exists>m. (c, m) \<in> set ps \<and> (\<forall>e \<in> set ps. pt_pref (snd e) \<le> pt_pref m)"
proof -
  obtain m r where s: "sort_with path_ge ps = (c, m) # r"
    using assms by (auto simp: best_path_def first_key_def split: list.splits)
  have "(c, m) \<in> set ps" using set_sort_with[of path_ge ps] s by auto
  moreover have "path_ge (c, m) e" if "e \<in> set ps" for e
    using head_of_sort[of path_ge, OF path_ge_total path_ge_trans that] s by simp
  ultimately show ?thesis by (force simp: path_ge_def)
qed

lemma current_primaryD: "current_primary cfg s now g = Some (c, m) \<Longrightarrow> dict_get (gr_conns g) c = Some m \<and> \<not> path_stale cfg s now (c, m)"
  by (auto simp: current_primary_def split: option.splits if_splits)

text \<open>What \<open>select_path\<close> answers for a group of paths.\<close>

definition good_choice :: "mux_cfg \<Rightarrow> mux \<Rightarrow> int \<Rightarrow> mgroup \<Rightarrow> string \<Rightarrow> bool" where
  "good_choice cfg s now g c \<longleftrightarrow>
     (let live = filter (\<lambda>e. \<not> path_stale cfg s now e) (gr_conns g) in
      if live = [] then dict_has (gr_conns g) c
      else list_ex (\<lambda>e. fst e = c \<and> (mc_preempt cfg \<and> mc_best_pref cfg \<longrightarrow> list_all (\<lambda>d. pt_pref (snd d) \<le> pt_pref (snd e)) live)) live)"

lemma good_choice_best:
  assumes "gr_conns g \<noteq> []" "promote_primary cfg s now g = Some c" shows "good_choice cfg s now g c"
proof (cases "filter (\<lambda>e. \<not> path_stale cfg s now e) (gr_conns g) = []")
  case True
  then show ?thesis using promote_primary_mem[OF assms(1), of cfg s now] assms(2) by (simp add: good_choice_def)
next
  case False
  then have "best_path (filter (\<lambda>e. \<not> path_stale cfg s now e) (gr_conns g)) = Some c"
    using assms(2) by (simp add: promote_primary_def Let_def)
  from best_path_best[OF this] False show ?thesis
    unfolding good_choice_def Let_def list_ex_iff list_all_iff by (metis fst_conv snd_conv)
qed

lemma good_choice_current:
  assumes "dict_get (gr_conns g) c = Some m" "\<not> path_stale cfg s now (c, m)"
    and "\<not> (mc_preempt cfg \<and> mc_best_pref cfg) \<or> try_preempt cfg s now g m = None"
  shows "good_choice cfg s now g c"
proof -
  let ?live = "filter (\<lambda>e. \<not> path_stale cfg s now e) (gr_conns g)"
  have m: "(c, m) \<in> set ?live" using assms(1,2) by (auto dest: map_of_SomeD)
  then have ne: "?live \<noteq> []" by (metis empty_iff empty_set)
  have "\<forall>d \<in> set ?live. pt_pref (snd d) \<le> pt_pref m" if "mc_preempt cfg \<and> mc_best_pref cfg"
    using assms(3) that by (auto simp: try_preempt_def filter_empty_conv not_less)
  with m ne show ?thesis unfolding good_choice_def Let_def list_ex_iff list_all_iff
    by (metis fst_conv snd_conv)
qed

lemma good_choice_preempt:
  assumes "dict_get (gr_conns g) c = Some m" "try_preempt cfg s now g m = Some i" shows "good_choice cfg s now g i"
proof -
  let ?live = "filter (\<lambda>e. \<not> path_stale cfg s now e) (gr_conns g)"
  from best_path_best[OF assms(2)[unfolded try_preempt_def]] obtain n where
    n: "(i, n) \<in> set ?live" "pt_pref n > pt_pref m"
      "\<forall>e \<in> {e \<in> set (gr_conns g). \<not> path_stale cfg s now e \<and> pt_pref (snd e) > pt_pref m}. pt_pref (snd e) \<le> pt_pref n"
    unfolding set_filter by fastforce
  have "\<forall>d \<in> set ?live. pt_pref (snd d) \<le> pt_pref n"
  proof
    fix d assume "d \<in> set ?live"
    then show "pt_pref (snd d) \<le> pt_pref n" using n(2) bspec[OF n(3), of d] by fastforce
  qed
  moreover have "?live \<noteq> []" using n(1) by (metis empty_iff empty_set)
  ultimately show ?thesis using n(1) unfolding good_choice_def Let_def list_ex_iff list_all_iff
    by (metis fst_conv snd_conv)
qed


section \<open>Paths and numbers on every run\<close>


text \<open>C19: On every run, the number of the next frame of a connection is at least 1 and below \<open>2 ^ 63\<close>, and
  so is the one after it: the counters wrap to 1 and never reach 0 or the sign bit.\<close>

theorem frame_numbers_in_range:
  assumes "mux_run cfg env h s" "next_frame_seq cid s = (q, t)"
  shows "1 \<le> q \<and> q < 2 ^ 63 \<and> 1 \<le> fst (next_frame_seq cid t) \<and> fst (next_frame_seq cid t) < 2 ^ 63"
  using counters_next[OF counters_run[OF assms(1)] assms(2)] counters_next[of t cid "fst (next_frame_seq cid t)" "snd (next_frame_seq cid t)"]
  by (simp add: counter_range_def)

section \<open>The gate\<close>

lemma auth_conn_cong: "creds_of t c = creds_of s c \<Longrightarrow> is_conn_authenticated cfg t c = is_conn_authenticated cfg s c"
  by (auto simp: is_conn_authenticated_def creds_of_def cred_def split: option.splits)

lemma touch_creds: "creds_of (touch now cid s) c = creds_of s c"
  by (auto simp: touch_def Let_def creds_of_def split: option.split)

lemma touch_gate [simp]: "is_conn_authenticated cfg (touch now cid s) c = is_conn_authenticated cfg s c"
  by (rule auth_conn_cong) (rule touch_creds)

definition handed_up :: "mux \<Rightarrow> mux_event list \<times> (string, rx_state) pydict" where
  "handed_up s = (mx_events s, mx_rx s)"

lemma handed_up_fields [simp]:
  "handed_up (put_link cid l s) = handed_up s" "handed_up (put_group k g s) = handed_up s"
  "handed_up (put_beat cid b s) = handed_up s" "handed_up (mux_write cid w s) = handed_up s"
  "handed_up (snd (next_frame_seq cid s)) = handed_up s" "handed_up (mark_shut cid s) = handed_up s"
  "handed_up (apply_filters_of_key cid ko s) = handed_up s" "handed_up (store_group k g s) = handed_up s"
  "handed_up (mux_handle_ack cid f s) = handed_up s"
  by (simp_all add: handed_up_def put_link_def put_group_def put_beat_def mux_write_def next_frame_seq_def mark_shut_def
    apply_filters_of_key_def store_group_def mux_handle_ack_def Let_def split: option.split)

lemma handed_up_more [simp]:
  "handed_up (control cid x s) = handed_up s" "handed_up (unregister_path cid s) = handed_up s"
  "handed_up (touch now cid s) = handed_up s" "handed_up (maybe_advertise cfg env cid s) = handed_up s"
  by (auto simp: control_eq unregister_path_def touch_def maybe_advertise_def Let_def split: option.split)

lemma handed_up_close [simp]: "handed_up (close_link cid s) = handed_up s"
  using handed_up_more(2)[of cid s] by (simp add: close_link_def Let_def handed_up_def)

lemma handed_up_auth: "ctl_auth cfg env now cid p s = Some u \<Longrightarrow> handed_up u = handed_up s"
  by (drule auth_cases)
    (auto simp: ctl_auth_ok_def ctl_auth_challenge_def ctl_auth_response_def split: option.split)

lemma handed_up_dispatch:
  "\<not> is_conn_authenticated cfg s cid \<Longrightarrow> handed_up (ctl_dispatch cfg env now cid p s) = handed_up s"
  by (simp add: ctl_dispatch_def ctl_shutdown_begin_def ctl_mpath_end_def ctl_hb_req_def ctl_hb_ack_def)

text \<open>C13: A frame of any type on a connection that has not authenticated hands nothing to the parts above
  the link: no data is routed, no stream opened or closed, no command of ports, viewers, power or write
  slots delivered, and no receive state is touched.\<close>

theorem unauthenticated_frame_is_not_handed_up:
  assumes "\<not> is_conn_authenticated cfg s cid"
  shows "mx_events (handle_frame cfg env now cid f s) = mx_events s \<and> mx_rx (handle_frame cfg env now cid f s) = mx_rx s"
proof -
  have "handed_up (process_control cfg env now cid x (touch now cid s)) = handed_up s" for x
    using handed_up_auth[of cfg env now cid "strip x" "touch now cid s"] handed_up_dispatch[of cfg "touch now cid s" cid env now "strip x"] assms
    by (auto simp: process_control_def Let_def split: option.split)
  then have "handed_up (handle_frame cfg env now cid f s) = handed_up s"
    using assms by (simp add: handle_frame_def rl_handle_data_def rl_handle_open_def rl_handle_close_def send_auth_required_def)
  then show ?thesis by (simp add: handed_up_def)
qed

section \<open>Login\<close>

text \<open>C12: When keys are required, an accepted connection counts as authenticated only if it was opened with
  the key id of a configured key, got a challenge, and within 30 seconds of the opening sent an answer
  whose signature that key verifies over the very nonce of the challenge; no order of frames, closes,
  sends, heartbeats and sweeps gets it there otherwise.\<close>

theorem accepted_link_was_signed_in:
  assumes "mux_run cfg env h s" "mc_auth_required cfg"
    and "dict_get (mx_links s) cid = Some l" "\<not> pc_client l" "pc_auth_ok l"
  shows "signed_in cfg env h cid"
  using earned_run[OF assms(1,2)] assms(3-5) by (auto simp: earned_def creds_of_def cred_def)

section \<open>What needs no login\<close>

lemma closed_group [simp]: "group_at key (open_link cid l s) = group_at key s" "group_at key (put_link cid l s) = group_at key s"
  "group_at key (control cid x s) = group_at key s"
  by (simp_all add: group_at_def)

lemma derive_node: "dict_get (mx_links s) cid = Some l \<Longrightarrow> pc_hello l = Some h \<Longrightarrow> hl_server h = Some v \<Longrightarrow> v \<noteq> []
    \<Longrightarrow> derive_peer_key s cid = ''node:'' @ v"
  by (simp add: derive_peer_key_def peer_key_of_def link_server_id_def)

text \<open>The state in which a named but unsigned connection has been accepted.\<close>

definition unsigned_link :: "int \<Rightarrow> bytes \<Rightarrow> hello \<Rightarrow> string \<Rightarrow> peer_conn" where
  "unsigned_link now nonce hel k =
     \<lparr>pc_client = False, pc_writer = True, pc_hello = Some hel, pc_server = hl_server hel, pc_instance = hl_instance hel,
      pc_opened = now, pc_seen = now, pc_auth_ok = False,
      pc_challenge = Some \<lparr>ch_key = k, ch_nonce = nonce, ch_expires = now + 30\<rparr>, pc_pref = None, pc_advertised = False\<rparr>"

lemma accept_unsigned:
  assumes "paths_ok s" "mc_auth_required cfg"
    and "parse_handshake (strip (decode_text_ignore line)) = Some hel" "hl_pkid hel = Some k" "dict_has (mc_pubkeys cfg) k"
    and "\<not> dict_has (mx_links s) cid"
  obtains w where
    "accept_client cfg env now nonce None cid line s =
       put_link cid (unsigned_link now nonce hel k) (retire_old_generation cid (register_path cfg now cid w))"
    "mx_links w = dict_set cid (unsigned_link now nonce hel k) (mx_links s)"
    "mx_groups w = mx_groups s" "mx_frozen w = mx_frozen s"
proof -
  define l0 where "l0 = (unsigned_link now nonce hel k)\<lparr>pc_challenge := None\<rparr>"
  define w where "w = control cid (''AUTH:PK:CHALLENGE:'' @ k @ '':'' @ b64encode nonce)
    (put_link cid (unsigned_link now nonce hel k) (open_link cid l0
      (mux_write cid (encode_text (create_handshake_response (validate_capabilities (hl_caps hel))
        (Some (mc_server cfg)) (Some (mc_instance cfg))) @ [NL]) s)))"
  have links: "mx_links w = dict_set cid (unsigned_link now nonce hel k) (mx_links s)"
    by (simp add: w_def write_commutes)
  have ok: "paths_ok w" unfolding w_def
    by (simp add: write_commutes paths_ok_reopen[OF assms(1,6)])
  have join: "join_group cfg now cid w = retire_old_generation cid (register_path cfg now cid w)"
    using ok links by (simp add: join_group_def rekey_idle paths_ok_register dict_has_def)
  have reg: "mx_links (retire_old_generation cid (register_path cfg now cid w)) = mx_links w"
    by (simp add: register_path_def Let_def)
  have unauth: "\<not> is_conn_authenticated cfg (retire_old_generation cid (register_path cfg now cid w)) cid"
    using assms(2) reg links by (simp add: is_conn_authenticated_def unsigned_link_def)
  have "server_handshake cfg env now nonce cid line s = maybe_advertise cfg env cid (join_group cfg now cid w)"
    unfolding server_handshake_defs assms(3) option.case Let_def
    using assms(2,4,5) by (simp add: w_def l0_def unsigned_link_def)
  then have sh: "server_handshake cfg env now nonce cid line s = retire_old_generation cid (register_path cfg now cid w)"
    using unauth reg links by (simp add: join maybe_advertise_def)
  have "accept_client cfg env now nonce None cid line s =
      put_link cid (unsigned_link now nonce hel k) (retire_old_generation cid (register_path cfg now cid w))"
    using reg links unauth
    by (simp add: accept_client_def sh annotate_inbound_def Let_def is_conn_authenticated_def assms(2) unsigned_link_def)
  then show ?thesis using links by (rule that) (simp_all add: w_def open_link_def)
qed


lemma dict_set_members: "e \<in> set (dict_set k v d) \<Longrightarrow> e \<in> set d \<or> e = (k, v)"
  by (induction d) (auto split: if_splits)

text \<open>The same HELLO with another instance id has every older connection of the peer closed: all that
  carry the peer's server id and another instance id are scheduled for closing, before any signature.\<close>

theorem unsigned_connection_retires_the_peer:
  assumes "mux_run cfg env h s" "mc_auth_required cfg" "\<not> dict_has (mx_links s) cid"
    and "parse_handshake (strip (decode_text_ignore line)) = Some hel" "hl_pkid hel = Some k" "dict_has (mc_pubkeys cfg) k"
    and "hl_server hel = Some v" "v \<noteq> []" "hl_instance hel = Some j" "j \<noteq> []"
    and "\<forall>e \<in> set (mx_links s). pc_opened (snd e) \<le> now"
    and "dict_get (mx_links s) c = Some old" "pc_server old = Some v" "has_text (pc_instance old)" "pc_instance old \<noteq> Some j"
  shows "c \<in> set (mx_closing (accept_client cfg env now nonce None cid line s))"
proof -
  obtain w where w: "accept_client cfg env now nonce None cid line s =
       put_link cid (unsigned_link now nonce hel k) (retire_old_generation cid (register_path cfg now cid w))"
    "mx_links w = dict_set cid (unsigned_link now nonce hel k) (mx_links s)"
    by (rule accept_unsigned[OF paths_ok_run[OF assms(1)] assms(2,4,5,6,3)])
  let ?r = "register_path cfg now cid w" and ?l = "unsigned_link now nonce hel k"
  have links: "mx_links ?r = dict_set cid ?l (mx_links s)" using w(2) by (simp add: register_path_def Let_def)
  have scan: "c' \<in> set (retire_scan cid ?l cl ls)"
    if "\<forall>e \<in> set ls. pc_opened (snd e) \<le> now" "c' \<in> set cl \<or> (\<exists>o'. (c', o') \<in> set ls \<and> c' \<noteq> cid \<and> pc_server o' = Some v
       \<and> has_text (pc_instance o') \<and> pc_instance o' \<noteq> Some j)" for c' cl ls
    using that assms(7,9) by (induction cid ?l cl ls rule: retire_scan.induct) (auto simp: unsigned_link_def)
  have "c \<noteq> cid" using assms(3,12) by (auto simp: dict_has_def)
  moreover have "(c, old) \<in> set (mx_links ?r)" using assms(12) \<open>c \<noteq> cid\<close> unfolding links by (intro map_of_SomeD) simp
  moreover have "\<forall>e \<in> set (mx_links ?r). pc_opened (snd e) \<le> now"
    unfolding links using assms(11) by (auto dest!: dict_set_members simp: unsigned_link_def)
  ultimately have "c \<in> set (retire_scan cid ?l [] (mx_links ?r))" using assms(13-15) by (intro scan) auto
  then show ?thesis unfolding w(1)
    using links assms(7-10) by (simp add: retire_old_generation_def unsigned_link_def has_text_def)
qed

lemma heartbeat_keeps_links:
  assumes "mx_frozen s = []" "0 \<le> mc_heartbeat cfg"
  shows "mx_frozen (hb_step cfg now e s) = [] \<and> dict_keys (mx_links (hb_step cfg now e s)) = dict_keys (mx_links s)"
proof -
  obtain cid l where e: "e = (cid, l)" by (cases e)
  have check: "hb_check_timeout cfg now cid t = t" if "bt_req (beat_of cid t) = now" for t
    using that assms(2) by (simp add: hb_check_timeout_def req_overdue_def Let_def)
  have bump: "mx_frozen (hb_bump_last_seen now cid t) = mx_frozen t
      \<and> dict_keys (mx_links (hb_bump_last_seen now cid t)) = dict_keys (mx_links t)" for t
    by (auto simp: hb_bump_last_seen_def Let_def insert_absorb dict_get_mem split: option.split)
  let ?s1 = "put_beat cid ((beat_of cid s)\<lparr>bt_req := now\<rparr>) s"
  obtain q t where n: "next_frame_seq cid ?s1 = (q, t)" by (cases "next_frame_seq cid ?s1")
  have t: "mx_links t = mx_links s" "mx_frozen t = mx_frozen s" "mx_beats t = mx_beats ?s1"
    using next_frame_seq_fields(1,5,7)[of cid ?s1] n by simp_all
  then have "bt_req (beat_of cid (mux_write cid b t)) = now" for b by (simp add: beat_of_def)
  then have "mx_frozen (hb_send_step cfg now cid l s) = [] \<and> dict_keys (mx_links (hb_send_step cfg now cid l s)) = dict_keys (mx_links s)"
    using assms(1) n t by (simp add: hb_send_step_def check bump split: sum.split)
  then show ?thesis using assms(1) by (simp add: hb_step_def hb_drop_step_def Let_def e)
qed

text \<open>A heartbeat pass closes no connection that is not frozen by fault injection, however long its
  requests have gone without an answer: the request is stamped before its age is measured.\<close>

theorem heartbeats_close_nothing:
  assumes "mx_frozen s = []" "0 \<le> mc_heartbeat cfg"
  shows "dict_keys (mx_links (heartbeat_tick cfg now s)) = dict_keys (mx_links s)"
proof -
  have "mx_frozen (fold (hb_step cfg now) xs s) = [] \<and> dict_keys (mx_links (fold (hb_step cfg now) xs s)) = dict_keys (mx_links s)" for xs
    by (rule fold_keeps) (use assms heartbeat_keeps_links in auto)
  then show ?thesis by (simp add: heartbeat_tick_def)
qed

end
