(* ===== verification/MuxCases.thy ===== *)
theory MuxCases
  imports MuxFacts
begin

text \<open>
  Small concrete runs of a federation server, at which the properties of its links apply.
\<close>

text \<open>A run played step by step; an operation that opens a connection under a used id has no outcome.\<close>

fun mux_play :: "mux_cfg \<Rightarrow> mux_env \<Rightarrow> (int \<times> mux_op) list \<Rightarrow> mux \<Rightarrow> mux option" where
  "mux_play cfg env [] s = Some s"
| "mux_play cfg env ((now, op) # h) s =
     (if (case opens op of None \<Rightarrow> False | Some cid \<Rightarrow> dict_has (mx_links s) cid) then None
      else mux_play cfg env h (mux_do cfg env now op s))"

lemma mux_play_from: "mux_run cfg env h0 s \<Longrightarrow> mux_play cfg env h s = Some t \<Longrightarrow> mux_run cfg env (h0 @ h) t"
proof (induction h arbitrary: h0 s)
  case (Cons x h)
  obtain now op where x: "x = (now, op)" by (cases x)
  from Cons.prems x have "\<forall>cid. opens op = Some cid \<longrightarrow> \<not> dict_has (mx_links s) cid"
    and "mux_play cfg env h (mux_do cfg env now op s) = Some t" by (auto split: if_splits)
  then show ?case using Cons.IH[OF mux_run.happens[OF Cons.prems(1)]] x by simp
qed simp

lemma mux_play_run: "mux_play cfg env h mux0 = Some t \<Longrightarrow> mux_run cfg env h t"
  using mux_play_from[OF mux_run.start] by force

definition case_cfg :: mux_cfg where
  "case_cfg = \<lparr>mc_server = ''A'', mc_instance = ''a1'', mc_peers = [(''h'', 1, 5)], mc_stale = 45, mc_check = 5, mc_best_pref = True,
     mc_preempt = True, mc_idle_drop = 300, mc_heartbeat = 30, mc_gap_stuck = 10, mc_auth_required = True,
     mc_pubkeys = [(''k'', ''pub'')], mc_key_id = None, mc_priv = None\<rparr>"

text \<open>A signature scheme for the cases: the signature of a message is the message.\<close>

definition case_env :: mux_env where
  "case_env = \<lparr>mv_sign = (\<lambda>k m. m), mv_verify = (\<lambda>pub sig m. pub = ''pub'' \<and> sig = m), mv_float = (\<lambda>x. None),
     mv_ports = (\<lambda>c. ''PORTS:FEDERATED:'')\<rparr>"

definition case_line :: "string \<Rightarrow> bytes" where
  "case_line inst = encode_text (''HELLO 1 ID=B INST='' @ inst @ '' PKID=k'')"

definition case_frame :: "string \<Rightarrow> string \<Rightarrow> frame_obj" where
  "case_frame ty text = \<lparr>fr_stream = 0, fr_type = ty, fr_payload = encode_text text, fr_seq = 1\<rparr>"

definition signed_run :: "(int \<times> mux_op) list" where
  "signed_run = [(100, Accept ''in:h:2:1:1'' (case_line ''b1'') ''n'' None),
     (105, Incoming ''in:h:2:1:1'' (case_frame ''C'' (''AUTH:PK:RESPONSE:k:'' @ b64encode ''n'')))]"

lemma parse_case: "parse_handshake (strip (decode_text_ignore (case_line ''b1''))) =
   Some \<lparr>hl_version = ''1'', hl_type = RegularClient, hl_caps = [], hl_server = Some ''B'', hl_instance = Some ''b1'', hl_pkid = Some ''k''\<rparr>"
  by code_simp

definition signed_end :: mux where
  "signed_end = the (mux_play case_cfg case_env signed_run mux0)"

lemma signed_outcome:
  "map_option (\<lambda>s. (map_option (\<lambda>l. (pc_client l, pc_auth_ok l)) (dict_get (mx_links s) ''in:h:2:1:1''),
       map (\<lambda>(k, g). (k, map fst (gr_conns g))) (mx_groups s)))
     (mux_play case_cfg case_env signed_run mux0)
   = Some (Some (False, True), [(''node:B'', [''in:h:2:1:1''])])"
  by code_simp

lemma signed_runs: "mux_run case_cfg case_env signed_run signed_end"
  by (rule mux_play_run) (use signed_outcome in \<open>auto simp: signed_end_def\<close>)

lemma signed_link: "\<exists>l. dict_get (mx_links signed_end) ''in:h:2:1:1'' = Some l \<and> \<not> pc_client l \<and> pc_auth_ok l"
  using signed_outcome by (auto simp: signed_end_def)

lemma signed_group: "\<exists>g. dict_get (mx_groups signed_end) ''node:B'' = Some g \<and> map fst (gr_conns g) = [''in:h:2:1:1'']"
  using signed_outcome by (auto simp: signed_end_def)

section \<open>The properties at these runs\<close>



theorem frame_numbers_in_range_witness:
  "1 \<le> fst (next_frame_seq ''in:h:2:1:1'' signed_end) \<and> fst (next_frame_seq ''in:h:2:1:1'' signed_end) < 2 ^ 63"
  using frame_numbers_in_range[OF signed_runs, of "''in:h:2:1:1''" "fst (next_frame_seq ''in:h:2:1:1'' signed_end)"
      "snd (next_frame_seq ''in:h:2:1:1'' signed_end)"] by simp

definition case_hello :: hello where
  "case_hello = \<lparr>hl_version = ''1'', hl_type = RegularClient, hl_caps = [], hl_server = Some ''B'', hl_instance = Some ''b1'',
     hl_pkid = Some ''k''\<rparr>"

text \<open>A server with one connection that has not signed in.\<close>

definition one_link :: mux where
  "one_link = put_link ''in:h:2:1:1'' (unsigned_link 100 ''n'' case_hello ''k'') mux0"

theorem unauthenticated_frame_is_not_handed_up_witness:
  "\<not> is_conn_authenticated case_cfg one_link ''in:h:2:1:1'' \<and>
   mx_events (handle_frame case_cfg case_env 100 ''in:h:2:1:1'' (case_frame ''D'' ''ls'') one_link) = []"
  using unauthenticated_frame_is_not_handed_up[of case_cfg one_link "''in:h:2:1:1''" case_env 100 "case_frame ''D'' ''ls''"]
  by (simp add: is_conn_authenticated_def mux0_def one_link_def unsigned_link_def case_cfg_def)

theorem accepted_link_was_signed_in_witness: "signed_in case_cfg case_env signed_run ''in:h:2:1:1''"
  using accepted_link_was_signed_in[OF signed_runs] signed_link by (auto simp: case_cfg_def)


definition older_run :: "(int \<times> mux_op) list" where
  "older_run = [(50, Accept ''in:h:2:0:1'' (case_line ''b0'') ''n'' None)]"

definition older_end :: mux where
  "older_end = the (mux_play case_cfg case_env older_run mux0)"

lemma older_outcome:
  "map_option (\<lambda>s. map (\<lambda>(c, l). (c, pc_server l, pc_instance l, pc_opened l)) (mx_links s)) (mux_play case_cfg case_env older_run mux0)
   = Some [(''in:h:2:0:1'', Some ''B'', Some ''b0'', 50)]"
  by code_simp

lemma older_links: "\<exists>l. mx_links older_end = [(''in:h:2:0:1'', l)] \<and> pc_server l = Some ''B'' \<and> pc_instance l = Some ''b0'' \<and> pc_opened l = 50"
  using older_outcome by (auto simp: older_end_def)

lemma older_runs: "mux_run case_cfg case_env older_run older_end"
  by (rule mux_play_run) (use older_outcome in \<open>auto simp: older_end_def\<close>)

theorem unsigned_connection_retires_the_peer_witness:
  "''in:h:2:0:1'' \<in> set (mx_closing (accept_client case_cfg case_env 100 ''n'' None ''in:x:2:1:1'' (case_line ''b1'') older_end))"
proof -
  obtain l where l: "mx_links older_end = [(''in:h:2:0:1'', l)]" "pc_server l = Some ''B''" "pc_instance l = Some ''b0''" "pc_opened l = 50"
    using older_links by blast
  show ?thesis
    by (rule unsigned_connection_retires_the_peer[OF older_runs _ _ parse_case, where k = "''k''" and v = "''B''" and j = "''b1''" and old = l])
      (simp_all add: case_cfg_def l dict_has_def has_text_def)
qed

theorem heartbeats_close_nothing_witness:
  "dict_keys (mx_links (heartbeat_tick case_cfg 1000000 one_link)) = dict_keys (mx_links one_link)"
  by (rule heartbeats_close_nothing) (simp_all add: mux0_def case_cfg_def one_link_def)

end
