(* ===== verification/MuxFilters.thy ===== *)
theory MuxFilters
  imports PyFormat Federation
begin

text \<open>
  Which ports go to a peer and which come from it: the filters of
  \<^verbatim>\<open>openmux/server/adapters/muxcon.py\<close> (\<open>_match_any\<close> to \<open>_allow_accept_port_for_conn\<close>,
  \<open>_slpl_exposed_ports\<close>), with the shell patterns of the \<open>fnmatch\<close> module that they use.  The log
  lines of a dropped port are left out.
\<close>

section \<open>Shell patterns\<close>

text \<open>A character class is the list of its ranges, a single character being a range of one.\<close>

datatype glob_item = AnyText | AnyChar | ThisChar char | CharIn bool "(char \<times> char) list"

fun class_ranges :: "string \<Rightarrow> (char \<times> char) list" where
  "class_ranges [] = []"
| "class_ranges (c # r) =
     (case r of
        d # e # rest \<Rightarrow> if d = CHR ''-'' then (c, e) # class_ranges rest else (c, c) # class_ranges r
      | _ \<Rightarrow> (c, c) # class_ranges r)"

text \<open>The text after an opening bracket: the class and what follows it.  A bracket that closes at once is
  a member of the class.\<close>

definition class_split :: "string \<Rightarrow> ((bool \<times> string) \<times> string) option" where
  "class_split s =
     (let neg = startswith ''!'' s; r = (if neg then tl s else s);
          first = (if startswith '']'' r then '']'' else []); r2 = drop (length first) r
      in case dropWhile (\<lambda>c. c \<noteq> CHR '']'') r2 of
           [] \<Rightarrow> None
         | _ # rest \<Rightarrow> Some ((neg, first @ takeWhile (\<lambda>c. c \<noteq> CHR '']'') r2), rest))"

lemma class_split_shorter [termination_simp]:
  assumes "class_split s = Some (b, r)" shows "length r < Suc (length s)"
proof -
  let ?r = "if startswith ''!'' s then tl s else s"
  let ?r2 = "drop (length (if startswith '']'' ?r then '']'' else [])) ?r"
  obtain c where "dropWhile (\<lambda>c. c \<noteq> CHR '']'') ?r2 = c # r"
    using assms by (auto simp: class_split_def Let_def split: list.splits)
  then have "length (c # r) \<le> length ?r2" by (metis length_dropWhile_le)
  also have "\<dots> \<le> length s" by simp
  finally show ?thesis by simp
qed

fun glob_items :: "string \<Rightarrow> glob_item list" where
  "glob_items [] = []"
| "glob_items (c # s) =
     (if c = CHR ''*'' then AnyText # glob_items s
      else if c = CHR ''?'' then AnyChar # glob_items s
      else if c = CHR ''['' then
        (case class_split s of
           None \<Rightarrow> ThisChar c # glob_items s
         | Some ((neg, body), rest) \<Rightarrow> CharIn neg (class_ranges body) # glob_items rest)
      else ThisChar c # glob_items s)"

definition char_between :: "char \<Rightarrow> char \<times> char \<Rightarrow> bool" where
  "char_between c r \<longleftrightarrow> code (fst r) \<le> code c \<and> code c \<le> code (snd r)"

fun glob_match :: "glob_item list \<Rightarrow> string \<Rightarrow> bool" where
  "glob_match [] s = (s = [])"
| "glob_match (AnyText # ps) [] = glob_match ps []"
| "glob_match (AnyText # ps) (c # s) = (glob_match ps (c # s) \<or> glob_match (AnyText # ps) s)"
| "glob_match (AnyChar # ps) s = (case s of [] \<Rightarrow> False | _ # t \<Rightarrow> glob_match ps t)"
| "glob_match (ThisChar d # ps) s = (case s of [] \<Rightarrow> False | c # t \<Rightarrow> c = d \<and> glob_match ps t)"
| "glob_match (CharIn neg rs # ps) s =
     (case s of [] \<Rightarrow> False | c # t \<Rightarrow> list_ex (char_between c) rs \<noteq> neg \<and> glob_match ps t)"

definition fnmatchcase :: "string \<Rightarrow> string \<Rightarrow> bool" where
  "fnmatchcase name pat \<longleftrightarrow> glob_match (glob_items pat) name"

section \<open>Filters\<close>

text \<open>A value that is no text matches no pattern: the module raises and the loop goes on.\<close>

definition match_any :: "pyval \<Rightarrow> string list \<Rightarrow> bool" where
  "match_any v pats \<longleftrightarrow> (case v of PStr s \<Rightarrow> list_ex (fnmatchcase s) pats | _ \<Rightarrow> False)"

record port_filter =
  pf_include :: "string list"
  pf_exclude :: "string list"
  pf_adapter_include :: "string list"
  pf_adapter_exclude :: "string list"
  pf_server_include :: "string list"
  pf_server_exclude :: "string list"

record filter_pair =
  fp_advertise :: port_filter
  fp_accept :: port_filter

definition or_list :: "string list \<Rightarrow> string list \<Rightarrow> string list" where
  "or_list xs ys = (if xs = [] then ys else xs)"

definition effective_filter :: "port_filter \<Rightarrow> port_filter \<Rightarrow> port_filter" where
  "effective_filter own base =
     \<lparr>pf_include = or_list (pf_include own) (pf_include base), pf_exclude = or_list (pf_exclude own) (pf_exclude base),
      pf_adapter_include = or_list (pf_adapter_include own) (pf_adapter_include base),
      pf_adapter_exclude = or_list (pf_adapter_exclude own) (pf_adapter_exclude base),
      pf_server_include = or_list (pf_server_include own) (pf_server_include base),
      pf_server_exclude = or_list (pf_server_exclude own) (pf_server_exclude base)\<rparr>"

text \<open>\<open>keys\<close> are the filters of the keys, \<open>conns\<close> those that were applied to a connection.\<close>

definition apply_per_connection_filters ::
  "(string, filter_pair) pydict \<Rightarrow> string \<Rightarrow> string option \<Rightarrow> (string, filter_pair) pydict \<Rightarrow> (string, filter_pair) pydict" where
  "apply_per_connection_filters keys cid key_id conns =
     (case key_id of
        None \<Rightarrow> conns
      | Some k \<Rightarrow> if k = [] then conns else (case dict_get keys k of None \<Rightarrow> conns | Some f \<Rightarrow> dict_set cid f conns))"

definition get_filters_for_conn :: "filter_pair \<Rightarrow> (string, filter_pair) pydict \<Rightarrow> string \<Rightarrow> filter_pair" where
  "get_filters_for_conn base conns cid =
     (case dict_get conns cid of
        None \<Rightarrow> base
      | Some own \<Rightarrow>
          \<lparr>fp_advertise = effective_filter (fp_advertise own) (fp_advertise base),
           fp_accept = effective_filter (fp_accept own) (fp_accept base)\<rparr>)"

text \<open>The decision both directions share: excludes first, then nothing without an include, then every
  include list that is there.\<close>

definition filter_allows :: "port_filter \<Rightarrow> pyval \<Rightarrow> pyval \<Rightarrow> string \<Rightarrow> bool" where
  "filter_allows f name adapter server \<longleftrightarrow>
     (if match_any name (pf_exclude f) \<or> match_any adapter (pf_adapter_exclude f) then False
      else if server \<noteq> [] \<and> match_any (PStr server) (pf_server_exclude f) then False
      else if pf_include f = [] \<and> pf_adapter_include f = [] \<and> pf_server_include f = [] then False
      else
        (pf_include f = [] \<or> match_any name (pf_include f))
        \<and> (pf_adapter_include f = [] \<or> match_any adapter (pf_adapter_include f))
        \<and> (pf_server_include f = [] \<or> (server \<noteq> [] \<and> match_any (PStr server) (pf_server_include f))))"

definition allow_advertise_port_for_conn ::
  "filter_pair \<Rightarrow> (string, filter_pair) pydict \<Rightarrow> string \<Rightarrow> pyval \<Rightarrow> pyval \<Rightarrow> string \<Rightarrow> bool" where
  "allow_advertise_port_for_conn base conns cid name adapter server =
     filter_allows (fp_advertise (get_filters_for_conn base conns cid)) name adapter server"

definition allow_advertise_port :: "filter_pair \<Rightarrow> pyval \<Rightarrow> pyval \<Rightarrow> string \<Rightarrow> bool" where
  "allow_advertise_port base name adapter server = filter_allows (fp_advertise base) name adapter server"

definition origin_id :: "(pyval \<Rightarrow> string) \<Rightarrow> pdict \<Rightarrow> string" where
  "origin_id rp pd =
     (case py_or (py_get pd ''origin_server'') (PDict []) of
        PDict d \<Rightarrow> py_str rp (py_or (py_get d ''server_id'') (PStr []))
      | v \<Rightarrow> py_str rp v)"

definition allow_accept_port_for_conn ::
  "(pyval \<Rightarrow> string) \<Rightarrow> filter_pair \<Rightarrow> (string, filter_pair) pydict \<Rightarrow> string \<Rightarrow> pdict \<Rightarrow> bool" where
  "allow_accept_port_for_conn rp base conns cid pd =
     filter_allows (fp_accept (get_filters_for_conn base conns cid))
       (PStr (py_str rp (py_or (py_or (py_get pd ''name'') (py_get pd ''original_name'')) (PStr []))))
       (PStr (py_str rp (py_or (py_get pd ''adapter_type'') (PStr []))))
       (origin_id rp pd)"

text \<open>The ports told to a peer: those of this server that the filters of the connection allow.\<close>

definition is_remote_entry :: "pdict \<Rightarrow> bool" where
  "is_remote_entry p \<longleftrightarrow> py_or (py_get p ''adapter_type'') (py_get p ''adapter'') = PStr ''remote_muxcon''"

definition slpl_exposed_ports ::
  "filter_pair \<Rightarrow> (string, filter_pair) pydict \<Rightarrow> string \<Rightarrow> string \<Rightarrow> pdict list \<Rightarrow> pdict list" where
  "slpl_exposed_ports base conns server_id cid ports =
     filter (\<lambda>p. \<not> is_remote_entry p \<and>
         allow_advertise_port_for_conn base conns cid
           (py_or (py_or (py_get p ''name'') (py_get p ''port'')) (PStr []))
           (py_or (py_or (py_get p ''adapter_type'') (py_get p ''adapter'')) (PStr [])) server_id)
       ports"

section \<open>What the filters guarantee\<close>

lemma glob_items_plain: "\<forall>c \<in> set s. c \<notin> {CHR ''*'', CHR ''?'', CHR ''[''} \<Longrightarrow> glob_items s = map ThisChar s"
  by (induction s) auto

text \<open>A pattern without special characters matches itself only; a star matches anything.\<close>

lemma plain_pattern: "\<forall>c \<in> set s. c \<notin> {CHR ''*'', CHR ''?'', CHR ''[''} \<Longrightarrow> fnmatchcase n s \<longleftrightarrow> n = s"
proof -
  have "glob_match (map ThisChar s) n \<longleftrightarrow> n = s" for s n
    by (induction s arbitrary: n) (auto split: list.splits)
  then show "\<forall>c \<in> set s. c \<notin> {CHR ''*'', CHR ''?'', CHR ''[''} \<Longrightarrow> fnmatchcase n s \<longleftrightarrow> n = s"
    by (simp add: fnmatchcase_def glob_items_plain)
qed

lemma star_matches: "fnmatchcase n ''*''"
proof -
  have "glob_match [AnyText] n" by (induction n) simp_all
  then show ?thesis by (simp add: fnmatchcase_def)
qed

end
