(* ===== verification/MuxStreams.thy ===== *)
theory MuxStreams
  imports MuxBeat MuxFilters ConsoleManager
begin

text \<open>
  The streams between servers in \<^verbatim>\<open>openmux/server/adapters/muxcon.py\<close>, on the side that owns the
  port: a peer opens a stream to a local port, becomes a read-only client of it, gets its output from a
  pump, writes to it and asks for its write slot.  The state joins the links (\<^verbatim>\<open>MuxPaths.thy\<close>) and
  the console manager (\<^verbatim>\<open>ConsoleManager.thy\<close>).  The stream tables of all peers are one dictionary
  under peer key and stream id.  A pump is a task: it is listed with its port while it runs, and
  \<open>pump_step\<close> is one turn of its loop.
\<close>

section \<open>State\<close>

datatype port_state = Configured | Creating | Active | Degraded | Destroying | Destroyed

text \<open>A \<open>RemotePortProxy\<close>; what it shares with the ports of the port manager (clients, groups, capacity,
  whether it is connected) is the \<open>Remote\<close> port there.\<close>

record stream_proxy =
  sp_peer :: string
  sp_origin :: string
  sp_sessions :: "(string, int) pydict"
  sp_stale :: "(string, int) pydict"
  sp_state :: port_state
  sp_seen :: int
  sp_reason :: string
  sp_notice :: "string option"
  sp_callback :: bool
  sp_inbox :: "bytes list"

type_synonym slot = "string \<times> int"

record fed =
  fd_mux :: mux
  fd_cm :: cm
  fd_proxies :: "(string, stream_proxy) pydict"
  fd_peer_proxies :: "(string \<times> string) list"
  fd_session_map :: "(slot, string) pydict"
  fd_local_map :: "(slot, string) pydict"
  fd_pumps :: "(slot, string) pydict"
  fd_pending :: "slot list"
  fd_replies :: "(slot \<times> string) list"

record fed_env =
  fe_mux :: mux_env
  fe_console :: env
  fe_dev :: "string \<Rightarrow> bytes \<Rightarrow> dev_result"
  fe_str :: "pyval \<Rightarrow> string"
  fe_iso :: "int \<Rightarrow> string"
  fe_json :: "string \<Rightarrow> pyval option"
  fe_filters :: filter_pair
  fe_key_filters :: "(string, filter_pair) pydict"

definition on_mux :: "(mux \<Rightarrow> 'a \<times> mux) \<Rightarrow> fed \<Rightarrow> 'a \<times> fed" where
  "on_mux f s = (case f (fd_mux s) of (r, m) \<Rightarrow> (r, s\<lparr>fd_mux := m\<rparr>))"

definition on_cm :: "(cm \<Rightarrow> 'a \<times> cm) \<Rightarrow> fed \<Rightarrow> 'a \<times> fed" where
  "on_cm f s = (case f (fd_cm s) of (r, c) \<Rightarrow> (r, s\<lparr>fd_cm := c\<rparr>))"

definition on_pm :: "(pm \<Rightarrow> 'a \<times> pm) \<Rightarrow> fed \<Rightarrow> 'a \<times> fed" where
  "on_pm f s = on_cm (with_pm f) s"

definition fed_client_id :: "string \<Rightarrow> int \<Rightarrow> string" where
  "fed_client_id peer sid = ''fed:'' @ peer @ '':'' @ int_str sid"

section \<open>Pumps\<close>

text \<open>The pump of a slot is cancelled: it lets go of its hold on the port.\<close>

definition cancel_pump :: "slot \<Rightarrow> fed \<Rightarrow> fed" where
  "cancel_pump slot s =
     (case dict_get (fd_pumps s) slot of
        None \<Rightarrow> s
      | Some port \<Rightarrow>
          (snd (on_pm (\<lambda>p. ((), remove_federation_buffering_hold port p)) s))
            \<lparr>fd_pumps := dict_del slot (fd_pumps s)\<rparr>)"

text \<open>The history of the port goes first, in frames of 16 KiB, until one is not sent.\<close>

function seed_federation_stream :: "mux_cfg \<Rightarrow> int \<Rightarrow> slot \<Rightarrow> bytes \<Rightarrow> fed \<Rightarrow> fed" where
  "seed_federation_stream cfg now slot seed s =
     (if seed = [] then s
      else
        (case on_mux (mux_send_data cfg now (fst slot) (snd slot) (take 16384 seed)) s of
           (ok, s1) \<Rightarrow> if ok then seed_federation_stream cfg now slot (drop 16384 seed) s1 else s1))"
  by pat_completeness auto
termination by (relation "measure (\<lambda>(_, _, _, seed, _). length seed)") auto

declare seed_federation_stream.simps [simp del]

definition start_pump :: "mux_cfg \<Rightarrow> int \<Rightarrow> slot \<Rightarrow> string \<Rightarrow> fed \<Rightarrow> fed" where
  "start_pump cfg now slot port s =
     (let s1 = snd (on_pm (\<lambda>p. ((), add_federation_buffering_hold port p)) (s\<lparr>fd_pumps := dict_set slot port (fd_pumps s)\<rparr>))
      in seed_federation_stream cfg now slot (get_scrollback port (cm_pm (fd_cm s1))) s1)"

text \<open>The loop ends when the slot no longer maps to the port; without a path a chunk is taken and lost.\<close>

definition pump_step :: "mux_cfg \<Rightarrow> int \<Rightarrow> slot \<Rightarrow> fed \<Rightarrow> fed" where
  "pump_step cfg now slot s =
     (case dict_get (fd_pumps s) slot of
        None \<Rightarrow> s
      | Some port \<Rightarrow>
          if dict_get (fd_local_map s) slot \<noteq> Some port
          then (cancel_pump slot s)\<lparr>fd_local_map := dict_del slot (fd_local_map s)\<rparr>
          else
            (case on_pm (get_port_data port) s of
               (None, s1) \<Rightarrow> s1
             | (Some data, s1) \<Rightarrow>
                 if data = [] then s1 else snd (on_mux (mux_send_data cfg now (fst slot) (snd slot) data) s1)))"

section \<open>Sessions opened by a peer\<close>

definition stop_local_session :: "slot \<Rightarrow> fed \<Rightarrow> fed" where
  "stop_local_session slot s =
     (let s1 = cancel_pump slot (s\<lparr>fd_local_map := dict_del slot (fd_local_map s)\<rparr>) in
      case dict_get (fd_local_map s) slot of
        None \<Rightarrow> s1
      | Some port \<Rightarrow>
          if port = [] then s1
          else
            (let cid = fed_client_id (fst slot) (snd slot);
                 s2 = snd (on_pm (remove_client_from_port port cid) s1)
             in snd (on_cm (\<lambda>c. ((), unregister_client_channel cid (unregister_client_port cid c))) s2)))"

definition rl_ensure_open_pump :: "mux_cfg \<Rightarrow> int \<Rightarrow> slot \<Rightarrow> string \<Rightarrow> string option \<Rightarrow> fed \<Rightarrow> fed" where
  "rl_ensure_open_pump cfg now slot port existing s =
     (if port = [] then s
      else if dict_has (fd_pumps s) slot \<and> existing = Some port then s
      else start_pump cfg now slot port (cancel_pump slot s))"

definition rl_open_session :: "mux_cfg \<Rightarrow> int \<Rightarrow> slot \<Rightarrow> string \<Rightarrow> fed \<Rightarrow> fed" where
  "rl_open_session cfg now slot port s =
     (let existing = dict_get (fd_local_map s) slot;
          s1 = (case existing of None \<Rightarrow> s | Some q \<Rightarrow> if q \<noteq> port then stop_local_session slot s else s);
          s2 = s1\<lparr>fd_local_map := dict_set slot port (fd_local_map s1)\<rparr>;
          cid = fed_client_id (fst slot) (snd slot);
          s3 = (if port = [] then s2
                else
                  (let s4 = snd (on_pm (add_client_to_port port cid (''federation:'' @ fst slot) ReadOnly) s2) in
                   snd (on_cm (\<lambda>c. ((), register_client_channel cid ''muxcon'' (register_client_port cid port c))) s4)))
      in rl_ensure_open_pump cfg now slot port existing s3)"

definition rl_close_session :: "slot \<Rightarrow> fed \<Rightarrow> fed" where
  "rl_close_session slot s = stop_local_session slot (s\<lparr>fd_session_map := dict_del slot (fd_session_map s)\<rparr>)"

definition slots_of :: "string \<Rightarrow> (slot, string) pydict \<Rightarrow> slot list" where
  "slots_of peer d = filter (\<lambda>k. fst k = peer) (map fst d)"

definition cleanup_peer_local_sessions :: "string \<Rightarrow> fed \<Rightarrow> fed" where
  "cleanup_peer_local_sessions peer s =
     (let pumps = slots_of peer (fd_pumps s);
          slots = pumps @ filter (\<lambda>k. k \<notin> set pumps) (slots_of peer (fd_local_map s));
          s1 = fold stop_local_session slots s
      in s1\<lparr>fd_local_map := filter (\<lambda>e. fst (fst e) \<noteq> peer) (fd_local_map s1),
            fd_session_map := filter (\<lambda>e. fst (fst e) \<noteq> peer) (fd_session_map s1)\<rparr>)"

definition maybe_cleanup_empty_peer :: "string \<Rightarrow> fed \<Rightarrow> fed" where
  "maybe_cleanup_empty_peer peer s =
     (if gr_conns (group_at peer (fd_mux s)) \<noteq> [] then s
      else if slots_of peer (fd_local_map s) = [] \<and> slots_of peer (fd_session_map s) = [] \<and> slots_of peer (fd_pumps s) = []
      then s
      else cleanup_peer_local_sessions peer s)"

section \<open>Data of a stream\<close>

definition proxy_receives :: "int \<Rightarrow> string \<Rightarrow> bytes \<Rightarrow> fed \<Rightarrow> fed" where
  "proxy_receives now name data s =
     (case dict_get (fd_proxies s) name of
        None \<Rightarrow> s
      | Some p \<Rightarrow>
          (let p1 = p\<lparr>sp_seen := now\<rparr>; queued = p1\<lparr>sp_inbox := sp_inbox p1 @ [data]\<rparr> in
           if sp_callback p then
             (case on_pm (handle_incoming_port_data name data (Some False)) (s\<lparr>fd_proxies := dict_set name p1 (fd_proxies s)\<rparr>) of
                (ok, s1) \<Rightarrow> if ok then s1 else s1\<lparr>fd_proxies := dict_set name queued (fd_proxies s1)\<rparr>)
           else s\<lparr>fd_proxies := dict_set name queued (fd_proxies s)\<rparr>))"

text \<open>A stream this server opened comes first, then one the peer opened; other data is dropped.\<close>

definition route_data_frame :: "fed_env \<Rightarrow> int \<Rightarrow> slot \<Rightarrow> bytes \<Rightarrow> fed \<Rightarrow> fed" where
  "route_data_frame fe now slot data s =
     (case dict_get (fd_session_map s) slot of
        Some name \<Rightarrow> proxy_receives now name data s
      | None \<Rightarrow>
          (case dict_get (fd_local_map s) slot of
             None \<Rightarrow> s
           | Some port \<Rightarrow>
               if port = [] then s
               else snd (on_cm (cm_write_to_port (fe_dev fe) port data (fed_client_id (fst slot) (snd slot))) s)))"

section \<open>The write slot of a peer\<close>

definition rw_candidates :: "port option \<Rightarrow> string \<Rightarrow> client_rec list" where
  "rw_candidates p cid =
     (case p of None \<Rightarrow> [] | Some q \<Rightarrow> filter (\<lambda>c. is_rw c \<and> cr_client_id c \<noteq> cid) (p_clients q))"

definition rsplit_colon :: "string \<Rightarrow> string \<times> string" where
  "rsplit_colon s =
     (rev (tl (dropWhile (\<lambda>c. c \<noteq> CHR '':'') (rev s))), rev (takeWhile (\<lambda>c. c \<noteq> CHR '':'') (rev s)))"

definition resolve_fedrw_take_target :: "port option \<Rightarrow> string \<Rightarrow> string \<Rightarrow> client_rec option" where
  "resolve_fedrw_take_target p cid spec =
     (case rw_candidates p cid of
        [] \<Rightarrow> None
      | c # cs \<Rightarrow>
          if spec = [] \<or> spec = ''latest'' then Some (latest c cs)
          else if startswith ''own:'' spec
          then find (has_id (fst (rsplit_colon cid) @ '':'' @ drop 4 spec)) (c # cs)
          else if startswith ''fed:'' spec then find (has_id spec) (c # cs)
          else None)"

definition demote_victim :: "env \<Rightarrow> string \<Rightarrow> string \<Rightarrow> cm \<Rightarrow> cm" where
  "demote_victim e port victim c =
     (if startswith ''fed:'' victim then snd (with_pm (demote_client port victim) c)
      else snd (demote_client_to_read_only e victim port True c))"

definition handle_fedrw_take :: "env \<Rightarrow> string \<Rightarrow> string \<Rightarrow> string \<Rightarrow> cm \<Rightarrow> cm" where
  "handle_fedrw_take e port cid spec c0 =
     (case with_pm (get_port port) c0 of
        (p, c) \<Rightarrow>
          (case resolve_fedrw_take_target p cid spec of
             None \<Rightarrow> if spec = [] \<or> spec = ''latest'' then snd (with_pm (promote_client port cid) c) else c
           | Some victim \<Rightarrow>
               (let v = cr_client_id victim; c1 = demote_victim e port v c;
                    c2 = snd (send_control_frame_to_client e v (FrameDecision (demoted_notice v port [])) c1)
                in case with_pm (promote_client port cid) c2 of
                     (True, c3) \<Rightarrow> c3
                   | (False, c3) \<Rightarrow> snd (with_pm (promote_client port v) c3))))"

fun mode_word :: "amode option \<Rightarrow> string" where
  "mode_word (Some ReadWrite) = ''read-write''"
| "mode_word _ = ''read-only''"

definition fedrw_action :: "env \<Rightarrow> string \<Rightarrow> string \<Rightarrow> string \<Rightarrow> cm \<Rightarrow> cm option" where
  "fedrw_action e port cid action c =
     (if action = ''REQUEST'' then Some (snd (with_pm (promote_client port cid) c))
      else if action = ''RELEASE'' then Some (snd (with_pm (demote_client port cid) c))
      else if startswith ''TAKE:'' action then Some (handle_fedrw_take e port cid (drop 5 action) c)
      else if action = ''FORCE'' then Some (handle_fedrw_take e port cid ''latest'' c)
      else None)"

text \<open>Only for a stream that the peer has open to this very port; the answer is the mode that resulted.\<close>

definition handle_fedrw_request :: "env \<Rightarrow> string \<Rightarrow> string \<Rightarrow> fed \<Rightarrow> fed" where
  "handle_fedrw_request e conn payload s =
     (case split_max 3 (CHR '':'') payload of
        [_, port, sid_str, action] \<Rightarrow>
          (case py_int sid_str of
             None \<Rightarrow> s
           | Some sid \<Rightarrow>
               (let peer = derive_peer_key (fd_mux s) conn; cid = fed_client_id peer sid in
                if dict_get (fd_local_map s) (peer, sid) \<noteq> Some port then s
                else
                  (case fedrw_action e port cid action (fd_cm s) of
                     None \<Rightarrow> s
                   | Some c \<Rightarrow>
                       s\<lparr>fd_cm := c,
                         fd_mux := control conn (''FEDRWACK:'' @ port @ '':'' @ int_str sid @ '':''
                             @ mode_word (pm_client_mode cid port (cm_pm c))) (fd_mux s)\<rparr>)))
      | _ \<Rightarrow> s)"

text \<open>A notice of a changed mode goes on to the peer whose client it is; any other frame is refused.\<close>

definition relay_client_mode :: "mux_cfg \<Rightarrow> int \<Rightarrow> string \<Rightarrow> string \<Rightarrow> fed \<Rightarrow> bool \<times> fed" where
  "relay_client_mode cfg now client mode s =
     (case rsplit_colon client of
        (owner, sid_str) \<Rightarrow>
          if \<not> startswith ''fed:'' owner then (False, s)
          else
            (case py_int sid_str of
               None \<Rightarrow> (False, s)
             | Some sid \<Rightarrow>
                 (let peer = drop 4 owner in
                  case dict_get (fd_local_map s) (peer, sid) of
                    None \<Rightarrow> (False, s)
                  | Some port \<Rightarrow>
                      on_mux (send_control_mpath cfg now peer (''FEDRWACK:'' @ port @ '':'' @ int_str sid @ '':'' @ mode)) s)))"

end
