(* ===== verification/MuxProxies.thy ===== *)
theory MuxProxies
  imports MuxStreams
begin

text \<open>
  The streams between servers on the side that has a proxy of the remote port: the class
  \<open>RemotePortProxy\<close> of \<^verbatim>\<open>openmux/server/adapters/muxcon.py\<close>, the registration and reuse of proxies
  when a peer advertises its ports, their liveness, and what the loss of the last path does to them.
  The power feeds of a proxy and the file that caches proxies are left out; a port name is a text.
\<close>

section \<open>Streams of a proxy\<close>

definition put_proxy :: "string \<Rightarrow> stream_proxy \<Rightarrow> fed \<Rightarrow> fed" where
  "put_proxy name p s = s\<lparr>fd_proxies := dict_set name p (fd_proxies s)\<rparr>"

definition alloc_local_stream_id :: "string \<Rightarrow> mux \<Rightarrow> int \<times> mux" where
  "alloc_local_stream_id peer m =
     (let sid = (case dict_get (mx_stream_id m) peer of None \<Rightarrow> 0 | Some i \<Rightarrow> i) + 1 in
      (sid, m\<lparr>mx_stream_id := dict_set peer sid (mx_stream_id m)\<rparr>))"

definition map_session :: "slot \<Rightarrow> string \<Rightarrow> fed \<Rightarrow> fed" where
  "map_session slot name s = s\<lparr>fd_session_map := dict_set slot name (fd_session_map s)\<rparr>"

definition session_key :: "string \<Rightarrow> string option \<Rightarrow> string" where
  "session_key name client =
     (case client of None \<Rightarrow> ''default:'' @ name | Some c \<Rightarrow> if c = [] then ''default:'' @ name else c)"

text \<open>The stream of a client, opened on first use; whether the frame was sent is not looked at.\<close>

definition ensure_session :: "mux_cfg \<Rightarrow> int \<Rightarrow> string \<Rightarrow> string option \<Rightarrow> fed \<Rightarrow> int option \<times> fed" where
  "ensure_session cfg now name client s =
     (case dict_get (fd_proxies s) name of
        None \<Rightarrow> (None, s)
      | Some p \<Rightarrow>
          (let key = session_key name client in
           case dict_get (sp_sessions p) key of
             Some sid \<Rightarrow> (Some sid, s)
           | None \<Rightarrow>
               (case on_mux (alloc_local_stream_id (sp_peer p)) s of
                  (sid, s1) \<Rightarrow>
                    (let s2 = snd (on_mux (send_stream_open_mpath cfg now (sp_peer p) sid name) s1) in
                     (Some sid, put_proxy name (p\<lparr>sp_sessions := dict_set key sid (sp_sessions p)\<rparr>)
                        (map_session (sp_peer p, sid) name s2))))))"

definition proxy_write_data :: "mux_cfg \<Rightarrow> int \<Rightarrow> string \<Rightarrow> bytes \<Rightarrow> string option \<Rightarrow> fed \<Rightarrow> nat \<times> fed" where
  "proxy_write_data cfg now name data client s =
     (case ensure_session cfg now name client s of
        (None, s1) \<Rightarrow> (0, s1)
      | (Some sid, s1) \<Rightarrow>
          (case dict_get (fd_proxies s1) name of
             None \<Rightarrow> (0, s1)
           | Some p \<Rightarrow>
               (length data,
                snd (on_mux (mux_send_data cfg now (sp_peer p) sid data) (put_proxy name (p\<lparr>sp_seen := now\<rparr>) s1)))))"

definition close_stream_for_client :: "mux_cfg \<Rightarrow> int \<Rightarrow> string \<Rightarrow> string option \<Rightarrow> fed \<Rightarrow> fed" where
  "close_stream_for_client cfg now name client s =
     (case dict_get (fd_proxies s) name of
        None \<Rightarrow> s
      | Some p \<Rightarrow>
          (let key = session_key name client in
           case dict_get (sp_sessions p) key of
             None \<Rightarrow> s
           | Some sid \<Rightarrow>
               (let s1 = put_proxy name (p\<lparr>sp_sessions := dict_del key (sp_sessions p)\<rparr>) s;
                    s2 = s1\<lparr>fd_session_map := dict_del (sp_peer p, sid) (fd_session_map s1)\<rparr>
                in snd (on_mux (send_stream_close_mpath cfg now (sp_peer p) sid ''client_disconnect'') s2))))"

definition close_session :: "mux_cfg \<Rightarrow> int \<Rightarrow> string \<Rightarrow> string \<Rightarrow> string \<times> int \<Rightarrow> fed \<Rightarrow> fed" where
  "close_session cfg now peer reason e s =
     (let s1 = snd (on_mux (send_stream_close_mpath cfg now peer (snd e) reason) s) in
      s1\<lparr>fd_session_map := dict_del (peer, snd e) (fd_session_map s1)\<rparr>)"

definition close_all_streams :: "mux_cfg \<Rightarrow> int \<Rightarrow> string \<Rightarrow> fed \<Rightarrow> fed" where
  "close_all_streams cfg now name s =
     (case dict_get (fd_proxies s) name of
        None \<Rightarrow> s
      | Some p \<Rightarrow>
          put_proxy name (p\<lparr>sp_sessions := []\<rparr>)
            (fold (close_session cfg now (sp_peer p) ''proxy_disconnect'') (sp_sessions p) s))"

definition set_connected :: "string \<Rightarrow> bool \<Rightarrow> fed \<Rightarrow> fed" where
  "set_connected name on s =
     snd (on_pm (\<lambda>m. ((), case lookup_port m name of
          Some p \<Rightarrow> (case p_backing p of
               Remote r \<Rightarrow> put_port name (p\<lparr>p_backing := Remote (r\<lparr>r_connected := on\<rparr>)\<rparr>) m
             | Local _ \<Rightarrow> m)
        | None \<Rightarrow> m)) s)"

definition proxy_connect :: "int \<Rightarrow> string \<Rightarrow> fed \<Rightarrow> fed" where
  "proxy_connect now name s =
     (case dict_get (fd_proxies s) name of
        None \<Rightarrow> s
      | Some p \<Rightarrow> put_proxy name (p\<lparr>sp_state := Active, sp_seen := now\<rparr>) (set_connected name True s))"

text \<open>The stream ids are kept as stale: their \<open>CLOSE\<close> may not reach the peer.\<close>

definition proxy_disconnect :: "mux_cfg \<Rightarrow> int \<Rightarrow> string \<Rightarrow> fed \<Rightarrow> fed" where
  "proxy_disconnect cfg now name s =
     (case dict_get (fd_proxies s) name of
        None \<Rightarrow> s
      | Some p \<Rightarrow>
          (let s1 = put_proxy name (p\<lparr>sp_state := Destroying, sp_stale := dict_merge (sp_stale p) (sp_sessions p)\<rparr>)
                      (set_connected name False s);
               s2 = close_all_streams cfg now name s1
           in case dict_get (fd_proxies s2) name of
                None \<Rightarrow> s2 | Some q \<Rightarrow> put_proxy name (q\<lparr>sp_state := Destroyed\<rparr>) s2))"

definition proxy_start :: "string \<Rightarrow> fed \<Rightarrow> fed" where
  "proxy_start name s =
     (case dict_get (fd_proxies s) name of
        None \<Rightarrow> s
      | Some p \<Rightarrow>
          (let on = (case cm_port (fd_cm s) name of None \<Rightarrow> False | Some q \<Rightarrow> remote_connected q) in
           put_proxy name (p\<lparr>sp_state := (if on then Active else Creating)\<rparr>) s))"

section \<open>The write slot at the origin\<close>

text \<open>The holder to displace, as the origin knows it.\<close>

definition take_spec :: "stream_proxy \<Rightarrow> port option \<Rightarrow> string option \<Rightarrow> string" where
  "take_spec p q target =
     (case target of
        None \<Rightarrow> ''latest''
      | Some t \<Rightarrow>
          if t = [] then ''latest''
          else
            (case (case q of None \<Rightarrow> None | Some r \<Rightarrow> find (has_id t) (p_clients r)) of
               None \<Rightarrow> ''latest''
             | Some c \<Rightarrow>
                 if startswith ''fed:'' t then t
                 else (case dict_get (sp_sessions p) t of None \<Rightarrow> ''latest'' | Some sid \<Rightarrow> ''own:'' @ int_str sid)))"

definition request_fedrw :: "mux_cfg \<Rightarrow> int \<Rightarrow> string \<Rightarrow> string option \<Rightarrow> string \<Rightarrow> fed \<Rightarrow> bool \<times> fed" where
  "request_fedrw cfg now name client action s =
     (case ensure_session cfg now name client s of
        (None, s1) \<Rightarrow> (False, s1)
      | (Some sid, s1) \<Rightarrow>
          (case dict_get (fd_proxies s1) name of
             None \<Rightarrow> (False, s1)
           | Some p \<Rightarrow>
               (case on_mux (send_control_mpath cfg now (sp_peer p)
                       (''FEDRW:'' @ name @ '':'' @ int_str sid @ '':'' @ action)) s1 of
                  (ok, s2) \<Rightarrow>
                    (ok, if ok then s2\<lparr>fd_pending := fd_pending s2 @ [(sp_peer p, sid)]\<rparr> else s2))))"

definition notify_local_demotion :: "env \<Rightarrow> slot \<Rightarrow> fed \<Rightarrow> fed" where
  "notify_local_demotion e slot s =
     (case dict_get (fd_session_map s) slot of
        None \<Rightarrow> s
      | Some name \<Rightarrow>
          (case dict_get (fd_proxies s) name of
             None \<Rightarrow> s
           | Some p \<Rightarrow>
               (case find (\<lambda>x. snd x = snd slot) (sp_sessions p) of
                  None \<Rightarrow> s
                | Some (client, _) \<Rightarrow>
                    if client = [] \<or> startswith ''default:'' client then s
                    else
                      snd (on_cm (\<lambda>c. send_control_frame_to_client e client (FrameDecision (demoted_notice client name []))
                          (snd (demote_client_to_read_only e client name False c))) s))))"

text \<open>An answer that nobody waits for and that says read-only is a demotion by the origin.\<close>

definition handle_fedrw_ack :: "env \<Rightarrow> string \<Rightarrow> string \<Rightarrow> fed \<Rightarrow> fed" where
  "handle_fedrw_ack e conn payload s =
     (case split_max 3 (CHR '':'') payload of
        [_, _, sid_str, mode] \<Rightarrow>
          (case py_int sid_str of
             None \<Rightarrow> s
           | Some sid \<Rightarrow>
               (let slot = (derive_peer_key (fd_mux s) conn, sid) in
                if slot \<in> set (fd_pending s)
                then s\<lparr>fd_pending := removeAll slot (fd_pending s), fd_replies := fd_replies s @ [(slot, mode)]\<rparr>
                else if mode = ''read-only'' then notify_local_demotion e slot s else s))
      | _ \<Rightarrow> s)"

section \<open>Link notices and liveness\<close>

definition link_notice_text :: "string \<Rightarrow> string \<Rightarrow> string option" where
  "link_notice_text state path =
     (if state = ''stale'' then Some (''[OpenMux:FEDERATED_LINK_STALE '' @ path @ '' paused until path recovers]'')
      else if state = ''disconnected''
      then Some (''[OpenMux:FEDERATED_LINK_DISCONNECTED '' @ path @ '' paused until reconnected]'')
      else if state = ''restored'' then Some (''[OpenMux:FEDERATED_LINK_RESTORED '' @ path @ '' reconnected]'')
      else None)"

definition emit_link_notice_once :: "string \<Rightarrow> string \<Rightarrow> string \<Rightarrow> stream_proxy \<Rightarrow> stream_proxy" where
  "emit_link_notice_once server name state p =
     (if sp_notice p = Some state then p
      else
        (case link_notice_text state (server @ ''::'' @ name) of
           None \<Rightarrow> p
         | Some text \<Rightarrow> p\<lparr>sp_inbox := sp_inbox p @ [encode_text (CRLF @ text @ CRLF)], sp_notice := Some state\<rparr>))"

definition origin_name :: "stream_proxy \<Rightarrow> string" where
  "origin_name p = (if sp_origin p = [] then ''unknown'' else sp_origin p)"

definition link_down_reason :: "stream_proxy \<Rightarrow> string" where
  "link_down_reason p = ''MuxCon link to '' @ origin_name p @ '' is down''"

definition is_proxy_connected :: "string \<Rightarrow> fed \<Rightarrow> bool" where
  "is_proxy_connected name s = (case cm_port (fd_cm s) name of None \<Rightarrow> False | Some q \<Rightarrow> remote_connected q)"

definition flip_proxy_live_state :: "bool \<Rightarrow> string \<Rightarrow> fed \<Rightarrow> fed" where
  "flip_proxy_live_state live name s =
     (case dict_get (fd_proxies s) name of
        None \<Rightarrow> s
      | Some p \<Rightarrow>
          if is_proxy_connected name s = live then s
          else
            (let p1 = p\<lparr>sp_reason := (if live then [] else link_down_reason p)\<rparr>;
                 p2 = (if live then p1 else emit_link_notice_once (origin_name p) name ''stale'' p1)
             in snd (on_pm (\<lambda>m. ((), emit [EvMeta name ''federated_live_state'' None] m))
                  (put_proxy name p2 (set_connected name live s)))))"

definition proxies_of :: "string \<Rightarrow> fed \<Rightarrow> string list" where
  "proxies_of peer s = map snd (filter (\<lambda>e. fst e = peer) (fd_peer_proxies s))"

definition update_peer_live :: "mux_cfg \<Rightarrow> int \<Rightarrow> string \<Rightarrow> fed \<Rightarrow> fed" where
  "update_peer_live cfg now peer s =
     fold (flip_proxy_live_state (mpath_has_live_path (fd_mux s) peer now (mpath_effective_stale_window cfg)))
       (proxies_of peer s) s"

text \<open>Every peer with a group or with proxies.\<close>

definition update_all_live :: "mux_cfg \<Rightarrow> int \<Rightarrow> fed \<Rightarrow> fed" where
  "update_all_live cfg now s =
     fold (update_peer_live cfg now) (remdups (map fst (mx_groups (fd_mux s)) @ map fst (fd_peer_proxies s))) s"

definition cc_mark_proxy_disconnected :: "mux_cfg \<Rightarrow> int \<Rightarrow> string \<Rightarrow> fed \<Rightarrow> fed" where
  "cc_mark_proxy_disconnected cfg now name s =
     (case dict_get (fd_proxies s) name of
        None \<Rightarrow> s
      | Some p \<Rightarrow>
          (let s1 = proxy_disconnect cfg now name (put_proxy name (p\<lparr>sp_reason := link_down_reason p\<rparr>) s) in
           case dict_get (fd_proxies s1) name of
             None \<Rightarrow> s1
           | Some q \<Rightarrow>
               snd (on_pm (\<lambda>m. ((), emit [EvMeta name ''federated_disconnected'' None] m))
                 (put_proxy name (emit_link_notice_once (origin_name q) name ''disconnected'' q) s1))))"

text \<open>What a closed connection does above the link, \<open>peer\<close> and \<open>server\<close> being read before the close.\<close>

definition after_close :: "mux_cfg \<Rightarrow> int \<Rightarrow> string \<Rightarrow> string option \<Rightarrow> fed \<Rightarrow> fed" where
  "after_close cfg now peer server s =
     (let names = (case (proxies_of peer s, server) of
                     ([], Some i) \<Rightarrow> if i = [] then [] else proxies_of (''node:'' @ i) s
                   | (ns, _) \<Rightarrow> ns);
          offline = (\<lambda>n t. snd (on_pm (\<lambda>m. ((), emit [EvMeta n ''federated_cached_offline'' None] m)) t));
          s1 = (if gr_conns (group_at peer (fd_mux s)) = []
                then fold offline names (fold (cc_mark_proxy_disconnected cfg now) names s)
                else update_peer_live cfg now peer s)
      in maybe_cleanup_empty_peer peer s1)"

section \<open>Advertised ports\<close>

text \<open>The group list of an advertised port; a value that cannot be iterated raises.\<close>

definition adv_groups :: "pyval \<Rightarrow> string list option" where
  "adv_groups v =
     (if \<not> truthy v then Some []
      else map_option (List.map_filter (\<lambda>x. case x of PStr t \<Rightarrow> Some t | _ \<Rightarrow> None)) (py_iter v))"

definition new_remote_port :: "string \<Rightarrow> port_meta \<Rightarrow> port option" where
  "new_remote_port name m =
     (case (adv_groups (md_rw_groups m), adv_groups (md_ro_groups m)) of
        (Some rw, Some ro) \<Rightarrow>
          Some \<lparr>p_name = name,
                p_backing = Remote \<lparr>r_origin = Some (si_id (md_origin m)), r_rw_groups = rw, r_ro_groups = ro,
                  r_connected = True, r_server_adapter = True\<rparr>,
                p_clients = [], p_max_rw = PStr (write_mode_str (proxy_mode m)), p_queues = [],
                p_queue = new_queue 0, p_dropped = 0, p_fed_viewers = 0, p_scroll = \<lparr>sb_size = 0, sb_bytes = []\<rparr>\<rparr>
      | _ \<Rightarrow> None)"

definition remember_proxy :: "string \<Rightarrow> string \<Rightarrow> fed \<Rightarrow> fed" where
  "remember_proxy peer name s =
     s\<lparr>fd_peer_proxies := (if (peer, name) \<in> set (fd_peer_proxies s) then fd_peer_proxies s
                           else fd_peer_proxies s @ [(peer, name)])\<rparr>"

definition register_duplicate :: "string \<Rightarrow> string \<Rightarrow> fed \<Rightarrow> bool" where
  "register_duplicate name origin s \<longleftrightarrow>
     (case cm_port (fd_cm s) name of
        None \<Rightarrow> False
      | Some q \<Rightarrow> (case p_backing q of Remote r \<Rightarrow> r_origin r = Some origin | Local _ \<Rightarrow> False))"

text \<open>A port of that name, local or not, is replaced.\<close>

definition rp_register_new :: "int \<Rightarrow> string \<Rightarrow> string \<Rightarrow> port_meta \<Rightarrow> fed \<Rightarrow> fed" where
  "rp_register_new now peer name m s =
     (case new_remote_port name m of
        None \<Rightarrow> s
      | Some q \<Rightarrow>
          if register_duplicate name (si_id (md_origin m)) s then s
          else
            remember_proxy peer name
              (put_proxy name
                \<lparr>sp_peer = peer, sp_origin = si_id (md_origin m), sp_sessions = [], sp_stale = [], sp_state = Active,
                 sp_seen = now, sp_reason = [], sp_notice = None, sp_callback = True, sp_inbox = []\<rparr>
                (snd (on_pm (register_federated_port name q) s))))"

definition close_stale :: "mux_cfg \<Rightarrow> int \<Rightarrow> string \<Rightarrow> string \<Rightarrow> fed \<Rightarrow> fed" where
  "close_stale cfg now peer name s =
     (case dict_get (fd_proxies s) name of
        None \<Rightarrow> s
      | Some p \<Rightarrow>
          put_proxy name (p\<lparr>sp_stale := []\<rparr>)
            (fold (\<lambda>e t. snd (on_mux (send_stream_close_mpath cfg now peer (snd e) ''stale_after_reconnect'') t)) (sp_stale p) s))"

definition proxy_clients :: "string \<Rightarrow> fed \<Rightarrow> client_rec list" where
  "proxy_clients name s = (case cm_port (fd_cm s) name of None \<Rightarrow> [] | Some q \<Rightarrow> p_clients q)"

definition reopen_streams :: "mux_cfg \<Rightarrow> int \<Rightarrow> string \<Rightarrow> fed \<Rightarrow> fed" where
  "reopen_streams cfg now name s =
     fold (\<lambda>c t. if cr_client_id c = [] then t else snd (ensure_session cfg now name (Some (cr_client_id c)) t))
       (proxy_clients name s) s"

text \<open>The request for each writer; the answers come later, and a refusal demotes the writer here
  (\<open>regrant_answer\<close>).\<close>

definition regrant_proxy_read_write :: "mux_cfg \<Rightarrow> int \<Rightarrow> string \<Rightarrow> fed \<Rightarrow> fed" where
  "regrant_proxy_read_write cfg now name s =
     fold (\<lambda>c t. if cr_client_id c = [] \<or> \<not> is_rw c then t
                 else snd (request_fedrw cfg now name (Some (cr_client_id c)) ''REQUEST'' t))
       (proxy_clients name s) s"

definition regrant_answer :: "string \<Rightarrow> string \<Rightarrow> string \<Rightarrow> fed \<Rightarrow> fed" where
  "regrant_answer name client mode s =
     (if mode = ''read-write'' then s else snd (on_pm (demote_client name client) s))"

text \<open>The groups of the proxy are those it was created with; its capacity is the new one.\<close>

definition rp_update_existing :: "mux_cfg \<Rightarrow> int \<Rightarrow> string \<Rightarrow> string \<Rightarrow> port_meta \<Rightarrow> fed \<Rightarrow> fed" where
  "rp_update_existing cfg now peer name m s =
     (case dict_get (fd_proxies s) name of
        None \<Rightarrow> s
      | Some p \<Rightarrow>
          (let refresh = (\<lambda>q. (case p_backing q of
                 Remote r \<Rightarrow> q\<lparr>p_max_rw := PStr (write_mode_str (proxy_mode m)),
                    p_backing := Remote (r\<lparr>r_origin := Some (si_id (md_origin m)), r_connected := True, r_server_adapter := True\<rparr>)\<rparr>
               | Local _ \<Rightarrow> q));
               s1 = snd (on_pm (\<lambda>x. ((), case lookup_port x name of None \<Rightarrow> x | Some q \<Rightarrow> put_port name (refresh q) x))
                 (put_proxy name (p\<lparr>sp_peer := peer, sp_origin := si_id (md_origin m), sp_reason := [], sp_callback := True\<rparr>) s));
               s2 = close_stale cfg now peer name (close_all_streams cfg now name s1);
               s3 = (case dict_get (fd_proxies s2) name of
                       None \<Rightarrow> s2
                     | Some q \<Rightarrow> put_proxy name (emit_link_notice_once (origin_name q) name ''restored'' q) s2)
           in remember_proxy peer name
                (regrant_proxy_read_write cfg now name (reopen_streams cfg now name s3))))"

definition register_remote_port_from_dict :: "mux_cfg \<Rightarrow> fed_env \<Rightarrow> int \<Rightarrow> string \<Rightarrow> pdict \<Rightarrow> fed \<Rightarrow> fed" where
  "register_remote_port_from_dict cfg fe now conn pd s =
     (case register_remote_port (fe_str fe) (fe_iso fe now) pd of
        Inl _ \<Rightarrow> s
      | Inr m \<Rightarrow>
          (case md_name m of
             PStr name \<Rightarrow>
               (let peer = derive_peer_key (fd_mux s) conn in
                case on_pm (get_port name) s of
                  (existing, s1) \<Rightarrow>
                    if (case existing of None \<Rightarrow> False | Some q \<Rightarrow> is_remote q)
                    then rp_update_existing cfg now peer name m s1 else rp_register_new now peer name m s1)
           | _ \<Rightarrow> s))"

fun payload_port_lines :: "(string \<Rightarrow> pyval option) \<Rightarrow> string list \<Rightarrow> pdict list" where
  "payload_port_lines json [] = []"
| "payload_port_lines json (l # ls) =
     (if strip l = ''END:PORTS'' then []
      else if strip l = [] then payload_port_lines json ls
      else
        (case json (strip l) of
           Some (PDict d) \<Rightarrow> d # payload_port_lines json ls
         | _ \<Rightarrow> payload_port_lines json ls))"

definition conn_filters :: "fed_env \<Rightarrow> mux \<Rightarrow> (string, filter_pair) pydict" where
  "conn_filters fe m = List.map_filter (\<lambda>(c, k). map_option (Pair c) (dict_get (fe_key_filters fe) k)) (mx_conn_key m)"

definition accepted_name :: "pdict \<Rightarrow> string option" where
  "accepted_name pd = (case py_or (py_get pd ''name'') (py_get pd ''original_name'') of PStr n \<Rightarrow> Some n | _ \<Rightarrow> None)"

fun register_ports :: "mux_cfg \<Rightarrow> fed_env \<Rightarrow> int \<Rightarrow> string \<Rightarrow> pdict list \<Rightarrow> fed \<Rightarrow> string list \<times> fed" where
  "register_ports cfg fe now conn [] s = ([], s)"
| "register_ports cfg fe now conn (pd # pds) s =
     (if \<not> allow_accept_port_for_conn (fe_str fe) (fe_filters fe) (conn_filters fe (fd_mux s)) conn pd
      then register_ports cfg fe now conn pds s
      else
        (case register_ports cfg fe now conn pds (register_remote_port_from_dict cfg fe now conn pd s) of
           (names, s1) \<Rightarrow> ((case accepted_name pd of None \<Rightarrow> names | Some n \<Rightarrow> n # names), s1)))"

text \<open>A proxy of the peer that is advertised no more leaves the port manager and closes its streams.\<close>

definition drop_stale_proxy :: "mux_cfg \<Rightarrow> int \<Rightarrow> string \<Rightarrow> string \<Rightarrow> fed \<Rightarrow> fed" where
  "drop_stale_proxy cfg now peer name s =
     (let s1 = s\<lparr>fd_peer_proxies := removeAll (peer, name) (fd_peer_proxies s)\<rparr>;
          s2 = (case cm_port (fd_cm s1) name of
                  None \<Rightarrow> s1
                | Some q \<Rightarrow> if is_remote q then snd (on_pm (\<lambda>m. ((), del_port name m)) s1) else s1)
      in proxy_disconnect cfg now name s2)"

definition purge_stale_proxies :: "mux_cfg \<Rightarrow> int \<Rightarrow> string \<Rightarrow> string list \<Rightarrow> fed \<Rightarrow> fed" where
  "purge_stale_proxies cfg now peer seen s =
     fold (drop_stale_proxy cfg now peer) (filter (\<lambda>n. n \<notin> set seen) (proxies_of peer s)) s"

definition handle_ports_federated :: "mux_cfg \<Rightarrow> fed_env \<Rightarrow> int \<Rightarrow> string \<Rightarrow> string \<Rightarrow> fed \<Rightarrow> fed" where
  "handle_ports_federated cfg fe now conn payload s =
     (case split_on NL payload of
        [] \<Rightarrow> s
      | l # ls \<Rightarrow>
          if \<not> startswith ''PORTS:FEDERATED:'' l then s
          else
            (case register_ports cfg fe now conn (payload_port_lines (fe_json fe) ls) s of
               (seen, s1) \<Rightarrow> purge_stale_proxies cfg now (derive_peer_key (fd_mux s) conn) seen s1))"

end
