(* ===== verification/MuxServe.thy ===== *)
theory MuxServe
  imports MuxProxies MuxRun
begin

text \<open>
  A federation server as a whole: a frame of a link with its effect on streams, proxies and ports
  (the handlers behind the gates of \<^verbatim>\<open>MuxLinks.thy\<close>), what a closed link does to them, and the
  events by which the port manager drives a proxy.
\<close>

definition serve_payload :: "mux_cfg \<Rightarrow> fed_env \<Rightarrow> int \<Rightarrow> string \<Rightarrow> string \<Rightarrow> fed \<Rightarrow> fed" where
  "serve_payload cfg fe now conn payload s =
     (if startswith ''PORTS:FEDERATED:'' payload then handle_ports_federated cfg fe now conn payload s
      else if startswith ''FEDRWACK:'' payload then handle_fedrw_ack (fe_console fe) conn payload s
      else if startswith ''FEDRW:'' payload then handle_fedrw_request (fe_console fe) conn payload s
      else s)"

fun serve_event :: "mux_cfg \<Rightarrow> fed_env \<Rightarrow> int \<Rightarrow> mux_event \<Rightarrow> fed \<Rightarrow> fed" where
  "serve_event cfg fe now (PayloadFor conn payload) s = serve_payload cfg fe now conn payload s"
| "serve_event cfg fe now (StreamOpened conn sid port) s =
     rl_open_session cfg now (derive_peer_key (fd_mux s) conn, sid) port s"
| "serve_event cfg fe now (StreamClosed conn sid) s = rl_close_session (derive_peer_key (fd_mux s) conn, sid) s"
| "serve_event cfg fe now (Routed conn (seq, sid, data)) s =
     route_data_frame fe now (derive_peer_key (fd_mux s) conn, sid) data s"

definition link_server :: "string \<Rightarrow> mux \<Rightarrow> string option" where
  "link_server cid m = (case dict_get (mx_links m) cid of None \<Rightarrow> None | Some l \<Rightarrow> pc_server l)"

text \<open>The links that a step closed, with what their close does above.\<close>

definition settle_closed :: "mux_cfg \<Rightarrow> int \<Rightarrow> mux \<Rightarrow> fed \<Rightarrow> fed" where
  "settle_closed cfg now old s =
     fold (\<lambda>cid t. after_close cfg now (derive_peer_key old cid) (link_server cid old) t)
       (filter (\<lambda>cid. \<not> dict_has (mx_links (fd_mux s)) cid) (map fst (mx_links old))) s"

text \<open>Frames that refresh the liveness of the peer first.\<close>

definition refreshes :: "mux_cfg \<Rightarrow> string \<Rightarrow> frame_obj \<Rightarrow> mux \<Rightarrow> bool" where
  "refreshes cfg cid f m \<longleftrightarrow> dict_has (mx_links m) cid
     \<and> (fr_type f \<in> {''C'', ''HB''} \<or> (fr_type f \<in> {''D'', ''O'', ''E''} \<and> is_conn_authenticated cfg m cid))"

definition fed_frame :: "mux_cfg \<Rightarrow> fed_env \<Rightarrow> int \<Rightarrow> string \<Rightarrow> frame_obj \<Rightarrow> fed \<Rightarrow> fed" where
  "fed_frame cfg fe now cid f s =
     (let m = fd_mux s;
          s1 = (if refreshes cfg cid f m
                then (update_peer_live cfg now (derive_peer_key m cid) (s\<lparr>fd_mux := touch now cid m\<rparr>)) else s);
          m1 = handle_frame cfg (fe_mux fe) now cid f m;
          s2 = settle_closed cfg now m (s1\<lparr>fd_mux := m1\<lparr>mx_events := []\<rparr>\<rparr>)
      in fold (serve_event cfg fe now) (mx_events m1) s2)"

text \<open>Any other step of the links.\<close>

definition fed_link_step :: "mux_cfg \<Rightarrow> fed_env \<Rightarrow> int \<Rightarrow> mux_op \<Rightarrow> fed \<Rightarrow> fed" where
  "fed_link_step cfg fe now op s =
     (case op of
        Incoming cid f \<Rightarrow> fed_frame cfg fe now cid f s
      | _ \<Rightarrow>
          (let s1 = settle_closed cfg now (fd_mux s) (s\<lparr>fd_mux := mux_do cfg (fe_mux fe) now op (fd_mux s)\<rparr>) in
           if op = Heartbeats then update_all_live cfg now s1 else s1))"

text \<open>What the port manager asks of a proxy: streams for its clients, the data they write.\<close>

definition serve_port_event :: "mux_cfg \<Rightarrow> int \<Rightarrow> pm_event \<Rightarrow> fed \<Rightarrow> fed" where
  "serve_port_event cfg now ev s =
     (case ev of
        EvOpen name cid \<Rightarrow> snd (ensure_session cfg now name (Some cid) s)
      | EvClose name cid \<Rightarrow> close_stream_for_client cfg now name (Some cid) s
      | EvData name dir client data \<Rightarrow>
          if dir = ''out'' \<and> is_proxy_connected name s then snd (proxy_write_data cfg now name data client s) else s
      | _ \<Rightarrow> s)"

end
