(* ===== verification/PortProperties.thy ===== *)
theory PortProperties
  imports ConsoleSteps
begin

text \<open>
  Properties of the port manager's state that every operation on it keeps, as an interface: whatever
  the ports themselves keep, every operation of the console manager keeps too.  It is interpreted on
  the invariant of the ports and on the relation by which a port keeps its kind, its write capacity
  and the number of federation pumps that hold its buffer.
\<close>

section \<open>The interface\<close>

locale kept_by_ports =
  fixes P :: "pm \<Rightarrow> bool"
  assumes emit_keeps: "P s \<Longrightarrow> P (emit es s)"
    and get_port_keeps: "P s \<Longrightarrow> P (snd (get_port n s))"
    and add_keeps: "P s \<Longrightarrow> P (snd (add_client_to_port n c u m s))"
    and remove_keeps: "P s \<Longrightarrow> P (snd (remove_client_from_port n c s))"
    and promote_keeps: "P s \<Longrightarrow> P (snd (promote_client n c s))"
    and demote_keeps: "P s \<Longrightarrow> P (snd (demote_client n c s))"
    and write_keeps: "P s \<Longrightarrow> P (snd (write_to_port dev n data c s))"
    and incoming_keeps: "P s \<Longrightarrow> P (snd (handle_incoming_port_data n data rc s))"
    and get_data_keeps: "P s \<Longrightarrow> P (snd (get_port_data n s))"
    and chunk_keeps: "P s \<Longrightarrow> P (snd (take_client_chunk n c s))"
begin

lemma presence_kept: "P (cm_pm s) \<Longrightarrow> P (cm_pm (snd (broadcast_presence e n b s)))"
  by (simp add: emit_keeps)

lemma disconnect_keeps: "P (cm_pm s) \<Longrightarrow> P (cm_pm (snd (disconnect_client_from_port e c n s)))"
  by (simp add: disconnect_client_from_port_def Let_def with_pm_Pair emit_keeps remove_keeps
      unregister_client_port_def stop_client_forwarding_task_def)

lemma fed_promotion_keeps: "P (cm_pm s) \<Longrightarrow> P (cm_pm (snd (request_federated_promotion e n c s)))"
  by (simp add: request_federated_promotion_def Let_def with_pm_Pair promote_keeps)

lemma attach_keeps: "P (cm_pm s) \<Longrightarrow> P (cm_pm (snd (attach_client_to_port e n c u m f ent co s)))"
  by (simp add: attach_client_to_port_def Let_def with_pm_Pair split_beta add_keeps fed_promotion_keeps
      ensure_client_forwarding_task_def register_client_port_def)

lemma connect_keeps:
  assumes "P (cm_pm s)" shows "P (cm_pm (snd (connect_client_to_port e c n u s)))"
proof -
  let ?s = "case dict_get (client_port_map s) c of Some old \<Rightarrow> snd (disconnect_client_from_port e c old s) | None \<Rightarrow> s"
  have s: "P (cm_pm ?s)" using assms by (auto intro: disconnect_keeps split: option.splits)
  show ?thesis
    unfolding connect_client_to_port_def Let_def
    using s by (auto simp: with_pm_Pair split_beta emit_keeps attach_keeps get_port_keeps split: option.splits)
qed

lemma promote_seat_keeps: "P (cm_pm s) \<Longrightarrow> P (cm_pm (snd (promote_seat e c n s)))"
  by (simp add: promote_seat_def Let_def with_pm_Pair emit_keeps promote_keeps)

lemma promote_request_keeps: "P (cm_pm s) \<Longrightarrow> P (cm_pm (snd (promote_client_to_read_write e c n s)))"
  by (auto simp: promote_client_to_read_write_def Let_def with_pm_Pair split_beta promote_seat_keeps
      fed_promotion_keeps get_port_keeps split: option.splits)

lemma release_keeps: "P (cm_pm s) \<Longrightarrow> P (cm_pm (snd (demote_client_to_read_only e c n b s)))"
  by (simp add: demote_client_to_read_only_def Let_def with_pm_Pair split_beta emit_keeps demote_keeps get_port_keeps)

lemma take_slot_keeps: "P (cm_pm s) \<Longrightarrow> P (cm_pm (snd (take_slot_local e n c u v s)))"
  by (simp add: take_slot_local_def Let_def split_beta with_pm_Pair release_keeps promote_request_keeps promote_keeps)

lemma take_local_keeps: "P (cm_pm s) \<Longrightarrow> P (cm_pm (snd (take_write_slot_local e n c u target q s)))"
  by (simp add: take_write_slot_local_def Let_def split_beta promote_request_keeps take_slot_keeps
      split: write_mode.splits option.splits)

lemma take_federated_keeps: "P (cm_pm s) \<Longrightarrow> P (cm_pm (snd (take_write_slot_federated e n c u target s)))"
  by (simp add: take_write_slot_federated_def Let_def split_beta promote_request_keeps)

lemma take_keeps: "P (cm_pm s) \<Longrightarrow> P (cm_pm (snd (take_write_slot e c n target s)))"
  by (simp add: take_write_slot_def Let_def with_pm_Pair split_beta get_port_keeps take_local_keeps
      take_federated_keeps split: option.splits)

lemma step_keeps_ports:
  assumes "console_step e dev s l t" "P (cm_pm s)" shows "P (cm_pm t)"
  using assms(1)
proof (cases rule: console_stepE)
  case (connect c n u d) with connect_keeps[OF assms(2), of e c n u] show ?thesis by simp
next
  case (disconnect c n r) with disconnect_keeps[OF assms(2), of e c n] show ?thesis by simp
next
  case (promote c n d) with promote_request_keeps[OF assms(2), of e c n] show ?thesis by simp
next
  case (release c n b d) with release_keeps[OF assms(2), of e c n b] show ?thesis by simp
next
  case (take_slot c n target d) with take_keeps[OF assms(2), of e c n target] show ?thesis by simp
next
  case (write_data n data c r)
  then show ?thesis using write_keeps[OF assms(2)] by (auto simp: cm_write_to_port_def with_pm_Pair)
next
  case (port_data n data rc r)
  then show ?thesis using incoming_keeps[OF assms(2)] by (auto simp: with_pm_Pair)
next
  case (forward n c r)
  then show ?thesis using chunk_keeps[OF assms(2), of n c] forward_frames(1)[of e n c s] by simp
next
  case (presence n event)
  then show ?thesis using assms(2) by (auto simp: on_federated_viewers_updated_def presence_kept)
qed

end

section \<open>The invariant of the ports\<close>

lemma take_chunk_pm_ok: "pm_ok s \<Longrightarrow> pm_ok (snd (take_client_chunk n c s))"
  by (rule take_chunk_ok)

interpretation sound_ports: kept_by_ports pm_ok
  by unfold_locales (auto intro: preserves take_chunk_pm_ok)

section \<open>What a port keeps\<close>

text \<open>No operation changes the kind of a port, its write capacity or the number of pumps that hold its
  buffer; a port that appears is a local one that nothing holds.\<close>

definition port_kept :: "port option \<Rightarrow> port \<Rightarrow> bool" where
  "port_kept old q \<longleftrightarrow> p_fed_viewers q = 0 \<and> \<not> is_remote q
     \<or> (case old of None \<Rightarrow> False
        | Some p \<Rightarrow> p_fed_viewers q = p_fed_viewers p \<and> p_max_rw q = p_max_rw p \<and> is_remote q = is_remote p)"

definition ports_kept :: "pm \<Rightarrow> pm \<Rightarrow> bool" where
  "ports_kept s t \<longleftrightarrow> (\<forall>n q. lookup_port t n = Some q \<longrightarrow> port_kept (lookup_port s n) q)"

lemma port_kept_trans: "port_kept old p \<Longrightarrow> port_kept (Some p) q \<Longrightarrow> port_kept old q"
  by (auto simp: port_kept_def split: option.splits)

lemma ports_kept_refl [simp, intro]: "ports_kept s s"
  by (auto simp: ports_kept_def port_kept_def)

lemma kept_emit [simp]: "ports_kept s (emit es t) = ports_kept s t"
  by (simp add: ports_kept_def)

lemma kept_lookup: "ports_kept s t \<Longrightarrow> lookup_port t n = Some p \<Longrightarrow> port_kept (lookup_port s n) p"
  by (simp add: ports_kept_def)

lemma kept_put:
  assumes "ports_kept s t" "lookup_port t n = Some p" "p_fed_viewers q = p_fed_viewers p"
    and "p_max_rw q = p_max_rw p" "is_remote q = is_remote p"
  shows "ports_kept s (put_port n q t)"
proof -
  have "port_kept (Some p) q" using assms(3-5) by (simp add: port_kept_def)
  with kept_lookup[OF assms(1,2)] have "port_kept (lookup_port s n) q" by (rule port_kept_trans)
  with assms(1) show ?thesis by (simp add: ports_kept_def)
qed

lemma kept_new [simp]: "ports_kept s t \<Longrightarrow> ports_kept s (put_port n (new_wrapper n u) t)"
  by (auto simp: ports_kept_def port_kept_def new_wrapper_def is_remote_def)

lemma kept_del: "ports_kept s t \<Longrightarrow> ports_kept s (del_port n t)"
  by (simp add: ports_kept_def del_port_def)

lemma kept_ensure: "ports_kept s t \<Longrightarrow> ports_kept s (snd (ensure_unified_wrapper n t))"
  by (simp add: ensure_unified_wrapper_def split: option.splits)

lemma kept_fields [simp]:
  "p_fed_viewers (attach_client_record p c u m now i) = p_fed_viewers p"
  "p_max_rw (attach_client_record p c u m now i) = p_max_rw p"
  "is_remote (attach_client_record p c u m now i) = is_remote p"
  "p_fed_viewers (set_mode c m p) = p_fed_viewers p" "is_remote (set_mode c m p) = is_remote p"
  "p_fed_viewers (receive_chunk rc data p) = p_fed_viewers p"
  "p_max_rw (receive_chunk rc data p) = p_max_rw p" "is_remote (receive_chunk rc data p) = is_remote p"
  by (simp_all add: attach_client_record_def set_mode_def receive_chunk_def Let_def fan_out_def enqueue_shared_def
      is_remote_def split: option.splits)

lemma kept_add: "ports_kept s t \<Longrightarrow> ports_kept s (snd (add_client_to_port n c u m t))"
  unfolding add_client_to_port_def Let_def
  using kept_ensure[of s t n] by (auto simp: split_beta intro: kept_put split: option.splits)

lemma kept_write: "ports_kept s t \<Longrightarrow> ports_kept s (snd (write_to_port dev n data c t))"
  unfolding write_to_port_def Let_def using kept_ensure[of s t n] by (auto split: option.splits)

lemma kept_get_data: "ports_kept s t \<Longrightarrow> ports_kept s (snd (get_port_data n t))"
  unfolding get_port_data_def Let_def
  using kept_ensure[of s t n] by (auto simp: is_remote_def intro!: kept_put split: option.splits)

interpretation kept_ports: kept_by_ports "ports_kept s"
proof unfold_locales
  fix t es n c rc dev u m data
  assume t: "ports_kept s t"
  show "ports_kept s (emit es t)" using t by simp
  show "ports_kept s (snd (get_port n t))" using t by (auto simp: get_port_def Let_def split: option.splits)
  show "ports_kept s (snd (add_client_to_port n c u m t))" using t by (rule kept_add)
  show "ports_kept s (snd (remove_client_from_port n c t))"
    using t by (auto simp: remove_client_from_port_def Let_def get_port_def is_remote_def intro!: kept_put split: option.splits)
  show "ports_kept s (snd (promote_client n c t))"
    using t by (auto simp: promote_client_def Let_def intro: kept_put split: option.splits)
  show "ports_kept s (snd (demote_client n c t))"
    using t by (auto simp: demote_client_def intro: kept_put split: option.splits)
  show "ports_kept s (snd (write_to_port dev n data c t))" using t by (rule kept_write)
  show "ports_kept s (snd (handle_incoming_port_data n data rc t))"
    using t by (auto simp: handle_incoming_port_data_def intro!: kept_put split: option.splits)
  show "ports_kept s (snd (get_port_data n t))" using t by (rule kept_get_data)
  show "ports_kept s (snd (take_client_chunk n c t))"
    using t by (auto simp: take_client_chunk_def is_remote_def intro!: kept_put split: option.splits)
qed

end
