(* ===== verification/FedRun.thy ===== *)
theory FedRun
  imports MuxServe PortProperties
begin

text \<open>
  The runs of a whole federation server, links, streams, proxies and consoles together, and their
  invariant: the ports stay sound, a proxy has the write capacity one, there is one pump per stream
  and it serves the port its stream is open to, and a port's buffer is held by no more than the pumps
  that serve it.
\<close>

section \<open>The invariant\<close>

definition pumps_on :: "string \<Rightarrow> (slot, string) pydict \<Rightarrow> nat" where
  "pumps_on n pumps = count_of (\<lambda>e. snd e = n) pumps"

definition ports_sound :: "(slot, string) pydict \<Rightarrow> pm \<Rightarrow> bool" where
  "ports_sound pumps s \<longleftrightarrow> pm_ok s \<and> (\<forall>n p. lookup_port s n = Some p \<longrightarrow>
     0 \<le> p_fed_viewers p \<and> p_fed_viewers p \<le> int (pumps_on n pumps) \<and> (is_remote p \<longrightarrow> write_capacity (p_max_rw p) = 1))"

definition pumps_sound :: "(slot, string) pydict \<Rightarrow> (slot, string) pydict \<Rightarrow> bool" where
  "pumps_sound local_map pumps \<longleftrightarrow> dict_wf pumps
     \<and> (\<forall>k n. dict_get pumps k = Some n \<longrightarrow> n \<noteq> [] \<and> dict_get local_map k = Some n)"

definition fed_ok :: "fed \<Rightarrow> bool" where
  "fed_ok s \<longleftrightarrow> ports_sound (fd_pumps s) (cm_pm (fd_cm s)) \<and> pumps_sound (fd_local_map s) (fd_pumps s)"

lemma pumps_soundD:
  assumes "pumps_sound lm pumps" "dict_get pumps k = Some n" shows "n \<noteq> []" "dict_get lm k = Some n"
proof -
  have "\<forall>k n. dict_get pumps k = Some n \<longrightarrow> n \<noteq> [] \<and> dict_get lm k = Some n"
    using assms(1) unfolding pumps_sound_def by (rule conjunct2)
  with assms(2) show "n \<noteq> []" "dict_get lm k = Some n" by blast+
qed

lemma pumps_soundI:
  "dict_wf pumps \<Longrightarrow> (\<And>k n. dict_get pumps k = Some n \<Longrightarrow> n \<noteq> [] \<and> dict_get lm k = Some n) \<Longrightarrow> pumps_sound lm pumps"
  unfolding pumps_sound_def by blast

section \<open>Counting pumps\<close>

lemma pumps_on_del: "dict_wf d \<Longrightarrow> dict_get d k = Some v \<Longrightarrow> pumps_on v d = Suc (pumps_on v (dict_del k d))"
  unfolding pumps_on_def
proof (induction d)
  case (Cons e d)
  show ?case
  proof (cases "fst e = k")
    case True
    with Cons.prems(1) have "dict_get d k = None" by (auto simp: dict_wf_def map_of_eq_None_iff)
    then have "dict_del k d = d" by (simp add: AList.delete_id map_of_eq_None_iff)
    with True Cons.prems(2) show ?thesis by (cases e) (simp add: AList.delete_eq split_beta)
  next
    case False
    with Cons show ?thesis by (cases e) (auto simp: AList.delete_eq split_beta dict_wf_def)
  qed
qed simp

lemma pumps_on_del_other: "dict_get d k = Some v \<Longrightarrow> dict_wf d \<Longrightarrow> n \<noteq> v \<Longrightarrow> pumps_on n (dict_del k d) = pumps_on n d"
  unfolding pumps_on_def
proof (induction d)
  case (Cons e d)
  show ?case
  proof (cases "fst e = k")
    case True
    with Cons.prems(2) have "dict_get d k = None" by (auto simp: dict_wf_def map_of_eq_None_iff)
    then have "dict_del k d = d" by (simp add: AList.delete_id map_of_eq_None_iff)
    with True Cons.prems show ?thesis by (cases e) (simp add: AList.delete_eq split_beta)
  next
    case False
    with Cons show ?thesis by (cases e) (auto simp: AList.delete_eq split_beta dict_wf_def)
  qed
qed simp

lemma pumps_on_set: "dict_get d k = None \<Longrightarrow> pumps_on n (dict_set k v d) = pumps_on n d + (if v = n then 1 else 0)"
  unfolding pumps_on_def by (induction d) auto

section \<open>Steps on the parts of the state\<close>

lemma on_mux_eq: "on_mux f s = (fst (f (fd_mux s)), s\<lparr>fd_mux := snd (f (fd_mux s))\<rparr>)"
  by (simp add: on_mux_def split_beta)

lemma on_cm_eq: "on_cm f s = (fst (f (fd_cm s)), s\<lparr>fd_cm := snd (f (fd_cm s))\<rparr>)"
  by (simp add: on_cm_def split_beta)

lemma on_pm_eq:
  "on_pm f s = (fst (f (cm_pm (fd_cm s))), s\<lparr>fd_cm := (fd_cm s)\<lparr>cm_pm := snd (f (cm_pm (fd_cm s)))\<rparr>\<rparr>)"
  by (simp add: on_pm_def on_cm_eq with_pm_Pair)

lemmas on_eqs = on_mux_eq on_cm_eq on_pm_eq

lemma fed_ok_same [simp]:
  "fed_ok (s\<lparr>fd_mux := m\<rparr>) = fed_ok s" "fed_ok (s\<lparr>fd_proxies := ps\<rparr>) = fed_ok s"
  "fed_ok (s\<lparr>fd_peer_proxies := pp\<rparr>) = fed_ok s" "fed_ok (s\<lparr>fd_session_map := sm\<rparr>) = fed_ok s"
  "fed_ok (s\<lparr>fd_pending := pe\<rparr>) = fed_ok s" "fed_ok (s\<lparr>fd_replies := re\<rparr>) = fed_ok s"
  "fed_ok (put_proxy name p s) = fed_ok s" "fed_ok (map_session slot name s) = fed_ok s"
  "fed_ok (snd (on_mux f s)) = fed_ok s"
  by (simp_all add: fed_ok_def put_proxy_def map_session_def on_mux_eq)

lemma ports_sound_kept:
  assumes "ports_sound pumps s" "ports_kept s t" "pm_ok t" shows "ports_sound pumps t"
proof -
  have "0 \<le> p_fed_viewers q \<and> p_fed_viewers q \<le> int (pumps_on n pumps) \<and> (is_remote q \<longrightarrow> write_capacity (p_max_rw q) = 1)"
    if q: "lookup_port t n = Some q" for n q
    using kept_lookup[OF assms(2) q] assms(1)
    by (auto simp: port_kept_def ports_sound_def split: option.splits)
  with assms(3) show ?thesis by (simp add: ports_sound_def)
qed

text \<open>A step of the consoles or of their ports.\<close>

lemma fed_ok_cm:
  assumes "fed_ok s" "ports_kept (cm_pm (fd_cm s)) (cm_pm c)" "pm_ok (cm_pm c)" shows "fed_ok (s\<lparr>fd_cm := c\<rparr>)"
  using assms ports_sound_kept by (auto simp: fed_ok_def)

lemma fed_ok_pm: "fed_ok s \<Longrightarrow> pm_ok (cm_pm (fd_cm s))"
  by (simp add: fed_ok_def ports_sound_def)

lemma fed_ok_on_pm:
  assumes "fed_ok s" "\<And>P. kept_by_ports P \<Longrightarrow> P (cm_pm (fd_cm s)) \<Longrightarrow> P (snd (f (cm_pm (fd_cm s))))"
  shows "fed_ok (snd (on_pm f s))"
proof -
  have "ports_kept (cm_pm (fd_cm s)) (snd (f (cm_pm (fd_cm s))))"
    by (rule assms(2)[OF kept_ports.kept_by_ports_axioms]) simp
  moreover have "pm_ok (snd (f (cm_pm (fd_cm s))))"
    by (rule assms(2)[OF sound_ports.kept_by_ports_axioms]) (rule fed_ok_pm[OF assms(1)])
  ultimately show ?thesis using assms(1) by (simp add: on_pm_eq fed_ok_cm)
qed

lemma fed_ok_on_cm:
  assumes "fed_ok s" "\<And>P. kept_by_ports P \<Longrightarrow> P (cm_pm (fd_cm s)) \<Longrightarrow> P (cm_pm (snd (f (fd_cm s))))"
  shows "fed_ok (snd (on_cm f s))"
proof -
  have "ports_kept (cm_pm (fd_cm s)) (cm_pm (snd (f (fd_cm s))))"
    by (rule assms(2)[OF kept_ports.kept_by_ports_axioms]) simp
  moreover have "pm_ok (cm_pm (snd (f (fd_cm s))))"
    by (rule assms(2)[OF sound_ports.kept_by_ports_axioms]) (rule fed_ok_pm[OF assms(1)])
  ultimately show ?thesis using assms(1) by (simp add: on_cm_eq fed_ok_cm)
qed

lemmas pm_keeps [intro] = kept_by_ports.get_port_keeps kept_by_ports.add_keeps kept_by_ports.remove_keeps
  kept_by_ports.promote_keeps kept_by_ports.demote_keeps kept_by_ports.write_keeps kept_by_ports.incoming_keeps
  kept_by_ports.get_data_keeps

lemma fed_ok_ports:
  assumes "fed_ok s"
  shows "fed_ok (snd (on_pm (get_port n) s))" "fed_ok (snd (on_pm (add_client_to_port n c u m) s))"
    "fed_ok (snd (on_pm (remove_client_from_port n c) s))" "fed_ok (snd (on_pm (promote_client n c) s))"
    "fed_ok (snd (on_pm (demote_client n c) s))" "fed_ok (snd (on_pm (handle_incoming_port_data n data rc) s))"
    "fed_ok (snd (on_pm (get_port_data n) s))" "fed_ok (snd (on_pm (\<lambda>x. ((), emit es x)) s))"
  by (rule fed_ok_on_pm[OF assms]; simp add: kept_by_ports.emit_keeps pm_keeps)+

section \<open>Pumps and sessions of a peer\<close>

lemma hold_removed:
  assumes "ports_sound pumps s" "dict_wf pumps" "dict_get pumps k = Some v"
  shows "ports_sound (dict_del k pumps) (remove_federation_buffering_hold v s)"
proof -
  let ?t = "remove_federation_buffering_hold v s"
  have "0 \<le> p_fed_viewers q \<and> p_fed_viewers q \<le> int (pumps_on n (dict_del k pumps))
      \<and> (is_remote q \<longrightarrow> write_capacity (p_max_rw q) = 1)" if q: "lookup_port ?t n = Some q" for n q
  proof (cases "n = v")
    case True
    from q True obtain p where p: "lookup_port s v = Some p" "p_fed_viewers q = max 0 (p_fed_viewers p - 1)"
        "p_max_rw q = p_max_rw p" "is_remote q = is_remote p"
      by (auto simp: remove_federation_buffering_hold_def Let_def is_remote_def split: option.splits if_splits)
    have "0 \<le> p_fed_viewers p \<and> p_fed_viewers p \<le> int (pumps_on v pumps)
        \<and> (is_remote p \<longrightarrow> write_capacity (p_max_rw p) = 1)"
      using assms(1) p(1) by (simp add: ports_sound_def)
    with p pumps_on_del[OF assms(2,3)] True show ?thesis by auto
  next
    case False
    with q have "lookup_port s n = Some q"
      by (auto simp: remove_federation_buffering_hold_def Let_def split: option.splits if_splits)
    with assms(1) pumps_on_del_other[OF assms(3,2) False] show ?thesis by (auto simp: ports_sound_def)
  qed
  moreover have "pm_ok ?t" using assms(1) by (auto simp: ports_sound_def intro: holds_ok)
  ultimately show ?thesis by (auto simp: ports_sound_def)
qed

lemma hold_added:
  assumes "ports_sound pumps s" "dict_get pumps k = None"
  shows "ports_sound (dict_set k v pumps) (add_federation_buffering_hold v s)"
proof -
  let ?s = "snd (ensure_unified_wrapper v s)"
  have s: "ports_sound pumps ?s"
    using assms(1) by (intro ports_sound_kept[OF assms(1)] kept_ensure) (auto simp: ports_sound_def intro: preserves)
  have "0 \<le> p_fed_viewers q \<and> p_fed_viewers q \<le> int (pumps_on n (dict_set k v pumps))
      \<and> (is_remote q \<longrightarrow> write_capacity (p_max_rw q) = 1)"
    if q: "lookup_port (add_federation_buffering_hold v s) n = Some q" for n q
  proof -
    from q obtain p where "lookup_port ?s n = Some p" "p_fed_viewers p \<le> p_fed_viewers q"
        "p_fed_viewers q \<le> p_fed_viewers p + (if n = v then 1 else 0)" "p_max_rw q = p_max_rw p" "is_remote q = is_remote p"
      by (auto simp: add_federation_buffering_hold_def Let_def is_remote_def split: option.splits if_splits)
    with s pumps_on_set[OF assms(2), of n v] show ?thesis by (force simp: ports_sound_def)
  qed
  moreover have "pm_ok (add_federation_buffering_hold v s)"
    using assms(1) by (auto simp: ports_sound_def intro: holds_ok)
  ultimately show ?thesis by (auto simp: ports_sound_def)
qed

lemma cancel_pump_fields [simp]:
  "fd_pumps (cancel_pump k s) = dict_del k (fd_pumps s)" "fd_local_map (cancel_pump k s) = fd_local_map s"
  "fd_session_map (cancel_pump k s) = fd_session_map s" "fd_mux (cancel_pump k s) = fd_mux s"
  "fd_proxies (cancel_pump k s) = fd_proxies s" "fd_peer_proxies (cancel_pump k s) = fd_peer_proxies s"
  by (auto simp: cancel_pump_def on_pm_eq AList.delete_id map_of_eq_None_iff split: option.splits)

lemma cancel_pump_ports:
  "ports_sound (fd_pumps s) (cm_pm (fd_cm s)) \<Longrightarrow> dict_wf (fd_pumps s)
    \<Longrightarrow> ports_sound (dict_del k (fd_pumps s)) (cm_pm (fd_cm (cancel_pump k s)))"
  by (auto simp: cancel_pump_def on_pm_eq hold_removed AList.delete_id map_of_eq_None_iff split: option.splits)

lemma pumps_sound_cancel:
  "pumps_sound lm pumps \<Longrightarrow> pumps_sound lm (dict_del k pumps)"
  "pumps_sound lm pumps \<Longrightarrow> pumps_sound (dict_del k lm) (dict_del k pumps)"
  by (auto simp: pumps_sound_def)

lemma cancel_pump_ok: "fed_ok s \<Longrightarrow> fed_ok (cancel_pump k s)"
  unfolding fed_ok_def by (auto intro: cancel_pump_ports pumps_sound_cancel simp: pumps_sound_def)

lemma seed_fields [simp]:
  "fd_pumps (seed_federation_stream cfg now k seed s) = fd_pumps s"
  "fd_local_map (seed_federation_stream cfg now k seed s) = fd_local_map s"
  "fd_session_map (seed_federation_stream cfg now k seed s) = fd_session_map s"
  "fd_proxies (seed_federation_stream cfg now k seed s) = fd_proxies s"
  "fd_cm (seed_federation_stream cfg now k seed s) = fd_cm s"
  by (induction cfg now k seed s rule: seed_federation_stream.induct,
      subst seed_federation_stream.simps, simp add: on_mux_eq split_beta)+

lemma start_pump_ok:
  assumes "fed_ok s" "dict_get (fd_pumps s) k = None" "n \<noteq> []" "dict_get (fd_local_map s) k = Some n"
  shows "fed_ok (start_pump cfg now k n s)"
proof -
  have "pumps_sound (fd_local_map s) (dict_set k n (fd_pumps s))"
    using assms by (auto simp: fed_ok_def pumps_sound_def dict_wf_set)
  with hold_added[of "fd_pumps s" "cm_pm (fd_cm s)" k n] assms(1,2) show ?thesis
    by (simp add: fed_ok_def start_pump_def Let_def on_pm_eq)
qed

lemma pump_step_ok: assumes "fed_ok s" shows "fed_ok (pump_step cfg now k s)"
proof -
  have "fed_ok ((cancel_pump k s)\<lparr>fd_local_map := dict_del k (fd_local_map s)\<rparr>)"
    using assms cancel_pump_ports[of s k] pumps_sound_cancel(2)[of "fd_local_map s" "fd_pumps s" k]
    by (simp add: fed_ok_def pumps_sound_def)
  moreover have "fed_ok (snd (on_pm (get_port_data n) s))" for n using assms by (rule fed_ok_ports)
  ultimately show ?thesis using assms
    by (auto simp: pump_step_def split: option.splits prod.splits) (metis snd_conv)+
qed

text \<open>Whether a stream is open or not, its pump has ended and its mapping is gone.\<close>

lemma stop_fields [simp]:
  "fd_pumps (stop_local_session k s) = dict_del k (fd_pumps s)"
  "fd_local_map (stop_local_session k s) = dict_del k (fd_local_map s)"
  "fd_session_map (stop_local_session k s) = fd_session_map s"
  "fd_mux (stop_local_session k s) = fd_mux s" "fd_proxies (stop_local_session k s) = fd_proxies s"
  by (auto simp: stop_local_session_def Let_def on_eqs split: option.splits)

lemma unregister_pm [simp]:
  "cm_pm (unregister_client_channel c s) = cm_pm s" "cm_pm (unregister_client_port c s) = cm_pm s"
  "cm_pm (register_client_channel c m s) = cm_pm s" "cm_pm (register_client_port c n s) = cm_pm s"
  by (simp_all add: unregister_client_channel_def unregister_client_port_def register_client_channel_def
      register_client_port_def)

lemma stop_session_ok: assumes "fed_ok s" shows "fed_ok (stop_local_session k s)"
proof -
  let ?s1 = "cancel_pump k (s\<lparr>fd_local_map := dict_del k (fd_local_map s)\<rparr>)"
  have s1: "fed_ok ?s1"
    using assms cancel_pump_ports[of "s\<lparr>fd_local_map := dict_del k (fd_local_map s)\<rparr>" k]
      pumps_sound_cancel(2)[of "fd_local_map s" "fd_pumps s" k] by (simp add: fed_ok_def pumps_sound_def)
  have "fed_ok (snd (on_cm (\<lambda>c. ((), unregister_client_channel i (unregister_client_port i c)))
      (snd (on_pm (remove_client_from_port n i) ?s1))))" for n i
    by (rule fed_ok_on_cm[OF fed_ok_ports(3)[OF s1]]) simp
  with s1 show ?thesis by (simp add: stop_local_session_def Let_def split: option.splits)
qed

lemma close_session_ok: "fed_ok s \<Longrightarrow> fed_ok (rl_close_session k s)"
  by (simp add: rl_close_session_def stop_session_ok)

lemma open_session_ok: assumes "fed_ok s" shows "fed_ok (rl_open_session cfg now k n s)"
proof -
  define s1 where "s1 = (case dict_get (fd_local_map s) k of None \<Rightarrow> s
    | Some q \<Rightarrow> if q \<noteq> n then stop_local_session k s else s)"
  define s2 where "s2 = s1\<lparr>fd_local_map := dict_set k n (fd_local_map s1)\<rparr>"
  define i where "i = fed_client_id (fst k) (snd k)"
  define s3 where "s3 = (if n = [] then s2
    else snd (on_cm (\<lambda>c. ((), register_client_channel i ''muxcon'' (register_client_port i n c)))
      (snd (on_pm (add_client_to_port n i (''federation:'' @ fst k) ReadOnly) s2))))"
  have s1: "fed_ok s1" using assms by (auto simp: s1_def intro: stop_session_ok split: option.splits)
  have p: "dict_get (fd_pumps s1) k = None \<or> dict_get (fd_local_map s) k = Some n \<and> s1 = s"
  proof (cases "dict_get (fd_pumps s) k")
    case (Some m)
    then have "dict_get (fd_local_map s) k = Some m"
      using assms pumps_soundD(2) unfolding fed_ok_def by blast
    then show ?thesis by (simp add: s1_def)
  qed (simp add: s1_def split: option.splits)
  have s2: "fed_ok s2" using s1 p by (auto simp: s2_def fed_ok_def pumps_sound_def)
  have s3: "fed_ok s3"
    by (auto simp: s3_def s2 intro!: fed_ok_on_cm[OF fed_ok_ports(2)[OF s2]])
  have s3f: "fd_pumps s3 = fd_pumps s1" "fd_local_map s3 = dict_set k n (fd_local_map s1)"
    by (simp_all add: s3_def s2_def on_eqs)
  have "fed_ok (rl_ensure_open_pump cfg now k n (dict_get (fd_local_map s) k) s3)"
    unfolding rl_ensure_open_pump_def using s3 s3f by (auto intro!: start_pump_ok cancel_pump_ok)
  then show ?thesis
    unfolding rl_open_session_def Let_def s3_def s2_def s1_def i_def .
qed

section \<open>The end of a peer\<close>

lemma fold_stop:
  "fed_ok s \<Longrightarrow> fed_ok (fold stop_local_session ks s)"
  "fd_pumps (fold stop_local_session ks s) = filter (\<lambda>e. fst e \<notin> set ks) (fd_pumps s)"
  "fd_local_map (fold stop_local_session ks s) = filter (\<lambda>e. fst e \<notin> set ks) (fd_local_map s)"
  "fd_session_map (fold stop_local_session ks s) = fd_session_map s"
  by (induction ks arbitrary: s) (auto simp: stop_session_ok AList.delete_eq split_beta intro!: filter_cong)

lemma slots_of_mem: "k \<in> set (slots_of peer d) \<longleftrightarrow> k \<in> dict_keys d \<and> fst k = peer"
  by (auto simp: slots_of_def dict_keys_def)

lemma cleanup_fields:
  "fd_pumps (cleanup_peer_local_sessions peer s) = filter (\<lambda>e. fst (fst e) \<noteq> peer) (fd_pumps s)"
  "fd_local_map (cleanup_peer_local_sessions peer s) = filter (\<lambda>e. fst (fst e) \<noteq> peer) (fd_local_map s)"
  "fd_session_map (cleanup_peer_local_sessions peer s) = filter (\<lambda>e. fst (fst e) \<noteq> peer) (fd_session_map s)"
  by (auto simp: cleanup_peer_local_sessions_def Let_def fold_stop slots_of_mem dict_keys_def intro!: filter_cong)

lemma dict_get_filter_keys: "dict_get (filter (\<lambda>e. Q (fst e)) d) k = (if Q k then dict_get d k else None)"
  by (induction d) auto

lemma cleanup_ok: assumes "fed_ok s" shows "fed_ok (cleanup_peer_local_sessions peer s)"
proof -
  let ?pumps = "slots_of peer (fd_pumps s)"
  define ks where "ks = ?pumps @ filter (\<lambda>k. k \<notin> set ?pumps) (slots_of peer (fd_local_map s))"
  let ?t = "fold stop_local_session ks s"
  let ?lm = "filter (\<lambda>e. fst (fst e) \<noteq> peer) (fd_local_map ?t)"
  have t: "fed_ok ?t" using assms by (rule fold_stop)
  then have sound: "pumps_sound (fd_local_map ?t) (fd_pumps ?t)" by (simp add: fed_ok_def)
  have gone: "fst k \<noteq> peer" if "dict_get (fd_pumps ?t) k = Some n" for k n
  proof
    assume k: "fst k = peer"
    from that have "dict_get (fd_pumps s) k = Some n" "k \<notin> set ks"
      unfolding fold_stop(2) dict_get_filter_keys[of "\<lambda>k. k \<notin> set ks"] by (simp_all split: if_splits)
    moreover from this(1) have "k \<in> dict_keys (fd_pumps s)"
      unfolding dict_has_iff[symmetric] by (simp add: dict_has_def)
    ultimately show False using k by (simp add: ks_def slots_of_mem)
  qed
  have "pumps_sound ?lm (fd_pumps ?t)"
  proof (rule pumps_soundI)
    show "dict_wf (fd_pumps ?t)" using sound by (simp add: pumps_sound_def)
    fix k n assume a: "dict_get (fd_pumps ?t) k = Some n"
    show "n \<noteq> [] \<and> dict_get ?lm k = Some n"
      unfolding dict_get_filter_keys[of "\<lambda>k. fst k \<noteq> peer"] using gone[OF a] pumps_soundD[OF sound a] by simp
  qed
  with t show ?thesis by (simp add: cleanup_peer_local_sessions_def Let_def fed_ok_def ks_def)
qed

lemma maybe_cleanup_ok: "fed_ok s \<Longrightarrow> fed_ok (maybe_cleanup_empty_peer peer s)"
  by (simp add: maybe_cleanup_empty_peer_def cleanup_ok)

section \<open>Data and the write slot of a peer\<close>

lemma proxy_receives_ok: assumes "fed_ok s" shows "fed_ok (proxy_receives now name data s)"
proof -
  have "fed_ok (snd (on_pm (handle_incoming_port_data name data (Some False)) (s\<lparr>fd_proxies := ps\<rparr>)))" for ps
    by (rule fed_ok_ports(6)) (simp add: assms)
  then show ?thesis
    by (auto simp: proxy_receives_def Let_def assms split_beta split: option.splits)
qed

lemma route_data_ok: assumes "fed_ok s" shows "fed_ok (route_data_frame fe now k data s)"
proof -
  have "fed_ok (snd (on_cm (cm_write_to_port (fe_dev fe) n data c) s))" for n c
    by (rule fed_ok_on_cm[OF assms]) (simp add: cm_write_to_port_def with_pm_Pair kept_by_ports.write_keeps)
  then show ?thesis
    by (auto simp: route_data_frame_def assms proxy_receives_ok split: option.splits)
qed

context kept_by_ports begin

lemma victim_keeps: "P (cm_pm c) \<Longrightarrow> P (cm_pm (demote_victim e n v c))"
  by (simp add: demote_victim_def with_pm_Pair demote_keeps release_keeps)

lemma fedrw_take_keeps: "P (cm_pm c) \<Longrightarrow> P (cm_pm (handle_fedrw_take e n i spec c))"
  by (simp add: handle_fedrw_take_def Let_def with_pm_Pair split_beta get_port_keeps promote_keeps victim_keeps
      split: option.splits prod.splits bool.splits)

lemma fedrw_action_keeps: "P (cm_pm c) \<Longrightarrow> fedrw_action e n i action c = Some d \<Longrightarrow> P (cm_pm d)"
  by (auto simp: fedrw_action_def with_pm_Pair promote_keeps demote_keeps fedrw_take_keeps split: if_splits)

end

lemma fedrw_request_ok: assumes "fed_ok s" shows "fed_ok (handle_fedrw_request e conn payload s)"
proof -
  have "fed_ok (s\<lparr>fd_cm := c, fd_mux := m\<rparr>)" if "fedrw_action e n i action (fd_cm s) = Some c" for n i action c m
  proof -
    have "fed_ok (s\<lparr>fd_cm := c\<rparr>)"
      using kept_ports.fedrw_action_keeps[OF _ that, of "cm_pm (fd_cm s)"]
        sound_ports.fedrw_action_keeps[OF fed_ok_pm[OF assms] that] by (intro fed_ok_cm[OF assms]) simp_all
    then show ?thesis by (simp add: fed_ok_def)
  qed
  then show ?thesis
    by (auto simp: handle_fedrw_request_def Let_def assms split: list.splits option.splits)
qed

section \<open>Proxies\<close>

lemma proxy_streams_ok [simp]:
  "fed_ok (snd (ensure_session cfg now name c s)) = fed_ok s"
  "fed_ok (close_stream_for_client cfg now name c s) = fed_ok s"
  "fed_ok (close_session cfg now peer reason e s) = fed_ok s"
  "fed_ok (snd (request_fedrw cfg now name c action s)) = fed_ok s"
  "fed_ok (snd (proxy_write_data cfg now name data c s)) = fed_ok s"
proof -
  show 1: "fed_ok (snd (ensure_session cfg now name c s)) = fed_ok s" for c s
    by (simp add: ensure_session_def Let_def split_beta split: option.splits)
  show "fed_ok (close_stream_for_client cfg now name c s) = fed_ok s"
    by (simp add: close_stream_for_client_def Let_def split: option.splits)
  show "fed_ok (close_session cfg now peer reason e s) = fed_ok s"
    by (simp add: close_session_def Let_def)
  show "fed_ok (snd (request_fedrw cfg now name c action s)) = fed_ok s"
    using 1[of c s] by (auto simp: request_fedrw_def on_mux_eq split_beta split: option.splits prod.splits)
  show "fed_ok (snd (proxy_write_data cfg now name data c s)) = fed_ok s"
    using 1[of c s] by (auto simp: proxy_write_data_def split: option.splits prod.splits)
qed

lemma fold_fed_ok: "(\<And>x t. fed_ok t \<Longrightarrow> fed_ok (f x t)) \<Longrightarrow> fed_ok s \<Longrightarrow> fed_ok (fold f xs s)"
  by (induction xs arbitrary: s) auto

lemma close_all_ok: "fed_ok s \<Longrightarrow> fed_ok (close_all_streams cfg now name s)"
  by (auto simp: close_all_streams_def intro: fold_fed_ok split: option.splits)

text \<open>Changes of the record of a remote port.\<close>

lemma remote_changed:
  assumes "fed_ok s"
    and "\<And>p. lookup_port (cm_pm (fd_cm s)) name = Some p \<Longrightarrow> is_remote p \<Longrightarrow> p_clients (f p) = p_clients p
      \<and> p_queues (f p) = p_queues p \<and> p_queue (f p) = p_queue p \<and> p_scroll (f p) = p_scroll p
      \<and> p_fed_viewers (f p) = p_fed_viewers p \<and> is_remote (f p) \<and> write_capacity (p_max_rw (f p)) = 1"
  shows "fed_ok (snd (on_pm (\<lambda>m. ((), case lookup_port m name of
      Some p \<Rightarrow> if is_remote p then put_port name (f p) m else m | None \<Rightarrow> m)) s))"
proof (cases "lookup_port (cm_pm (fd_cm s)) name")
  case (Some p)
  show ?thesis
  proof (cases "is_remote p")
    case True
    note f = assms(2)[OF Some True]
    have p: "0 \<le> p_fed_viewers p \<and> p_fed_viewers p \<le> int (pumps_on name (fd_pumps s)) \<and> write_capacity (p_max_rw p) = 1"
        "port_ok p"
      using assms(1) Some True pm_okD[OF fed_ok_pm[OF assms(1)] Some] by (auto simp: fed_ok_def ports_sound_def)
    from f p have "port_ok (f p)" by (simp add: port_ok_def seats_ok_def queues_ok_def)
    with f p have "ports_sound (fd_pumps s) (put_port name (f p) (cm_pm (fd_cm s)))"
      using assms(1) by (auto simp: fed_ok_def ports_sound_def intro: put_port_ok)
    with assms(1) True Some show ?thesis by (simp add: on_pm_eq fed_ok_def)
  next
    case False with Some assms(1) show ?thesis by (simp add: on_pm_eq)
  qed
next
  case None with assms(1) show ?thesis by (simp add: on_pm_eq)
qed

definition connected_as :: "bool \<Rightarrow> port \<Rightarrow> port" where
  "connected_as on p = (case p_backing p of Remote r \<Rightarrow> p\<lparr>p_backing := Remote (r\<lparr>r_connected := on\<rparr>)\<rparr> | Local _ \<Rightarrow> p)"

lemma set_connected_eq:
  "set_connected name on s = snd (on_pm (\<lambda>m. ((), case lookup_port m name of
      Some p \<Rightarrow> if is_remote p then put_port name (connected_as on p) m else m | None \<Rightarrow> m)) s)"
  unfolding set_connected_def
  by (rule arg_cong[where f = "\<lambda>g. snd (on_pm g s)"])
     (auto simp: fun_eq_iff is_remote_def connected_as_def split: option.splits backing.splits)

lemma set_connected_ok: assumes "fed_ok s" shows "fed_ok (set_connected name on s)"
  unfolding set_connected_eq
proof (rule remote_changed[OF assms])
  fix p assume p: "lookup_port (cm_pm (fd_cm s)) name = Some p" "is_remote p"
  then show "p_clients (connected_as on p) = p_clients p \<and> p_queues (connected_as on p) = p_queues p
      \<and> p_queue (connected_as on p) = p_queue p \<and> p_scroll (connected_as on p) = p_scroll p
      \<and> p_fed_viewers (connected_as on p) = p_fed_viewers p \<and> is_remote (connected_as on p)
      \<and> write_capacity (p_max_rw (connected_as on p)) = 1"
    using assms by (auto simp: connected_as_def is_remote_def fed_ok_def ports_sound_def split: backing.splits)
qed

lemma proxy_life_ok:
  assumes "fed_ok s"
  shows "fed_ok (proxy_connect now name s)" "fed_ok (proxy_disconnect cfg now name s)"
    "fed_ok (flip_proxy_live_state live name s)" "fed_ok (cc_mark_proxy_disconnected cfg now name s)"
proof -
  have dis: "fed_ok (proxy_disconnect cfg now name t)" if "fed_ok t" for t
    using that by (auto simp: proxy_disconnect_def Let_def set_connected_ok close_all_ok split: option.splits)
  show "fed_ok (proxy_connect now name s)"
    using assms by (auto simp: proxy_connect_def set_connected_ok split: option.splits)
  show "fed_ok (proxy_disconnect cfg now name s)" using assms by (rule dis)
  show "fed_ok (flip_proxy_live_state live name s)"
    using assms by (auto simp: flip_proxy_live_state_def Let_def set_connected_ok fed_ok_ports(8) split: option.splits)
  show "fed_ok (cc_mark_proxy_disconnected cfg now name s)"
    using assms by (auto simp: cc_mark_proxy_disconnected_def Let_def dis fed_ok_ports(8) split: option.splits)
qed

lemma update_live_ok: "fed_ok s \<Longrightarrow> fed_ok (update_peer_live cfg now peer s)"
  unfolding update_peer_live_def by (rule fold_fed_ok) (rule proxy_life_ok(3))

lemma update_all_live_ok: "fed_ok s \<Longrightarrow> fed_ok (update_all_live cfg now s)"
  unfolding update_all_live_def by (rule fold_fed_ok) (rule update_live_ok)

lemma after_close_ok: "fed_ok s \<Longrightarrow> fed_ok (after_close cfg now peer server s)"
  unfolding after_close_def Let_def
  by (auto intro!: maybe_cleanup_ok fold_fed_ok fed_ok_ports(8) proxy_life_ok(4) update_live_ok)

section \<open>Advertised ports\<close>

text \<open>What the code relies on in an advertisement: the capacity on the wire is an integer.\<close>

definition int_capacity :: "pdict \<Rightarrow> bool" where
  "int_capacity pd \<longleftrightarrow> (case py_get_or pd ''max_rw_users'' (PInt 1) of PInt _ \<Rightarrow> True | _ \<Rightarrow> False)"

definition int_capacities :: "fed_env \<Rightarrow> bool" where
  "int_capacities fe \<longleftrightarrow> (\<forall>t d. fe_json fe t = Some (PDict d) \<longrightarrow> int_capacity d)"

lemma wire_capacity_one: "wire_to_mode (float_of_capacity (capacity_from_wire (py_or (PInt i) (PInt 1)))) = ModeOne"
  by (simp add: capacity_from_wire_def legacy_int_to_mode_def write_capacity_def float_of_capacity_def
      wire_float_to_mode_def py_or_def one_enat_def)

lemma proxy_mode_one:
  assumes "register_remote_port rp now pd = Inr m" "int_capacity pd" shows "proxy_mode m = ModeOne"
proof -
  obtain i where i: "py_get_or pd ''max_rw_users'' (PInt 1) = PInt i"
    using assms(2) by (auto simp: int_capacity_def split: pyval.splits)
  have "md_max_rw m = float_of_capacity (capacity_from_wire (py_or (PInt i) (PInt 1)))"
    using assms(1) unfolding register_remote_port_def i by (auto simp: Let_def split_beta new_meta_def split: sum.splits)
  then show ?thesis unfolding proxy_mode_def using wire_capacity_one[of i] by simp
qed

lemma capacity_of_mode: "write_capacity (PStr (write_mode_str m)) = mode_capacity m"
  by (simp add: write_capacity_def)

lemma capacity_of_one: "write_capacity (PStr (write_mode_str ModeOne)) = 1"
  by (rule trans[OF capacity_of_mode]) simp

lemma new_remote_ok:
  assumes "new_remote_port name m = Some q" "proxy_mode m = ModeOne"
  shows "port_ok q" "p_fed_viewers q = 0" "write_capacity (p_max_rw q) = 1"
  using assms capacity_of_one
  by (auto simp: new_remote_port_def port_ok_def seats_ok_def queues_ok_def queue_ok_def scroll_ok_def new_queue_def
      zero_enat_def[symmetric] split: option.splits)

lemma fed_ok_new_port:
  assumes "fed_ok s" "port_ok q" "p_fed_viewers q = 0" "write_capacity (p_max_rw q) = 1"
  shows "fed_ok (snd (on_pm (register_federated_port name q) s))"
  using assms by (auto simp: on_pm_eq register_federated_port_def fed_ok_def ports_sound_def put_port_ok)

lemma fed_ok_del_port: "fed_ok s \<Longrightarrow> fed_ok (snd (on_pm (\<lambda>m. ((), del_port n m)) s))"
  by (simp add: on_pm_eq) (auto intro!: fed_ok_cm kept_del del_port_ok fed_ok_pm)

lemma remember_ok [simp]: "fed_ok (remember_proxy peer name s) = fed_ok s"
  by (simp add: remember_proxy_def)

lemma register_new_ok: "fed_ok s \<Longrightarrow> proxy_mode m = ModeOne \<Longrightarrow> fed_ok (rp_register_new now peer name m s)"
  by (auto simp: rp_register_new_def new_remote_ok intro!: fed_ok_new_port split: option.splits)

lemma close_stale_ok [simp]: "fed_ok s \<Longrightarrow> fed_ok (close_stale cfg now peer name s)"
  by (auto simp: close_stale_def intro!: fold_fed_ok split: option.splits)

lemma reopen_ok: "fed_ok s \<Longrightarrow> fed_ok (reopen_streams cfg now name s)"
  unfolding reopen_streams_def by (rule fold_fed_ok) auto

lemma regrant_ok: "fed_ok s \<Longrightarrow> fed_ok (regrant_proxy_read_write cfg now name s)"
  unfolding regrant_proxy_read_write_def by (rule fold_fed_ok) auto

definition refreshed :: "port_meta \<Rightarrow> port \<Rightarrow> port" where
  "refreshed m q = (case p_backing q of
     Remote r \<Rightarrow> q\<lparr>p_max_rw := PStr (write_mode_str (proxy_mode m)),
       p_backing := Remote (r\<lparr>r_origin := Some (si_id (md_origin m)), r_connected := True, r_server_adapter := True\<rparr>)\<rparr>
   | Local _ \<Rightarrow> q)"

lemma update_existing_ok:
  assumes "fed_ok s" "proxy_mode m = ModeOne" shows "fed_ok (rp_update_existing cfg now peer name m s)"
proof -
  have changed: "fed_ok (snd (on_pm (\<lambda>x. ((), case lookup_port x name of None \<Rightarrow> x
      | Some q \<Rightarrow> put_port name (refreshed m q) x)) t))" if t: "fed_ok t" for t
  proof (cases "lookup_port (cm_pm (fd_cm t)) name")
    case (Some q)
    show ?thesis
    proof (cases "is_remote q")
      case True
      have "fed_ok (snd (on_pm (\<lambda>x. ((), case lookup_port x name of
          Some q \<Rightarrow> if is_remote q then put_port name (refreshed m q) x else x | None \<Rightarrow> x)) t))"
        using t assms(2) capacity_of_one
        by (intro remote_changed) (auto simp: refreshed_def is_remote_def split: backing.splits)
      with Some True show ?thesis by (simp add: on_pm_eq)
    next
      case False
      then have q: "refreshed m q = q" by (auto simp: refreshed_def is_remote_def split: backing.splits)
      have "ports_kept (cm_pm (fd_cm t)) (put_port name q (cm_pm (fd_cm t)))"
        using Some by (intro kept_put) auto
      then have "fed_ok (t\<lparr>fd_cm := (fd_cm t)\<lparr>cm_pm := put_port name q (cm_pm (fd_cm t))\<rparr>\<rparr>)"
        using put_port_ok[OF fed_ok_pm[OF t] pm_okD[OF fed_ok_pm[OF t] Some]] by (intro fed_ok_cm[OF t]) simp_all
      with Some q show ?thesis by (simp add: on_pm_eq)
    qed
  qed (use t in \<open>simp add: on_pm_eq\<close>)
  have notice: "fed_ok (case dict_get (fd_proxies t) name of None \<Rightarrow> t
      | Some q \<Rightarrow> put_proxy name (emit_link_notice_once (origin_name q) name ''restored'' q) t)" if "fed_ok t" for t
    using that by (simp split: option.splits)
  show ?thesis
    unfolding rp_update_existing_def Let_def refreshed_def[symmetric]
    using assms(1) by (auto intro!: regrant_ok reopen_ok notice close_stale_ok close_all_ok changed split: option.split)
qed

lemma register_one_ok:
  assumes "fed_ok s" "int_capacity pd" shows "fed_ok (register_remote_port_from_dict cfg fe now conn pd s)"
  using assms proxy_mode_one[OF _ assms(2)] fed_ok_ports(1)[OF assms(1)]
  by (auto simp: register_remote_port_from_dict_def Let_def split_beta update_existing_ok register_new_ok
      split: sum.splits pyval.splits)

lemma register_all_ok:
  "fed_ok s \<Longrightarrow> \<forall>pd \<in> set pds. int_capacity pd \<Longrightarrow> fed_ok (snd (register_ports cfg fe now conn pds s))"
  by (induction cfg fe now conn pds s rule: register_ports.induct)
     (auto simp: register_one_ok split_beta)

lemma payload_capacities: "int_capacities fe \<Longrightarrow> pd \<in> set (payload_port_lines (fe_json fe) ls) \<Longrightarrow> int_capacity pd"
  by (induction "fe_json fe" ls rule: payload_port_lines.induct)
     (auto simp: int_capacities_def split: if_splits option.splits pyval.splits)

lemma drop_stale_ok: "fed_ok s \<Longrightarrow> fed_ok (drop_stale_proxy cfg now peer name s)"
  unfolding drop_stale_proxy_def Let_def
  by (auto intro!: proxy_life_ok(2) fed_ok_del_port split: option.splits)

lemma ports_federated_ok:
  assumes "fed_ok s" "int_capacities fe" shows "fed_ok (handle_ports_federated cfg fe now conn payload s)"
proof -
  have "fed_ok (purge_stale_proxies cfg now peer seen t)" if "fed_ok t" for peer seen t
    unfolding purge_stale_proxies_def using that by (rule fold_fed_ok[rotated]) (rule drop_stale_ok)
  moreover have "fed_ok (snd (register_ports cfg fe now conn (payload_port_lines (fe_json fe) ls) s))" for ls
    using assms payload_capacities by (intro register_all_ok) auto
  ultimately show ?thesis
    using assms(1) by (auto simp: handle_ports_federated_def split_beta split: list.splits)
qed

section \<open>Runs\<close>

lemma demotion_notice_ok: assumes "fed_ok s" shows "fed_ok (notify_local_demotion e k s)"
proof -
  have "fed_ok (snd (on_cm (\<lambda>c. send_control_frame_to_client e i f (snd (demote_client_to_read_only e i n b c))) s))" for i f n b
    by (rule fed_ok_on_cm[OF assms]) (simp add: kept_by_ports.release_keeps)
  with assms show ?thesis by (auto simp: notify_local_demotion_def split: option.splits)
qed

lemma fedrw_ack_ok: "fed_ok s \<Longrightarrow> fed_ok (handle_fedrw_ack e conn payload s)"
  by (auto simp: handle_fedrw_ack_def Let_def demotion_notice_ok split: list.splits option.splits)

lemma serve_event_ok:
  assumes "fed_ok s" "int_capacities fe" shows "fed_ok (serve_event cfg fe now ev s)"
proof (cases ev)
  case (Routed conn df)
  then show ?thesis using assms by (cases df) (simp add: route_data_ok)
qed (use assms in \<open>simp_all add: serve_payload_def ports_federated_ok fedrw_ack_ok fedrw_request_ok open_session_ok close_session_ok\<close>)

lemma settle_ok: "fed_ok s \<Longrightarrow> fed_ok (settle_closed cfg now old s)"
  unfolding settle_closed_def by (rule fold_fed_ok) (rule after_close_ok)

lemma fed_frame_ok: assumes "fed_ok s" "int_capacities fe" shows "fed_ok (fed_frame cfg fe now cid f s)"
proof -
  have "fed_ok (if refreshes cfg cid f (fd_mux s)
      then update_peer_live cfg now (derive_peer_key (fd_mux s) cid) (s\<lparr>fd_mux := touch now cid (fd_mux s)\<rparr>) else s)"
    using assms(1) by (simp add: update_live_ok)
  then show ?thesis unfolding fed_frame_def Let_def
    using assms(2) by (intro fold_fed_ok) (auto intro: serve_event_ok settle_ok)
qed

lemma fed_link_ok: "fed_ok s \<Longrightarrow> int_capacities fe \<Longrightarrow> fed_ok (fed_link_step cfg fe now op s)"
  by (cases op) (auto simp: fed_link_step_def Let_def fed_frame_ok settle_ok update_all_live_ok)

lemma port_event_ok: "fed_ok s \<Longrightarrow> fed_ok (serve_port_event cfg now ev s)"
  by (cases ev) (auto simp: serve_port_event_def)

text \<open>A step of the links, a demand of the port manager on a proxy, a turn of a pump, an operation of the
  console manager, or the answer to a regrant.\<close>

inductive fed_run :: "mux_cfg \<Rightarrow> fed_env \<Rightarrow> fed \<Rightarrow> fed \<Rightarrow> bool" for cfg fe s where
  start: "fed_run cfg fe s s"
| link: "fed_run cfg fe s t \<Longrightarrow> fed_run cfg fe s (fed_link_step cfg fe now op t)"
| port_event: "fed_run cfg fe s t \<Longrightarrow> fed_run cfg fe s (serve_port_event cfg now ev t)"
| pump: "fed_run cfg fe s t \<Longrightarrow> fed_run cfg fe s (pump_step cfg now k t)"
| console: "fed_run cfg fe s t \<Longrightarrow> console_step (fe_console fe) (fe_dev fe) (fd_cm t) l c
    \<Longrightarrow> fed_run cfg fe s (t\<lparr>fd_cm := c\<rparr>)"
| answer: "fed_run cfg fe s t \<Longrightarrow> fed_run cfg fe s (regrant_answer name client m t)"

lemma fed_run_ok: "fed_run cfg fe s t \<Longrightarrow> fed_ok s \<Longrightarrow> int_capacities fe \<Longrightarrow> fed_ok t"
proof (induction rule: fed_run.induct)
  case (console t l c)
  then have t: "fed_ok t" by simp
  show ?case
    using kept_ports.step_keeps_ports[OF console.hyps(2), of "cm_pm (fd_cm t)"]
      sound_ports.step_keeps_ports[OF console.hyps(2) fed_ok_pm[OF t]] by (intro fed_ok_cm[OF t]) simp_all
next
  case (answer t name client m)
  then show ?case by (simp add: regrant_answer_def fed_ok_ports(5))
qed (simp_all add: fed_link_ok port_event_ok pump_step_ok)

end
