(* ===== verification/StreamFacts.thy ===== *)
theory StreamFacts
  imports FedRun
begin

text \<open>
  What holds of the streams between servers: on every run of a server the write slots and the pumps
  stay sound, the end of a peer, the write gate for its data, its takeovers; and where the stream ids,
  the shared queue of a port and the reuse of proxies fall short of what the code means to do.
\<close>

section \<open>On every run\<close>



section \<open>The end of a peer\<close>

definition conns_of :: "string \<Rightarrow> mux \<Rightarrow> (string, path) pydict" where
  "conns_of peer m = gr_conns (group_at peer m)"

lemma conns_of_group: "conns_of peer m = (case dict_get (mx_groups m) peer of None \<Rightarrow> [] | Some g \<Rightarrow> gr_conns g)"
  by (simp add: conns_of_def group_at_def new_group_def split: option.splits)

lemma conns_same: "mx_groups m = mx_groups m' \<Longrightarrow> conns_of peer m = conns_of peer m'"
  by (simp add: conns_of_group)

lemma conns_primary: "dict_get (mx_groups m) key = Some g
    \<Longrightarrow> conns_of peer (put_group key (g\<lparr>gr_primary := p\<rparr>) m) = conns_of peer m"
  by (simp add: conns_of_group put_group_def)

lemma conns_select: "conns_of peer (snd (select_path cfg now key m)) = conns_of peer m"
  by (auto simp: select_path_def Let_def conns_primary split: option.splits)

lemma conns_writer: "conns_of peer (snd (select_writer cfg now key m)) = conns_of peer m"
proof -
  obtain c m1 where "select_path cfg now key m = (c, m1)" by fastforce
  with conns_select[of peer cfg now key m] show ?thesis by (auto simp: select_writer_def split: option.splits)
qed

lemma conns_write [simp]: "conns_of peer (mux_write c b m) = conns_of peer m"
  by (rule conns_same) (simp add: mux_write_def)

lemma conns_next: "next_frame_seq c m = (q, m1) \<Longrightarrow> conns_of peer m1 = conns_of peer m"
  by (rule conns_same) (auto simp: next_frame_seq_def Let_def split: option.splits if_splits)

lemma conns_sequenced: "conns_of peer (snd (send_sequenced cfg now key frame m)) = conns_of peer m"
proof -
  obtain c m1 where "select_writer cfg now key m = (c, m1)" by fastforce
  with conns_writer[of peer cfg now key m] show ?thesis
    by (auto simp: send_sequenced_def conns_next split: option.splits prod.splits)
qed

lemma conns_close: "conns_of peer (snd (send_stream_close_mpath cfg now key sid r m)) = conns_of peer m"
  by (simp add: send_stream_close_mpath_def conns_sequenced)

definition keeps_paths :: "string \<Rightarrow> fed \<Rightarrow> fed \<Rightarrow> bool" where
  "keeps_paths peer s t \<longleftrightarrow> conns_of peer (fd_mux t) = conns_of peer (fd_mux s)"

lemma fold_paths: "(\<And>x t. keeps_paths peer s t \<Longrightarrow> keeps_paths peer s (f x t)) \<Longrightarrow> keeps_paths peer s t
    \<Longrightarrow> keeps_paths peer s (fold f xs t)"
  by (induction xs arbitrary: t) auto

lemma paths_proxy [simp]:
  "keeps_paths peer s (put_proxy n p t) = keeps_paths peer s t"
  "keeps_paths peer s (snd (on_pm f t)) = keeps_paths peer s t"
  "keeps_paths peer s (set_connected n on t) = keeps_paths peer s t"
  by (simp_all add: keeps_paths_def put_proxy_def on_pm_eq set_connected_def)

lemma paths_close_session: "keeps_paths peer s t \<Longrightarrow> keeps_paths peer s (close_session cfg now p r e t)"
  by (simp add: close_session_def Let_def on_mux_eq keeps_paths_def conns_close)

lemma paths_close_all: "keeps_paths peer s t \<Longrightarrow> keeps_paths peer s (close_all_streams cfg now n t)"
  by (auto simp: close_all_streams_def intro!: fold_paths paths_close_session split: option.splits)

lemma paths_disconnect: "keeps_paths peer s t \<Longrightarrow> keeps_paths peer s (proxy_disconnect cfg now n t)"
  by (auto simp: proxy_disconnect_def Let_def intro!: paths_close_all split: option.splits)

lemma paths_mark: "keeps_paths peer s t \<Longrightarrow> keeps_paths peer s (cc_mark_proxy_disconnected cfg now n t)"
  by (auto simp: cc_mark_proxy_disconnected_def Let_def intro!: paths_disconnect split: option.splits)

lemma no_slots:
  "slots_of peer (filter (\<lambda>e. fst (fst e) \<noteq> peer) d) = []"
  by (induction d) (auto simp: slots_of_def)

lemma cleanup_empties:
  assumes "gr_conns (group_at peer (fd_mux s)) = []"
  shows "slots_of peer (fd_pumps (maybe_cleanup_empty_peer peer s)) = []
    \<and> slots_of peer (fd_local_map (maybe_cleanup_empty_peer peer s)) = []
    \<and> slots_of peer (fd_session_map (maybe_cleanup_empty_peer peer s)) = []"
  using assms by (simp add: maybe_cleanup_empty_peer_def cleanup_fields no_slots)

text \<open>C16: When the last path to a peer is gone, nothing of the peer's streams is left: no pump, no port mapped
  to one of its streams and no proxy waiting for data on one.\<close>

theorem lost_peer_leaves_no_stream:
  assumes "gr_conns (group_at peer (fd_mux s)) = []"
  shows "slots_of peer (fd_pumps (after_close cfg now peer server s)) = []
    \<and> slots_of peer (fd_local_map (after_close cfg now peer server s)) = []
    \<and> slots_of peer (fd_session_map (after_close cfg now peer server s)) = []"
proof -
  have "keeps_paths peer s (fold (\<lambda>n t. snd (on_pm (\<lambda>m. ((), emit [EvMeta n ''federated_cached_offline'' None] m)) t)) ns
      (fold (cc_mark_proxy_disconnected cfg now) ns s))" for ns
    by (intro fold_paths paths_mark) (simp_all, simp add: keeps_paths_def)
  then have "gr_conns (group_at peer (fd_mux (fold (\<lambda>n t. snd (on_pm (\<lambda>m. ((), emit [EvMeta n ''federated_cached_offline'' None] m)) t)) ns
      (fold (cc_mark_proxy_disconnected cfg now) ns s)))) = []" for ns
    using assms by (simp add: keeps_paths_def conns_of_def)
  then show ?thesis unfolding after_close_def Let_def using assms by (auto intro!: cleanup_empties)
qed

section \<open>Data and takeovers of a peer\<close>

text \<open>What a peer sends on a stream that is open to a local port reaches the device only if the stream's
  client holds the write slot; then it is written once.  Otherwise nothing is written.\<close>

theorem peer_data_needs_the_slot:
  assumes "dict_get (fd_session_map s) k = None" "dict_get (fd_local_map s) k = Some n" "n \<noteq> []"
  shows "pm_events (cm_pm (fd_cm (route_data_frame fe now k data s))) = pm_events (cm_pm (fd_cm s))
    @ (if modes (fd_cm s) n (fed_client_id (fst k) (snd k)) = Some ReadWrite
       then [EvData n ''out'' (Some (fed_client_id (fst k) (snd k))) data] else [])"
  using assms
  by (simp add: route_data_frame_def on_cm_eq cm_write_to_port_def with_pm_Pair write_blocked write_passed modes_eq)

lemma resolved_holds:
  assumes "pm_ok (cm_pm c)" "resolve_fedrw_take_target (cm_port c n) i spec = Some v"
  shows "modes c n (cr_client_id v) = Some ReadWrite" "cr_client_id v \<noteq> i"
proof -
  obtain p where p: "cm_port c n = Some p"
    using assms(2) by (cases "cm_port c n") (auto simp: resolve_fedrw_take_target_def rw_candidates_def)
  have "v \<in> set (rw_candidates (Some p) i)"
    using assms(2) latest_mem by (auto simp: resolve_fedrw_take_target_def p split: list.splits if_splits dest: find_Some_mem)
  then have v: "v \<in> set (p_clients p)" "is_rw v" and "cr_client_id v \<noteq> i" by (auto simp: rw_candidates_def)
  then show "cr_client_id v \<noteq> i" by simp
  show "modes c n (cr_client_id v) = Some ReadWrite"
    using find_id_mem[OF pm_ok_distinct[OF assms(1) p] v(1)] v(2) p
    by (simp add: modes_eq pm_mode_def pm_client_mode_def is_rw_def)
qed

text \<open>Whether the holder of the slot can be displaced: a client of another server always, a client here
  while it is attached to the port.\<close>

definition displaceable :: "cm \<Rightarrow> string \<Rightarrow> string \<Rightarrow> bool" where
  "displaceable c n v \<longleftrightarrow> startswith ''fed:'' v \<or> mapped_to c v n"

lemma victim_demoted:
  assumes "pm_ok (cm_pm c)" "modes c n v = Some ReadWrite" "displaceable c n v"
  shows "\<exists>es. cm_pm (demote_victim e n v c) = emit es (snd (demote_client n v (cm_pm c)))"
proof (cases "startswith ''fed:'' v")
  case True
  then have "cm_pm (demote_victim e n v c) = emit [] (snd (demote_client n v (cm_pm c)))"
    by (simp add: demote_victim_def with_pm_Pair emit_def)
  then show ?thesis ..
next
  case False
  obtain d t where r: "demote_client_to_read_only e v n True c = (d, t)" by fastforce
  with False assms(2,3) demote_effect(2,7)[OF r] show ?thesis by (auto simp: demote_victim_def displaceable_def)
qed

lemma victim_stays:
  assumes "modes c n v = Some ReadWrite" "\<not> displaceable c n v"
  shows "demote_victim e n v c = c"
  using assms by (auto simp: demote_victim_def displaceable_def demote_client_to_read_only_def)

lemma ok_emit [simp]: "pm_mode (emit es s) n x = pm_mode s n x" "pm_capacity (emit es s) n = pm_capacity s n"
    "pm_writers (emit es s) n = pm_writers s n"
  by (simp_all add: pm_mode_def pm_client_mode_def pm_capacity_def pm_writers_def)

lemma take_ports:
  assumes "resolve_fedrw_take_target (cm_port c n) i spec = Some v"
  shows "\<exists>m. m = cm_pm (demote_victim e n (cr_client_id v) c)
    \<and> cm_pm (handle_fedrw_take e n i spec c) = (if fst (promote_client n i m) then snd (promote_client n i m)
      else snd (promote_client n (cr_client_id v) (snd (promote_client n i m))))"
proof -
  obtain p where p: "cm_port c n = Some p"
    using assms by (cases "cm_port c n") (auto simp: resolve_fedrw_take_target_def rw_candidates_def)
  then have get: "with_pm (get_port n) c = (Some p, c)" by (simp add: with_pm_Pair get_port_def)
  show ?thesis
    unfolding handle_fedrw_take_def get using assms p
    by (simp add: Let_def with_pm_Pair split: prod.splits bool.splits)
qed

text \<open>C11: A takeover that a peer asks for on a one-writer port moves the slot from the resolved holder to the
  peer's client and touches nobody else, or changes no mode at all when the holder cannot be displaced.\<close>

theorem peer_take_moves_one_slot:
  assumes ok: "pm_ok (cm_pm c)" and v: "resolve_fedrw_take_target (cm_port c n) i spec = Some v"
    and ro: "modes c n i = Some ReadOnly" and one: "pm_capacity (cm_pm c) n = 1"
  shows "modes (handle_fedrw_take e n i spec c) m x =
    (if displaceable c n (cr_client_id v) \<and> m = n \<and> x = i then Some ReadWrite
     else if displaceable c n (cr_client_id v) \<and> m = n \<and> x = cr_client_id v then Some ReadOnly else modes c m x)"
proof -
  let ?v = "cr_client_id v" and ?p = "cm_pm c"
  note rw = resolved_holds[OF ok v]
  obtain m0 where m0: "m0 = cm_pm (demote_victim e n ?v c)" and eq: "cm_pm (handle_fedrw_take e n i spec c) =
      (if fst (promote_client n i m0) then snd (promote_client n i m0)
       else snd (promote_client n ?v (snd (promote_client n i m0))))"
    using take_ports[OF v, of e] by blast
  show ?thesis
  proof (cases "displaceable c n ?v")
    case True
    then obtain es where es: "m0 = emit es (snd (demote_client n ?v ?p))"
      using victim_demoted[OF ok rw(1), of e] m0 by auto
    have ok2: "pm_ok (m0)" using ok es by (simp add: slots.demote_keeps)
    have dem: "fst (demote_client n ?v ?p)" using slots.demote_iff[OF ok] rw(1) by (simp add: modes_eq)
    have m2: "pm_mode (m0) a b = (if a = n \<and> b = ?v then Some ReadOnly else pm_mode ?p a b)" for a b
      using slots.demote_mode[OF ok, of n ?v a b] dem by (simp add: es)
    have "fst (promote_client n i (m0))"
      using slots.room_after_demote[OF ok, of n ?v] rw ro m2[of n i] slots.promote_iff[OF ok2, of n i]
      by (simp add: es modes_eq)
    then show ?thesis using True rw(2) slots.promote_mode[OF ok2, of n i m x]
      by (simp add: eq modes_eq m2)
  next
    case False
    then have same: "m0 = ?p" using victim_stays[OF rw(1)] m0 by simp
    have full: "\<not> fst (promote_client n i ?p)"
    proof
      assume "fst (promote_client n i ?p)"
      then have "enat (pm_writers ?p n) < 1" using slots.promote_iff[OF ok, of n i] ro one by (simp add: modes_eq)
      moreover have "Suc (pm_writers (snd (demote_client n ?v ?p)) n) = pm_writers ?p n"
        using slots.demote_writers[OF ok] rw(1) by (simp add: modes_eq)
      ultimately show False by (simp add: one_enat_def)
    qed
    have ok3: "pm_ok (snd (promote_client n i ?p))" using ok by (rule slots.promote_keeps)
    have "pm_mode (snd (promote_client n i ?p)) a b = pm_mode ?p a b" for a b
      using slots.promote_mode[OF ok, of n i a b] full by simp
    with slots.promote_mode[OF ok3, of n ?v m x] rw(1) full False show ?thesis
      by (auto simp: eq same modes_eq)
  qed
qed

section \<open>Where streams and proxies cross\<close>

lemma start_pump_session [simp]: "fd_session_map (start_pump cfg now k n s) = fd_session_map s"
  by (simp add: start_pump_def Let_def on_pm_eq)

lemma open_session_maps:
  "fd_session_map (rl_open_session cfg now k n s) = fd_session_map s"
  "dict_get (fd_local_map (rl_open_session cfg now k n s)) k = Some n"
  by (auto simp: rl_open_session_def rl_ensure_open_pump_def Let_def on_eqs start_pump_def split: option.splits)

text \<open>C22: Each of two servers numbers the streams it opens to the other from one, and the ids of both directions
  meet in one key.  When this server has opened its first stream to a proxy of the peer and the peer opens
  its own first stream to a local port, the data of the peer for that port is given to the proxy, and the
  port never sees it.\<close>

theorem crossed_stream_ids:
  assumes "dict_get (fd_proxies s) name = Some p" "dict_get (sp_sessions p) (session_key name client) = None"
    and "dict_get (mx_stream_id (fd_mux s)) (sp_peer p) = None"
  shows "dict_get (fd_local_map (rl_open_session cfg t1 (sp_peer p, 1) port (snd (ensure_session cfg t0 name client s))))
      (sp_peer p, 1) = Some port
    \<and> route_data_frame fe t2 (sp_peer p, 1) data
        (rl_open_session cfg t1 (sp_peer p, 1) port (snd (ensure_session cfg t0 name client s)))
      = proxy_receives t2 name data (rl_open_session cfg t1 (sp_peer p, 1) port (snd (ensure_session cfg t0 name client s)))"
proof -
  have "dict_get (fd_session_map (snd (ensure_session cfg t0 name client s))) (sp_peer p, 1) = Some name"
    using assms by (simp add: ensure_session_def alloc_local_stream_id_def on_mux_eq Let_def put_proxy_def map_session_def)
  then show ?thesis by (simp add: open_session_maps route_data_frame_def)
qed

lemma queue_taken:
  assumes "lookup_port m n = Some p" "q_items (p_queue p) = [data]"
  shows "get_port_data n m = (Some data, put_port n (p\<lparr>p_queue := (p_queue p)\<lparr>q_items := []\<rparr>\<rparr>) m)"
  using assms by (simp add: get_port_data_def ensure_unified_wrapper_def get_nowait_def)

lemma queue_empty:
  assumes "lookup_port m n = Some p" "q_items (p_queue p) = []" shows "get_port_data n m = (None, m)"
  using assms by (simp add: get_port_data_def ensure_unified_wrapper_def get_nowait_def)

lemma cm_same [simp]: "s\<lparr>fd_cm := (fd_cm s)\<lparr>cm_pm := cm_pm (fd_cm s)\<rparr>\<rparr> = s"
  by simp

text \<open>The pump of a stream takes its data from the one queue of the port.  When two streams are open to the
  same port, as for two peers that watch it, a chunk that the port sent is forwarded on one stream only:
  the turn of the other pump finds nothing and changes nothing.\<close>

theorem chunk_reaches_one_stream:
  assumes "dict_get (fd_pumps s) k1 = Some n" "dict_get (fd_local_map s) k1 = Some n"
    and "dict_get (fd_pumps s) k2 = Some n" "dict_get (fd_local_map s) k2 = Some n"
    and "cm_port (fd_cm s) n = Some p" "q_items (p_queue p) = [data]" "data \<noteq> []"
  shows "fd_mux (pump_step cfg now k1 s) = snd (mux_send_data cfg now (fst k1) (snd k1) data (fd_mux s))
    \<and> pump_step cfg now' k2 (pump_step cfg now k1 s) = pump_step cfg now k1 s"
proof -
  let ?m = "put_port n (p\<lparr>p_queue := (p_queue p)\<lparr>q_items := []\<rparr>\<rparr>) (cm_pm (fd_cm s))"
  define s1 where "s1 = s\<lparr>fd_cm := (fd_cm s)\<lparr>cm_pm := ?m\<rparr>,
    fd_mux := snd (mux_send_data cfg now (fst k1) (snd k1) data (fd_mux s))\<rparr>"
  have first: "pump_step cfg now k1 s = s1"
    using assms by (simp add: pump_step_def on_pm_eq on_mux_eq queue_taken s1_def)
  have "get_port_data n (cm_pm (fd_cm s1)) = (None, cm_pm (fd_cm s1))"
    by (rule queue_empty[where p = "p\<lparr>p_queue := (p_queue p)\<lparr>q_items := []\<rparr>\<rparr>"]) (simp_all add: s1_def)
  then have "pump_step cfg now' k2 s1 = s1"
    using assms(3,4) by (simp add: pump_step_def on_pm_eq s1_def)
  with first show ?thesis by (simp add: s1_def)
qed

text \<open>A stream starts with the port's recent output, but the queue that its pump reads may already hold that
  output: while a local client is attached every chunk is queued and nothing takes it.  The first turn of
  the pump then sends the same bytes a second time.\<close>

theorem history_is_sent_twice:
  assumes "cm_port (fd_cm s) n = Some p" "sb_bytes (p_scroll p) = data" "q_items (p_queue p) = [data]"
    and "data \<noteq> []" "length data \<le> 16384" "dict_get (fd_local_map s) k = Some n"
  shows "fd_mux (pump_step cfg t2 k (start_pump cfg t1 k n s)) =
    snd (mux_send_data cfg t2 (fst k) (snd k) data (snd (mux_send_data cfg t1 (fst k) (snd k) data (fd_mux s))))"
proof -
  let ?m = "put_port n (p\<lparr>p_fed_viewers := p_fed_viewers p + 1\<rparr>) (cm_pm (fd_cm s))"
  have hold: "add_federation_buffering_hold n (cm_pm (fd_cm s)) = ?m"
    using assms(1) by (simp add: add_federation_buffering_hold_def ensure_unified_wrapper_def)
  define s1 where "s1 = s\<lparr>fd_pumps := dict_set k n (fd_pumps s), fd_cm := (fd_cm s)\<lparr>cm_pm := ?m\<rparr>\<rparr>"
  have seed: "fd_mux (seed_federation_stream cfg t1 k data t) = snd (mux_send_data cfg t1 (fst k) (snd k) data (fd_mux t))" for t
    using assms(4,5)
    by (subst seed_federation_stream.simps) (simp add: on_mux_eq seed_federation_stream.simps[of _ _ _ "[]"])
  have start: "start_pump cfg t1 k n s = seed_federation_stream cfg t1 k data s1"
    using assms(2) by (simp add: start_pump_def Let_def on_pm_eq hold s1_def get_scrollback_def)
  have port: "lookup_port (cm_pm (fd_cm s1)) n = Some (p\<lparr>p_fed_viewers := p_fed_viewers p + 1\<rparr>)" by (simp add: s1_def)
  have "fst (get_port_data n (cm_pm (fd_cm s1))) = Some data"
    using queue_taken[OF port, of data] assms(3) by simp
  then have "fd_mux (pump_step cfg t2 k (seed_federation_stream cfg t1 k data s1))
      = snd (mux_send_data cfg t2 (fst k) (snd k) data (fd_mux (seed_federation_stream cfg t1 k data s1)))"
    using assms(4,6) by (simp add: pump_step_def on_pm_eq on_mux_eq s1_def split: option.splits prod.splits)
  then show ?thesis unfolding start seed by (simp add: s1_def)
qed

section \<open>Advertised names\<close>

text \<open>A port that a peer advertises under the name of a local port replaces it: the local port and the clients
  attached to it are gone from the port manager.\<close>

theorem advertised_name_replaces_local_port:
  assumes "register_remote_port (fe_str fe) (fe_iso fe now) pd = Inr m" "md_name m = PStr n"
    and "new_remote_port n m = Some q" "cm_port (fd_cm s) n = Some p" "\<not> is_remote p"
  shows "cm_port (fd_cm (register_remote_port_from_dict cfg fe now conn pd s)) n = Some q
    \<and> is_remote q \<and> p_clients q = []"
proof -
  have "on_pm (get_port n) s = (Some p, s)" using assms(4) by (simp add: on_pm_eq get_port_def)
  moreover have "\<not> register_duplicate n (si_id (md_origin m)) s"
    using assms(4,5) by (auto simp: register_duplicate_def is_remote_def split: backing.splits)
  moreover have "is_remote q" "p_clients q = []"
    using assms(3) by (auto simp: new_remote_port_def is_remote_def split: option.splits)
  ultimately show ?thesis using assms(1-3,5)
    by (simp add: register_remote_port_from_dict_def Let_def rp_register_new_def on_pm_eq put_proxy_def
        remember_proxy_def register_federated_port_def)
qed

text \<open>What leaves the ports alone.\<close>

lemma cm_frames [simp]:
  "fd_cm (put_proxy n p s) = fd_cm s" "fd_cm (remember_proxy peer n s) = fd_cm s"
  "fd_cm (snd (ensure_session cfg now n c s)) = fd_cm s" "fd_cm (close_session cfg now peer r e s) = fd_cm s"
  "fd_cm (snd (on_mux f s)) = fd_cm s"
  by (simp_all add: put_proxy_def remember_proxy_def ensure_session_def map_session_def close_session_def on_mux_eq
      Let_def split_beta split: option.splits)

lemma cm_request [simp]: "fd_cm (snd (request_fedrw cfg now n c action s)) = fd_cm s"
proof -
  obtain r s1 where "ensure_session cfg now n c s = (r, s1)" by fastforce
  with cm_frames(3)[of cfg now n c s] show ?thesis
    by (simp add: request_fedrw_def on_mux_eq split: option.splits)
qed

lemma fold_cm: "(\<And>x t. fd_cm (f x t) = fd_cm t) \<Longrightarrow> fd_cm (fold f xs s) = fd_cm s"
  by (induction xs arbitrary: s) auto

lemma cm_folds [simp]:
  "fd_cm (close_all_streams cfg now n s) = fd_cm s" "fd_cm (close_stale cfg now peer n s) = fd_cm s"
  "fd_cm (reopen_streams cfg now n s) = fd_cm s" "fd_cm (regrant_proxy_read_write cfg now n s) = fd_cm s"
  by (simp_all add: close_all_streams_def close_stale_def reopen_streams_def regrant_proxy_read_write_def fold_cm
      split: option.splits)

text \<open>A proxy that is advertised again keeps the access groups of its first advertisement: whatever groups
  the origin now names, the groups that the access decision reads are the old ones.\<close>

theorem readvertised_groups_stay:
  assumes "cm_port (fd_cm s) n = Some q" "is_remote q" "dict_get (fd_proxies s) n = Some p"
    and "register_remote_port (fe_str fe) (fe_iso fe now) pd = Inr m" "md_name m = PStr n"
  shows "\<exists>q'. cm_port (fd_cm (register_remote_port_from_dict cfg fe now conn pd s)) n = Some q'
    \<and> p_rw_groups q' = p_rw_groups q \<and> p_ro_groups q' = p_ro_groups q"
proof -
  have reuse: "register_remote_port_from_dict cfg fe now conn pd s
      = rp_update_existing cfg now (derive_peer_key (fd_mux s) conn) n m s"
    using assms by (simp add: register_remote_port_from_dict_def Let_def on_pm_eq get_port_def)
  have "cm_port (fd_cm (rp_update_existing cfg now peer n m s)) n = Some (refreshed m q)" for peer
    using assms(1-3)
    by (simp add: rp_update_existing_def Let_def on_pm_eq refreshed_def put_proxy_def split: option.splits)
  then show ?thesis unfolding reuse using assms(2)
    by (auto simp: refreshed_def is_remote_def split: backing.splits)
qed

lemma peer_close_session [simp]: "fd_proxies (close_session cfg now peer r e s) = fd_proxies s"
  by (simp add: close_session_def on_mux_eq Let_def)

lemma fold_proxies: "(\<And>x t. fd_proxies (f x t) = fd_proxies t) \<Longrightarrow> fd_proxies (fold f xs s) = fd_proxies s"
  by (induction xs arbitrary: s) auto

definition peer_of :: "fed \<Rightarrow> string \<Rightarrow> string option" where
  "peer_of s n = map_option sp_peer (dict_get (fd_proxies s) n)"

lemma peer_of_put [simp]: "dict_get (fd_proxies s) n = Some p \<Longrightarrow> sp_peer q = sp_peer p \<Longrightarrow> peer_of (put_proxy n q t) n = peer_of s n"
  by (simp add: peer_of_def put_proxy_def)

lemma peer_close_all: "peer_of (close_all_streams cfg now n s) n = peer_of s n"
  by (auto simp: close_all_streams_def peer_of_def put_proxy_def split: option.splits)

lemma peer_stale: "peer_of (close_stale cfg now peer n s) n = peer_of s n"
  by (auto simp: close_stale_def peer_of_def put_proxy_def split: option.splits)

lemma peer_ensure: "peer_of (snd (ensure_session cfg now n c s)) n = peer_of s n"
  by (auto simp: ensure_session_def peer_of_def put_proxy_def map_session_def on_mux_eq Let_def split_beta
      split: option.splits)

lemma peer_request: "peer_of (snd (request_fedrw cfg now n c action s)) n = peer_of s n"
proof -
  obtain r s1 where "ensure_session cfg now n c s = (r, s1)" by fastforce
  with peer_ensure[of cfg now n c s] show ?thesis
    by (auto simp: request_fedrw_def on_mux_eq peer_of_def split: option.splits)
qed

lemma fold_peer: "(\<And>x t. peer_of (f x t) n = peer_of t n) \<Longrightarrow> peer_of (fold f xs s) n = peer_of s n"
  by (induction xs arbitrary: s) auto

lemma peer_reopen: "peer_of (reopen_streams cfg now n s) n = peer_of s n"
  unfolding reopen_streams_def by (rule fold_peer) (simp add: peer_ensure)

lemma peer_regrant: "peer_of (regrant_proxy_read_write cfg now n s) n = peer_of s n"
  unfolding regrant_proxy_read_write_def by (rule fold_peer) (simp add: peer_request)

text \<open>Reuse goes by the name alone: when a second peer advertises a port of the name of a proxy, the proxy is
  bound to that peer, whatever server it stood for, and its clients' streams go there.\<close>

theorem second_peer_takes_the_proxy:
  assumes "cm_port (fd_cm s) n = Some q" "is_remote q" "dict_get (fd_proxies s) n = Some p"
    and "register_remote_port (fe_str fe) (fe_iso fe now) pd = Inr m" "md_name m = PStr n"
  shows "peer_of (register_remote_port_from_dict cfg fe now conn pd s) n = Some (derive_peer_key (fd_mux s) conn)"
proof -
  have reuse: "register_remote_port_from_dict cfg fe now conn pd s
      = rp_update_existing cfg now (derive_peer_key (fd_mux s) conn) n m s"
    using assms by (simp add: register_remote_port_from_dict_def Let_def on_pm_eq get_port_def)
  have notice: "peer_of (case dict_get (fd_proxies t) n of None \<Rightarrow> t
      | Some r \<Rightarrow> put_proxy n (emit_link_notice_once (origin_name r) n ''restored'' r) t) n = peer_of t n" for t
    by (auto simp: peer_of_def put_proxy_def emit_link_notice_once_def split: option.splits)
  have rem: "peer_of (remember_proxy k n t) n = peer_of t n" for k t by (simp add: peer_of_def remember_proxy_def)
  show ?thesis unfolding reuse rp_update_existing_def Let_def
    using assms(3) by (simp add: rem peer_regrant peer_reopen notice peer_stale peer_close_all)
      (simp add: peer_of_def put_proxy_def on_pm_eq)
qed

section \<open>Filters\<close>

lemma glob_prefix:
  assumes "\<forall>c \<in> set s. c \<notin> {CHR ''*'', CHR ''?'', CHR ''[''}"
  shows "fnmatchcase n (s @ ''*'') \<longleftrightarrow> startswith s n"
proof -
  have items: "glob_items (s @ ''*'') = map ThisChar s @ [AnyText]"
    using assms by (induction s) auto
  have any: "glob_match [AnyText] t" for t by (induction t) simp_all
  have "glob_match (map ThisChar s @ [AnyText]) n \<longleftrightarrow> startswith s n"
    by (induction s arbitrary: n) (auto simp: any startswith_def split: list.splits)
  then show ?thesis by (simp add: fnmatchcase_def items)
qed

lemma match_simps [simp]: "\<not> match_any v []" "match_any (PStr s) [pat] = fnmatchcase s pat"
  by (simp_all add: match_any_def split: pyval.splits)

text \<open>C18: With nothing configured but the include pattern of a prefix, a peer is told exactly the server's own
  ports whose name starts with that prefix; with no include at all it is told none.\<close>

theorem prefix_include_exposes_the_prefix:
  assumes "\<forall>c \<in> set pre. c \<notin> {CHR ''*'', CHR ''?'', CHR ''[''}"
    and "fp_advertise base = \<lparr>pf_include = [pre @ ''*''], pf_exclude = [], pf_adapter_include = [], pf_adapter_exclude = [],
      pf_server_include = [], pf_server_exclude = []\<rparr>"
    and "dict_get conns cid = None" "\<forall>p \<in> set ports. \<exists>c t. py_get p ''name'' = PStr (c # t)"
  shows "slpl_exposed_ports base conns server cid ports =
    filter (\<lambda>p. \<not> is_remote_entry p \<and> (case py_get p ''name'' of PStr n \<Rightarrow> startswith pre n | _ \<Rightarrow> False)) ports"
  unfolding slpl_exposed_ports_def
proof (rule filter_cong[OF refl])
  fix p assume "p \<in> set ports"
  with assms(4) obtain c t where "py_get p ''name'' = PStr (c # t)" by blast
  then show "(\<not> is_remote_entry p \<and> allow_advertise_port_for_conn base conns cid
        (py_or (py_or (py_get p ''name'') (py_get p ''port'')) (PStr []))
        (py_or (py_or (py_get p ''adapter_type'') (py_get p ''adapter'')) (PStr [])) server)
      = (\<not> is_remote_entry p \<and> (case py_get p ''name'' of PStr n \<Rightarrow> startswith pre n | _ \<Rightarrow> False))"
    using assms(2,3) glob_prefix[OF assms(1), of "c # t"]
    by (simp add: allow_advertise_port_for_conn_def get_filters_for_conn_def filter_allows_def py_or_def)
qed

definition proxy_at :: "fed \<Rightarrow> string \<Rightarrow> bool" where
  "proxy_at s n \<longleftrightarrow> (\<exists>q. cm_port (fd_cm s) n = Some q \<and> is_remote q)"

lemma proxy_at_same: "fd_cm s = fd_cm t \<Longrightarrow> proxy_at s n = proxy_at t n"
  by (simp add: proxy_at_def)

lemma proxy_at_get: "proxy_at (snd (on_pm (get_port m) s)) n = proxy_at s n"
  by (auto simp: proxy_at_def on_pm_eq get_port_def Let_def new_wrapper_def is_remote_def split: option.splits)

lemma proxy_at_update: "proxy_at (rp_update_existing cfg now peer name m s) n = proxy_at s n"
  by (auto simp: proxy_at_def rp_update_existing_def Let_def on_pm_eq put_proxy_def is_remote_def
      split: option.splits backing.splits)

lemma proxy_at_new:
  "md_name m = PStr name \<Longrightarrow> proxy_at (rp_register_new now peer name m s) n \<Longrightarrow> proxy_at s n \<or> n = name"
  by (auto simp: proxy_at_def rp_register_new_def on_pm_eq register_federated_port_def split: option.splits if_splits)

definition named :: "fed_env \<Rightarrow> int \<Rightarrow> pdict \<Rightarrow> string \<Rightarrow> bool" where
  "named fe now pd n \<longleftrightarrow>
     (case register_remote_port (fe_str fe) (fe_iso fe now) pd of Inr m \<Rightarrow> md_name m = PStr n | Inl _ \<Rightarrow> False)"

lemma proxy_at_register:
  assumes "proxy_at (register_remote_port_from_dict cfg fe now conn pd s) n"
  shows "proxy_at s n \<or> named fe now pd n"
  using assms proxy_at_get[of _ s n] proxy_at_new[of _ _ now]
  by (auto simp: register_remote_port_from_dict_def Let_def split_beta proxy_at_update named_def
      split: sum.splits pyval.splits if_splits) (metis proxy_at_new)+

text \<open>Sending a frame leaves the key of every connection.\<close>

lemma key_send [simp]:
  "mx_conn_key (snd (select_path cfg now key m)) = mx_conn_key m"
  "mx_conn_key (snd (select_writer cfg now key m)) = mx_conn_key m"
  "mx_conn_key (snd (next_frame_seq c m)) = mx_conn_key m"
  "mx_conn_key (snd (send_sequenced cfg now key frame m)) = mx_conn_key m"
proof -
  show path: "mx_conn_key (snd (select_path cfg now key m)) = mx_conn_key m" for m
    by (auto simp: select_path_def Let_def put_group_def split: option.splits)
  show writer: "mx_conn_key (snd (select_writer cfg now key m)) = mx_conn_key m" for m
    using path[of m] by (auto simp: select_writer_def split: option.splits prod.splits)
  show nxt: "mx_conn_key (snd (next_frame_seq c m)) = mx_conn_key m" for c m
    by (auto simp: next_frame_seq_def Let_def split: option.splits)
  obtain c m1 where w: "select_writer cfg now key m = (c, m1)" by fastforce
  show "mx_conn_key (snd (send_sequenced cfg now key frame m)) = mx_conn_key m"
    using writer[of m] nxt[of _ m1] w
    by (auto simp: send_sequenced_def mux_write_def split_beta split: option.splits)
qed

definition key_kept :: "fed \<Rightarrow> fed \<Rightarrow> bool" where
  "key_kept s t \<longleftrightarrow> mx_conn_key (fd_mux t) = mx_conn_key (fd_mux s)"

lemma key_parts [simp]:
  "key_kept s s" "key_kept s (put_proxy n p t) = key_kept s t" "key_kept s (remember_proxy k n t) = key_kept s t"
  "key_kept s (snd (on_pm f t)) = key_kept s t" "key_kept s (close_session cfg now peer r e t) = key_kept s t"
  "key_kept s (snd (on_mux (send_stream_close_mpath cfg now peer sid r) t)) = key_kept s t"
  "key_kept s (snd (ensure_session cfg now n c t)) = key_kept s t"
  by (simp_all add: key_kept_def put_proxy_def remember_proxy_def on_pm_eq close_session_def on_mux_eq Let_def
      send_stream_close_mpath_def send_stream_open_mpath_def ensure_session_def alloc_local_stream_id_def
      map_session_def split: option.splits)

lemma key_request [simp]: "key_kept s (snd (request_fedrw cfg now n c action t)) = key_kept s t"
proof -
  obtain r s1 where "ensure_session cfg now n c t = (r, s1)" by fastforce
  with key_parts(7)[of s cfg now n c t] show ?thesis
    by (auto simp: request_fedrw_def on_mux_eq key_kept_def send_control_mpath_def split: option.splits)
qed

lemma fold_key: "(\<And>x t. key_kept s t \<Longrightarrow> key_kept s (f x t)) \<Longrightarrow> key_kept s t \<Longrightarrow> key_kept s (fold f xs t)"
  by (induction xs arbitrary: t) auto

lemma key_streams:
  "key_kept s t \<Longrightarrow> key_kept s (close_all_streams cfg now n t)"
  "key_kept s t \<Longrightarrow> key_kept s (close_stale cfg now peer n t)"
  "key_kept s t \<Longrightarrow> key_kept s (reopen_streams cfg now n t)"
  "key_kept s t \<Longrightarrow> key_kept s (regrant_proxy_read_write cfg now n t)"
  by (auto simp: close_all_streams_def close_stale_def reopen_streams_def regrant_proxy_read_write_def
      intro!: fold_key split: option.splits)

lemma key_register: "key_kept s (register_remote_port_from_dict cfg fe now conn pd s)"
proof -
  have "key_kept s (rp_update_existing cfg now peer n m t)" if "key_kept s t" for peer n m t
    using that by (auto simp: rp_update_existing_def Let_def intro!: key_streams split: option.splits)
  moreover have "key_kept s (rp_register_new now peer n m t)" if "key_kept s t" for peer n m t
    using that by (auto simp: rp_register_new_def split: option.splits)
  ultimately show ?thesis
    by (auto simp: register_remote_port_from_dict_def Let_def split_beta split: sum.splits pyval.splits)
qed

lemma filters_kept: "key_kept s t \<Longrightarrow> conn_filters fe (fd_mux t) = conn_filters fe (fd_mux s)"
  by (simp add: conn_filters_def key_kept_def)

lemma proxy_at_ports:
  "proxy_at (snd (register_ports cfg fe now conn pds s)) n \<Longrightarrow> proxy_at s n \<or>
    (\<exists>pd \<in> set pds. named fe now pd n
      \<and> allow_accept_port_for_conn (fe_str fe) (fe_filters fe) (conn_filters fe (fd_mux s)) conn pd)"
proof (induction cfg fe now conn pds s rule: register_ports.induct)
  case (2 cfg fe now conn pd pds s)
  show ?case
  proof (cases "allow_accept_port_for_conn (fe_str fe) (fe_filters fe) (conn_filters fe (fd_mux s)) conn pd")
    case True
    with 2 proxy_at_register[of cfg fe now conn pd s n] filters_kept[OF key_register[of s cfg fe now conn pd], of fe]
    show ?thesis by (auto simp: split_beta)
  next
    case False
    with 2 show ?thesis by auto
  qed
qed simp

lemma proxy_at_connected: "proxy_at (set_connected m on s) n = proxy_at s n"
  by (auto simp: proxy_at_def set_connected_def on_pm_eq is_remote_def split: option.splits backing.splits)

lemma proxy_at_dropped: "proxy_at (drop_stale_proxy cfg now peer m s) n \<Longrightarrow> proxy_at s n"
proof -
  have dis: "proxy_at (proxy_disconnect cfg now m t) n = proxy_at t n" for t
    using proxy_at_connected[of m False t n]
    by (auto simp: proxy_disconnect_def Let_def proxy_at_def split: option.splits)
  show "proxy_at (drop_stale_proxy cfg now peer m s) n \<Longrightarrow> proxy_at s n"
    unfolding drop_stale_proxy_def Let_def dis
    by (auto simp: proxy_at_def on_pm_eq del_port_def split: option.splits if_splits)
qed

lemma proxy_at_purge: "proxy_at (purge_stale_proxies cfg now peer seen s) n \<Longrightarrow> proxy_at s n"
proof -
  have "proxy_at (fold (drop_stale_proxy cfg now peer) ms t) n \<Longrightarrow> proxy_at t n" for ms t
  proof (induction ms arbitrary: t)
    case (Cons m ms)
    then have "proxy_at (drop_stale_proxy cfg now peer m t) n" by simp
    then show ?case by (rule proxy_at_dropped)
  qed simp
  then show "proxy_at (purge_stale_proxies cfg now peer seen s) n \<Longrightarrow> proxy_at s n"
    by (simp add: purge_stale_proxies_def)
qed

text \<open>C17: A port list of a peer makes a proxy only for a port that the accept filters of the connection allow:
  a name that has a proxy afterwards and had none before is the name of an allowed entry of the list.\<close>

theorem proxies_pass_the_accept_filter:
  assumes "proxy_at (handle_ports_federated cfg fe now conn payload s) n" "\<not> proxy_at s n"
  shows "\<exists>pd \<in> set (payload_port_lines (fe_json fe) (tl (split_on NL payload))). named fe now pd n
    \<and> allow_accept_port_for_conn (fe_str fe) (fe_filters fe) (conn_filters fe (fd_mux s)) conn pd"
proof (cases "split_on NL payload")
  case (Cons l ls)
  obtain seen s1 where r: "register_ports cfg fe now conn (payload_port_lines (fe_json fe) ls) s = (seen, s1)" by fastforce
  have "proxy_at s1 n"
    using assms proxy_at_purge[of cfg now _ seen s1 n] by (simp add: handle_ports_federated_def Cons r split: if_splits)
  with r have "proxy_at (snd (register_ports cfg fe now conn (payload_port_lines (fe_json fe) ls) s)) n" by simp
  with assms(2) proxy_at_ports[of cfg fe now conn _ s n] Cons show ?thesis by force
qed (use assms in \<open>simp add: handle_ports_federated_def\<close>)

end
