(* ===== verification/StreamCases.thy ===== *)
theory StreamCases
  imports StreamFacts MuxCases
begin

text \<open>
  Small concrete states of a federation server, at which the properties of its streams and proxies apply.
\<close>

definition stream_console :: env where
  "stream_console = \<lparr>user_permissions = (\<lambda>u. Some ''read-write''), user_groups = (\<lambda>u. []), security_default = None,
     fed_reply = (\<lambda>i n c r. []), meta_resolver = (\<lambda>m c. None), frame_accepted = (\<lambda>m c. True),
     data_accepted = (\<lambda>m c b. Some True)\<rparr>"

definition empty_filter :: port_filter where
  "empty_filter = \<lparr>pf_include = [], pf_exclude = [], pf_adapter_include = [], pf_adapter_exclude = [],
     pf_server_include = [], pf_server_exclude = []\<rparr>"

definition sent_port :: pdict where
  "sent_port = [(PStr ''name'', PStr ''r1''), (PStr ''max_rw_users'', PInt 5),
     (PStr ''origin_server'', PDict [(PStr ''server_id'', PStr ''B'')])]"

definition stream_env :: fed_env where
  "stream_env = \<lparr>fe_mux = case_env, fe_console = stream_console, fe_dev = (\<lambda>n d. DevBool True), fe_str = (\<lambda>v. []),
     fe_iso = (\<lambda>t. ''now''), fe_json = (\<lambda>t. if t = ''r1'' then Some (PDict sent_port) else None),
     fe_filters = \<lparr>fp_advertise = empty_filter\<lparr>pf_include := [''con*'']\<rparr>, fp_accept = empty_filter\<lparr>pf_include := [''r?'']\<rparr>\<rparr>,
     fe_key_filters = []\<rparr>"

lemma stream_env_capacities: "int_capacities stream_env"
  by (auto simp: int_capacities_def stream_env_def int_capacity_def sent_port_def py_get_or_def split: if_splits)

definition idle_fed :: fed where
  "idle_fed = \<lparr>fd_mux = mux0,
     fd_cm = \<lparr>cm_pm = \<lparr>pm_ports = [], pm_adapters = [[(''p'', \<lparr>u_max_rw = Some (PStr ''one''), u_rw_groups = [],
         u_ro_groups = [], u_scroll_size = 64, u_has_hook = False\<rparr>)]], pm_clock = 0, pm_events = []\<rparr>, client_port_map = [],
       forwarding_tasks = [], console_clients = [], client_manager = None, client_managers = [], client_to_manager = [],
       remote_viewers = (\<lambda>n. []), cm_sent = [], cm_audit = [], cm_fed_calls = 0\<rparr>,
     fd_proxies = [], fd_peer_proxies = [], fd_session_map = [], fd_local_map = [], fd_pumps = [], fd_pending = [],
     fd_replies = []\<rparr>"

lemma idle_fed_ok: "fed_ok idle_fed"
  by (simp add: fed_ok_def idle_fed_def ports_sound_def pumps_sound_def pm_ok_def)

text \<open>Two peers watch the port \<open>p\<close>; \<open>alice\<close> writes to it.\<close>

definition watched_fed :: fed where
  "watched_fed = rl_open_session case_cfg 10 (''node:C'', 1) ''p'' (rl_open_session case_cfg 10 (''node:B'', 1) ''p'' idle_fed)"

definition busy_fed :: fed where
  "busy_fed = snd (on_cm (\<lambda>c. ((), register_client_port ''alice'' ''p'' c))
     (snd (on_pm (add_client_to_port ''p'' ''alice'' ''alice'' ReadWrite) watched_fed)))"

lemma watched_fed_ok: "fed_ok watched_fed"
  unfolding watched_fed_def by (intro open_session_ok idle_fed_ok)

lemma busy_fed_ok: "fed_ok busy_fed"
  unfolding busy_fed_def by (rule fed_ok_on_cm[OF fed_ok_ports(2)[OF watched_fed_ok]]) simp

definition opened_fed :: fed where
  "opened_fed = fed_link_step case_cfg stream_env 20 (Incoming ''in:h:2:1:1'' (case_frame ''O'' ''p'')) busy_fed"

lemma opened_runs: "fed_run case_cfg stream_env busy_fed opened_fed"
  unfolding opened_fed_def by (rule fed_run.link[OF fed_run.start])


lemma watched_slots: "fd_pumps watched_fed = [((''node:B'', 1), ''p''), ((''node:C'', 1), ''p'')]"
    "fd_local_map watched_fed = [((''node:B'', 1), ''p''), ((''node:C'', 1), ''p'')]"
  by code_simp+


theorem lost_peer_leaves_no_stream_witness:
  "slots_of ''node:B'' (fd_pumps watched_fed) \<noteq> []
   \<and> slots_of ''node:B'' (fd_pumps (after_close case_cfg 30 ''node:B'' (Some ''B'') watched_fed)) = []"
proof -
  have "gr_conns (group_at ''node:B'' (fd_mux watched_fed)) = []" by code_simp
  from lost_peer_leaves_no_stream[OF this, of case_cfg 30 "Some ''B''"] show ?thesis
    by (simp add: watched_slots slots_of_def)
qed

lemma busy_modes: "modes (fd_cm busy_fed) ''p'' ''fed:node:B:1'' = Some ReadOnly"
    "resolve_fedrw_take_target (cm_port (fd_cm busy_fed) ''p'') ''fed:node:B:1'' ''latest'' =
       Some \<lparr>cr_client_id = ''alice'', cr_username = ''alice'', cr_mode = ReadWrite, cr_connected_at = 0\<rparr>"
    "pm_capacity (cm_pm (fd_cm busy_fed)) ''p'' = 1" "displaceable (fd_cm busy_fed) ''p'' ''alice''"
  by code_simp+

theorem peer_take_moves_one_slot_witness:
  "modes (handle_fedrw_take stream_console ''p'' ''fed:node:B:1'' ''latest'' (fd_cm busy_fed)) ''p'' ''alice'' = Some ReadOnly"
  using peer_take_moves_one_slot[OF fed_ok_pm[OF busy_fed_ok] busy_modes(2,1,3), of stream_console "''p''" "''alice''"] busy_modes(4)
  by simp

lemma case_client: "fed_client_id ''node:B'' 1 = ''fed:node:B:1''"
  by code_simp

theorem peer_data_needs_the_slot_witness:
  "pm_events (cm_pm (fd_cm (route_data_frame stream_env 20 (''node:B'', 1) ''x'' busy_fed))) = pm_events (cm_pm (fd_cm busy_fed))"
proof -
  have "dict_get (fd_session_map busy_fed) (''node:B'', 1) = None" "dict_get (fd_local_map busy_fed) (''node:B'', 1) = Some ''p''"
    by code_simp+
  from peer_data_needs_the_slot[OF this, of stream_env 20 "''x''"] busy_modes(1) show ?thesis
    by (simp add: case_client)
qed

definition proxy_of_b :: stream_proxy where
  "proxy_of_b = \<lparr>sp_peer = ''node:B'', sp_origin = ''B'', sp_sessions = [], sp_stale = [], sp_state = Active, sp_seen = 0,
     sp_reason = [], sp_notice = None, sp_callback = False, sp_inbox = []\<rparr>"

definition proxy_fed :: fed where
  "proxy_fed = idle_fed\<lparr>fd_proxies := [(''r1'', proxy_of_b)]\<rparr>"

theorem crossed_stream_ids_witness:
  "dict_get (fd_local_map (rl_open_session case_cfg 11 (''node:B'', 1) ''p'' (snd (ensure_session case_cfg 10 ''r1'' (Some ''al'') proxy_fed))))
      (''node:B'', 1) = Some ''p''"
  using crossed_stream_ids[of proxy_fed "''r1''" proxy_of_b "Some ''al''" case_cfg 11 "''p''" 10 stream_env 12 "''x''"]
  by (simp add: proxy_fed_def proxy_of_b_def idle_fed_def mux0_def)

definition chunk_fed :: fed where
  "chunk_fed = snd (on_pm (handle_incoming_port_data ''p'' ''x'' None) watched_fed)"

theorem chunk_reaches_one_stream_witness:
  "pump_step case_cfg 21 (''node:C'', 1) (pump_step case_cfg 20 (''node:B'', 1) chunk_fed) = pump_step case_cfg 20 (''node:B'', 1) chunk_fed"
proof -
  have m: "dict_get (fd_pumps chunk_fed) (''node:B'', 1) = Some ''p''" "dict_get (fd_local_map chunk_fed) (''node:B'', 1) = Some ''p''"
    "dict_get (fd_pumps chunk_fed) (''node:C'', 1) = Some ''p''" "dict_get (fd_local_map chunk_fed) (''node:C'', 1) = Some ''p''"
    by (simp_all add: chunk_fed_def on_pm_eq watched_slots)
  have "map_option (\<lambda>p. q_items (p_queue p)) (cm_port (fd_cm chunk_fed) ''p'') = Some [''x'']" by code_simp
  then obtain p where p: "cm_port (fd_cm chunk_fed) ''p'' = Some p" "q_items (p_queue p) = [''x'']" by auto
  show ?thesis using chunk_reaches_one_stream[OF m p, of case_cfg 20 21] by simp
qed

text \<open>The port has sent a chunk while \<open>alice\<close> alone was attached.\<close>

definition quiet_fed :: fed where
  "quiet_fed = snd (on_pm (handle_incoming_port_data ''p'' ''x'' None)
     (snd (on_pm (add_client_to_port ''p'' ''alice'' ''alice'' ReadWrite) idle_fed)))\<lparr>fd_local_map := [((''node:B'', 1), ''p'')]\<rparr>"

theorem history_is_sent_twice_witness:
  "fd_mux (pump_step case_cfg 51 (''node:B'', 1) (start_pump case_cfg 50 (''node:B'', 1) ''p'' quiet_fed)) =
    snd (mux_send_data case_cfg 51 ''node:B'' 1 ''x'' (snd (mux_send_data case_cfg 50 ''node:B'' 1 ''x'' (fd_mux quiet_fed))))"
proof -
  have "map_option (\<lambda>p. (sb_bytes (p_scroll p), q_items (p_queue p))) (cm_port (fd_cm quiet_fed) ''p'') = Some (''x'', [''x''])"
    by code_simp
  then obtain p where "cm_port (fd_cm quiet_fed) ''p'' = Some p" "sb_bytes (p_scroll p) = ''x''" "q_items (p_queue p) = [''x'']"
    by auto
  from history_is_sent_twice[OF this, of "(''node:B'', 1)" case_cfg 51 50] show ?thesis
    by (simp add: quiet_fed_def)
qed

theorem prefix_include_exposes_the_prefix_witness:
  "slpl_exposed_ports (fe_filters stream_env) [] ''A'' ''c'' [[(PStr ''name'', PStr ''con1'')], [(PStr ''name'', PStr ''lab'')]]
   = [[(PStr ''name'', PStr ''con1'')]]"
proof -
  have "\<forall>c \<in> set ''con''. c \<notin> {CHR ''*'', CHR ''?'', CHR ''[''}" by simp
  from prefix_include_exposes_the_prefix[OF this, of "fe_filters stream_env" "[]" "''c''"
      "[[(PStr ''name'', PStr ''con1'')], [(PStr ''name'', PStr ''lab'')]]" "''A''"]
  show ?thesis by (simp add: stream_env_def empty_filter_def py_get_def is_remote_entry_def py_or_def startswith_def)
qed

definition port_list :: string where
  "port_list = ''PORTS:FEDERATED:'' @ NL # ''r1'' @ NL # ''END:PORTS''"

definition listed_fed :: fed where
  "listed_fed = handle_ports_federated case_cfg stream_env 40 ''in:h:2:1:1'' port_list idle_fed"

lemma listed_outcome: "map_option is_remote (cm_port (fd_cm listed_fed) ''r1'') = Some True"
  by code_simp

theorem proxies_pass_the_accept_filter_witness:
  "\<exists>pd \<in> set (payload_port_lines (fe_json stream_env) (tl (split_on NL port_list))). named stream_env 40 pd ''r1''
    \<and> allow_accept_port_for_conn (fe_str stream_env) (fe_filters stream_env) (conn_filters stream_env (fd_mux idle_fed))
        ''in:h:2:1:1'' pd"
proof (rule proxies_pass_the_accept_filter[of case_cfg])
  show "proxy_at (handle_ports_federated case_cfg stream_env 40 ''in:h:2:1:1'' port_list idle_fed) ''r1''"
    using listed_outcome by (auto simp: listed_fed_def proxy_at_def)
  show "\<not> proxy_at idle_fed ''r1''" by (simp add: proxy_at_def idle_fed_def)
qed


end
