(* ===== verification/Json.thy ===== *)
theory Json
  imports Prelude PyFormat
begin

text \<open>
  \<open>json.dumps\<close> with compact separators and \<open>json.loads\<close> of the Python library, on the values of the
  control frames.  Text is Latin-1 as everywhere here, so a \<open>\u\<close> escape above 255 keeps its low byte.
  The text of a float and the float of a text are arguments.  The reader's fuel counts nested calls; the
  length of the text is always enough for what \<open>json_dumps\<close> writes (\<open>json_round_trip\<close>).
\<close>

section \<open>Writing\<close>

definition hex4 :: "nat \<Rightarrow> string" where
  "hex4 n = [hex_digit (n div 4096 mod 16), hex_digit (n div 256 mod 16), hex_digit (n div 16 mod 16), hex_digit (n mod 16)]"

definition json_escape :: "char \<Rightarrow> string" where
  "json_escape c =
     (let n = code c in
      if c = DQUOTE \<or> c = BACKSLASH then [BACKSLASH, c]
      else if n = 10 then [BACKSLASH, CHR ''n''] else if n = 13 then [BACKSLASH, CHR ''r'']
      else if n = 9 then [BACKSLASH, CHR ''t''] else if n = 12 then [BACKSLASH, CHR ''f'']
      else if n = 8 then [BACKSLASH, CHR ''b'']
      else if ascii_printable n then [c]
      else [BACKSLASH, CHR ''u''] @ hex4 n)"

definition json_string :: "string \<Rightarrow> string" where
  "json_string s = [DQUOTE] @ concat (map json_escape s) @ [DQUOTE]"

text \<open>A key that is not a string is written as its text.\<close>

fun json_key :: "(pyfloat \<Rightarrow> string) \<Rightarrow> pyval \<Rightarrow> string" where
  "json_key fr (PStr s) = s"
| "json_key fr (PInt i) = int_str i"
| "json_key fr (PBool b) = (if b then ''true'' else ''false'')"
| "json_key fr (PFloat x) = fr x"
| "json_key fr _ = ''null''"

fun json_dumps :: "(pyfloat \<Rightarrow> string) \<Rightarrow> pyval \<Rightarrow> string"
  and json_elems :: "(pyfloat \<Rightarrow> string) \<Rightarrow> pyval list \<Rightarrow> string"
  and json_members :: "(pyfloat \<Rightarrow> string) \<Rightarrow> (pyval \<times> pyval) list \<Rightarrow> string" where
  "json_dumps fr PNone = ''null''"
| "json_dumps fr (PBool b) = (if b then ''true'' else ''false'')"
| "json_dumps fr (PInt i) = int_str i"
| "json_dumps fr (PFloat x) = fr x"
| "json_dumps fr (PStr s) = json_string s"
| "json_dumps fr (PList xs) = (if xs = [] then ''[]'' else CHR ''['' # json_elems fr xs)"
| "json_dumps fr (PDict d) = (if d = [] then ''{}'' else CHR ''{'' # json_members fr d)"
| "json_elems fr [] = []"
| "json_elems fr (v # vs) = json_dumps fr v @ (if vs = [] then '']'' else CHR '','' # json_elems fr vs)"
| "json_members fr [] = []"
| "json_members fr ((k, v) # d) =
     json_string (json_key fr k) @ CHR '':'' # json_dumps fr v @ (if d = [] then ''}'' else CHR '','' # json_members fr d)"

section \<open>Reading\<close>

definition json_space :: "char \<Rightarrow> bool" where
  "json_space c \<longleftrightarrow> code c \<in> {9, 10, 13, 32}"

definition skip_ws :: "string \<Rightarrow> string" where
  "skip_ws s = dropWhile json_space s"

definition hex_value :: "char \<Rightarrow> nat option" where
  "hex_value c =
     (let n = code c in
      if 48 \<le> n \<and> n \<le> 57 then Some (n - 48)
      else if 97 \<le> n \<and> n \<le> 102 then Some (n - 87)
      else if 65 \<le> n \<and> n \<le> 70 then Some (n - 55) else None)"

definition read_hex4 :: "string \<Rightarrow> (nat \<times> string) option" where
  "read_hex4 s =
     (case s of
        a # b # c # d # r \<Rightarrow>
          (case (hex_value a, hex_value b, hex_value c, hex_value d) of
             (Some a, Some b, Some c, Some d) \<Rightarrow> Some (a * 4096 + b * 256 + c * 16 + d, r)
           | _ \<Rightarrow> None)
      | _ \<Rightarrow> None)"

definition simple_escape :: "char \<Rightarrow> char option" where
  "simple_escape c =
     (if c = DQUOTE \<or> c = BACKSLASH \<or> c = CHR ''/'' then Some c
      else if c = CHR ''n'' then Some (char_of (10::nat)) else if c = CHR ''r'' then Some (char_of (13::nat))
      else if c = CHR ''t'' then Some (char_of (9::nat)) else if c = CHR ''f'' then Some (char_of (12::nat))
      else if c = CHR ''b'' then Some (char_of (8::nat)) else None)"

text \<open>One escape after its backslash; a pair of surrogates is one character.\<close>

definition read_escape :: "string \<Rightarrow> (char \<times> string) option" where
  "read_escape s =
     (case s of
        [] \<Rightarrow> None
      | c # r \<Rightarrow>
          if c = CHR ''u'' then
            (case read_hex4 r of
               None \<Rightarrow> None
             | Some (n, r1) \<Rightarrow>
                 if 55296 \<le> n \<and> n \<le> 56319 \<and> take 2 r1 = [BACKSLASH, CHR ''u''] then
                   (case read_hex4 (drop 2 r1) of
                      None \<Rightarrow> None
                    | Some (m, r2) \<Rightarrow>
                        if 56320 \<le> m \<and> m \<le> 57343
                        then Some (char_of (65536 + (n - 55296) * 1024 + (m - 56320)), r2)
                        else Some (char_of n, r1))
                 else Some (char_of n, r1))
          else map_option (\<lambda>x. (x, r)) (simple_escape c))"

lemma read_hex4_shorter: "read_hex4 s = Some (n, r) \<Longrightarrow> length r < length s"
  by (auto simp: read_hex4_def split: list.splits option.splits)

lemma read_escape_shorter:
  assumes "read_escape s = Some (x, r)"
  shows "length r < length s"
proof -
  obtain c t where s: "s = c # t"
    using assms by (cases s) (auto simp: read_escape_def)
  show ?thesis
  proof (cases "c = CHR ''u''")
    case True
    then obtain n r1 where h: "read_hex4 t = Some (n, r1)"
      using assms s by (auto simp: read_escape_def split: option.splits)
    have l: "length r1 < length t" by (rule read_hex4_shorter[OF h])
    have "r = r1 \<or> (\<exists>m. read_hex4 (drop 2 r1) = Some (m, r))"
      using assms s True h by (auto simp: read_escape_def split: if_splits option.splits)
    then show ?thesis
      using l s by (auto dest: read_hex4_shorter)
  qed (use assms s in \<open>auto simp: read_escape_def\<close>)
qed

text \<open>The rest of a string after its opening quote, with what follows the closing one.\<close>

function read_string :: "string \<Rightarrow> (string \<times> string) option" where
  "read_string s =
     (case s of
        [] \<Rightarrow> None
      | c # r \<Rightarrow>
          if c = DQUOTE then Some ([], r)
          else if c = BACKSLASH then
            (case read_escape r of
               None \<Rightarrow> None
             | Some (x, r1) \<Rightarrow> map_option (\<lambda>(t, r2). (x # t, r2)) (read_string r1))
          else if code c < 32 then None
          else map_option (\<lambda>(t, r2). (c # t, r2)) (read_string r))"
  by pat_completeness auto
termination
  by (relation "measure length") (auto dest: read_escape_shorter)

declare read_string.simps [simp del]

definition read_digits :: "string \<Rightarrow> string \<times> string" where
  "read_digits s = (takeWhile isdecimal s, dropWhile isdecimal s)"

text \<open>The fraction and the exponent of a number, when they are there.\<close>

definition read_fraction :: "string \<Rightarrow> string \<times> string" where
  "read_fraction s =
     (case s of
        [] \<Rightarrow> ([], s)
      | c # r \<Rightarrow>
          if c = CHR ''.'' \<and> fst (read_digits r) \<noteq> [] then (c # fst (read_digits r), snd (read_digits r)) else ([], s))"

definition read_exponent :: "string \<Rightarrow> string \<times> string" where
  "read_exponent s =
     (case s of
        [] \<Rightarrow> ([], s)
      | c # r \<Rightarrow>
          if c \<noteq> CHR ''e'' \<and> c \<noteq> CHR ''E'' then ([], s)
          else
            (let sign = (case r of [] \<Rightarrow> [] | x # y \<Rightarrow> if x = CHR ''+'' \<or> x = CHR ''-'' then [x] else []);
                 ds = read_digits (drop (length sign) r)
             in if fst ds = [] then ([], s) else (c # sign @ fst ds, snd ds)))"

definition digits_value :: "string \<Rightarrow> nat" where
  "digits_value ds = foldl (\<lambda>acc c. acc * 10 + digit_val c) 0 ds"

text \<open>A number: one zero or digits that do not start with one; a float when a fraction or an exponent follows.\<close>

definition read_whole :: "string \<Rightarrow> string \<times> string" where
  "read_whole t = (if take 1 t = ''0'' then (''0'', drop 1 t) else read_digits t)"

definition read_number :: "(string \<Rightarrow> pyfloat) \<Rightarrow> string \<Rightarrow> (pyval \<times> string) option" where
  "read_number fl s =
     (let neg = (take 1 s = ''-''); t = (if neg then drop 1 s else s);
          (ds, r) = read_whole t;
          (fr, r1) = read_fraction r; (ex, r2) = read_exponent r1
      in if ds = [] then None
         else if fr = [] \<and> ex = [] then Some (PInt (if neg then - int (digits_value ds) else int (digits_value ds)), r2)
         else Some (PFloat (fl ((if neg then ''-'' else []) @ ds @ fr @ ex)), r2))"

definition json_literals :: "(string \<times> pyval) list" where
  "json_literals =
     [(''null'', PNone), (''true'', PBool True), (''false'', PBool False), (''NaN'', PFloat NotANumber),
      (''Infinity'', PFloat PosInf), (''-Infinity'', PFloat NegInf)]"

definition read_scalar :: "(string \<Rightarrow> pyfloat) \<Rightarrow> string \<Rightarrow> (pyval \<times> string) option" where
  "read_scalar fl s =
     (case find (\<lambda>(w, v). startswith w s) json_literals of
        Some (w, v) \<Rightarrow> Some (v, drop (length w) s)
      | None \<Rightarrow> read_number fl s)"

fun read_value :: "(string \<Rightarrow> pyfloat) \<Rightarrow> nat \<Rightarrow> string \<Rightarrow> (pyval \<times> string) option"
  and read_elems :: "(string \<Rightarrow> pyfloat) \<Rightarrow> nat \<Rightarrow> string \<Rightarrow> (pyval list \<times> string) option"
  and read_members :: "(string \<Rightarrow> pyfloat) \<Rightarrow> nat \<Rightarrow> string \<Rightarrow> ((pyval \<times> pyval) list \<times> string) option" where
  "read_value fl 0 s = None"
| "read_value fl (Suc n) s =
     (case s of
        [] \<Rightarrow> None
      | c # r \<Rightarrow>
          if c = DQUOTE then map_option (\<lambda>(t, r1). (PStr t, r1)) (read_string r)
          else if c = CHR ''['' then
            (if take 1 (skip_ws r) = '']'' then Some (PList [], drop 1 (skip_ws r))
             else map_option (\<lambda>(vs, r1). (PList vs, r1)) (read_elems fl n (skip_ws r)))
          else if c = CHR ''{'' then
            (if take 1 (skip_ws r) = ''}'' then Some (PDict [], drop 1 (skip_ws r))
             else map_option (\<lambda>(d, r1). (PDict (fold (\<lambda>(k, v). dict_set k v) d []), r1)) (read_members fl n (skip_ws r)))
          else read_scalar fl s)"
| "read_elems fl 0 s = None"
| "read_elems fl (Suc n) s =
     (case read_value fl n s of
        None \<Rightarrow> None
      | Some (v, r) \<Rightarrow>
          (case skip_ws r of
             c # r1 \<Rightarrow>
               if c = CHR '']'' then Some ([v], r1)
               else if c = CHR '','' then map_option (\<lambda>(vs, r2). (v # vs, r2)) (read_elems fl n (skip_ws r1))
               else None
           | [] \<Rightarrow> None))"
| "read_members fl 0 s = None"
| "read_members fl (Suc n) s =
     (if take 1 s \<noteq> [DQUOTE] then None
      else
        (case read_string (drop 1 s) of
           None \<Rightarrow> None
         | Some (k, r) \<Rightarrow>
             if take 1 (skip_ws r) \<noteq> '':'' then None
             else
               (case read_value fl n (skip_ws (drop 1 (skip_ws r))) of
                  None \<Rightarrow> None
                | Some (v, r1) \<Rightarrow>
                    (case skip_ws r1 of
                       c # r2 \<Rightarrow>
                         if c = CHR ''}'' then Some ([(PStr k, v)], r2)
                         else if c = CHR '','' then
                           map_option (\<lambda>(d, r3). ((PStr k, v) # d, r3)) (read_members fl n (skip_ws r2))
                         else None
                     | [] \<Rightarrow> None))))"

definition json_loads :: "(string \<Rightarrow> pyfloat) \<Rightarrow> string \<Rightarrow> pyval option" where
  "json_loads fl s =
     (case read_value fl (2 * length s + 1) (skip_ws s) of
        None \<Rightarrow> None
      | Some (v, r) \<Rightarrow> if skip_ws r = [] then Some v else None)"


section \<open>What is written is read back\<close>

fun json_plain :: "pyval \<Rightarrow> bool" where
  "json_plain (PFloat x) = False"
| "json_plain (PList xs) = list_all json_plain xs"
| "json_plain (PDict d) =
     (distinct (map fst d) \<and> list_all (\<lambda>(k, v). (case k of PStr s \<Rightarrow> True | _ \<Rightarrow> False) \<and> json_plain v) d)"
| "json_plain v = True"

lemma hex_value_digit [simp]: "n < 16 \<Longrightarrow> hex_value (hex_digit n) = Some n"
  by (auto simp: hex_value_def hex_digit_def)

lemma hex_digit_printable: "n < 16 \<Longrightarrow> ascii_printable (code (hex_digit n))"
  by (auto simp: ascii_printable_def hex_digit_def)

lemma code_below_256: "code c < 256"
  using of_char_mod_256[of c, where 'a = nat] by (metis mod_less_divisor zero_less_numeral)

lemma read_hex4_code [simp]: "n < 256 \<Longrightarrow> read_hex4 (hex4 n @ r) = Some (n, r)"
  by (simp add: read_hex4_def hex4_def)

lemma read_string_quote [simp]: "read_string (DQUOTE # r) = Some ([], r)"
  by (subst read_string.simps) simp

lemma read_string_escaped:
  assumes "read_escape r = Some (x, t)"
  shows "read_string (BACKSLASH # r) = map_option (\<lambda>(s, r2). (x # s, r2)) (read_string t)"
  using assms by (subst read_string.simps) (simp add: DQUOTE_def BACKSLASH_def)

lemma read_string_char:
  "read_string (json_escape c @ t) = map_option (\<lambda>(s, r2). (c # s, r2)) (read_string t)"
proof -
  have conv: "code c = k \<Longrightarrow> c = char_of k" for k :: nat by (metis char_of_char)
  consider (quote) "c = DQUOTE \<or> c = BACKSLASH"
    | (named) "c \<noteq> DQUOTE" "c \<noteq> BACKSLASH" "code c \<in> {8, 9, 10, 12, 13}"
    | (plain) "c \<noteq> DQUOTE" "c \<noteq> BACKSLASH" "code c \<notin> {8, 9, 10, 12, 13}" "ascii_printable (code c)"
    | (hex) "c \<noteq> DQUOTE" "c \<noteq> BACKSLASH" "code c \<notin> {8, 9, 10, 12, 13}" "\<not> ascii_printable (code c)"
    by blast
  then show ?thesis
  proof cases
    case quote
    then show ?thesis
      by (auto simp: json_escape_def intro!: read_string_escaped) (auto simp: read_escape_def simple_escape_def DQUOTE_def BACKSLASH_def)
  next
    case named
    then show ?thesis
      by (auto simp: json_escape_def dest!: conv intro!: read_string_escaped)
        (auto simp: read_escape_def simple_escape_def DQUOTE_def BACKSLASH_def)
  next
    case plain
    then show ?thesis
      by (auto simp: json_escape_def ascii_printable_def) (subst read_string.simps, simp)
  next
    case hex
    then have "json_escape c = BACKSLASH # CHR ''u'' # hex4 (code c)" by (simp add: json_escape_def)
    moreover have "read_escape (CHR ''u'' # hex4 (code c) @ t) = Some (c, t)"
    proof -
      have "\<not> 55296 \<le> code c" using code_below_256[of c] by linarith
      then show ?thesis by (simp add: read_escape_def code_below_256)
    qed
    ultimately show ?thesis by (simp add: read_string_escaped)
  qed
qed

lemma read_json_string: "read_string (concat (map json_escape s) @ DQUOTE # r) = Some (s, r)"
  by (induction s) (simp_all add: read_string_char)

lemma json_escape_printable: "c \<in> set (json_escape x) \<Longrightarrow> ascii_printable (code c)"
  by (auto simp: json_escape_def Let_def hex4_def DQUOTE_def BACKSLASH_def hex_digit_printable split: if_splits)
    (simp_all add: ascii_printable_def)

lemma json_string_printable: "c \<in> set (json_string s) \<Longrightarrow> ascii_printable (code c)"
  by (auto simp: json_string_def DQUOTE_def dest: json_escape_printable) (simp_all add: ascii_printable_def)

text \<open>Numbers.\<close>

definition ends_value :: "string \<Rightarrow> bool" where
  "ends_value r \<longleftrightarrow> (case r of [] \<Rightarrow> True | c # _ \<Rightarrow> c \<in> set '',]}'')"

lemma code_zero: "code (CHR ''0'') = 48"
  by simp

lemma nat_str_no_zero: "0 < n \<Longrightarrow> hd (nat_str n) \<noteq> CHR ''0''"
proof (induction n rule: nat_str.induct)
  case (1 n)
  show ?case
  proof (cases "n < 10")
    case True
    have "digit_char n \<noteq> CHR ''0''"
      using 1(2) True by (metis code_digit_char code_zero add.commute add_cancel_left_left less_irrefl_nat)
    then show ?thesis using True by (simp add: nat_str.simps[of n])
  qed (use 1 in \<open>simp add: nat_str.simps[of n]\<close>)
qed

lemma digits_value_nat_str [simp]: "digits_value (nat_str n) = n"
  by (simp add: digits_value_def foldl_nat_str)

lemma read_digits_nat_str:
  assumes "ends_value r"
  shows "read_digits (nat_str n @ r) = (nat_str n, r)"
proof -
  have r: "takeWhile isdecimal r = []" "dropWhile isdecimal r = r"
    using assms by (auto simp: ends_value_def isdecimal_def split: list.splits)
  show ?thesis
    using nat_str_decimal[of n] r by (simp add: read_digits_def takeWhile_append2 dropWhile_append2)
qed

lemma no_fraction: "ends_value r \<Longrightarrow> read_fraction r = ([], r)" "ends_value r \<Longrightarrow> read_exponent r = ([], r)"
  by (auto simp: ends_value_def read_fraction_def read_exponent_def split: list.splits)

lemma read_natural:
  assumes "ends_value r"
  shows "read_whole (nat_str n @ r) = (nat_str n, r)"
proof (cases "n = 0")
  case True
  moreover have "digit_char 0 = CHR ''0''" by (simp add: digit_char_def char_of_def bit_iff_odd)
  ultimately show ?thesis using True by (simp add: read_whole_def nat_str.simps)
next
  case False
  obtain c cs where c: "nat_str n = c # cs" using nat_str_Cons by blast
  with False nat_str_no_zero[of n] have "c \<noteq> CHR ''0''" by simp
  then show ?thesis using c read_digits_nat_str[OF assms, of n] by (simp add: read_whole_def)
qed

lemma digit_not_letter: "isdecimal c \<Longrightarrow> c \<noteq> CHR ''n'' \<and> c \<noteq> CHR ''t'' \<and> c \<noteq> CHR ''f'' \<and> c \<noteq> CHR ''N'' \<and> c \<noteq> CHR ''I'' \<and> c \<noteq> CHR ''-''"
  by (auto simp: isdecimal_def)

lemma not_literal:
  assumes "isdecimal c"
  shows "find (\<lambda>(w, v). startswith w (c # s)) json_literals = None" "find (\<lambda>(w, v). startswith w (CHR ''-'' # c # s)) json_literals = None"
  using digit_not_letter[OF assms] by (simp_all add: json_literals_def startswith_def)

lemma read_json_int:
  assumes "ends_value r"
  shows "read_scalar fl (int_str i @ r) = Some (PInt i, r)"
proof -
  obtain n where n: "n = nat \<bar>i\<bar>" by simp
  obtain c cs where c: "nat_str n = c # cs" "isdecimal c" using nat_str_Cons by blast
  note N = read_natural[OF assms, of n] no_fraction[OF assms]
  show ?thesis
  proof (cases "i < 0")
    case True
    then have i: "int_str i = CHR ''-'' # nat_str n" by (simp add: int_str_def n)
    have "read_number fl (CHR ''-'' # nat_str n @ r) = Some (PInt i, r)"
      using N True n by (simp add: read_number_def Let_def)
    then show ?thesis using c not_literal(2)[OF c(2), of "cs @ r"] by (simp add: read_scalar_def i)
  next
    case False
    then have i: "int_str i = nat_str n" by (simp add: int_str_def n)
    have "take 1 (nat_str n @ r) \<noteq> ''-''" using c by (auto simp: isdecimal_def)
    then have "read_number fl (nat_str n @ r) = Some (PInt i, r)"
      using N False n by (simp add: read_number_def Let_def)
    then show ?thesis using c not_literal(1)[OF c(2), of "cs @ r"] by (simp add: read_scalar_def i)
  qed
qed

lemma fold_dict_set:
  "distinct (map fst (e @ d)) \<Longrightarrow> fold (\<lambda>(k, v). dict_set k v) d e = e @ d"
proof (induction d arbitrary: e)
  case (Cons p d)
  obtain k v where p: "p = (k, v)" by fastforce
  have "dict_set k v e = e @ [(k, v)]"
    using Cons.prems p by (induction e) auto
  then show ?case using Cons p by auto
qed simp

text \<open>What a written value starts with: nothing that can be skipped, nothing that ends a list or a dictionary.\<close>

lemma dumps_start:
  assumes "json_plain v"
  shows "\<exists>c t. json_dumps fr v = c # t \<and> \<not> json_space c \<and> c \<notin> set '']}''"
proof (cases v)
  case (PInt i)
  have "\<exists>c t. int_str i = c # t \<and> \<not> json_space c \<and> c \<notin> set '']}''"
    using nat_str_Cons[of "nat i"] by (auto simp: int_str_def json_space_def isdecimal_def)
  with PInt show ?thesis by simp
qed (use assms in \<open>auto simp: json_string_def json_space_def DQUOTE_def\<close>)

lemma skip_ws_dumps [simp]: "json_plain v \<Longrightarrow> skip_ws (json_dumps fr v @ r) = json_dumps fr v @ r"
  using dumps_start[of v fr] by (auto simp: skip_ws_def)

lemma skip_ws_delim [simp]:
  "c \<in> set '',:]}'' \<Longrightarrow> skip_ws (c # r) = c # r" "skip_ws (DQUOTE # r) = DQUOTE # r"
  by (auto simp: skip_ws_def json_space_def DQUOTE_def)

lemma skip_ws_string [simp]: "skip_ws (json_string s @ r) = json_string s @ r"
  by (simp add: json_string_def)

lemma elems_start:
  assumes "list_all json_plain vs" "vs \<noteq> []"
  shows "skip_ws (json_elems fr vs @ r) = json_elems fr vs @ r" "take 1 (json_elems fr vs @ r) \<noteq> '']''"
proof -
  obtain v ws where v: "vs = v # ws" "json_plain v" using assms by (cases vs) auto
  obtain c t where "json_dumps fr v = c # t" "\<not> json_space c" "c \<notin> set '']}''" using dumps_start[OF v(2)] by blast
  then show "skip_ws (json_elems fr vs @ r) = json_elems fr vs @ r" "take 1 (json_elems fr vs @ r) \<noteq> '']''"
    by (simp_all add: v(1) skip_ws_def)
qed

lemma members_start:
  assumes "d \<noteq> []"
  shows "skip_ws (json_members fr d @ r) = json_members fr d @ r" "take 1 (json_members fr d @ r) = [DQUOTE]"
proof -
  obtain k v e where "d = (k, v) # e" using assms by (cases d) auto
  then show "skip_ws (json_members fr d @ r) = json_members fr d @ r" "take 1 (json_members fr d @ r) = [DQUOTE]"
    by (simp_all add: json_string_def)
qed

lemma read_list:
  assumes "list_all json_plain vs" "vs \<noteq> []" "read_elems fl n (json_elems fr vs @ r) = Some (vs, r)"
  shows "read_value fl (Suc n) (CHR ''['' # json_elems fr vs @ r) = Some (PList vs, r)"
  using elems_start[OF assms(1,2), of fr r] assms(3) by (simp add: DQUOTE_def)

lemma read_dict:
  assumes "json_plain (PDict d)" "d \<noteq> []" "read_members fl n (json_members fr d @ r) = Some (d, r)"
  shows "read_value fl (Suc n) (CHR ''{'' # json_members fr d @ r) = Some (PDict d, r)"
  using members_start[OF assms(2), of fr r] assms(1,3) fold_dict_set[of "[]" d] by (simp add: DQUOTE_def)

lemma read_elem:
  assumes "read_value fl n (json_dumps fr v @ (if vs = [] then CHR '']'' # r else CHR '','' # json_elems fr vs @ r))
      = Some (v, if vs = [] then CHR '']'' # r else CHR '','' # json_elems fr vs @ r)"
    "vs \<noteq> [] \<Longrightarrow> read_elems fl n (json_elems fr vs @ r) = Some (vs, r)" "list_all json_plain vs"
  shows "read_elems fl (Suc n) (json_elems fr (v # vs) @ r) = Some (v # vs, r)"
  using assms(1,2) elems_start(1)[OF assms(3), of fr r] by (cases "vs = []") simp_all

lemma read_member:
  assumes "read_value fl n (json_dumps fr v @ (if d = [] then CHR ''}'' # r else CHR '','' # json_members fr d @ r))
      = Some (v, if d = [] then CHR ''}'' # r else CHR '','' # json_members fr d @ r)"
    "d \<noteq> [] \<Longrightarrow> read_members fl n (json_members fr d @ r) = Some (d, r)" "json_plain v"
  shows "read_members fl (Suc n) (json_members fr ((PStr k, v) # d) @ r) = Some ((PStr k, v) # d, r)"
proof -
  have "read_string (concat (map json_escape k) @ DQUOTE # t) = Some (k, t)" for t by (rule read_json_string)
  then show ?thesis
    using assms members_start(1)[of d fr r] skip_ws_dumps[OF assms(3)] by (cases "d = []") (simp_all add: json_string_def)
qed

lemma ends_value_simps [simp]: "ends_value (CHR '']'' # r)" "ends_value (CHR '','' # r)" "ends_value (CHR ''}'' # r)" "ends_value []"
  by (simp_all add: ends_value_def)

lemma read_dumps:
  "json_plain v \<Longrightarrow> ends_value r \<Longrightarrow> 2 * length (json_dumps fr v) \<le> n \<Longrightarrow> read_value fl n (json_dumps fr v @ r) = Some (v, r)"
  "list_all json_plain vs \<Longrightarrow> vs \<noteq> [] \<Longrightarrow> 2 * length (json_elems fr vs) \<le> n \<Longrightarrow>
     read_elems fl n (json_elems fr vs @ r) = Some (vs, r)"
  "json_plain (PDict d) \<Longrightarrow> d \<noteq> [] \<Longrightarrow> 2 * length (json_members fr d) \<le> n \<Longrightarrow>
     read_members fl n (json_members fr d @ r) = Some (d, r)"
proof (induction fr v and fr vs and fr d arbitrary: n r and n r and n r rule: json_dumps_json_elems_json_members.induct)
  case (1 fr)
  then show ?case by (cases n) (simp_all add: read_scalar_def json_literals_def DQUOTE_def startswith_def)
next
  case (2 fr b)
  then show ?case by (cases n; cases b) (simp_all add: read_scalar_def json_literals_def DQUOTE_def startswith_def)
next
  case (3 fr i)
  obtain m where n: "n = Suc m" using 3(3) by (cases n) (auto simp: int_str_def split: if_splits)
  obtain c t where "int_str i @ r = c # t" "c \<notin> {DQUOTE, CHR ''['', CHR ''{''}"
  proof -
    have "\<exists>c t. int_str i @ r = c # t \<and> c \<notin> {DQUOTE, CHR ''['', CHR ''{''}"
      using nat_str_Cons[of "nat i"] by (auto simp: int_str_def isdecimal_def DQUOTE_def)
    then show ?thesis using that by blast
  qed
  then show ?case using read_json_int[OF 3(2), of fl i] by (simp add: n)
next
  case (5 fr s)
  then show ?case by (cases n) (simp_all add: json_string_def read_json_string)
next
  case (6 fr xs)
  show ?case
  proof (cases "xs = []")
    case False
    with 6 show ?thesis by (cases n) (auto simp del: read_value.simps intro!: read_list)
  qed (use 6 in \<open>cases n; simp add: DQUOTE_def\<close>)
next
  case (7 fr d)
  show ?case
  proof (cases "d = []")
    case False
    with 7 show ?thesis by (cases n) (auto simp del: read_value.simps intro!: read_dict)
  qed (use 7 in \<open>cases n; simp add: DQUOTE_def\<close>)
next
  case (9 fr v vs)
  have "length (json_elems fr (v # vs)) = Suc (length (json_dumps fr v) + (if vs = [] then 0 else length (json_elems fr vs)))"
    by simp
  with 9 show ?case
    by (cases n) (auto intro!: read_elem simp del: json_elems.simps read_elems.simps split: if_splits)
next
  case (11 fr k v d)
  have "length (json_members fr ((k, v) # d)) \<ge> Suc (length (json_dumps fr v) + (if d = [] then 0 else length (json_members fr d)))"
    by simp
  with 11 show ?case
    by (cases n; cases k) (auto intro!: read_member simp del: json_members.simps read_members.simps split: if_splits)
qed auto

lemma json_round_trip:
  assumes "json_plain v"
  shows "json_loads fl (json_dumps fr v) = Some v"
  using read_dumps(1)[OF assms, of "[]" fr "2 * length (json_dumps fr v) + 1" fl] skip_ws_dumps[OF assms, of fr "[]"]
  by (simp add: json_loads_def) (simp add: skip_ws_def)

lemma json_string_range: "c \<in> set (json_string s) \<Longrightarrow> 32 \<le> code c" "c \<in> set (json_string s) \<Longrightarrow> code c < 127"
  using json_string_printable[of c s] by (simp_all add: ascii_printable_def)

lemma dumps_printable:
  "json_plain v \<Longrightarrow> c \<in> set (json_dumps fr v) \<Longrightarrow> ascii_printable (code c)"
  "list_all json_plain vs \<Longrightarrow> c \<in> set (json_elems fr vs) \<Longrightarrow> ascii_printable (code c)"
  "json_plain (PDict d) \<Longrightarrow> c \<in> set (json_members fr d) \<Longrightarrow> ascii_printable (code c)"
proof (induction fr v and fr vs and fr d rule: json_dumps_json_elems_json_members.induct)
  case (3 fr i)
  then show ?case using nat_str_decimal[of "nat \<bar>i\<bar>"] by (auto simp: int_str_def isdecimal_def ascii_printable_def split: if_splits)
qed (auto simp: ascii_printable_def json_string_range split: if_splits)

end
