(* ===== verification/ControlFrames.thy ===== *)
theory ControlFrames
  imports AuthLines Json
begin

text \<open>
  The framing of control messages between the command line client and the server: one stream of bytes
  carries what is typed (or what the port prints) and lines that start with a marker.  Both ends split
  what they read by the same loop, \<open>_extract_control_frames\<close> of
  \<^verbatim>\<open>openmux/server/adapters/client_listener.py\<close> and \<open>_split_control_frames\<close> of
  \<^verbatim>\<open>openmux/client/adapters/tcp_adapter.py\<close>, modelled once over the handler of a frame, which returns
  the bytes to show in its place (none on the server) and the next state.
\<close>

definition CTRL_MARKER :: bytes where
  "CTRL_MARKER = char_of (0::nat) # ''OMXCTRL ''"

definition CTRL_FRAME_MAX :: nat where
  "CTRL_FRAME_MAX = 65536"

fun find_sub :: "bytes \<Rightarrow> bytes \<Rightarrow> nat option" where
  "find_sub m [] = (if m = [] then Some 0 else None)"
| "find_sub m (c # cs) = (if startswith m (c # cs) then Some 0 else map_option Suc (find_sub m cs))"

lemma startswith_length: "startswith m d \<Longrightarrow> length m \<le> length d"
  by (auto simp: startswith_iff)

lemma find_sub_Some: "find_sub m d = Some k \<Longrightarrow> startswith m (drop k d) \<and> k + length m \<le> length d"
proof (induction d arbitrary: k)
  case (Cons c cs)
  then show ?case using startswith_length[of m "c # cs"] by (auto split: if_splits)
qed (simp add: startswith_def split: if_splits)

lemma marker_length [simp]: "length CTRL_MARKER = 9" "CTRL_MARKER \<noteq> []"
  by (simp_all add: CTRL_MARKER_def)

lemma find_marker_less: "find_sub CTRL_MARKER d = Some k \<Longrightarrow> k < length d"
  by (drule find_sub_Some) simp

section \<open>Splitting a chunk\<close>

function split_frames :: "(bytes \<Rightarrow> 's \<Rightarrow> bytes \<times> 's) \<Rightarrow> bytes \<Rightarrow> 's \<Rightarrow> bytes \<times> bytes \<times> 's" where
  "split_frames h d s =
     (case find_sub CTRL_MARKER d of
        None \<Rightarrow> (d, [], s)
      | Some k \<Rightarrow>
          (case find_byte LF (drop k d) of
             None \<Rightarrow> if length (drop k d) \<le> CTRL_FRAME_MAX then (take k d, drop k d, s) else (d, [], s)
           | Some n \<Rightarrow>
               (case h (take (Suc n) (drop k d)) s of
                  (t, s1) \<Rightarrow>
                    (case split_frames h (drop (Suc (k + n)) d) s1 of
                       (out, frag, s2) \<Rightarrow> (take k d @ t @ out, frag, s2)))))"
  by pat_completeness auto
termination
  by (relation "measure (\<lambda>(h, d, s). length d)") (auto dest: find_marker_less)

declare split_frames.simps [simp del]

text \<open>A read: the loop runs when a marker is in sight or a frame is half read.\<close>

definition take_chunk :: "(bytes \<Rightarrow> 's \<Rightarrow> bytes \<times> 's) \<Rightarrow> bytes \<Rightarrow> bytes \<Rightarrow> 's \<Rightarrow> bytes \<times> bytes \<times> 's" where
  "take_chunk h frag data s =
     (if find_sub CTRL_MARKER data \<noteq> None \<or> frag \<noteq> [] then split_frames h (frag @ data) s else (data, [], s))"

fun take_chunks :: "(bytes \<Rightarrow> 's \<Rightarrow> bytes \<times> 's) \<Rightarrow> bytes \<Rightarrow> bytes list \<Rightarrow> 's \<Rightarrow> bytes \<times> bytes \<times> 's" where
  "take_chunks h frag [] s = ([], frag, s)"
| "take_chunks h frag (c # cs) s =
     (case take_chunk h frag c s of
        (out, frag1, s1) \<Rightarrow> (case take_chunks h frag1 cs s1 of (rest, frag2, s2) \<Rightarrow> (out @ rest, frag2, s2)))"

lemma take_chunk_split: "take_chunk h frag data s = split_frames h (frag @ data) s"
  by (auto simp: take_chunk_def split_frames.simps[of h data s])

section \<open>What a stream is made of\<close>

text \<open>Bytes without the first byte of the marker, and frames: a marker, a body without a line end, a line end.\<close>

datatype item = Stretch bytes | Message bytes

fun item_bytes :: "item \<Rightarrow> bytes" where
  "item_bytes (Stretch b) = b"
| "item_bytes (Message body) = CTRL_MARKER @ body @ [LF]"

definition NUL :: char where "NUL = char_of (0::nat)"

fun item_ok :: "item \<Rightarrow> bool" where
  "item_ok (Stretch b) \<longleftrightarrow> NUL \<notin> set b"
| "item_ok (Message body) \<longleftrightarrow> NUL \<notin> set body \<and> LF \<notin> set body \<and> length body + 9 \<le> CTRL_FRAME_MAX"

fun run_items :: "(bytes \<Rightarrow> 's \<Rightarrow> bytes \<times> 's) \<Rightarrow> item list \<Rightarrow> 's \<Rightarrow> bytes \<times> 's" where
  "run_items h [] s = ([], s)"
| "run_items h (Stretch b # its) s = (case run_items h its s of (out, s1) \<Rightarrow> (b @ out, s1))"
| "run_items h (Message body # its) s =
     (case h (item_bytes (Message body)) s of
        (t, s1) \<Rightarrow> (case run_items h its s1 of (out, s2) \<Rightarrow> (t @ out, s2)))"

text \<open>A read that ends inside a marker: the tail of what came before and the head of what comes next make one.\<close>

definition cuts_marker :: "bytes \<Rightarrow> bytes \<Rightarrow> bool" where
  "cuts_marker a b \<longleftrightarrow>
     list_ex (\<lambda>k. drop (length a - k) a = take k CTRL_MARKER \<and> startswith (drop k CTRL_MARKER) b) [1..<9]"

fun clean_cuts :: "bytes \<Rightarrow> bytes list \<Rightarrow> bool" where
  "clean_cuts a [] \<longleftrightarrow> True"
| "clean_cuts a (c # cs) \<longleftrightarrow> \<not> cuts_marker a (c @ concat cs) \<and> clean_cuts (a @ c) cs"

section \<open>Searching across a cut\<close>

lemma find_sub_left: "find_sub m a = Some k \<Longrightarrow> find_sub m (a @ b) = Some k"
proof (induction a arbitrary: k)
  case (Cons c cs)
  show ?case
  proof (cases "startswith m (c # cs)")
    case True
    then have "startswith m (c # cs @ b)" by (metis append.assoc append_Cons startswith_iff)
    then show ?thesis using True Cons.prems by auto
  next
    case False
    then obtain j where j: "find_sub m cs = Some j" "k = Suc j" using Cons.prems by auto
    have "length m \<le> length cs" using find_sub_Some[OF j(1)] by simp
    then have "take (length m) ((c # cs) @ b) = take (length m) (c # cs)" by (subst take_append) simp
    then have "\<not> startswith m (c # cs @ b)" using False by (simp add: startswith_def)
    then show ?thesis using Cons.IH[OF j(1)] j(2) by simp
  qed
qed (auto split: if_splits; cases b; simp add: startswith_def)

lemma cuts_tail: "cuts_marker a b \<Longrightarrow> cuts_marker (x @ a) b"
proof -
  assume "cuts_marker a b"
  then obtain k where k: "k \<in> set [1..<9]" "drop (length a - k) a = take k CTRL_MARKER" "startswith (drop k CTRL_MARKER) b"
    unfolding cuts_marker_def list_ex_iff by blast
  have "length (drop (length a - k) a) = k" using k(1,2) by simp
  then have "k \<le> length a" by simp
  then have "drop (length (x @ a) - k) (x @ a) = take k CTRL_MARKER" using k(2) by simp
  then show "cuts_marker (x @ a) b" using k(1,3) unfolding cuts_marker_def list_ex_iff by blast
qed

lemma straddling:
  assumes "startswith CTRL_MARKER (a @ b)" "length a < 9" "a \<noteq> []"
  shows "cuts_marker a b"
proof -
  have m: "CTRL_MARKER = take 9 (a @ b)" using assms(1) by (simp add: startswith_def)
  have "take (length a) CTRL_MARKER = a" "drop (length a) CTRL_MARKER = take (9 - length a) b"
    unfolding m using assms(2) by (simp_all add: min_def)
  then have "drop (length a - length a) a = take (length a) CTRL_MARKER \<and> startswith (drop (length a) CTRL_MARKER) b"
    by (simp add: startswith_iff) (metis append_take_drop_id)
  moreover have "length a \<in> set [1..<9]" using assms(2,3) by (simp add: Suc_le_eq)
  ultimately show ?thesis unfolding cuts_marker_def list_ex_iff by (rule bexI)
qed

lemma find_marker_right:
  assumes "find_sub CTRL_MARKER a = None" "\<not> cuts_marker a b"
  shows "find_sub CTRL_MARKER (a @ b) = map_option ((+) (length a)) (find_sub CTRL_MARKER b)"
  using assms
proof (induction a)
  case (Cons c cs)
  have "\<not> startswith CTRL_MARKER (c # cs)" using Cons.prems(1) by auto
  then have "startswith CTRL_MARKER ((c # cs) @ b) \<Longrightarrow> length (c # cs) < 9"
    by (rule contrapos_np) (simp add: startswith_def)
  then have "\<not> startswith CTRL_MARKER (c # cs @ b)"
    using straddling[of "c # cs" b] Cons.prems(2) by auto
  moreover have "\<not> cuts_marker cs b" using cuts_tail[of cs b "[c]"] Cons.prems by auto
  ultimately show ?case using Cons by (auto simp: option.map_comp o_def split: if_splits)
qed (cases "find_sub CTRL_MARKER b"; simp)

lemma find_byte_Nil [simp]: "find_byte c [] = None"
  by (simp add: find_byte_def)

lemma find_byte_Cons [simp]: "find_byte c (x # xs) = (if x = c then Some 0 else map_option Suc (find_byte c xs))"
  by (auto simp: find_byte_def)

lemma find_byte_append:
  "find_byte c (a @ b) = (case find_byte c a of Some n \<Rightarrow> Some n | None \<Rightarrow> map_option ((+) (length a)) (find_byte c b))"
proof (induction a)
  case Nil
  then show ?case by (cases "find_byte c b") simp_all
next
  case (Cons x a)
  then show ?case by (cases "find_byte c a"; cases "find_byte c b") simp_all
qed

lemma find_byte_less: "find_byte c d = Some n \<Longrightarrow> n < length d"
  by (induction d arbitrary: n) (auto split: if_splits)

section \<open>Any segmentation that spares the markers\<close>

lemma find_at_start: "startswith m d \<Longrightarrow> find_sub m d = Some 0"
  by (cases d) (auto simp: startswith_def)

lemma split_skip:
  assumes "find_sub CTRL_MARKER d = Some k"
  shows "split_frames h d s = (case split_frames h (drop k d) s of (out, frag, s1) \<Rightarrow> (take k d @ out, frag, s1))"
proof -
  have "find_sub CTRL_MARKER (drop k d) = Some 0" using find_sub_Some[OF assms] find_at_start by blast
  then show ?thesis
    using assms
    by (subst (1 2) split_frames.simps) (simp add: add.commute split: option.splits prod.splits)
qed

text \<open>No frame of the stream, finished or not, is over the limit.\<close>

definition frames_fit :: "bytes \<Rightarrow> bool" where
  "frames_fit d \<longleftrightarrow>
     (\<forall>k. startswith CTRL_MARKER (drop k d) \<longrightarrow>
        (case find_byte LF (drop k d) of Some n \<Rightarrow> n \<le> CTRL_FRAME_MAX | None \<Rightarrow> length (drop k d) \<le> CTRL_FRAME_MAX))"

lemma fits_drop: "frames_fit (a @ b) \<Longrightarrow> k \<le> length a \<Longrightarrow> frames_fit (drop k a @ b)"
  unfolding frames_fit_def
proof (intro allI impI)
  fix j
  assume "\<forall>k. startswith CTRL_MARKER (drop k (a @ b)) \<longrightarrow>
        (case find_byte LF (drop k (a @ b)) of Some n \<Rightarrow> n \<le> CTRL_FRAME_MAX | None \<Rightarrow> length (drop k (a @ b)) \<le> CTRL_FRAME_MAX)"
    and k: "k \<le> length a" "startswith CTRL_MARKER (drop j (drop k a @ b))"
  moreover have "drop j (drop k a @ b) = drop (k + j) (a @ b)"
    using k(1) by (metis drop_append diff_is_0_eq' drop0 drop_drop add.commute)
  ultimately show "case find_byte LF (drop j (drop k a @ b)) of Some n \<Rightarrow> n \<le> CTRL_FRAME_MAX
      | None \<Rightarrow> length (drop j (drop k a @ b)) \<le> CTRL_FRAME_MAX" by metis
qed

lemma fits_half:
  assumes "frames_fit (a @ b)" "find_sub CTRL_MARKER a = Some k" "find_byte LF (drop k a) = None"
  shows "length (drop k a) \<le> CTRL_FRAME_MAX"
proof -
  have k: "startswith CTRL_MARKER (drop k a)" "k < length a"
    using find_sub_Some[OF assms(2)] find_marker_less[OF assms(2)] by simp_all
  then have "startswith CTRL_MARKER (drop k (a @ b))" by (auto simp: startswith_iff)
  then have "case find_byte LF (drop k (a @ b)) of Some n \<Rightarrow> n \<le> CTRL_FRAME_MAX
      | None \<Rightarrow> length (drop k (a @ b)) \<le> CTRL_FRAME_MAX"
    using assms(1) by (auto simp: frames_fit_def)
  then show ?thesis using assms(3) k(2) by (auto simp: find_byte_append split: option.splits)
qed

lemma fits_prefix:
  assumes "frames_fit (a @ b)"
  shows "frames_fit a"
  unfolding frames_fit_def
proof (intro allI impI)
  fix k assume k: "startswith CTRL_MARKER (drop k a)"
  then have le: "k \<le> length a" by (cases "k \<le> length a") (auto dest: startswith_length)
  then have "startswith CTRL_MARKER (drop k (a @ b))" using k by (auto simp: startswith_iff)
  then have "case find_byte LF (drop k (a @ b)) of Some n \<Rightarrow> n \<le> CTRL_FRAME_MAX
      | None \<Rightarrow> length (drop k (a @ b)) \<le> CTRL_FRAME_MAX"
    using assms by (auto simp: frames_fit_def)
  then show "case find_byte LF (drop k a) of Some n \<Rightarrow> n \<le> CTRL_FRAME_MAX | None \<Rightarrow> length (drop k a) \<le> CTRL_FRAME_MAX"
    using le by (auto simp: find_byte_append split: option.splits)
qed

lemma split_plain:
  assumes "find_sub CTRL_MARKER a = None" "\<not> cuts_marker a b"
  shows "split_frames h (a @ b) s = (case split_frames h b s of (rest, frag2, s2) \<Rightarrow> (a @ rest, frag2, s2))"
  using find_marker_right[OF assms]
  by (subst (1 2) split_frames.simps) (auto split: option.splits prod.splits simp: add.assoc)

text \<open>Splitting a prefix and then what it left over with the rest gives what splitting the whole gives.\<close>

lemma split_append:
  assumes "split_frames h a s = (out, frag, s1)" "\<not> cuts_marker a b" "frames_fit (a @ b)"
  shows "split_frames h (a @ b) s = (case split_frames h (frag @ b) s1 of (rest, frag2, s2) \<Rightarrow> (out @ rest, frag2, s2))"
  using assms
proof (induction h a s arbitrary: out rule: split_frames.induct)
  case (1 h a s)
  show ?case
  proof (cases "find_sub CTRL_MARKER a")
    case None
    have "split_frames h a s = (a, [], s)" using None by (subst split_frames.simps) simp
    then show ?thesis using split_plain[OF None 1(3)] 1(2) by simp
  next
    case (Some k)
    have k: "find_sub CTRL_MARKER (a @ b) = Some k" "k < length a"
      using find_sub_left[OF Some] find_marker_less[OF Some] by simp_all
    show ?thesis
    proof (cases "find_byte LF (drop k a)")
      case None
      have "split_frames h a s = (take k a, drop k a, s)"
        using Some None fits_half[OF 1(4) Some None] by (subst split_frames.simps) simp
      then have "out = take k a" "frag = drop k a" "s1 = s" using 1(2) by simp_all
      then show ?thesis using split_skip[OF k(1), of h s] k(2) by simp
    next
      case (Some n)
      note F = \<open>find_sub CTRL_MARKER a = Some k\<close>
      have n: "n < length (drop k a)" by (rule find_byte_less[OF Some])
      obtain t u where h: "h (take (Suc n) (drop k a)) s = (t, u)" by fastforce
      obtain o2 f2 s2 where r: "split_frames h (drop (Suc (k + n)) a) u = (o2, f2, s2)" by (metis prod_cases3)
      have "split_frames h a s = (take k a @ t @ o2, f2, s2)"
        using F Some h r by (subst split_frames.simps) simp
      then have e: "out = take k a @ t @ o2" "frag = f2" "s1 = s2" using 1(2) by simp_all
      have "\<not> cuts_marker (drop (Suc (k + n)) a) b"
        using 1(3) cuts_tail[of "drop (Suc (k + n)) a" b "take (Suc (k + n)) a"] by auto
      then have "split_frames h (drop (Suc (k + n)) a @ b) u
          = (case split_frames h (f2 @ b) s2 of (rest, frag2, s3) \<Rightarrow> (o2 @ rest, frag2, s3))"
        using 1(1)[OF F Some h[symmetric], of o2] r e fits_drop[OF 1(4), of "Suc (k + n)"] k(2) n by simp
      moreover have "find_byte LF (drop k (a @ b)) = Some n" using Some k(2) by (simp add: find_byte_append)
      ultimately show ?thesis
        using k n h by (subst split_frames.simps) (auto simp: e split: prod.splits)
    qed
  qed
qed

lemma cuts_more: "cuts_marker a b \<Longrightarrow> cuts_marker a (b @ c)"
  by (auto simp: cuts_marker_def list_ex_iff startswith_iff)

lemma chunks_split:
  assumes "split_frames h a s = (out, frag, s1)" "clean_cuts a cs" "frames_fit (a @ concat cs)"
  shows "split_frames h (a @ concat cs) s = (case take_chunks h frag cs s1 of (rest, frag2, s2) \<Rightarrow> (out @ rest, frag2, s2))"
  using assms
proof (induction cs arbitrary: a out frag s1)
  case (Cons c cs)
  obtain o2 f2 s2 where c: "split_frames h (frag @ c) s1 = (o2, f2, s2)" by (metis prod_cases3)
  have "split_frames h (a @ c) s = (out @ o2, f2, s2)"
    using split_append[OF Cons.prems(1), of c] Cons.prems(2,3) c cuts_more fits_prefix[of "a @ c" "concat cs"] by auto
  then show ?case
    using Cons.IH[of "a @ c" "out @ o2" f2 s2] Cons.prems(2,3) c by (auto simp: take_chunk_split split: prod.splits)
qed simp

text \<open>A stream of items, read whole.\<close>

lemma marker_bytes: "CTRL_MARKER = NUL # ''OMXCTRL ''" "NUL \<notin> set ''OMXCTRL ''" "LF \<notin> set CTRL_MARKER"
  by (auto simp: CTRL_MARKER_def NUL_def LF_def char_of_def bit_iff_odd)

lemma no_marker: "NUL \<notin> set b \<Longrightarrow> find_sub CTRL_MARKER b = None"
  by (induction b) (auto simp: startswith_def marker_bytes(1))

lemma no_cut: "NUL \<notin> set a \<Longrightarrow> \<not> cuts_marker a b"
proof
  assume a: "NUL \<notin> set a" and "cuts_marker a b"
  then obtain k where k: "k \<in> set [1..<9]" "drop (length a - k) a = take k CTRL_MARKER"
    unfolding cuts_marker_def list_ex_iff by blast
  have "0 < k" using k(1) by auto
  then have "NUL \<in> set (take k CTRL_MARKER)" by (cases k) (simp_all add: marker_bytes(1))
  then show False using a k(2) by (metis in_set_dropD)
qed

lemma message_end:
  assumes "item_ok (Message body)"
  shows "find_byte LF (item_bytes (Message body) @ rest) = Some (9 + length body)"
proof -
  have none: "find_byte LF CTRL_MARKER = None" "find_byte LF body = None"
    using assms marker_bytes(3) by (simp_all add: find_byte_def)
  then show ?thesis by (simp add: find_byte_append)
qed

lemma message_splits:
  assumes "item_ok (Message body)"
  shows "split_frames h (item_bytes (Message body) @ rest) s =
     (case h (item_bytes (Message body)) s of
        (t, s1) \<Rightarrow> (case split_frames h rest s1 of (out, frag, s2) \<Rightarrow> (t @ out, frag, s2)))"
proof -
  have m: "find_sub CTRL_MARKER (item_bytes (Message body) @ rest) = Some 0"
    by (rule find_at_start) (simp add: startswith_def)
  note n = message_end[OF assms, of rest]
  show ?thesis
    by (subst split_frames.simps) (use m n in \<open>simp split: prod.splits\<close>)
qed

lemma items_split:
  "list_all item_ok its \<Longrightarrow>
     split_frames h (concat (map item_bytes its)) s = (case run_items h its s of (out, s1) \<Rightarrow> (out, [], s1))"
proof (induction its arbitrary: s)
  case Nil
  then show ?case by (simp add: split_frames.simps)
next
  case (Cons it its)
  show ?case
  proof (cases it)
    case (Stretch b)
    then have b: "NUL \<notin> set b" using Cons.prems by simp
    then show ?thesis
      using split_plain[OF no_marker[OF b] no_cut[OF b], of h "concat (map item_bytes its)" s] Cons Stretch by (auto split: prod.splits)
  next
    case (Message body)
    then show ?thesis
      using message_splits[of body h "concat (map item_bytes its)" s] Cons by (auto split: prod.splits)
  qed
qed

lemma nul_starts_message:
  assumes "item_ok it" "k < length (item_bytes it)" "item_bytes it ! k = NUL"
  shows "k = 0 \<and> (\<exists>body. it = Message body)"
proof (cases it)
  case (Stretch b)
  then show ?thesis using assms nth_mem[of k b] by auto
next
  case (Message body)
  define t where "t = ''OMXCTRL '' @ body @ [LF]"
  have t: "item_bytes it = NUL # t" "NUL \<notin> set t"
    using Message assms(1) marker_bytes by (auto simp: t_def LF_def NUL_def char_of_def bit_iff_odd)
  then show ?thesis using assms(2,3) Message nth_mem[of "k - 1" t] by (cases k) auto
qed

lemma item_fits:
  assumes "item_ok it" "frames_fit rest"
  shows "frames_fit (item_bytes it @ rest)"
  unfolding frames_fit_def
proof (intro allI impI)
  fix k assume k: "startswith CTRL_MARKER (drop k (item_bytes it @ rest))"
  show "case find_byte LF (drop k (item_bytes it @ rest)) of Some n \<Rightarrow> n \<le> CTRL_FRAME_MAX
      | None \<Rightarrow> length (drop k (item_bytes it @ rest)) \<le> CTRL_FRAME_MAX"
  proof (cases "k < length (item_bytes it)")
    case True
    then have "item_bytes it ! k = NUL"
      using k by (auto simp: startswith_iff marker_bytes(1) nth_append dest: arg_cong[where f = hd] simp: hd_drop_conv_nth)
    then obtain body where it: "it = Message body" "k = 0"
      using nul_starts_message[OF assms(1) True] by blast
    then have "find_byte LF (drop k (item_bytes it @ rest)) = Some (9 + length body)"
      using assms(1) message_end[of body rest] by simp
    then show ?thesis using assms(1) it by simp
  next
    case False
    then have "drop k (item_bytes it @ rest) = drop (k - length (item_bytes it)) rest" by simp
    then show ?thesis using k assms(2) unfolding frames_fit_def by metis
  qed
qed

lemma items_fit: "list_all item_ok its \<Longrightarrow> frames_fit (concat (map item_bytes its))"
proof (induction its)
  case Nil
  then show ?case by (auto simp: frames_fit_def dest: startswith_length)
qed (simp add: item_fits)

text \<open>However the stream is cut, as long as no cut falls inside a marker: the plain bytes come out, in order
  and with nothing added, around what the handler answers, and the handler sees every message once, in order.\<close>

lemma any_segmentation:
  assumes "list_all item_ok its" "concat cs = concat (map item_bytes its)" "clean_cuts [] cs"
  shows "take_chunks h [] cs s = (case run_items h its s of (out, s1) \<Rightarrow> (out, [], s1))"
proof -
  have "split_frames h [] s = ([], [], s)" by (simp add: split_frames.simps)
  then show ?thesis
    using chunks_split[of h "[]" s "[]" "[]" s cs] items_split[OF assms(1), of h s] items_fit[OF assms(1)] assms(2,3)
    by (simp split: prod.splits)
qed

text \<open>A cut inside the marker: the frame is not seen by the handler and passes as data.\<close>

lemma cut_marker_passes:
  assumes "NUL \<notin> set body" "0 < k" "k < 9"
  shows "take_chunks h [] [take k (item_bytes (Message body)), drop k (item_bytes (Message body))] s
    = (item_bytes (Message body), [], s)"
proof -
  have "length (take k (item_bytes (Message body))) < 9" using assms(3) by simp
  then have a: "find_sub CTRL_MARKER (take k (item_bytes (Message body))) = None"
    using find_sub_Some[of CTRL_MARKER "take k (item_bytes (Message body))"] by (cases "find_sub CTRL_MARKER (take k (item_bytes (Message body)))") auto
  have "set (drop k CTRL_MARKER) \<subseteq> set ''OMXCTRL ''"
    using assms(2) by (cases k) (auto simp: marker_bytes(1) dest: in_set_dropD)
  then have "NUL \<notin> set (drop k (item_bytes (Message body)))"
    using assms marker_bytes by (auto simp: LF_def NUL_def char_of_def bit_iff_odd)
  then have b: "find_sub CTRL_MARKER (drop k (item_bytes (Message body))) = None" by (rule no_marker)
  show ?thesis using a b by (simp add: take_chunk_def del: item_bytes.simps)
qed

end
