(* ===== verification/ClientListener.thy ===== *)
theory ClientListener
  imports ControlFrames PowerFacts AuthManager SessionLife Base64
begin

text \<open>
  The listener of the command line client, \<^verbatim>\<open>openmux/server/adapters/client_listener.py\<close>: login,
  command phase, character phase and the control frames inside it.  The state is one connection with what
  it shares with the rest of the server.  The network is the list of segments as they are read, the output
  every byte written to the socket.  \<open>ce_sendable\<close> says whether the k-th write succeeds: one that fails ends
  the connection, as \<open>send_line\<close> and \<open>send_raw_data\<close> do.
\<close>

section \<open>Session and environment\<close>

record csession =
  cs_id :: string
  cs_address :: string
  cs_connected :: bool
  cs_user :: "string option"
  cs_authenticated :: bool
  cs_port :: "string option"
  cs_mode :: "amode option"
  cs_blocked_told :: bool
  cs_detach :: bool
  cs_frag :: bytes
  cs_teardown :: bool

definition new_session :: "string \<Rightarrow> string \<Rightarrow> csession" where
  "new_session cid address =
     \<lparr>cs_id = cid, cs_address = address, cs_connected = True, cs_user = None, cs_authenticated = False,
      cs_port = None, cs_mode = None, cs_blocked_told = False, cs_detach = False, cs_frag = [], cs_teardown = False\<rparr>"

record 'd clstate =
  cl_session :: csession
  cl_world :: "'d power_world"
  cl_ports :: "(string, string list) pydict"
  cl_auth :: auth_state
  cl_in :: "bytes list"
  cl_out :: bytes
  cl_sends :: nat

text \<open>Without an auth manager \<open>ce_auth\<close> is \<open>None\<close>.  \<open>ce_clock\<close> is the time before and after the challenge of a
  login.  \<open>ce_local_up\<close> is \<open>is_connected\<close> of a local port, where it has one; \<open>ce_info\<close> the dictionary that
  \<open>get_status\<close> fills for an entry of the list, \<open>ce_list_tail\<close> the server and timing fields after it.\<close>

record 'd cl_env =
  ce_session :: "'d session_env"
  ce_auth :: "auth_env option"
  ce_clock :: "nat \<Rightarrow> int"
  ce_nonce :: bytes
  ce_float_text :: "pyfloat \<Rightarrow> string"
  ce_text_float :: "string \<Rightarrow> pyfloat"
  ce_sendable :: "nat \<Rightarrow> bool"
  ce_local_up :: "string \<Rightarrow> bool option"
  ce_status :: "string \<Rightarrow> string"
  ce_info :: "port_entry \<Rightarrow> (pyval \<times> pyval) list"
  ce_list_tail :: "(string \<times> pyval) list"

abbreviation cl_cm :: "'d clstate \<Rightarrow> cm" where
  "cl_cm s \<equiv> pw_cm (cl_world s)"

abbreviation cl_id :: "'d clstate \<Rightarrow> string" where
  "cl_id s \<equiv> cs_id (cl_session s)"

abbreviation on_session :: "(csession \<Rightarrow> csession) \<Rightarrow> 'd clstate \<Rightarrow> 'd clstate" where
  "on_session f s \<equiv> s\<lparr>cl_session := f (cl_session s)\<rparr>"

text \<open>The port name is tested for truth: an empty one counts as none.\<close>

definition attached_port :: "'d clstate \<Rightarrow> string option" where
  "attached_port s = (case cs_port (cl_session s) of None \<Rightarrow> None | Some n \<Rightarrow> if n = [] then None else Some n)"

definition port_name_of :: "'d clstate \<Rightarrow> string" where
  "port_name_of s = (case cs_port (cl_session s) of None \<Rightarrow> [] | Some n \<Rightarrow> n)"

definition user_of :: "'d clstate \<Rightarrow> string" where
  "user_of s = (case cs_user (cl_session s) of None \<Rightarrow> [] | Some u \<Rightarrow> u)"

section \<open>Sending\<close>

definition send_raw :: "'d cl_env \<Rightarrow> bytes \<Rightarrow> 'd clstate \<Rightarrow> 'd clstate" where
  "send_raw e data s =
     (let s1 = s\<lparr>cl_sends := Suc (cl_sends s)\<rparr> in
      if ce_sendable e (cl_sends s) then s1\<lparr>cl_out := cl_out s @ data\<rparr>
      else on_session (cs_connected_update (\<lambda>_. False)) s1)"

definition send_line :: "'d cl_env \<Rightarrow> string \<Rightarrow> 'd clstate \<Rightarrow> 'd clstate" where
  "send_line e line s = send_raw e (encode_text line @ [LF]) s"

definition send_lines :: "'d cl_env \<Rightarrow> string list \<Rightarrow> 'd clstate \<Rightarrow> 'd clstate" where
  "send_lines e ls s = fold (send_line e) ls s"

definition dict_of_payload :: "(string \<times> pyval) list \<Rightarrow> pyval" where
  "dict_of_payload p = PDict (map (\<lambda>(k, v). (PStr k, v)) p)"

definition control_frame :: "(pyfloat \<Rightarrow> string) \<Rightarrow> (string \<times> pyval) list \<Rightarrow> bytes" where
  "control_frame fr p = CTRL_MARKER @ encode_text (json_dumps fr (dict_of_payload p)) @ [LF]"

text \<open>A frame changes the mode on record when it is a \<open>client_mode\<close>, whichever way it is sent.\<close>

definition note_mode :: "(string \<times> pyval) list \<Rightarrow> csession \<Rightarrow> csession" where
  "note_mode p c = (if map_of p ''type'' = Some (PStr ''client_mode'') then c\<lparr>cs_mode := payload_mode p\<rparr> else c)"

definition send_frame_here :: "'d cl_env \<Rightarrow> (string \<times> pyval) list \<Rightarrow> 'd clstate \<Rightarrow> 'd clstate" where
  "send_frame_here e p s = on_session (note_mode p) (send_raw e (control_frame (ce_float_text e) p) s)"

definition ctrl_send_reply :: "'d cl_env \<Rightarrow> (string \<times> pyval) list \<Rightarrow> 'd clstate \<Rightarrow> 'd clstate" where
  "ctrl_send_reply e p s = send_raw e (control_frame (ce_float_text e) p) (on_session (note_mode p) s)"

text \<open>A call of the console manager; the frames it sends to this client on the way are written to its socket.\<close>

definition call_cm :: "'d cl_env \<Rightarrow> (cm \<Rightarrow> 'a \<times> cm) \<Rightarrow> 'd clstate \<Rightarrow> 'a \<times> 'd clstate" where
  "call_cm e f s =
     (case f (cl_cm s) of
        (r, c) \<Rightarrow>
          (r, fold (\<lambda>(cid, fr) t. if cid = cl_id s then send_frame_here e (frame_payload fr) t else t)
                (drop (length (cm_sent (cl_cm s))) (cm_sent c)) (s\<lparr>cl_world := (cl_world s)\<lparr>pw_cm := c\<rparr>\<rparr>)))"

section \<open>Receiving\<close>

text \<open>A read of at most \<open>n\<close> bytes; nothing read means that the peer is gone.\<close>

definition receive_bytes :: "nat \<Rightarrow> 'd clstate \<Rightarrow> bytes \<times> 'd clstate" where
  "receive_bytes n s =
     (case cl_in s of
        [] \<Rightarrow> ([], on_session (cs_connected_update (\<lambda>_. False)) s)
      | seg # segs \<Rightarrow>
          if take n seg = [] then ([], on_session (cs_connected_update (\<lambda>_. False)) s)
          else (take n seg, s\<lparr>cl_in := (if drop n seg = [] then segs else drop n seg # segs)\<rparr>))"

definition rstrip_crlf :: "string \<Rightarrow> string" where
  "rstrip_crlf s = rev (dropWhile (\<lambda>c. c = CR \<or> c = LF) (rev s))"

abbreviation bytes_left :: "'d clstate \<Rightarrow> nat" where
  "bytes_left s \<equiv> length (concat (cl_in s))"

lemma receive_shrinks: "receive_bytes n s = (data, t) \<Longrightarrow> data \<noteq> [] \<Longrightarrow> bytes_left t < bytes_left s"
  by (auto simp: receive_bytes_def split: list.splits if_splits)

text \<open>A line, byte by byte: carriage returns are dropped wherever they are, more than 1024 bytes end the session.\<close>

function collect_line :: "bytes \<Rightarrow> 'd clstate \<Rightarrow> string option \<times> 'd clstate" where
  "collect_line buf s =
     (if \<not> cs_connected (cl_session s) then (None, s)
      else
        (case receive_bytes 1 s of
           (data, s1) \<Rightarrow>
             if data = [] then (None, s1)
             else if data = [LF] then (Some (rstrip_crlf (decode_text_ignore buf)), s1)
             else if data = [CR] then collect_line buf s1
             else if length (buf @ data) > 1024 then (None, s1)
             else collect_line (buf @ data) s1))"
  by pat_completeness auto
termination
  by (relation "measure (\<lambda>(buf, s). bytes_left s)") (auto dest: receive_shrinks[OF sym])

declare collect_line.simps [simp del]

definition read_text_line :: "'d clstate \<Rightarrow> string option \<times> 'd clstate" where
  "read_text_line s = collect_line [] s"

section \<open>Login\<close>

text \<open>\<open>client.address[0]\<close> of an address that is the host itself: its first character.\<close>

definition source_ip :: "csession \<Rightarrow> string option" where
  "source_ip c = (if cs_address c = [] then None else Some [hd (cs_address c)])"

definition login_as :: "string \<Rightarrow> csession \<Rightarrow> csession" where
  "login_as u c = c\<lparr>cs_user := Some u, cs_authenticated := True\<rparr>"

definition AUTH_FAILED :: string where
  "AUTH_FAILED = ''AUTH:FAILED:Authentication failed''"

definition AUTH_LOCKED :: string where
  "AUTH_LOCKED = ''AUTH:FAILED:Account temporarily locked due to failures''"

definition call_auth :: "(auth_state \<Rightarrow> 'a \<times> auth_state) \<Rightarrow> 'd clstate \<Rightarrow> 'a \<times> 'd clstate" where
  "call_auth f s = (case f (cl_auth s) of (r, a) \<Rightarrow> (r, s\<lparr>cl_auth := a\<rparr>))"

text \<open>The end of every flow: the proof holds and the session is the user's, or a line says that it failed.\<close>

definition conclude :: "'d cl_env \<Rightarrow> string \<Rightarrow> bool \<times> 'd clstate \<Rightarrow> bool \<times> 'd clstate" where
  "conclude e u r =
     (case r of (ok, s) \<Rightarrow> if ok then (True, on_session (login_as u) s) else (False, send_line e AUTH_FAILED s))"

definition auth_pubkey :: "'d cl_env \<Rightarrow> auth_env \<Rightarrow> string \<Rightarrow> 'd clstate \<Rightarrow> bool \<times> 'd clstate" where
  "auth_pubkey e ae auth_line s =
     (let parts = split_on (CHR '':'') auth_line in
      if length parts < 4 then (False, s)
      else
        (let username = parts ! 3;
             key_id = (if length parts \<ge> 5 \<and> parts ! 4 \<noteq> [] then Some (parts ! 4) else None)
         in case call_auth (start_pubkey_challenge ae (ce_clock e 0) (ce_nonce e) username key_id) s of
              (None, s1) \<Rightarrow> (False, send_line e AUTH_FAILED s1)
            | (Some (kid, nonce), s1) \<Rightarrow>
                (case read_text_line (send_line e (''AUTH:PK:CHALLENGE:'' @ kid @ '':'' @ b64encode nonce) s1) of
                   (None, s2) \<Rightarrow> (False, s2)
                 | (Some resp, s2) \<Rightarrow>
                     (let rparts = split_on (CHR '':'') resp in
                      if \<not> startswith ''AUTH:PK:RESPONSE:'' resp \<or> length rparts < 5 then (False, s2)
                      else conclude e username
                             (call_auth (verify_pubkey_response ae (ce_clock e 1) username (rparts ! 3) (rparts ! 4)) s2)))))"

definition auth_hmac :: "'d cl_env \<Rightarrow> auth_env \<Rightarrow> string \<Rightarrow> 'd clstate \<Rightarrow> bool \<times> 'd clstate" where
  "auth_hmac e ae auth_line s =
     (let parts = split_on (CHR '':'') auth_line; src_ip = source_ip (cl_session s) in
      if length parts < 4 then (False, s)
      else
        (let username = parts ! 3 in
         case call_auth (is_user_locked (ce_clock e 0) username src_ip) s of
           (True, s1) \<Rightarrow> (False, send_line e AUTH_LOCKED s1)
         | (False, s1) \<Rightarrow>
             (case call_auth (start_password_hmac_challenge (ce_clock e 0) (ce_nonce e) username) s1 of
                (None, s2) \<Rightarrow> (False, send_line e AUTH_FAILED s2)
              | (Some nonce, s2) \<Rightarrow>
                  (case read_text_line (send_line e (''AUTH:CHALLENGE:'' @ b64encode nonce) s2) of
                     (None, s3) \<Rightarrow> (False, s3)
                   | (Some resp, s3) \<Rightarrow>
                       (let rparts = split_on (CHR '':'') resp in
                        if \<not> startswith ''AUTH:RESPONSE:'' resp \<or> length rparts < 3 then (False, s3)
                        else conclude e username
                               (call_auth (verify_password_hmac ae (ce_clock e 1) username (rparts ! 2) src_ip) s3))))))"

definition auth_api_key :: "'d cl_env \<Rightarrow> string \<Rightarrow> 'd clstate \<Rightarrow> bool \<times> 'd clstate" where
  "auth_api_key e auth_line s =
     (let api_key = drop (length ''AUTH:KEY:'') auth_line;
          name = (case get_api_key_name api_key (cl_auth s) of
                    None \<Rightarrow> ''api-user'' | Some n \<Rightarrow> if n = [] then ''api-user'' else n)
      in conclude e name (api_key \<noteq> [] \<and> verify_api_key api_key (cl_auth s), s))"

definition auth_plaintext_rejected :: "'d cl_env \<Rightarrow> string \<Rightarrow> 'd clstate \<Rightarrow> bool \<times> 'd clstate" where
  "auth_plaintext_rejected e auth_line s =
     (let parts = split_on (CHR '':'') auth_line;
          (locked, s1) = (if length parts \<ge> 3
             then call_auth (is_user_locked (ce_clock e 0) (parts ! 2) (source_ip (cl_session s))) s else (False, s))
      in (False, send_line e (if locked then AUTH_LOCKED
            else ''AUTH:FAILED:Plaintext password auth disabled; upgrade client (use HMAC or pubkey)'') s1))"

definition authenticate_client :: "'d cl_env \<Rightarrow> 'd clstate \<Rightarrow> bool \<times> 'd clstate" where
  "authenticate_client e s =
     (case ce_auth e of
        None \<Rightarrow> (True, on_session (login_as ''anonymous'') s)
      | Some ae \<Rightarrow>
          (case read_text_line s of
             (None, s1) \<Rightarrow> (False, s1)
           | (Some line, s1) \<Rightarrow>
               if startswith ''AUTH:PK:INIT:'' line then auth_pubkey e ae line s1
               else if startswith ''AUTH:USER:HMAC:'' line then auth_hmac e ae line s1
               else if startswith ''AUTH:KEY:'' line then auth_api_key e line s1
               else if startswith ''AUTH:USER:'' line then auth_plaintext_rejected e line s1
               else (False, s1)))"

end
