(* ===== verification/ClientPhases.thy ===== *)
theory ClientPhases
  imports ClientListener
begin

text \<open>
  The phases of a connection of \<^verbatim>\<open>openmux/server/adapters/client_listener.py\<close> after its login: text
  commands until a port is attached, then the bytes of the terminal with control frames among them, and
  back to commands after a detach.  A control request is the dictionary of its JSON text; what the console
  manager and the power adapter answer is their model's.
\<close>

section \<open>Attach and detach\<close>

definition drop_port_client :: "string \<Rightarrow> string \<Rightarrow> (string, string list) pydict \<Rightarrow> (string, string list) pydict" where
  "drop_port_client n cid d =
     (case dict_get d n of
        None \<Rightarrow> d
      | Some cids \<Rightarrow>
          (let left = remove1 cid cids in if left = [] then dict_del n d else dict_set n left d))"

definition add_port_client :: "string \<Rightarrow> string \<Rightarrow> (string, string list) pydict \<Rightarrow> (string, string list) pydict" where
  "add_port_client n cid d = dict_set n ((case dict_get d n of None \<Rightarrow> [] | Some cids \<Rightarrow> cids) @ [cid]) d"

definition detach_from_port :: "'d cl_env \<Rightarrow> 'd clstate \<Rightarrow> 'd clstate" where
  "detach_from_port e s =
     (case attached_port s of
        None \<Rightarrow> s
      | Some n \<Rightarrow>
          (let s1 = s\<lparr>cl_ports := drop_port_client n (cl_id s) (cl_ports s)\<rparr>;
               s2 = snd (call_cm e (disconnect_client_from_port (se_env (ce_session e)) (cl_id s) n) s1);
               s3 = s2\<lparr>cl_world := (cl_world s2)\<lparr>pw_cm := unregister_client_channel (cl_id s) (cl_cm s2)\<rparr>\<rparr>
           in on_session (cs_port_update (\<lambda>_. None)) s3))"

text \<open>\<open>resolve_port_connected_state\<close>: of a proxy its own link, of a local port what its adapter says.\<close>

definition connected_state :: "'d cl_env \<Rightarrow> string \<Rightarrow> cm \<Rightarrow> bool option" where
  "connected_state e n c =
     (case fst (get_port n (cm_pm c)) of
        None \<Rightarrow> None
      | Some p \<Rightarrow> (case p_backing p of Local _ \<Rightarrow> ce_local_up e n | Remote r \<Rightarrow> Some (r_connected r)))"

definition wrapped :: "string \<Rightarrow> bytes" where
  "wrapped t = CRLF @ t @ CRLF"

definition notify_port_disconnected :: "'d cl_env \<Rightarrow> string \<Rightarrow> 'd clstate \<Rightarrow> 'd clstate" where
  "notify_port_disconnected e n s =
     (if connected_state e n (cl_cm s) = Some False then send_raw e (wrapped ''[Port disconnected on server]'') s else s)"

definition OWNER :: string where "OWNER = ''client_listener''"

definition finish_tcp_connect :: "'d cl_env \<Rightarrow> string \<Rightarrow> decision \<Rightarrow> 'd clstate \<Rightarrow> 'd clstate" where
  "finish_tcp_connect e n d s =
     (let s1 = (on_session (cs_port_update (\<lambda>_. Some n)) s)\<lparr>cl_ports := add_port_client n (cl_id s) (cl_ports s)\<rparr>;
          s2 = s1\<lparr>cl_world := (cl_world s1)\<lparr>pw_cm := register_client_channel (cl_id s) OWNER (cl_cm s1)\<rparr>\<rparr>;
          s3 = on_session (cs_mode_update (\<lambda>_. Some (d_mode d))) s2
      in notify_port_disconnected e n (send_line e (''CONNECTED:'' @ n @ '':'' @ mode_wire (d_mode d)) s3))"

definition decision_message :: "decision \<Rightarrow> string" where
  "decision_message d = (case d_message d of Inr t \<Rightarrow> t | Inl _ \<Rightarrow> [])"

definition connect_request :: "'d cl_env \<Rightarrow> string \<Rightarrow> 'd clstate \<Rightarrow> 'd clstate" where
  "connect_request e n s =
     (case call_cm e (connect_client_to_port (se_env (ce_session e)) (cl_id s) n (user_of s)) s of
        (d, s1) \<Rightarrow>
          if d_ok d then finish_tcp_connect e n d s1
          else send_line e (''ERROR:CONNECT:'' @ decision_message d) s1)"

text \<open>\<open>_resolve_port_by_origin\<close> on the listing with its federation fields: exactly one match counts.\<close>

definition entry_of_origin :: "string \<Rightarrow> string \<Rightarrow> port_entry \<Rightarrow> bool" where
  "entry_of_origin n sid en \<longleftrightarrow>
     en_name en = n \<and>
     ((lower sid = ''local'' \<and> (case en_origin en of None \<Rightarrow> True | Some i \<Rightarrow> i = [])) \<or> en_origin en = Some sid)"

definition resolve_port_by_origin :: "'d cl_env \<Rightarrow> string \<Rightarrow> string \<Rightarrow> 'd clstate \<Rightarrow> string option" where
  "resolve_port_by_origin e n sid s =
     (case filter (entry_of_origin n sid) (port_list_with_federation (ce_status e) (cm_pm (cl_cm s))) of
        [en] \<Rightarrow> Some (en_name en)
      | _ \<Rightarrow> None)"

text \<open>\<open>CONNECT:<port>\<close> or \<open>CONNECT:<server>::<port>\<close>; a target with an empty half is a plain name.\<close>

definition connect_command :: "'d cl_env \<Rightarrow> string \<Rightarrow> 'd clstate \<Rightarrow> 'd clstate" where
  "connect_command e command s =
     (let raw = strip (drop (length ''CONNECT:'') command);
          target = (if count_sep raw > 0 then
                      (case split_sep raw of (sid, base) \<Rightarrow> if sid \<noteq> [] \<and> base \<noteq> [] then Some (sid, base) else None)
                    else None)
      in case target of
           None \<Rightarrow> connect_request e raw s
         | Some (sid, base) \<Rightarrow>
             (case resolve_port_by_origin e base sid s of
                None \<Rightarrow> send_line e ''ERROR:CONNECT:Port not found for given server_id'' s
              | Some n \<Rightarrow> if n = [] then send_line e ''ERROR:CONNECT:Port not found for given server_id'' s
                          else connect_request e n s))"

definition disconnect_request :: "'d cl_env \<Rightarrow> 'd clstate \<Rightarrow> 'd clstate" where
  "disconnect_request e s =
     (case attached_port s of
        None \<Rightarrow> send_line e ''ERROR:DISCONNECT:No port connected'' s
      | Some n \<Rightarrow> send_line e (''DISCONNECTED:'' @ n) (detach_from_port e s))"

section \<open>Commands\<close>

definition list_ports_request :: "'d cl_env \<Rightarrow> 'd clstate \<Rightarrow> 'd clstate" where
  "list_ports_request e s =
     (let ports = map (PDict \<circ> ce_info e) (port_list_with_federation (ce_status e) (cm_pm (cl_cm s)));
          payload = [(''type'', PStr ''PORT_LIST''), (''count'', PInt (int (length ports))), (''ports'', PList ports)]
                    @ ce_list_tail e
      in send_line e (''LIST:'' @ json_dumps (ce_float_text e) (dict_of_payload payload)) s)"

definition power_ctx_of :: "'d cl_env \<Rightarrow> 'd clstate \<Rightarrow> 'd power_ctx" where
  "power_ctx_of e s =
     \<lparr>px_env = se_env (ce_session e), px_ops = se_ops (ce_session e), px_relay = se_relay (ce_session e),
      px_user = cs_user (cl_session s), px_client = Some (cl_id s)\<rparr>"

definition power_command_text :: "'d cl_env \<Rightarrow> string \<Rightarrow> 'd clstate \<Rightarrow> 'd clstate" where
  "power_command_text e command s =
     (case run_power_command (power_ctx_of e s) command (cl_world s) of
        (ok, out, w) \<Rightarrow> send_lines e out (s\<lparr>cl_world := w\<rparr>))"

definition write_port :: "'d cl_env \<Rightarrow> bytes \<Rightarrow> 'd clstate \<Rightarrow> bool \<times> 'd clstate" where
  "write_port e data s =
     (case cm_write_to_port (se_dev (ce_session e)) (port_name_of s) data (cl_id s) (cl_cm s) of
        (ok, c) \<Rightarrow> (ok, s\<lparr>cl_world := (cl_world s)\<lparr>pw_cm := c\<rparr>\<rparr>))"

definition contains_sub :: "string \<Rightarrow> string \<Rightarrow> bool" where
  "contains_sub m s \<longleftrightarrow> find_sub m s \<noteq> None"

definition forward_data_to_port :: "'d cl_env \<Rightarrow> bytes \<Rightarrow> 'd clstate \<Rightarrow> 'd clstate" where
  "forward_data_to_port e data s =
     (case attached_port s of
        None \<Rightarrow> s
      | Some n \<Rightarrow>
          (let s1 = (if contains_sub ''loop'' (lower n)
                     then fold (\<lambda>c t. if c \<noteq> LF then send_raw e [c] t else t) data s else s);
               (ok, s2) = write_port e data s1
           in if ok then s2 else send_line e ''ERROR:Failed to write to port'' s2))"

definition process_client_command :: "'d cl_env \<Rightarrow> string \<Rightarrow> 'd clstate \<Rightarrow> 'd clstate" where
  "process_client_command e command s =
     (if startswith ''CONNECT:'' command then connect_command e command s
      else if startswith ''LIST'' command then list_ports_request e s
      else if startswith ''DISCONNECT'' command then disconnect_request e s
      else if command = ''QUIT'' then on_session (cs_connected_update (\<lambda>_. False)) s
      else if startswith ''POWER'' command then power_command_text e command s
      else if attached_port s \<noteq> None then forward_data_to_port e (encode_text command @ [LF]) s
      else send_line e (''ERROR:Unknown command: '' @ command) s)"

section \<open>Control requests\<close>

type_synonym request = "(pyval \<times> pyval) list"

text \<open>The dictionary of a frame; \<open>None\<close> when its text is not JSON or not a dictionary.\<close>

definition ctrl_parse_request :: "'d cl_env \<Rightarrow> bytes \<Rightarrow> request option" where
  "ctrl_parse_request e data =
     (case json_loads (ce_text_float e) (decode_text_ignore (takeWhile (\<lambda>c. c \<noteq> LF) (drop (length CTRL_MARKER) data))) of
        Some (PDict d) \<Rightarrow> Some d
      | _ \<Rightarrow> None)"

definition req_get :: "request \<Rightarrow> string \<Rightarrow> pyval" where
  "req_get d k = (case dict_get d (PStr k) of None \<Rightarrow> PNone | Some v \<Rightarrow> v)"

definition req_text :: "request \<Rightarrow> string \<Rightarrow> string option" where
  "req_text d k = (case req_get d k of PStr s \<Rightarrow> Some s | _ \<Rightarrow> None)"

definition req_bool :: "request \<Rightarrow> string \<Rightarrow> bool option" where
  "req_bool d k = (case req_get d k of PBool b \<Rightarrow> Some b | _ \<Rightarrow> None)"

definition impact_value :: "impact \<Rightarrow> pyval" where
  "impact_value im = dict_of_payload
     [(''change'', PStr (im_change im)),
      (''losing_power'', PList (map (\<lambda>(n, d). dict_of_payload [(''port'', PStr n), (''description'', PStr d)]) (im_losing im))),
      (''staying_up'', PList (map (\<lambda>(n, d, via). dict_of_payload
         [(''port'', PStr n), (''description'', PStr d), (''via'', PList (map PStr via))]) (im_staying im)))]"

definition opt_bool :: "bool option \<Rightarrow> pyval" where
  "opt_bool b = (case b of None \<Rightarrow> PNone | Some x \<Rightarrow> PBool x)"

fun power_payload :: "power_reply \<Rightarrow> (string \<times> pyval) list" where
  "power_payload (PowerFeeds feeds state) =
     [(''type'', PStr ''power_feeds''),
      (''feeds'', PList (map (\<lambda>(r, b, w). dict_of_payload [(''ref'', PStr r), (''on'', opt_bool b),
         (''watts'', case w of None \<Rightarrow> PNone | Some x \<Rightarrow> PFloat (Finite x))]) feeds)),
      (''feeds_total'', PInt (int (length feeds))), (''state'', PStr state)]"
| "power_payload (PowerRefused err im) =
     [(''type'', PStr ''power_switch''), (''ok'', PBool False), (''error'', PStr err)]
     @ (case im of None \<Rightarrow> [] | Some i \<Rightarrow> [(''impact'', impact_value i)])"
| "power_payload (PowerSwitched r on state im) =
     [(''type'', PStr ''power_switch''), (''ok'', PBool True), (''ref'', PStr r), (''on'', PBool on),
      (''state'', PStr state), (''impact'', impact_value im)]"

definition NO_POWER :: "(string \<times> pyval) list" where
  "NO_POWER = [(''type'', PStr ''power_switch''), (''ok'', PBool False), (''error'', PStr ''power management is not configured'')]"

definition ctrl_power_reply :: "'d cl_env \<Rightarrow> string \<Rightarrow> request \<Rightarrow> 'd clstate \<Rightarrow> (string \<times> pyval) list \<times> 'd clstate" where
  "ctrl_power_reply e rtype req s =
     (case pw_adapter (cl_world s) of
        None \<Rightarrow>
          (if rtype = ''power_query''
           then [(''type'', PStr ''power_feeds''), (''ok'', PBool False), (''error'', PStr ''power management is not configured''),
                 (''feeds'', PList [])]
           else NO_POWER, s)
      | Some p \<Rightarrow>
          (case handle_power_frame (se_env (ce_session e)) (se_ops (ce_session e)) (se_relay (ce_session e)) (port_name_of s)
                  rtype (req_text req ''ref'') (req_bool req ''on'') (cs_user (cl_session s)) (Some (cl_id s)) (cl_cm s) p of
             (r, c, p1) \<Rightarrow>
               (case r of None \<Rightarrow> NO_POWER | Some x \<Rightarrow> power_payload x,
                s\<lparr>cl_world := (cl_world s)\<lparr>pw_cm := c, pw_adapter := Some p1\<rparr>\<rparr>)))"

definition ctrl_detach_reply :: "'d cl_env \<Rightarrow> 'd clstate \<Rightarrow> (string \<times> pyval) list \<times> 'd clstate" where
  "ctrl_detach_reply e s =
     (case attached_port s of
        None \<Rightarrow>
          ([(''type'', PStr ''detached''), (''ok'', PBool False), (''port'', PNone)],
           send_line e ''ERROR:DISCONNECT:No port connected'' s)
      | Some n \<Rightarrow>
          ([(''type'', PStr ''detached''), (''ok'', PBool True), (''port'', PStr n)],
           send_line e (''DISCONNECTED:'' @ n)
             (detach_from_port e (on_session (\<lambda>c. c\<lparr>cs_detach := True, cs_mode := None\<rparr>) s))))"

text \<open>An access request answers with the frame of the decision.\<close>

definition decided :: "'d cl_env \<Rightarrow> (cm \<Rightarrow> decision \<times> cm) \<Rightarrow> 'd clstate \<Rightarrow> (string \<times> pyval) list \<times> 'd clstate" where
  "decided e f s = (case call_cm e f s of (d, s1) \<Rightarrow> (frame_payload (FrameDecision d), s1))"

definition mode_on_record :: "'d clstate \<Rightarrow> amode" where
  "mode_on_record s = (case cs_mode (cl_session s) of None \<Rightarrow> ReadOnly | Some m \<Rightarrow> m)"

definition ctrl_dispatch :: "'d cl_env \<Rightarrow> pyval \<Rightarrow> request \<Rightarrow> 'd clstate \<Rightarrow> (string \<times> pyval) list \<times> 'd clstate" where
  "ctrl_dispatch e rtype req s =
     (let n = port_name_of s; se = se_env (ce_session e) in
      if rtype = PStr ''power_query'' then ctrl_power_reply e ''power_query'' req s
      else if rtype = PStr ''power_switch'' then ctrl_power_reply e ''power_switch'' req s
      else if rtype = PStr ''request_rw'' \<or> rtype = PStr ''promote''
      then decided e (promote_client_to_read_write se (cl_id s) n) s
      else if rtype = PStr ''release_rw'' then decided e (demote_client_to_read_only se (cl_id s) n True) s
      else if rtype = PStr ''force_promote''
      then decided e (take_write_slot se (cl_id s) n (req_text req ''client_id'')) s
      else if rtype = PStr ''query_rw_holders'' then (rw_holders_frame se (cl_cm s) n, s)
      else if rtype = PStr ''detach'' then ctrl_detach_reply e s
      else (frame_payload (FrameDecision (answer UnsupportedRequest (mode_on_record s) (cl_id s) n PNone)), s))"

text \<open>A frame that cannot be read is swallowed; every other one is answered.\<close>

definition handle_control_frame :: "'d cl_env \<Rightarrow> bytes \<Rightarrow> 'd clstate \<Rightarrow> 'd clstate" where
  "handle_control_frame e data s =
     (case ctrl_parse_request e data of
        None \<Rightarrow> s
      | Some req \<Rightarrow>
          (case ctrl_dispatch e (req_get req ''type'') req s of (resp, s1) \<Rightarrow> ctrl_send_reply e resp s1))"

section \<open>The two phases\<close>

definition WRITE_BLOCKED_DOWN :: bytes where
  "WRITE_BLOCKED_DOWN = wrapped ''[Write blocked: port is disconnected on server]''"

definition WRITE_BLOCKED_READ_ONLY :: bytes where
  "WRITE_BLOCKED_READ_ONLY = wrapped ''[Write blocked: console is in read-only mode]''"

definition write_chunk :: "'d cl_env \<Rightarrow> bytes \<Rightarrow> 'd clstate \<Rightarrow> 'd clstate" where
  "write_chunk e data s =
     (case write_port e data s of
        (ok, s1) \<Rightarrow>
          if ok then on_session (cs_blocked_told_update (\<lambda>_. False)) s1
          else if cs_blocked_told (cl_session s1) then s1
          else send_raw e (if connected_state e (port_name_of s1) (cl_cm s1) = Some False
                           then WRITE_BLOCKED_DOWN else WRITE_BLOCKED_READ_ONLY)
                 (on_session (cs_blocked_told_update (\<lambda>_. True)) s1))"

text \<open>The frames of the chunk are handled first, then what is left of it is written.\<close>

definition forward_bytes_to_port :: "'d cl_env \<Rightarrow> bytes \<Rightarrow> 'd clstate \<Rightarrow> 'd clstate" where
  "forward_bytes_to_port e data s =
     (if attached_port s = None then s
      else
        (case take_chunk (\<lambda>fr t. ([], handle_control_frame e fr t)) (cs_frag (cl_session s)) data s of
           (rest, frag, s1) \<Rightarrow>
             (let s2 = on_session (cs_frag_update (\<lambda>_. frag)) s1
              in if rest = [] \<and> (find_sub CTRL_MARKER data \<noteq> None \<or> cs_frag (cl_session s) \<noteq> [])
                 then s2 else write_chunk e rest s2)))"

text \<open>What no operation of a phase touches: who the client is, and what it has still to say.\<close>

definition same_client :: "'d clstate \<Rightarrow> 'd clstate \<Rightarrow> bool" where
  "same_client s t \<longleftrightarrow>
     cl_in t = cl_in s \<and> cl_auth t = cl_auth s \<and> cs_id (cl_session t) = cs_id (cl_session s)
     \<and> cs_user (cl_session t) = cs_user (cl_session s) \<and> cs_address (cl_session t) = cs_address (cl_session s)
     \<and> cs_authenticated (cl_session t) = cs_authenticated (cl_session s)"

lemma same_refl [simp]: "same_client s s"
  by (simp add: same_client_def)

lemma same_trans: "same_client s t \<Longrightarrow> same_client t u \<Longrightarrow> same_client s u"
  by (simp add: same_client_def)

lemma same_fields:
  "same_client s t \<Longrightarrow> cl_in t = cl_in s" "same_client s t \<Longrightarrow> cl_auth t = cl_auth s"
  "same_client s t \<Longrightarrow> cs_id (cl_session t) = cs_id (cl_session s)"
  "same_client s t \<Longrightarrow> cs_user (cl_session t) = cs_user (cl_session s)"
  "same_client s t \<Longrightarrow> cs_address (cl_session t) = cs_address (cl_session s)"
  "same_client s t \<Longrightarrow> cs_authenticated (cl_session t) = cs_authenticated (cl_session s)"
  by (simp_all add: same_client_def)

lemma same_send: "same_client s (send_raw e b s)" "same_client s (send_line e l s)"
  by (simp_all add: send_line_def send_raw_def Let_def same_client_def)

lemmas send_raw_fields [simp] = same_fields[OF same_send(1)]
lemmas send_line_fields [simp] = same_fields[OF same_send(2)]

lemma same_note [simp]: "cs_id (note_mode p c) = cs_id c" "cs_user (note_mode p c) = cs_user c"
  "cs_address (note_mode p c) = cs_address c" "cs_authenticated (note_mode p c) = cs_authenticated c"
  "cs_port (note_mode p c) = cs_port c"
  by (simp_all add: note_mode_def)

lemma same_frames: "same_client s (send_frame_here e p s)" "same_client s (ctrl_send_reply e p s)"
  by (simp_all add: send_frame_here_def ctrl_send_reply_def same_client_def)

lemma same_fold: "(\<And>x t. same_client t (f x t)) \<Longrightarrow> same_client s (fold f xs s)"
  by (induction xs arbitrary: s) (auto intro: same_trans)

lemma same_call: "same_client s (snd (call_cm e f s))"
proof -
  let ?u = "s\<lparr>cl_world := (cl_world s)\<lparr>pw_cm := snd (f (cl_cm s))\<rparr>\<rparr>"
  have "same_client s ?u" by (simp add: same_client_def)
  then show ?thesis
    by (auto simp: call_cm_def split_beta intro!: same_trans[OF _ same_fold] same_frames(1))
qed

lemmas call_fields [simp] = same_fields[OF same_call]

lemma same_lines: "same_client s (send_lines e ls s)"
  unfolding send_lines_def by (rule same_fold) (rule same_send(2))

lemmas lines_fields [simp] = same_fields[OF same_lines]

lemma same_detach: "same_client s (detach_from_port e s)"
  by (simp add: detach_from_port_def Let_def same_client_def split: option.splits)

lemmas detach_fields [simp] = same_fields[OF same_detach]

lemma same_finish: "same_client s (finish_tcp_connect e n d s)"
  by (simp add: finish_tcp_connect_def notify_port_disconnected_def Let_def same_client_def)

lemma same_connect: "same_client s (connect_request e n s)"
proof -
  obtain d u where u: "call_cm e (connect_client_to_port (se_env (ce_session e)) (cl_id s) n (user_of s)) s = (d, u)"
    by fastforce
  then have "same_client s u" using same_call by (metis snd_conv)
  then show ?thesis
    by (auto simp: connect_request_def u intro: same_trans[OF _ same_finish] same_trans[OF _ same_send(2)])
qed

lemma same_write: "same_client s (snd (write_port e b s))"
  by (simp add: write_port_def same_client_def split: prod.splits)

lemmas write_fields [simp] = same_fields[OF same_write]

lemma same_forward_data: "same_client s (forward_data_to_port e b s)"
proof (cases "attached_port s")
  case (Some n)
  let ?u = "if contains_sub ''loop'' (lower n) then fold (\<lambda>c t. if c \<noteq> LF then send_raw e [c] t else t) b s else s"
  have "same_client s ?u" by (auto intro!: same_fold simp: same_send)
  then have "same_client s (snd (write_port e b ?u))" using same_trans same_write by blast
  then show ?thesis using Some same_trans[OF _ same_send(2)]
    by (auto simp: forward_data_to_port_def Let_def split_beta)
qed (simp add: forward_data_to_port_def)

lemma same_command: "same_client s (process_client_command e c s)"
proof -
  have "same_client s (connect_command e c s)"
    by (auto simp: connect_command_def Let_def intro: same_send same_connect split: option.splits prod.splits)
  moreover have "same_client s (disconnect_request e s)"
    using same_trans[OF same_detach same_send(2)] by (auto simp: disconnect_request_def intro: same_send split: option.splits)
  moreover have "same_client s (power_command_text e c s)"
    by (simp add: power_command_text_def same_client_def split: prod.splits)
  moreover have "same_client s (list_ports_request e s)"
    by (simp add: list_ports_request_def same_send Let_def)
  ultimately show ?thesis
    by (simp add: process_client_command_def same_forward_data same_send) (simp add: same_client_def)
qed

lemma same_dispatch: "same_client s (snd (ctrl_dispatch e r req s))"
proof -
  have "same_client s (snd (decided e f s))" for f
    using same_call[of s e f] by (simp add: decided_def split_beta)
  moreover have "same_client s (snd (ctrl_power_reply e t req s))" for t
    by (simp add: ctrl_power_reply_def same_client_def split: option.splits prod.splits)
  moreover have "same_client s (snd (ctrl_detach_reply e s))"
    by (simp add: ctrl_detach_reply_def same_client_def split: option.splits)
  ultimately show ?thesis by (simp add: ctrl_dispatch_def Let_def)
qed

lemma same_control: "same_client s (handle_control_frame e b s)"
proof (cases "ctrl_parse_request e b")
  case (Some req)
  then show ?thesis
    using same_trans[OF same_dispatch same_frames(2)] by (simp add: handle_control_frame_def split_beta)
qed (simp add: handle_control_frame_def)

text \<open>What every call of the handler keeps, the loop keeps.\<close>

lemma split_relation:
  assumes refl: "\<And>s. R s s" and trans: "\<And>s t u. R s t \<Longrightarrow> R t u \<Longrightarrow> R s u" and step: "\<And>b s. R s (snd (h b s))"
  shows "R s (snd (snd (split_frames h d s)))"
  using step
proof (induction h d s rule: split_frames.induct)
  case (1 h d s)
  show ?case
  proof (cases "find_sub CTRL_MARKER d")
    case (Some k)
    note k = Some
    show ?thesis
    proof (cases "find_byte LF (drop k d)")
      case (Some n)
      obtain t u where h: "h (take (Suc n) (drop k d)) s = (t, u)" by fastforce
      have "R s u" using 1(2)[of s "take (Suc n) (drop k d)"] h by simp
      then have "R s (snd (snd (split_frames h (drop (Suc (k + n)) d) u)))"
        using 1(1)[OF k Some h[symmetric]] 1(2) trans by blast
      then show ?thesis using k Some h by (subst split_frames.simps) (simp add: split_beta)
    qed (use k refl in \<open>simp add: split_frames.simps[of h d s]\<close>)
  qed (simp add: split_frames.simps[of h d s] refl)
qed

lemma take_chunk_relation:
  assumes "\<And>s. R s s" "\<And>s t u. R s t \<Longrightarrow> R t u \<Longrightarrow> R s u" "\<And>b s. R s (snd (h b s))"
  shows "R s (snd (snd (take_chunk h frag d s)))"
  using split_relation[of R h s "frag @ d", OF assms] by (simp add: take_chunk_split)

lemma same_write_chunk: "same_client s (write_chunk e b s)"
proof -
  obtain ok u where u: "write_port e b s = (ok, u)" by fastforce
  then have s: "same_client s u" using same_write by (metis snd_conv)
  have "same_client u (write_chunk e b s)"
    by (simp add: write_chunk_def u same_client_def)
  then show ?thesis using s same_trans by blast
qed

lemma same_chunk: "same_client s (forward_bytes_to_port e b s)"
proof -
  obtain out frag u where u: "take_chunk (\<lambda>fr t. ([], handle_control_frame e fr t)) (cs_frag (cl_session s)) b s = (out, frag, u)"
    by (metis prod_cases3)
  have "same_client s (snd (snd (take_chunk (\<lambda>fr t. ([], handle_control_frame e fr t)) (cs_frag (cl_session s)) b s)))"
    by (rule take_chunk_relation[where R = same_client]) (auto intro: same_trans same_control)
  then have "same_client s u" by (simp add: u)
  then have "same_client s (on_session (cs_frag_update (\<lambda>_. frag)) u)" by (simp add: same_client_def)
  then show ?thesis
    by (auto simp: forward_bytes_to_port_def u Let_def intro: same_trans[OF _ same_write_chunk])
qed

section \<open>The connection\<close>

lemma collect_shrinks: "collect_line buf s = (Some line, t) \<Longrightarrow> bytes_left t < bytes_left s"
proof (induction buf s rule: collect_line.induct)
  case (1 buf s)
  obtain data u where r: "receive_bytes 1 s = (data, u)" by fastforce
  have c: "cs_connected (cl_session s)" "data \<noteq> []"
    using 1(3) r by (auto simp: collect_line.simps[of buf s] split: if_splits)
  have less: "bytes_left u < bytes_left s" by (rule receive_shrinks[OF r c(2)])
  show ?case
    using 1(3) c less r 1(1)[OF _ r[symmetric]] 1(2)[OF _ r[symmetric]]
    by (auto simp: collect_line.simps[of buf s] split: if_splits)
qed

lemma read_line_shrinks: "read_text_line s = (Some line, t) \<Longrightarrow> bytes_left t < bytes_left s"
  unfolding read_text_line_def by (rule collect_shrinks)

function command_phase :: "'d cl_env \<Rightarrow> 'd clstate \<Rightarrow> 'd clstate" where
  "command_phase e s =
     (if \<not> cs_connected (cl_session s) \<or> attached_port s \<noteq> None then s
      else
        (case read_text_line s of
           (None, s1) \<Rightarrow> s1
         | (Some line, s1) \<Rightarrow>
             (let command = strip line in
              if command = [] then command_phase e s1 else command_phase e (process_client_command e command s1))))"
  by pat_completeness auto
termination
  by (relation "measure (\<lambda>(e, s). bytes_left s)") (auto dest: read_line_shrinks[OF sym] simp: same_fields(1)[OF same_command])

declare command_phase.simps [simp del]

function character_mode :: "'d cl_env \<Rightarrow> 'd clstate \<Rightarrow> 'd clstate" where
  "character_mode e s =
     (if \<not> cs_connected (cl_session s) \<or> attached_port s = None then s
      else
        (case receive_bytes 4096 s of
           (data, s1) \<Rightarrow> if data = [] then s1 else character_mode e (forward_bytes_to_port e data s1)))"
  by pat_completeness auto
termination
  by (relation "measure (\<lambda>(e, s). bytes_left s)") (auto dest: receive_shrinks[OF sym] simp: same_fields(1)[OF same_chunk])

declare character_mode.simps [simp del]

lemma receive_le: "receive_bytes n s = (data, t) \<Longrightarrow> bytes_left t \<le> bytes_left s"
  by (auto simp: receive_bytes_def split: list.splits if_splits)

lemma receive_none: "receive_bytes n s = ([], t) \<Longrightarrow> \<not> cs_connected (cl_session t)"
  by (auto simp: receive_bytes_def split: list.splits if_splits)

lemma character_le: "bytes_left (character_mode e s) \<le> bytes_left s"
proof (induction e s rule: character_mode.induct)
  case (1 e s)
  obtain data u where r: "receive_bytes 4096 s = (data, u)" by fastforce
  show ?case
    using 1[OF _ r[symmetric]] receive_le[OF r] same_fields(1)[OF same_chunk[of u e data]] r
    by (auto simp: character_mode.simps[of e s])
qed

lemma character_progress:
  assumes "cs_connected (cl_session s)" "attached_port s \<noteq> None" "cs_connected (cl_session (character_mode e s))"
  shows "bytes_left (character_mode e s) < bytes_left s"
proof -
  obtain data u where r: "receive_bytes 4096 s = (data, u)" by fastforce
  have "data \<noteq> []" using assms r receive_none[of 4096 s u] by (auto simp: character_mode.simps[of e s])
  then show ?thesis
    using assms(1,2) r receive_shrinks[OF r] character_le[of e "forward_bytes_to_port e data u"]
      same_fields(1)[OF same_chunk[of u e data]]
    by (simp add: character_mode.simps[of e s])
qed

lemma collect_le: "bytes_left (snd (collect_line buf s)) \<le> bytes_left s"
proof (induction buf s rule: collect_line.induct)
  case (1 buf s)
  obtain data u where r: "receive_bytes 1 s = (data, u)" by fastforce
  show ?case
    using receive_le[OF r] r 1(1)[OF _ r[symmetric]] 1(2)[OF _ r[symmetric]]
    by (auto simp: collect_line.simps[of buf s])
qed

lemma command_phase_le: "bytes_left (command_phase e s) \<le> bytes_left s"
proof (induction e s rule: command_phase.induct)
  case (1 e s)
  obtain line u where r: "read_text_line s = (line, u)" by fastforce
  have "bytes_left u \<le> bytes_left s" using collect_le[of "[]" s] r by (simp add: read_text_line_def)
  moreover have "bytes_left (command_phase e (if strip l = [] then u else process_client_command e (strip l) u)) \<le> bytes_left u"
    if "line = Some l" "cs_connected (cl_session s)" "attached_port s = None" for l
    using that 1(1)[OF _ r[symmetric] that(1) refl] 1(2)[OF _ r[symmetric] that(1) refl]
      same_fields(1)[OF same_command[of u e]] by auto
  ultimately show ?case
    using r by (cases line) (fastforce simp: command_phase.simps[of e s] Let_def)+
qed

text \<open>Character mode and, after a detach, commands, until the client is gone or nothing is attached.\<close>

function serve_attached :: "'d cl_env \<Rightarrow> 'd clstate \<Rightarrow> 'd clstate" where
  "serve_attached e s =
     (if \<not> cs_connected (cl_session s) \<or> attached_port s = None then s
      else
        (let s1 = character_mode e s in
         if cs_connected (cl_session s1) \<and> cs_detach (cl_session s1)
         then serve_attached e (command_phase e (on_session (cs_detach_update (\<lambda>_. False)) s1))
         else serve_attached e s1))"
  by pat_completeness auto
termination
proof (relation "measure (\<lambda>(e, s). 2 * bytes_left s + (if cs_connected (cl_session s) then 1 else 0))")
  fix e :: "'d cl_env" and s s1 :: "'d clstate"
  assume a: "\<not> (\<not> cs_connected (cl_session s) \<or> attached_port s = None)" "s1 = character_mode e s"
  show "((e, command_phase e (on_session (cs_detach_update (\<lambda>_. False)) s1)), e, s)
      \<in> measure (\<lambda>(e, s). 2 * bytes_left s + (if cs_connected (cl_session s) then 1 else 0))"
    if "cs_connected (cl_session s1) \<and> cs_detach (cl_session s1)"
    using character_progress[of s e] a that command_phase_le[of e "on_session (cs_detach_update (\<lambda>_. False)) s1"] by auto
  show "((e, s1), e, s) \<in> measure (\<lambda>(e, s). 2 * bytes_left s + (if cs_connected (cl_session s) then 1 else 0))"
    using character_progress[of s e] character_le[of e s] a by auto
qed simp

declare serve_attached.simps [simp del]

definition client_protocol :: "'d cl_env \<Rightarrow> 'd clstate \<Rightarrow> 'd clstate" where
  "client_protocol e s =
     (case authenticate_client e (send_line e ''Authentication required'' s) of
        (False, s1) \<Rightarrow> send_line e AUTH_FAILED s1
      | (True, s1) \<Rightarrow> serve_attached e (command_phase e (send_line e (''AUTH:SUCCESS:Welcome '' @ user_of s1) s1)))"

text \<open>The end of every connection, once: off its port, closed.\<close>

definition end_session :: "'d cl_env \<Rightarrow> 'd clstate \<Rightarrow> 'd clstate" where
  "end_session e s =
     (if cs_teardown (cl_session s) then s
      else on_session (cs_connected_update (\<lambda>_. False))
             (detach_from_port e (on_session (cs_teardown_update (\<lambda>_. True)) s)))"

definition handle_client_connection :: "'d cl_env \<Rightarrow> 'd clstate \<Rightarrow> 'd clstate" where
  "handle_client_connection e s = end_session e (client_protocol e s)"

end
