(* ===== verification/ClientAdapter.thy ===== *)
theory ClientAdapter
  imports ClientPhases
begin

text \<open>
  The other end of the connection: \<open>TcpClientAdapter\<close> of \<^verbatim>\<open>openmux/client/adapters/tcp_adapter.py\<close> and
  the frame handling of \<^verbatim>\<open>rw_control.py\<close>.  The input is the list of segments the server's bytes arrive
  in, the output every byte the client wrote.  A key file is a signing function; the text that \<open>str\<close> gives
  of a value that is not a string is an argument.  What the code reads as \<open>lines\<close> and \<open>holders\<close> are lists.
\<close>

section \<open>State\<close>

datatype credentials = ByPassword string string | ByApiKey string | ByPubkey string string string

record tcp_client =
  ta_open :: bool
  ta_connected :: bool
  ta_authenticated :: bool
  ta_username :: "string option"
  ta_frag :: bytes
  ta_access_mode :: "string option"
  ta_rw_holders :: pyval
  ta_max_rw :: pyval
  ta_port :: "string option"
  ta_last_auth :: "credentials option"
  ta_power_reply :: "request option"
  ta_detach_reply :: "request option"
  ta_server_info :: "pyval option"
  ta_metadata :: "pyval list"
  ta_in :: "bytes list"
  ta_out :: bytes

definition fresh_client :: tcp_client where
  "fresh_client =
     \<lparr>ta_open = False, ta_connected = False, ta_authenticated = False, ta_username = None, ta_frag = [],
      ta_access_mode = None, ta_rw_holders = PList [], ta_max_rw = PNone, ta_port = None, ta_last_auth = None,
      ta_power_reply = None, ta_detach_reply = None, ta_server_info = None, ta_metadata = [], ta_in = [], ta_out = []\<rparr>"

record client_env =
  xe_auth :: auth_env
  xe_private :: "string \<Rightarrow> (bytes \<Rightarrow> bytes) option"
  xe_text_float :: "string \<Rightarrow> pyfloat"
  xe_float_text :: "pyfloat \<Rightarrow> string"
  xe_show :: "pyval \<Rightarrow> string"

definition is_ready :: "tcp_client \<Rightarrow> bool" where
  "is_ready t \<longleftrightarrow> ta_connected t \<and> ta_authenticated t"

section \<open>Lines and bytes\<close>

text \<open>\<open>readline\<close>: up to and with the next line end, or what is left at the end of the stream.\<close>

fun next_line :: "bytes list \<Rightarrow> bytes \<times> bytes list" where
  "next_line [] = ([], [])"
| "next_line (seg # segs) =
     (case find_byte LF seg of
        Some n \<Rightarrow> (take (Suc n) seg, if drop (Suc n) seg = [] then segs else drop (Suc n) seg # segs)
      | None \<Rightarrow> (case next_line segs of (l, rest) \<Rightarrow> (seg @ l, rest)))"

definition readline :: "tcp_client \<Rightarrow> bytes \<times> tcp_client" where
  "readline t = (case next_line (ta_in t) of (l, rest) \<Rightarrow> (l, t\<lparr>ta_in := rest\<rparr>))"

definition put_line :: "string \<Rightarrow> tcp_client \<Rightarrow> tcp_client" where
  "put_line l t = t\<lparr>ta_out := ta_out t @ encode_text l @ [LF]\<rparr>"

definition line_text :: "bytes \<Rightarrow> string" where
  "line_text l = strip (decode_text_ignore l)"

section \<open>Connecting\<close>

text \<open>\<open>close\<close> does nothing on a client that is not connected.\<close>

definition close_client :: "tcp_client \<Rightarrow> tcp_client" where
  "close_client t =
     (if \<not> ta_connected t then t
      else (put_line ''QUIT'' t)\<lparr>ta_connected := False, ta_authenticated := False, ta_open := False, ta_frag := []\<rparr>)"

definition connect_socket :: "bytes list option \<Rightarrow> tcp_client \<Rightarrow> bool \<times> tcp_client" where
  "connect_socket net t =
     (if ta_connected t then (True, t)
      else
        (case net of
           None \<Rightarrow> (False, t)
         | Some segs \<Rightarrow>
             (case readline (t\<lparr>ta_open := True, ta_in := segs, ta_out := [], ta_frag := []\<rparr>) of
                (banner, t1) \<Rightarrow>
                  if find_sub ''Authentication required'' banner = None then (False, close_client t1)
                  else (True, t1\<lparr>ta_connected := True\<rparr>))))"

section \<open>Logging in\<close>

text \<open>\<open>sha256\<close> of the password: the bytes of its hexadecimal text.\<close>

definition password_digest :: "client_env \<Rightarrow> string \<Rightarrow> bytes" where
  "password_digest x p = (case unhex (xe_auth x) (sha256_hex (xe_auth x) p) of None \<Rightarrow> [] | Some d \<Rightarrow> d)"

definition challenge_response :: "client_env \<Rightarrow> string \<Rightarrow> bytes \<Rightarrow> string" where
  "challenge_response x p nonce = b64encode (hmac_sha256 (xe_auth x) (password_digest x p) nonce)"

definition authenticate_standard_password :: "client_env \<Rightarrow> string \<Rightarrow> string \<Rightarrow> tcp_client \<Rightarrow> bool \<times> tcp_client" where
  "authenticate_standard_password x u p t =
     (if \<not> ta_open t then (False, t)
      else
        (case readline (put_line (''AUTH:USER:HMAC:'' @ u) t) of
           (line, t1) \<Rightarrow>
             (let parts = split_on (CHR '':'') (line_text line) in
              if \<not> startswith ''AUTH:CHALLENGE:'' line \<or> length parts < 3 then (False, t1)
              else
                (case b64decode (parts ! 2) of
                   None \<Rightarrow> (False, t1)
                 | Some nonce \<Rightarrow>
                     (case readline (put_line (''AUTH:RESPONSE:'' @ challenge_response x p nonce) t1) of
                        (final, t2) \<Rightarrow>
                          if startswith ''AUTH:SUCCESS'' final
                          then (True, t2\<lparr>ta_authenticated := True, ta_username := Some u\<rparr>) else (False, t2))))))"

definition authenticate_with_password :: "client_env \<Rightarrow> string \<Rightarrow> string \<Rightarrow> tcp_client \<Rightarrow> bool \<times> tcp_client" where
  "authenticate_with_password x u p t =
     (if \<not> ta_connected t then (False, t)
      else
        (case authenticate_standard_password x u p t of
           (ok, t1) \<Rightarrow> (ok, if ok then t1\<lparr>ta_last_auth := Some (ByPassword u p)\<rparr> else t1)))"

text \<open>Any line that does not say \<open>Authentication failed\<close> is success.\<close>

definition authenticate_standard_key :: "string \<Rightarrow> tcp_client \<Rightarrow> bool \<times> tcp_client" where
  "authenticate_standard_key key t =
     (if \<not> ta_open t then (False, t)
      else
        (case readline (put_line (''AUTH:KEY:'' @ key) t) of
           (line, t1) \<Rightarrow>
             if find_sub ''Authentication failed'' line \<noteq> None then (False, t1)
             else (True, t1\<lparr>ta_authenticated := True, ta_username := Some ''api-user''\<rparr>)))"

definition authenticate_with_key :: "string \<Rightarrow> tcp_client \<Rightarrow> bool \<times> tcp_client" where
  "authenticate_with_key key t =
     (if \<not> ta_connected t then (False, t)
      else
        (case authenticate_standard_key key t of
           (ok, t1) \<Rightarrow> (ok, if ok then t1\<lparr>ta_last_auth := Some (ByApiKey key)\<rparr> else t1)))"

definition pubkey_read_challenge :: "tcp_client \<Rightarrow> (string \<times> bytes) option \<times> tcp_client" where
  "pubkey_read_challenge t =
     (case readline t of
        (line, t1) \<Rightarrow>
          (let parts = split_on (CHR '':'') (line_text line) in
           (if \<not> startswith ''AUTH:PK:CHALLENGE:'' line \<or> length parts < 5 then None
            else map_option (\<lambda>nonce. (parts ! 3, nonce)) (b64decode (parts ! 4)), t1)))"

text \<open>At most three lines; blank ones are skipped, a failure ends the search.\<close>

fun read_result_lines :: "nat \<Rightarrow> tcp_client \<Rightarrow> bool \<times> tcp_client" where
  "read_result_lines 0 t = (False, t)"
| "read_result_lines (Suc k) t =
     (case readline t of
        (line, t1) \<Rightarrow>
          if line = [] then (False, t1)
          else if startswith ''AUTH:SUCCESS'' line then (True, t1)
          else if strip line = [] then read_result_lines k t1
          else if find_sub ''AUTH:FAILED'' line \<noteq> None \<or> find_sub ''Authentication failed'' line \<noteq> None then (False, t1)
          else read_result_lines k t1)"

definition authenticate_with_pubkey :: "client_env \<Rightarrow> string \<Rightarrow> string \<Rightarrow> string option \<Rightarrow> tcp_client \<Rightarrow> bool \<times> tcp_client" where
  "authenticate_with_pubkey x u path key_id t =
     (if \<not> ta_open t then (False, t)
      else
        (case xe_private x path of
           None \<Rightarrow> (False, t)
         | Some sign \<Rightarrow>
             (case pubkey_read_challenge (put_line (''AUTH:PK:INIT:'' @ u
                     @ (case key_id of None \<Rightarrow> [] | Some k \<Rightarrow> if k = [] then [] else '':'' @ k)) t) of
                (None, t1) \<Rightarrow> (False, t1)
              | (Some (kid, nonce), t1) \<Rightarrow>
                  (case read_result_lines 3 (put_line (''AUTH:PK:RESPONSE:'' @ kid @ '':'' @ b64encode (sign nonce)) t1) of
                     (ok, t2) \<Rightarrow>
                       (ok, if ok then t2\<lparr>ta_authenticated := True, ta_username := Some u,
                                          ta_last_auth := Some (ByPubkey u kid path)\<rparr> else t2)))))"

section \<open>Ports\<close>

definition connect_to_port :: "string \<Rightarrow> tcp_client \<Rightarrow> bool \<times> tcp_client" where
  "connect_to_port n t =
     (if \<not> is_ready t \<or> \<not> ta_open t then (False, t)
      else
        (case readline (put_line (''CONNECT:'' @ n) t) of
           (line, t1) \<Rightarrow>
             (let response = line_text line; parts = split_on (CHR '':'') response;
                  mode = (if length parts > 2 then join '':'' (drop 2 parts) else ''READ_ONLY'')
              in if startswith ''CONNECTED:'' response
                 then (True, t1\<lparr>ta_port := Some (parts ! 1),
                                ta_access_mode := Some (if mode = ''READ_WRITE'' then ''read-write'' else ''read-only'')\<rparr>)
                 else (False, t1))))"

text \<open>Names of a JSON listing, each once; an entry without a name is skipped.\<close>

definition entry_get :: "pyval \<Rightarrow> string \<Rightarrow> pyval" where
  "entry_get v k = (case v of PDict d \<Rightarrow> (case dict_get d (PStr k) of None \<Rightarrow> PNone | Some w \<Rightarrow> w) | _ \<Rightarrow> PNone)"

definition entry_name :: "pyval \<Rightarrow> pyval" where
  "entry_name v = (if truthy (entry_get v ''name'') then entry_get v ''name'' else entry_get v ''port'')"

fun dedup_ports :: "pyval list \<Rightarrow> (pyval, pyval) pydict \<Rightarrow> (pyval, pyval) pydict" where
  "dedup_ports [] d = d"
| "dedup_ports (v # vs) d = dedup_ports vs (if truthy (entry_name v) then dict_set (entry_name v) v d else d)"

definition list_ports_json :: "client_env \<Rightarrow> string \<Rightarrow> tcp_client \<Rightarrow> pyval list \<times> tcp_client" where
  "list_ports_json x line t =
     (case json_loads (xe_text_float x) (drop 5 line) of
        None \<Rightarrow> ([], t)
      | Some payload \<Rightarrow>
          (let ports = (case entry_get payload ''ports'' of PList vs \<Rightarrow> vs | _ \<Rightarrow> []);
               d = dedup_ports ports [];
               t1 = t\<lparr>ta_metadata := map snd d\<rparr>
           in (map fst d,
               case entry_get payload ''server'' of PDict s \<Rightarrow> t1\<lparr>ta_server_info := Some (PDict s)\<rparr> | _ \<Rightarrow> t1)))"

section \<open>Control frames\<close>

definition send_request :: "client_env \<Rightarrow> (string \<times> pyval) list \<Rightarrow> tcp_client \<Rightarrow> bool \<times> tcp_client" where
  "send_request x p t =
     (if \<not> ta_connected t \<or> \<not> ta_open t then (False, t)
      else (True, t\<lparr>ta_out := ta_out t @ control_frame (xe_float_text x) p\<rparr>))"

definition request_read_write :: "(string \<times> pyval) list" where "request_read_write = [(''type'', PStr ''request_rw'')]"
definition release_read_write :: "(string \<times> pyval) list" where "release_read_write = [(''type'', PStr ''release_rw'')]"
definition query_rw_holders :: "(string \<times> pyval) list" where "query_rw_holders = [(''type'', PStr ''query_rw_holders'')]"
definition detach_request :: "(string \<times> pyval) list" where "detach_request = [(''type'', PStr ''detach'')]"
definition request_power_feeds :: "(string \<times> pyval) list" where "request_power_feeds = [(''type'', PStr ''power_query'')]"

definition force_read_write :: "string option \<Rightarrow> (string \<times> pyval) list" where
  "force_read_write target =
     (''type'', PStr ''force_promote'')
     # (case target of None \<Rightarrow> [] | Some i \<Rightarrow> if i = [] then [] else [(''client_id'', PStr i)])"

definition switch_power_outlet :: "string \<Rightarrow> bool \<Rightarrow> (string \<times> pyval) list" where
  "switch_power_outlet r on = [(''type'', PStr ''power_switch''), (''ref'', PStr r), (''on'', PBool on)]"

definition shown_text :: "client_env \<Rightarrow> pyval \<Rightarrow> string" where
  "shown_text x v = (case v of PStr s \<Rightarrow> s | _ \<Rightarrow> xe_show x v)"

definition shown_list :: "client_env \<Rightarrow> pyval \<Rightarrow> string list" where
  "shown_list x v = (case v of PList vs \<Rightarrow> map (shown_text x) vs | _ \<Rightarrow> [])"

definition or_empty :: "pyval \<Rightarrow> pyval" where
  "or_empty v = (if truthy v then v else PList [])"

text \<open>The mode a \<open>client_mode\<close> reply states, and the lines the server rendered.\<close>

definition apply_client_mode :: "client_env \<Rightarrow> request \<Rightarrow> tcp_client \<Rightarrow> string \<times> tcp_client" where
  "apply_client_mode x d t =
     (let t1 = t\<lparr>ta_access_mode := Some (if req_get d ''mode'' = PStr ''read-write'' then ''read-write'' else ''read-only'')\<rparr>;
          t2 = (if dict_has d (PStr ''rw_holders'') then t1\<lparr>ta_rw_holders := or_empty (req_get d ''rw_holders'')\<rparr> else t1);
          t3 = (if dict_has d (PStr ''max_rw_users'') then t2\<lparr>ta_max_rw := req_get d ''max_rw_users''\<rparr> else t2)
      in (render_terminal_text (shown_list x (req_get d ''lines'')), t3))"

definition apply_rw_holders :: "client_env \<Rightarrow> request \<Rightarrow> tcp_client \<Rightarrow> string \<times> tcp_client" where
  "apply_rw_holders x d t =
     (let holders = or_empty (req_get d ''holders'');
          t1 = t\<lparr>ta_rw_holders := holders\<rparr>;
          t2 = (if dict_has d (PStr ''max_rw_users'') then t1\<lparr>ta_max_rw := req_get d ''max_rw_users''\<rparr> else t1)
      in (render_terminal_text [''['' @ holders_text (shown_list x holders)
            (case ta_max_rw t2 of PInt i \<Rightarrow> Some i | _ \<Rightarrow> None) @ '']''], t2))"

definition process_control_frame :: "client_env \<Rightarrow> bytes \<Rightarrow> tcp_client \<Rightarrow> bytes \<times> tcp_client" where
  "process_control_frame x data t =
     (case json_loads (xe_text_float x) (decode_text_ignore (takeWhile (\<lambda>c. c \<noteq> LF) (drop (length CTRL_MARKER) data))) of
        Some (PDict d) \<Rightarrow>
          (let ty = req_get d ''type'' in
           if ty = PStr ''power_feeds'' \<or> ty = PStr ''power_switch'' then ([], t\<lparr>ta_power_reply := Some d\<rparr>)
           else if ty = PStr ''detached'' then ([], t\<lparr>ta_detach_reply := Some d\<rparr>)
           else if ty = PStr ''client_mode''
           then (case apply_client_mode x d t of (m, t1) \<Rightarrow> (encode_text m, t1))
           else if ty = PStr ''rw_holders''
           then (case apply_rw_holders x d t of (m, t1) \<Rightarrow> (encode_text m, t1))
           else ([], t))
      | _ \<Rightarrow> ([], t))"

text \<open>One read: \<open>None\<close> at the end of the stream.\<close>

definition read_data :: "client_env \<Rightarrow> tcp_client \<Rightarrow> bytes option \<times> tcp_client" where
  "read_data x t =
     (if \<not> ta_connected t \<or> \<not> ta_open t then (Some [], t)
      else
        (case ta_in t of
           [] \<Rightarrow> (None, t\<lparr>ta_connected := False, ta_authenticated := False\<rparr>)
         | seg # segs \<Rightarrow>
             (case take_chunk (process_control_frame x) (ta_frag t) (take 4096 seg)
                     (t\<lparr>ta_in := (if drop 4096 seg = [] then segs else drop 4096 seg # segs)\<rparr>) of
                (out, frag, t1) \<Rightarrow> (Some out, t1\<lparr>ta_frag := frag\<rparr>))))"

section \<open>Reconnecting\<close>

definition reconnect :: "client_env \<Rightarrow> bytes list option \<Rightarrow> tcp_client \<Rightarrow> bool \<times> tcp_client" where
  "reconnect x net t =
     (case ta_last_auth t of
        None \<Rightarrow> (False, t)
      | Some cred \<Rightarrow>
          (case connect_socket net t of
             (False, t1) \<Rightarrow> (False, t1)
           | (True, t1) \<Rightarrow>
               (case (case cred of
                        ByPassword u p \<Rightarrow> authenticate_with_password x u p t1
                      | ByApiKey k \<Rightarrow> authenticate_with_key k t1
                      | ByPubkey u k path \<Rightarrow> (False, t1)) of
                  (False, t2) \<Rightarrow> (False, t2)
                | (True, t2) \<Rightarrow>
                    (case ta_port t2 of
                       None \<Rightarrow> (True, t2)
                     | Some n \<Rightarrow> if n = [] then (True, t2) else connect_to_port n t2))))"

end
