(* ===== verification/ClientFacts.thy ===== *)
theory ClientFacts
  imports ClientAdapter
begin

text \<open>
  Facts of the command line client's connection: what a frame says on one end is what the other end reads,
  how lines and chunks are put together from the network's segments, who gets past the login, and what the
  mode on record says of the port.
\<close>

section \<open>Frames\<close>

definition plain_payload :: "(string \<times> pyval) list \<Rightarrow> bool" where
  "plain_payload p \<longleftrightarrow> json_plain (dict_of_payload p)"

lemma plain_payload_iff: "plain_payload p \<longleftrightarrow> distinct (map fst p) \<and> list_all (\<lambda>(k, v). json_plain v) p"
proof -
  have "map fst (map (\<lambda>(k, v). (PStr k, v)) p) = map PStr (map fst p)" by (induction p) auto
  then have "distinct (map fst (map (\<lambda>(k, v). (PStr k, v)) p)) = distinct (map fst p)"
    by (simp add: distinct_map inj_on_def del: map_map)
  then show ?thesis by (simp add: plain_payload_def dict_of_payload_def list_all_iff split_beta)
qed

definition frame_text :: "(pyfloat \<Rightarrow> string) \<Rightarrow> (string \<times> pyval) list \<Rightarrow> string" where
  "frame_text fr p = json_dumps fr (dict_of_payload p)"

lemma frame_text_chars:
  assumes "plain_payload p"
  shows "NUL \<notin> set (frame_text fr p)" "LF \<notin> set (frame_text fr p)" "encode_text (frame_text fr p) = frame_text fr p"
    "decode_text_ignore (frame_text fr p) = frame_text fr p"
proof -
  have r: "32 \<le> code c \<and> code c < 127" if "c \<in> set (frame_text fr p)" for c
    using dumps_printable(1)[of "dict_of_payload p" c fr] assms that
    by (simp add: plain_payload_def frame_text_def ascii_printable_def)
  show "NUL \<notin> set (frame_text fr p)" "LF \<notin> set (frame_text fr p)"
    using r[of NUL] r[of LF] by (auto simp: NUL_def LF_def)
  show e: "encode_text (frame_text fr p) = frame_text fr p"
    using r by (intro encode_ascii ballI) fastforce
  show "decode_text_ignore (frame_text fr p) = frame_text fr p"
    using decode_encode_text[of "frame_text fr p"] by (simp add: e)
qed

lemma control_frame_message:
  "plain_payload p \<Longrightarrow> control_frame fr p = item_bytes (Message (frame_text fr p))"
  using frame_text_chars(3)[of p fr] by (simp add: control_frame_def frame_text_def)

text \<open>The reading of a frame, on either end, is the payload that was sent.\<close>

lemma frame_reads_back:
  assumes "plain_payload p"
  shows "json_loads fl (decode_text_ignore (takeWhile (\<lambda>c. c \<noteq> LF) (drop (length CTRL_MARKER) (control_frame fr p))))
    = Some (dict_of_payload p)"
proof -
  have "drop (length CTRL_MARKER) (control_frame fr p) = frame_text fr p @ [LF]"
    using control_frame_message[OF assms] by simp
  moreover have "takeWhile (\<lambda>c. c \<noteq> LF) (frame_text fr p @ [LF]) = frame_text fr p"
    using frame_text_chars(2)[OF assms, of fr] by (subst takeWhile_append2) auto
  ultimately show ?thesis
    using json_round_trip[of "dict_of_payload p" fl fr] assms frame_text_chars(4)[OF assms, of fr]
    by (simp add: plain_payload_def frame_text_def)
qed

lemma request_reads_back: "plain_payload p \<Longrightarrow>
   ctrl_parse_request e (control_frame fr p) = Some (map (\<lambda>(k, v). (PStr k, v)) p)"
  using frame_reads_back[of p "ce_text_float e" fr] by (simp add: ctrl_parse_request_def dict_of_payload_def)

lemma req_get_payload: "req_get (map (\<lambda>(k, v). (PStr k, v)) p) k = (case map_of p k of None \<Rightarrow> PNone | Some v \<Rightarrow> v)"
  by (induction p) (auto simp: req_get_def)

lemma dict_has_payload: "dict_has (map (\<lambda>(k, v). (PStr k, v)) p) (PStr k) \<longleftrightarrow> map_of p k \<noteq> None"
  by (induction p) (auto simp: dict_has_def)

section \<open>A decision reaches the terminal\<close>

lemma decision_payload:
  obtains p where "d_frame d = Inr p" "frame_payload (FrameDecision d) = p"
  using frame_defined[of d] by (auto simp: frame_payload_def)

lemma decision_frame_plain: "plain_payload (frame_payload (FrameDecision d))"
proof -
  have l: "list_all json_plain (map (PStr \<circ> f) xs)" for f and xs :: "'z list" by (simp add: list_all_iff)
  have l2: "list_all json_plain (map PStr xs)" for xs by (simp add: list_all_iff)
  obtain p where p: "d_frame d = Inr p" "frame_payload (FrameDecision d) = p" by (rule decision_payload)
  have "plain_payload p"
    using p(1) by (auto simp: plain_payload_iff d_frame_def frame_head_def frame_tail_def l l2 split: sum.splits if_splits option.splits)
  then show ?thesis by (simp add: p(2))
qed

lemma decision_frame_fields:
  fixes d :: decision
  defines "p \<equiv> frame_payload (FrameDecision d)"
  shows "map_of p ''type'' = Some (PStr ''client_mode'')" "map_of p ''mode'' = Some (PStr (mode_value (d_mode d)))"
    "d_text d = Inr t \<Longrightarrow>
       render_terminal_text (case map_of p ''lines'' of Some (PList vs) \<Rightarrow> map (shown_text x) vs | _ \<Rightarrow> []) = t"
proof -
  obtain q where q: "d_frame d = Inr q" "p = q" unfolding p_def by (rule decision_payload)
  show "map_of p ''type'' = Some (PStr ''client_mode'')" "map_of p ''mode'' = Some (PStr (mode_value (d_mode d)))"
    using q by (auto simp: d_frame_def frame_head_def split: sum.splits if_splits)
  have none: "map_of (frame_tail d) ''lines'' = None" by (auto simp: frame_tail_def split: option.splits)
  have sh: "map (shown_text x \<circ> PStr) ls = ls" for ls by (simp add: shown_text_def comp_def)
  show "render_terminal_text (case map_of p ''lines'' of Some (PList vs) \<Rightarrow> map (shown_text x) vs | _ \<Rightarrow> []) = t"
    if "d_text d = Inr t"
    using q that none sh
    by (auto simp: d_frame_def frame_head_def d_text_def map_add_def render_terminal_text_def split: sum.splits if_splits option.splits)
qed

lemma decision_processed:
  assumes "d_text d = Inr t"
  shows "\<exists>c1. process_control_frame x (control_frame fr (frame_payload (FrameDecision d))) c = (encode_text t, c1)
    \<and> ta_access_mode c1 = Some (mode_value (d_mode d))"
proof -
  let ?p = "frame_payload (FrameDecision d)" and ?d = "map (\<lambda>(k, v). (PStr k, v)) (frame_payload (FrameDecision d))"
  note F = decision_frame_fields[of d]
  have r: "json_loads (xe_text_float x) (decode_text_ignore (takeWhile (\<lambda>c. c \<noteq> LF) (drop (length CTRL_MARKER) (control_frame fr ?p))))
      = Some (PDict ?d)"
    using frame_reads_back[OF decision_frame_plain, of "xe_text_float x" fr d] by (simp add: dict_of_payload_def)
  have g: "req_get ?d ''type'' = PStr ''client_mode''" "req_get ?d ''mode'' = PStr (mode_value (d_mode d))"
    using F(1,2) by (simp_all add: req_get_payload)
  have "shown_list x (req_get ?d ''lines'') = (case map_of ?p ''lines'' of Some (PList vs) \<Rightarrow> map (shown_text x) vs | _ \<Rightarrow> [])"
    by (simp add: req_get_payload shown_list_def split: option.splits pyval.splits)
  then have "render_terminal_text (shown_list x (req_get ?d ''lines'')) = t" using F(3)[OF assms, of x] by simp
  then have "\<exists>c1. apply_client_mode x ?d c = (t, c1) \<and> ta_access_mode c1 = Some (mode_value (d_mode d))"
    using g(2) by (cases "d_mode d") (simp_all add: apply_client_mode_def Let_def)
  then show ?thesis using r g(1) by (auto simp: process_control_frame_def split: prod.splits)
qed

text \<open>C29: Every access decision that the server sends is shown by the client program in the server's own words, and the
  mode the client has on record afterwards is the decision's.\<close>

theorem decision_reaches_the_terminal:
  "\<exists>t c1. d_text d = Inr t
     \<and> process_control_frame x (control_frame fr (frame_payload (FrameDecision d))) c = (encode_text t, c1)
     \<and> ta_access_mode c1 = Some (mode_value (d_mode d))"
proof -
  obtain t where "d_text d = Inr t" using lines_defined[of d] by (auto simp: d_text_def)
  with decision_processed[OF this] show ?thesis by blast
qed

section \<open>Lines\<close>

text \<open>A line of the stream without regard to its segments: what comes before the line end, less the carriage
  returns, when that is not too long.\<close>

definition line_result :: "bytes \<Rightarrow> string option" where
  "line_result pre = (let kept = filter (\<lambda>c. c \<noteq> CR) pre in
     if length kept \<le> 1024 then Some (rstrip_crlf (decode_text_ignore kept)) else None)"

lemma receive_one:
  assumes "[] \<notin> set (cl_in s)" "concat (cl_in s) = c # rest"
  shows "\<exists>segs. receive_bytes 1 s = ([c], s\<lparr>cl_in := segs\<rparr>) \<and> concat segs = rest \<and> [] \<notin> set segs"
proof -
  obtain seg segs where i: "cl_in s = seg # segs" using assms(2) by (cases "cl_in s") auto
  then obtain cs where "seg = c # cs" using assms by (cases seg) auto
  then show ?thesis using assms i by (auto simp: receive_bytes_def)
qed

lemma collect_gives:
  assumes "cs_connected (cl_session s)" "[] \<notin> set (cl_in s)" "concat (cl_in s) = pre @ LF # post" "LF \<notin> set pre" "length buf \<le> 1024"
  shows "fst (collect_line buf s)
      = (let kept = buf @ filter (\<lambda>c. c \<noteq> CR) pre in
         if length kept \<le> 1024 then Some (rstrip_crlf (decode_text_ignore kept)) else None)
    \<and> (length (buf @ filter (\<lambda>c. c \<noteq> CR) pre) \<le> 1024 \<longrightarrow>
         (\<exists>segs. snd (collect_line buf s) = s\<lparr>cl_in := segs\<rparr> \<and> concat segs = post \<and> [] \<notin> set segs))"
  using assms
proof (induction pre arbitrary: buf s)
  case Nil
  obtain segs where r: "receive_bytes 1 s = ([LF], s\<lparr>cl_in := segs\<rparr>)" "concat segs = post" "[] \<notin> set segs"
    using receive_one[of s LF post] Nil.prems by auto
  then show ?case using Nil.prems by (auto simp: collect_line.simps[of buf s])
next
  case (Cons c pre)
  obtain segs where r: "receive_bytes 1 s = ([c], s\<lparr>cl_in := segs\<rparr>)" "concat segs = pre @ LF # post" "[] \<notin> set segs"
    using receive_one[of s c "pre @ LF # post"] Cons.prems by auto
  have lf: "c \<noteq> LF" "LF \<notin> set pre" using Cons.prems(4) by auto
  let ?s = "s\<lparr>cl_in := segs\<rparr>"
  show ?case
  proof (cases "c = CR")
    case True
    then show ?thesis
      using Cons.IH[of ?s buf] Cons.prems(1,5) r lf by (simp add: collect_line.simps[of buf s])
  next
    case False
    then have step: "collect_line buf s = (if length buf < 1024 then collect_line (buf @ [c]) ?s else (None, ?s))"
      using r(1) lf Cons.prems(1) by (simp add: collect_line.simps[of buf s])
    show ?thesis
    proof (cases "length buf < 1024")
      case True
      then show ?thesis using Cons.IH[of ?s "buf @ [c]"] Cons.prems(1) r lf False step by simp
    qed (use step False in simp)
  qed
qed

text \<open>The end of the stream before a line end: no line, and the client counts as gone.\<close>

lemma receive_empty: "concat (cl_in s) = [] \<Longrightarrow> receive_bytes 1 s = ([], on_session (cs_connected_update (\<lambda>_. False)) s)"
  by (auto simp: receive_bytes_def split: list.splits)

lemma login_fields [simp]: "cs_user (login_as u c) = Some u" "cs_authenticated (login_as u c)" "cs_id (login_as u c) = cs_id c"
  "cs_port (login_as u c) = cs_port c" "cs_mode (login_as u c) = cs_mode c" "cs_connected (login_as u c) = cs_connected c"
  by (simp_all add: login_as_def)

section \<open>Who gets past the login\<close>

text \<open>Reading and sending touch the socket and the connection only.\<close>

definition talk_only :: "'d clstate \<Rightarrow> 'd clstate \<Rightarrow> bool" where
  "talk_only s t \<longleftrightarrow>
     cl_world t = cl_world s \<and> cl_ports t = cl_ports s \<and> cl_auth t = cl_auth s
     \<and> (\<exists>b. cl_session t = (cl_session s)\<lparr>cs_connected := b\<rparr>)"

lemma talk_refl [simp]: "talk_only s s"
  by (auto simp: talk_only_def intro: exI[of _ "cs_connected (cl_session s)"])

lemma talk_trans: "talk_only s t \<Longrightarrow> talk_only t u \<Longrightarrow> talk_only s u"
  by (auto simp: talk_only_def)

lemma talk_send: "talk_only s (send_raw e b s)" "talk_only s (send_line e l s)"
  by (auto simp: send_line_def send_raw_def Let_def talk_only_def intro: exI[of _ "cs_connected (cl_session s)"])

lemma talk_receive: "receive_bytes n s = (data, t) \<Longrightarrow> talk_only s t"
  by (auto simp: receive_bytes_def talk_only_def split: list.splits if_splits intro: exI[of _ "cs_connected (cl_session s)"])

lemma talk_collect: "talk_only s (snd (collect_line buf s))"
proof (induction buf s rule: collect_line.induct)
  case (1 buf s)
  obtain data u where r: "receive_bytes 1 s = (data, u)" by fastforce
  show ?case
    using talk_receive[OF r] r 1(1)[OF _ r[symmetric]] 1(2)[OF _ r[symmetric]] talk_trans
    by (auto simp: collect_line.simps[of buf s])
qed

lemma talk_read: "read_text_line s = (l, t) \<Longrightarrow> talk_only s t"
  using talk_collect[of s "[]"] by (simp add: read_text_line_def)

lemma locked_fields:
  "is_user_locked now u ip a = (b, a1) \<Longrightarrow> am_pw_challenges a1 = am_pw_challenges a \<and> am_users a1 = am_users a"
  by (auto simp: is_user_locked_def Let_def split: option.splits if_splits)

lemma password_verified:
  assumes "verify_password_hmac ae now u resp ip a = (True, a1)"
  shows "\<exists>entry key. dict_get (am_pw_challenges a) u = Some entry \<and> unhex ae (pc_hex entry) = Some key
    \<and> unbase64 ae resp = Some (hmac_sha256 ae key (pc_nonce entry))"
proof -
  obtain b a0 where l: "is_user_locked now u ip a = (b, a0)" by fastforce
  show ?thesis
    using assms l locked_fields[OF l]
    by (auto simp: verify_password_hmac_def Let_def split: bool.splits option.splits if_splits)
qed

lemma challenge_started:
  assumes "start_password_hmac_challenge now nonce u a = (Some n, a1)"
  shows "n = nonce" "\<exists>h. get_password_hash_hex u a = Some h
    \<and> dict_get (am_pw_challenges a1) u = Some \<lparr>pc_nonce = nonce, pc_expires = now + 30, pc_hex = h\<rparr>"
  using assms by (auto simp: start_password_hmac_challenge_def split: option.splits if_splits)

definition password_proof :: "auth_env \<Rightarrow> auth_state \<Rightarrow> bytes \<Rightarrow> string \<Rightarrow> bool" where
  "password_proof ae a nonce u \<longleftrightarrow>
     (\<exists>h key resp. get_password_hash_hex u a = Some h \<and> unhex ae h = Some key
        \<and> unbase64 ae resp = Some (hmac_sha256 ae key nonce))"

lemma conclude_True:
  "conclude e u (call_auth f s) = (True, t) \<Longrightarrow>
     \<exists>a. f (cl_auth s) = (True, a) \<and> t = on_session (login_as u) (s\<lparr>cl_auth := a\<rparr>)"
  by (auto simp: conclude_def call_auth_def split: prod.splits if_splits)

lemma hmac_needs_proof:
  assumes "auth_hmac e ae line s = (True, t)"
  shows "\<exists>u. cs_user (cl_session t) = Some u \<and> cl_world t = cl_world s \<and> cl_ports t = cl_ports s
    \<and> password_proof ae (cl_auth s) (ce_nonce e) u"
proof -
  let ?parts = "split_on (CHR '':'') line"
  let ?u = "?parts ! 3" and ?ip = "source_ip (cl_session s)"
  obtain b a1 where l: "is_user_locked (ce_clock e 0) ?u ?ip (cl_auth s) = (b, a1)" by fastforce
  obtain n a2 where c: "start_password_hmac_challenge (ce_clock e 0) (ce_nonce e) ?u a1 = (n, a2)" by fastforce
  have b: "\<not> b" "n \<noteq> None" using assms l c by (auto simp: auth_hmac_def Let_def call_auth_def split: if_splits bool.splits option.splits)
  then obtain nonce where n: "n = Some nonce" by blast
  let ?s2 = "s\<lparr>cl_auth := a2\<rparr>"
  obtain r s3 where rd: "read_text_line (send_line e (''AUTH:CHALLENGE:'' @ b64encode nonce) ?s2) = (r, s3)" by fastforce
  obtain resp where r: "r = Some resp" "conclude e ?u
      (call_auth (verify_password_hmac ae (ce_clock e 1) ?u (split_on (CHR '':'') resp ! 2) ?ip) s3) = (True, t)"
    using assms l c n b rd by (auto simp: auth_hmac_def Let_def call_auth_def split: if_splits option.splits)
  have k: "talk_only ?s2 s3" using talk_trans[OF talk_send(2) talk_read[OF rd]] by simp
  obtain a where v: "verify_password_hmac ae (ce_clock e 1) ?u (split_on (CHR '':'') resp ! 2) ?ip (cl_auth s3) = (True, a)"
    "t = on_session (login_as ?u) (s3\<lparr>cl_auth := a\<rparr>)" using conclude_True[OF r(2)] by blast
  have "cl_auth s3 = a2" using k by (simp add: talk_only_def)
  then have "password_proof ae (cl_auth s) (ce_nonce e) ?u"
    using password_verified[OF v(1)] challenge_started(2)[OF c[unfolded n]] locked_fields[OF l]
    by (auto simp: password_proof_def get_password_hash_hex_def) metis
  then show ?thesis using k v(2) by (auto simp: talk_only_def)
qed

text \<open>A signature answers a challenge of the user that is pending: this connection's, under a key of the user,
  or one that was issued before.\<close>

definition pubkey_proof :: "auth_env \<Rightarrow> auth_state \<Rightarrow> bytes \<Rightarrow> string \<Rightarrow> bool" where
  "pubkey_proof ae a nonce u \<longleftrightarrow>
     (\<exists>kid entry sig. verify_sig ae (kc_pub entry) sig (kc_nonce entry)
        \<and> (dict_get (am_pk_challenges a) (u, kid) = Some entry
           \<or> (kc_nonce entry = nonce
              \<and> (\<exists>r \<in> set (am_public_keys a). pk_username r = Some u \<and> \<not> pk_disabled r \<and> load_key ae r = Some (kc_pub entry)))))"

lemma pubkey_verified:
  assumes "verify_pubkey_response ae now u kid sig a = (True, a1)"
  shows "\<exists>entry bs. dict_get (am_pk_challenges a) (u, kid) = Some entry \<and> verify_sig ae (kc_pub entry) bs (kc_nonce entry)"
  using assms by (auto simp: verify_pubkey_response_def Let_def split: option.splits if_splits)

lemma key_record_of: "resolve_public_key_record u k a = Some r \<Longrightarrow>
   r \<in> set (am_public_keys a) \<and> pk_username r = Some u \<and> \<not> pk_disabled r"
proof -
  let ?P = "\<lambda>r. pk_username r = Some u \<and> \<not> pk_disabled r \<and> ''client'' \<in> set (pk_uses r)"
  assume a: "resolve_public_key_record u k a = Some r"
  obtain x xs where f: "filter ?P (am_public_keys a) = x # xs"
    using a by (cases "filter ?P (am_public_keys a)") (auto simp: resolve_public_key_record_def)
  have "r \<in> set (x # xs)"
    using a f by (auto simp: resolve_public_key_record_def split: option.splits if_splits dest!: find_Some_mem)
  then have "r \<in> set (filter ?P (am_public_keys a))" by (simp only: f)
  then show ?thesis by simp
qed

lemma pubkey_challenge_started:
  assumes "start_pubkey_challenge ae now nonce u k a = (Some (kid, n), a1)" "dict_get (am_pk_challenges a1) (u, kid2) = Some entry"
  shows "dict_get (am_pk_challenges a) (u, kid2) = Some entry
    \<or> (kc_nonce entry = nonce \<and> (\<exists>r \<in> set (am_public_keys a). pk_username r = Some u \<and> \<not> pk_disabled r \<and> load_key ae r = Some (kc_pub entry)))"
proof -
  obtain r pub kid1 where r: "resolve_public_key_record u k a = Some r" "load_key ae r = Some pub"
    "a1 = a\<lparr>am_pk_challenges := dict_set (u, kid1) \<lparr>kc_nonce = nonce, kc_pub = pub, kc_expires = now + 30\<rparr> (am_pk_challenges a)\<rparr>"
    using assms(1) by (auto simp: start_pubkey_challenge_def Let_def split: option.splits)
  show ?thesis
    using assms(2) key_record_of[OF r(1)] r(2) by (cases "kid2 = kid1") (auto simp: r(3))
qed

lemma pubkey_needs_proof:
  assumes "auth_pubkey e ae line s = (True, t)"
  shows "\<exists>u. cs_user (cl_session t) = Some u \<and> cl_world t = cl_world s \<and> cl_ports t = cl_ports s
    \<and> pubkey_proof ae (cl_auth s) (ce_nonce e) u"
proof -
  let ?parts = "split_on (CHR '':'') line"
  let ?u = "?parts ! 3" and ?k = "if length ?parts \<ge> 5 \<and> ?parts ! 4 \<noteq> [] then Some (?parts ! 4) else None"
  obtain c a1 where st: "start_pubkey_challenge ae (ce_clock e 0) (ce_nonce e) ?u ?k (cl_auth s) = (c, a1)" by fastforce
  then obtain kid nonce where c: "c = Some (kid, nonce)"
    using assms by (cases c) (auto simp: auth_pubkey_def Let_def call_auth_def split: if_splits)
  let ?s1 = "s\<lparr>cl_auth := a1\<rparr>"
  obtain r s2 where rd: "read_text_line (send_line e (''AUTH:PK:CHALLENGE:'' @ kid @ '':'' @ b64encode nonce) ?s1) = (r, s2)" by fastforce
  obtain resp where r: "conclude e ?u (call_auth (verify_pubkey_response ae (ce_clock e 1) ?u
      (split_on (CHR '':'') resp ! 3) (split_on (CHR '':'') resp ! 4)) s2) = (True, t)"
    using assms st c rd by (auto simp: auth_pubkey_def Let_def call_auth_def split: if_splits option.splits)
  have k: "talk_only ?s1 s2" using talk_trans[OF talk_send(2) talk_read[OF rd]] by simp
  obtain a where v: "verify_pubkey_response ae (ce_clock e 1) ?u (split_on (CHR '':'') resp ! 3) (split_on (CHR '':'') resp ! 4)
      (cl_auth s2) = (True, a)" "t = on_session (login_as ?u) (s2\<lparr>cl_auth := a\<rparr>)" using conclude_True[OF r] by blast
  have "cl_auth s2 = a1" using k by (simp add: talk_only_def)
  then have "pubkey_proof ae (cl_auth s) (ce_nonce e) ?u"
    using pubkey_verified[OF v(1)] pubkey_challenge_started[OF st[unfolded c]] unfolding pubkey_proof_def by metis
  then show ?thesis using k v(2) by (auto simp: talk_only_def)
qed

definition api_key_proof :: "auth_state \<Rightarrow> string \<Rightarrow> bool" where
  "api_key_proof a u \<longleftrightarrow> (\<exists>key. key \<noteq> [] \<and> get_api_key_name key a = Some u)"

lemma api_key_needs_proof:
  assumes "auth_api_key e line s = (True, t)"
  shows "\<exists>u. cs_user (cl_session t) = Some u \<and> cl_world t = cl_world s \<and> cl_ports t = cl_ports s \<and> api_key_proof (cl_auth s) u"
proof -
  define key where "key = drop (length ''AUTH:KEY:'') line"
  have c: "conclude e (case get_api_key_name key (cl_auth s) of None \<Rightarrow> ''api-user'' | Some n \<Rightarrow> if n = [] then ''api-user'' else n)
      (key \<noteq> [] \<and> verify_api_key key (cl_auth s), s) = (True, t)"
    using assms by (simp only: auth_api_key_def Let_def key_def)
  then obtain n where n: "key \<noteq> []" "get_api_key_name key (cl_auth s) = Some n"
    by (auto simp: conclude_def verify_api_key_def get_api_key_name_def split: if_splits)
  then have t: "t = on_session (login_as (if n = [] then ''api-user'' else n)) s"
    using c by (simp add: conclude_def split: if_splits)
  have "n \<noteq> []" using n(1,2) by (auto simp: get_api_key_name_def split: option.splits if_splits)
  then show ?thesis using n t by (auto simp: api_key_proof_def)
qed


section \<open>The mode on record\<close>

definition client_truthful :: "'d clstate \<Rightarrow> bool" where
  "client_truthful s \<longleftrightarrow> cm_ok (cl_cm s) \<and>
     (\<forall>n. attached_port s = Some n \<longrightarrow> mapped_to (cl_cm s) (cl_id s) n \<and>
        (cs_mode (cl_session s) = Some ReadWrite \<longrightarrow> modes (cl_cm s) n (cl_id s) = Some ReadWrite))"

lemma truthful_cong:
  "cl_cm t = cl_cm s \<Longrightarrow> cs_id (cl_session t) = cl_id s \<Longrightarrow> cs_port (cl_session t) = cs_port (cl_session s) \<Longrightarrow>
   cs_mode (cl_session t) = cs_mode (cl_session s) \<Longrightarrow> client_truthful t = client_truthful s"
  by (simp add: client_truthful_def attached_port_def)

lemma send_raw_frame [simp]:
  "cl_world (send_raw e b s) = cl_world s" "cs_port (cl_session (send_raw e b s)) = cs_port (cl_session s)"
  "cs_mode (cl_session (send_raw e b s)) = cs_mode (cl_session s)" "cl_ports (send_raw e b s) = cl_ports s"
  by (simp_all add: send_raw_def Let_def)

lemma send_line_frame [simp]:
  "cl_world (send_line e l s) = cl_world s" "cs_port (cl_session (send_line e l s)) = cs_port (cl_session s)"
  "cs_mode (cl_session (send_line e l s)) = cs_mode (cl_session s)" "cl_ports (send_line e l s) = cl_ports s"
  by (simp_all add: send_line_def)

lemma call_cm_frame:
  assumes "call_cm e f s = (r, t)"
  shows "r = fst (f (cl_cm s))" "cl_cm t = snd (f (cl_cm s))" "cs_port (cl_session t) = cs_port (cl_session s)" "cl_id t = cl_id s"
proof -
  let ?g = "\<lambda>(cid, fr) t. if cid = cl_id s then send_frame_here e (frame_payload fr) t else t"
  have g: "cl_world (fold ?g xs u) = cl_world u \<and> cs_port (cl_session (fold ?g xs u)) = cs_port (cl_session u)" for xs u
    by (induction xs arbitrary: u) (auto simp: send_frame_here_def)
  show "r = fst (f (cl_cm s))" "cl_cm t = snd (f (cl_cm s))" "cs_port (cl_session t) = cs_port (cl_session s)"
    using assms g by (auto simp: call_cm_def split: prod.splits)
  show "cl_id t = cl_id s" using assms by (metis call_fields(3) snd_conv)
qed

lemma attached_cong: "cs_port (cl_session t) = cs_port (cl_session s) \<Longrightarrow> attached_port t = attached_port s"
  by (simp add: attached_port_def)

lemma attached_name: "attached_port s = Some n \<Longrightarrow> port_name_of s = n \<and> cs_port (cl_session s) = Some n \<and> n \<noteq> []"
  by (auto simp: attached_port_def port_name_of_def split: option.splits if_splits)

text \<open>The listener's session in the terms of the telnet sessions, whose facts carry over.\<close>

definition as_ls :: "string \<Rightarrow> string \<Rightarrow> amode \<Rightarrow> lsession" where
  "as_ls cid n m = create_session [] [] False [] n [] []\<lparr>ls_client := cid, ls_mode := m\<rparr>"

lemma as_ls_fields [simp]: "ls_client (as_ls cid n m) = cid" "ls_port (as_ls cid n m) = n" "ls_mode (as_ls cid n m) = m"
  "(as_ls cid n m)\<lparr>ls_mode := k\<rparr> = as_ls cid n k"
  by (simp_all add: as_ls_def create_session_def)

lemma truthful_as_ls:
  assumes "attached_port s = Some n"
  shows "client_truthful s \<longleftrightarrow> truthful (cl_cm s) (as_ls (cl_id s) n (mode_on_record s))"
  using assms by (auto simp: client_truthful_def truthful_def mode_on_record_def split: option.splits)

lemma truthful_detached: "attached_port s = None \<Longrightarrow> client_truthful s \<longleftrightarrow> cm_ok (cl_cm s)"
  by (simp add: client_truthful_def)

lemma client_truthful_quiet:
  assumes "client_truthful s" "quiet (cl_cm s) (cl_cm t)" "cl_id t = cl_id s"
    "cs_port (cl_session t) = cs_port (cl_session s)" "cs_mode (cl_session t) = cs_mode (cl_session s)"
  shows "client_truthful t"
  using assms by (simp add: client_truthful_def quiet_def mapped_to_def attached_port_def)

lemma ctrl_send_frame [simp]:
  "cl_world (ctrl_send_reply e p s) = cl_world s" "cs_port (cl_session (ctrl_send_reply e p s)) = cs_port (cl_session s)"
  "cs_id (cl_session (ctrl_send_reply e p s)) = cl_id s"
  "cs_mode (cl_session (ctrl_send_reply e p s)) = (if map_of p ''type'' = Some (PStr ''client_mode'') then payload_mode p else cs_mode (cl_session s))"
  by (simp_all add: ctrl_send_reply_def note_mode_def)

text \<open>An access request whose decision states the mode held leaves the record truthful.\<close>

lemma decided_truthful:
  assumes "client_truthful s" "decided e f s = (p, t)" "cm_ok (snd (f (cl_cm s)))"
    and held: "\<And>m. truthful (cl_cm s) (as_ls (cl_id s) (port_name_of s) m) \<Longrightarrow>
      truthful (snd (f (cl_cm s))) (as_ls (cl_id s) (port_name_of s) (d_mode (fst (f (cl_cm s)))))"
  shows "client_truthful (ctrl_send_reply e2 p t)"
proof -
  obtain d where c: "call_cm e f s = (d, t)" "p = frame_payload (FrameDecision d)"
    using assms(2) by (auto simp: decided_def split: prod.splits)
  note F = call_cm_frame[OF c(1)]
  let ?t = "ctrl_send_reply e2 p t"
  have a: "attached_port ?t = attached_port s" "cl_id ?t = cl_id s" using F by (simp_all add: attached_port_def)
  have m: "mode_on_record ?t = d_mode d"
    using decision_frame_fields(1)[of d] decision_frame_mode[of d] by (simp add: mode_on_record_def c(2))
  show ?thesis
  proof (cases "attached_port s")
    case (Some n)
    then have "truthful (cl_cm s) (as_ls (cl_id s) (port_name_of s) (mode_on_record s))"
      using truthful_as_ls[OF Some] assms(1) attached_name[OF Some] by simp
    from held[OF this] show ?thesis
      using truthful_as_ls[of ?t n] a m F(1,2) Some attached_name[OF Some] by simp
  next
    case None
    then show ?thesis using truthful_detached[of ?t] a F(2) assms(3) by simp
  qed
qed

lemma power_frame_quiet:
  "handle_power_frame e ops rl n ty r on u cid c p = (x, c1, p1) \<Longrightarrow> quiet c c1"
proof -
  have q: "quiet c (snd (power_blocked_ports e r u p c))" for r
    using blocked_ports_quiet by (auto simp: power_blocked_ports_def blocked_ports_for_user_def Let_def split: option.splits)
  assume "handle_power_frame e ops rl n ty r on u cid c p = (x, c1, p1)"
  then show ?thesis
    using q by (auto simp: handle_power_frame_def Let_def split: if_splits option.splits prod.splits dest!: arg_cong[of _ _ snd])
qed

lemma holders_frame_type: "map_of (rw_holders_frame e c n) ''type'' = Some (PStr ''rw_holders'')"
  by (simp add: rw_holders_frame_def holders_frame_def Let_def)

lemma power_payload_type: "map_of (power_payload r) ''type'' \<noteq> Some (PStr ''client_mode'')"
  by (cases r) simp_all

lemma detach_truthful:
  assumes "cm_ok (cl_cm s)"
  shows "cm_ok (cl_cm (detach_from_port e s))" "attached_port (detach_from_port e s) = None"
proof -
  show "attached_port (detach_from_port e s) = None"
    by (cases "attached_port s") (simp_all add: detach_from_port_def Let_def attached_port_def)
  show "cm_ok (cl_cm (detach_from_port e s))"
  proof (cases "attached_port s")
    case (Some n)
    let ?u = "s\<lparr>cl_ports := drop_port_client n (cl_id s) (cl_ports s)\<rparr>"
    obtain r t where c: "call_cm e (disconnect_client_from_port (se_env (ce_session e)) (cl_id s) n) ?u = (r, t)" by fastforce
    have "cm_ok (cl_cm t)"
      using call_cm_frame(2)[OF c] disconnect_result(2)[OF prod.collapse[symmetric] assms] by simp
    then show ?thesis using Some c by (simp add: detach_from_port_def Let_def)
  qed (simp add: detach_from_port_def assms)
qed

lemma if_intro: "(c \<Longrightarrow> P x) \<Longrightarrow> (\<not> c \<Longrightarrow> P y) \<Longrightarrow> P (if c then x else y)"
  by simp

text \<open>One case for each kind of request.\<close>

lemma silent_reply_truthful:
  assumes "client_truthful t" "map_of p ''type'' \<noteq> Some (PStr ''client_mode'')"
  shows "client_truthful (ctrl_send_reply e p t)"
  using assms truthful_cong[of "ctrl_send_reply e p t" t] by simp

lemma power_reply_truthful:
  assumes "client_truthful s" "ctrl_power_reply e k req s = (p, t)"
  shows "client_truthful (ctrl_send_reply e2 p t)"
proof (rule silent_reply_truthful)
  show "map_of p ''type'' \<noteq> Some (PStr ''client_mode'')"
    using assms(2) power_payload_type by (auto simp: ctrl_power_reply_def NO_POWER_def split: option.splits prod.splits if_splits)
  have "quiet (cl_cm s) (cl_cm t)" "cl_session t = cl_session s"
    using assms(2) power_frame_quiet by (auto simp: ctrl_power_reply_def split: option.splits prod.splits)
  then show "client_truthful t" by (intro client_truthful_quiet[OF assms(1)]) simp_all
qed

lemma detach_reply_truthful:
  assumes "client_truthful s" "ctrl_detach_reply e s = (p, t)"
  shows "client_truthful (ctrl_send_reply e2 p t)"
proof (rule silent_reply_truthful)
  have "cm_ok (cl_cm t)" "attached_port t = None"
    using assms detach_truthful[of "on_session (\<lambda>c. c\<lparr>cs_detach := True, cs_mode := None\<rparr>) s" e]
    by (auto simp: ctrl_detach_reply_def client_truthful_def attached_port_def split: option.splits if_splits)
  then show "client_truthful t" by (simp add: truthful_detached)
  show "map_of p ''type'' \<noteq> Some (PStr ''client_mode'')"
    using assms(2) by (auto simp: ctrl_detach_reply_def split: option.splits)
qed

lemma unsupported_truthful:
  assumes "client_truthful s"
  shows "client_truthful (ctrl_send_reply e (frame_payload (FrameDecision (answer UnsupportedRequest (mode_on_record s) c n v))) s)"
proof -
  have "d_mode (answer UnsupportedRequest (mode_on_record s) c n v) = mode_on_record s"
    by (simp add: answer_def mk_decision_def)
  then have "payload_mode (frame_payload (FrameDecision (answer UnsupportedRequest (mode_on_record s) c n v))) = Some (mode_on_record s)"
    using decision_frame_mode by metis
  then show ?thesis using assms decision_frame_fields(1)
    by (auto simp: client_truthful_def attached_port_def mode_on_record_def split: option.splits)
qed

lemma control_keeps_truth:
  assumes "client_truthful s"
  shows "client_truthful (handle_control_frame e data s)"
proof (cases "ctrl_parse_request e data")
  case (Some req)
  let ?se = "se_env (ce_session e)" and ?n = "port_name_of s"
  have ok: "cm_ok (cl_cm s)" using assms by (simp add: client_truthful_def)
  define Q where "Q r = client_truthful (ctrl_send_reply e (fst r) (snd r))" for r
  have 1: "Q (ctrl_power_reply e k req s)" for k
    using power_reply_truthful[OF assms prod.collapse[symmetric]] by (simp add: Q_def)
  have held: "Q (decided e f s)"
    if "cm_ok (snd (f (cl_cm s)))" "\<And>m. truthful (cl_cm s) (as_ls (cl_id s) ?n m) \<Longrightarrow>
        truthful (snd (f (cl_cm s))) (as_ls (cl_id s) ?n (d_mode (fst (f (cl_cm s)))))" for f
  proof -
    have "decided e f s = (fst (decided e f s), snd (decided e f s))" by simp
    then show ?thesis unfolding Q_def by (rule decided_truthful[OF assms]) (use that in blast)+
  qed
  have 2: "Q (decided e (promote_client_to_read_write ?se (cl_id s) ?n) s)"
    by (rule held, rule promote_cm_ok[OF ok], drule promote_truthful[OF _ prod.collapse[symmetric]]) simp
  have 3: "Q (decided e (demote_client_to_read_only ?se (cl_id s) ?n True) s)"
    by (rule held, rule demote_cm_ok[OF ok], drule release_truthful(1)[OF _ prod.collapse[symmetric]]) simp
  have 4: "Q (decided e (take_write_slot ?se (cl_id s) ?n (req_text req ''client_id'')) s)"
    by (rule held, rule take_cm_ok[OF ok], drule take_truthful[OF _ prod.collapse[symmetric]]) simp
  have 5: "Q (rw_holders_frame ?se (cl_cm s) ?n, s)"
    using silent_reply_truthful[OF assms] holders_frame_type by (simp add: Q_def)
  have 6: "Q (ctrl_detach_reply e s)" using detach_reply_truthful[OF assms prod.collapse[symmetric]] by (simp add: Q_def)
  have 7: "Q (frame_payload (FrameDecision (answer UnsupportedRequest (mode_on_record s) (cl_id s) ?n PNone)), s)"
    using unsupported_truthful[OF assms] by (simp add: Q_def)
  have "Q (ctrl_dispatch e (req_get req ''type'') req s)"
    unfolding ctrl_dispatch_def Let_def by (intro if_intro[where P = Q] 1 2 3 4 5 6 7)
  then show ?thesis using Some by (simp add: handle_control_frame_def Q_def split_beta)
qed (use assms in \<open>simp add: handle_control_frame_def\<close>)

lemma chunk_keeps_truth:
  assumes "client_truthful s"
  shows "client_truthful (forward_bytes_to_port e data s)"
proof -
  obtain out frag u where u: "take_chunk (\<lambda>fr t. ([], handle_control_frame e fr t)) (cs_frag (cl_session s)) data s = (out, frag, u)"
    by (metis prod_cases3)
  have "client_truthful s \<longrightarrow> client_truthful (snd (snd (take_chunk (\<lambda>fr t. ([], handle_control_frame e fr t)) (cs_frag (cl_session s)) data s)))"
    by (rule take_chunk_relation[where R = "\<lambda>s t. client_truthful s \<longrightarrow> client_truthful t"]) (auto intro: control_keeps_truth)
  then have "client_truthful u" using u assms by simp
  then have k: "client_truthful (on_session (cs_frag_update (\<lambda>_. frag)) u)"
    by (subst truthful_cong[of _ u]) simp_all
  have w: "client_truthful (write_chunk e b t)" if "client_truthful t" for b t
  proof -
    obtain ok t1 where t1: "write_port e b t = (ok, t1)" by fastforce
    have "quiet (cl_cm t) (cl_cm t1)" "cl_session t1 = cl_session t"
      using t1 write_quiet[of "cl_cm t" "se_dev (ce_session e)" "port_name_of t" b "cl_id t"]
      by (auto simp: write_port_def split: prod.splits)
    then have "client_truthful t1" by (intro client_truthful_quiet[OF that]) simp_all
    then show ?thesis by (subst truthful_cong[of _ t1]) (simp_all add: write_chunk_def t1)
  qed
  show ?thesis using k w assms by (simp add: forward_bytes_to_port_def u Let_def)
qed

lemma connect_keeps_truth:
  assumes "cm_ok (cl_cm s)" "attached_port s = None"
  shows "client_truthful (connect_request e n s)"
proof -
  let ?se = "se_env (ce_session e)"
  obtain d t where c: "call_cm e (connect_client_to_port ?se (cl_id s) n (user_of s)) s = (d, t)" by fastforce
  note F = call_cm_frame[OF c]
  have "connect_client_to_port ?se (cl_id s) n (user_of s) (cl_cm s) = (d, cl_cm t)" using F(1,2) by simp
  then have S: "connect_sound ?se (cl_id s) n (user_of s) (cl_cm s) d (cl_cm t)" using connect_result assms(1) by blast
  show ?thesis
  proof (cases "d_ok d")
    case True
    let ?t = "finish_tcp_connect e n d t"
    have f: "cl_cm ?t = register_client_channel (cl_id s) OWNER (cl_cm t)" "cs_port (cl_session ?t) = Some n"
      "cs_mode (cl_session ?t) = Some (d_mode d)" "cl_id ?t = cl_id s"
      using F(4) by (simp_all add: finish_tcp_connect_def notify_port_disconnected_def Let_def)
    then have "client_truthful ?t"
      using S True by (auto simp: client_truthful_def connect_sound_def mapped_to_def modes_eq attached_port_def split: if_splits)
    then show ?thesis using True by (simp add: connect_request_def c)
  next
    case False
    have "attached_port (connect_request e n s) = None" "cl_cm (connect_request e n s) = cl_cm t"
      using False F(3) assms(2) by (simp_all add: connect_request_def c attached_port_def)
    then show ?thesis using S by (simp add: truthful_detached connect_sound_def)
  qed
qed

lemma send_truthful [simp]: "client_truthful (send_raw e b s) = client_truthful s" "client_truthful (send_line e l s) = client_truthful s"
  by (rule truthful_cong; simp)+

lemma lines_truthful [simp]: "client_truthful (send_lines e ls s) = client_truthful s"
  unfolding send_lines_def by (induction ls arbitrary: s) simp_all

lemma command_keeps_truth:
  assumes "client_truthful s" "attached_port s = None"
  shows "client_truthful (process_client_command e command s)"
proof -
  have ok: "cm_ok (cl_cm s)" using assms(1) by (simp add: client_truthful_def)
  have "client_truthful (connect_command e command s)"
    using assms connect_keeps_truth[OF ok assms(2)] by (simp add: connect_command_def Let_def split: option.splits prod.splits)
  moreover have "client_truthful (list_ports_request e s)" "client_truthful (disconnect_request e s)"
    "client_truthful (on_session (cs_connected_update (\<lambda>_. False)) s)"
    using assms truthful_cong[of "on_session (cs_connected_update (\<lambda>_. False)) s" s]
    by (simp_all add: list_ports_request_def disconnect_request_def Let_def)
  moreover have "client_truthful (power_command_text e command s)"
  proof -
    obtain ok out w where r: "run_power_command (power_ctx_of e s) command (cl_world s) = (ok, out, w)" by (metis prod_cases3)
    have "quiet (cl_cm s) (pw_cm w)" using command_quiet[of "cl_world s" "power_ctx_of e s" command] r by simp
    then have "client_truthful (s\<lparr>cl_world := w\<rparr>)" by (intro client_truthful_quiet[OF assms(1)]) simp_all
    then show ?thesis by (simp add: power_command_text_def r)
  qed
  ultimately show ?thesis using assms by (simp add: process_client_command_def)
qed

lemma read_keeps_truth: "talk_only s t \<Longrightarrow> client_truthful t = client_truthful s"
  by (rule truthful_cong) (auto simp: talk_only_def)

section \<open>Runs of a connection\<close>

text \<open>One step: a line that is read and obeyed, a chunk that is read and forwarded, the end of the stream in
  either phase, the return to commands after a detach.\<close>

inductive client_step :: "'d cl_env \<Rightarrow> 'd clstate \<Rightarrow> 'd clstate \<Rightarrow> bool" for e where
  Obey: "cs_connected (cl_session s) \<Longrightarrow> attached_port s = None \<Longrightarrow> read_text_line s = (Some line, t) \<Longrightarrow>
    client_step e s (if strip line = [] then t else process_client_command e (strip line) t)"
| NoLine: "cs_connected (cl_session s) \<Longrightarrow> attached_port s = None \<Longrightarrow> read_text_line s = (None, t) \<Longrightarrow> client_step e s t"
| Forward: "cs_connected (cl_session s) \<Longrightarrow> attached_port s \<noteq> None \<Longrightarrow> receive_bytes 4096 s = (data, t) \<Longrightarrow> data \<noteq> [] \<Longrightarrow>
    client_step e s (forward_bytes_to_port e data t)"
| NoChunk: "cs_connected (cl_session s) \<Longrightarrow> attached_port s \<noteq> None \<Longrightarrow> receive_bytes 4096 s = ([], t) \<Longrightarrow> client_step e s t"
| Return: "cs_connected (cl_session s) \<Longrightarrow> cs_detach (cl_session s) \<Longrightarrow>
    client_step e s (on_session (cs_detach_update (\<lambda>_. False)) s)"

abbreviation client_run :: "'d cl_env \<Rightarrow> 'd clstate \<Rightarrow> 'd clstate \<Rightarrow> bool" where
  "client_run e \<equiv> (client_step e)\<^sup>*\<^sup>*"

lemma step_keeps_truth: "client_step e s t \<Longrightarrow> client_truthful s \<Longrightarrow> client_truthful t"
proof (induction rule: client_step.induct)
  case (Obey s line t)
  have "client_truthful t" "attached_port t = None"
    using Obey read_keeps_truth[OF talk_read[OF Obey(3)]] talk_read[OF Obey(3)]
    by (auto simp: talk_only_def attached_port_def)
  then show ?case by (auto intro: command_keeps_truth)
next
  case (NoLine s t)
  then show ?case using read_keeps_truth[OF talk_read] by blast
next
  case (Forward s data t)
  then show ?case using read_keeps_truth[OF talk_receive] chunk_keeps_truth by blast
next
  case (NoChunk s t)
  then show ?case using read_keeps_truth[OF talk_receive] by blast
next
  case (Return s)
  then show ?case by (subst truthful_cong[of _ s]) simp_all
qed

lemma run_keeps_truth: "client_run e s t \<Longrightarrow> client_truthful s \<Longrightarrow> client_truthful t"
  by (induction rule: rtranclp_induct) (auto intro: step_keeps_truth)

text \<open>The phases are runs of such steps.\<close>

lemma command_phase_runs: "client_run e s (command_phase e s)"
proof (induction e s rule: command_phase.induct)
  case (1 e s)
  obtain r t where r: "read_text_line s = (r, t)" by fastforce
  show ?case
  proof (cases "cs_connected (cl_session s) \<and> attached_port s = None")
    case True
    show ?thesis
    proof (cases r)
      case None
      then show ?thesis using True r NoLine[of s t e] by (auto simp: command_phase.simps[of e s])
    next
      case (Some line)
      then have "client_step e s (if strip line = [] then t else process_client_command e (strip line) t)"
        using True r Obey by blast
      moreover have "client_run e (if strip line = [] then t else process_client_command e (strip line) t) (command_phase e s)"
        using 1[OF _ r[symmetric] Some refl] True r Some by (auto simp: command_phase.simps[of e s] Let_def)
      ultimately show ?thesis by (rule converse_rtranclp_into_rtranclp)
    qed
  qed (auto simp: command_phase.simps[of e s])
qed

lemma character_mode_runs: "client_run e s (character_mode e s)"
proof (induction e s rule: character_mode.induct)
  case (1 e s)
  obtain data t where r: "receive_bytes 4096 s = (data, t)" by fastforce
  show ?case
  proof (cases "cs_connected (cl_session s) \<and> attached_port s \<noteq> None")
    case True
    show ?thesis
    proof (cases "data = []")
      case True
      then show ?thesis using \<open>cs_connected (cl_session s) \<and> attached_port s \<noteq> None\<close> r NoChunk[of s t e]
        by (auto simp: character_mode.simps[of e s])
    next
      case False
      then have "client_step e s (forward_bytes_to_port e data t)" using True r Forward by blast
      moreover have "client_run e (forward_bytes_to_port e data t) (character_mode e s)"
        using 1[OF _ r[symmetric] False] True r False by (auto simp: character_mode.simps[of e s])
      ultimately show ?thesis by (rule converse_rtranclp_into_rtranclp)
    qed
  qed (auto simp: character_mode.simps[of e s])
qed

lemma serve_attached_runs: "client_run e s (serve_attached e s)"
proof (induction e s rule: serve_attached.induct)
  case (1 e s)
  let ?t = "character_mode e s"
  show ?case
  proof (cases "cs_connected (cl_session s) \<and> attached_port s \<noteq> None")
    case True
    note run = character_mode_runs[of e s]
    show ?thesis
    proof (cases "cs_connected (cl_session ?t) \<and> cs_detach (cl_session ?t)")
      case det: True
      have "client_run e ?t (command_phase e (on_session (cs_detach_update (\<lambda>_. False)) ?t))"
        by (rule converse_rtranclp_into_rtranclp[OF Return command_phase_runs]) (use det in simp_all)
      then show ?thesis using 1(1)[OF _ refl det] run True det by (auto simp: serve_attached.simps[of e s] Let_def)
    next
      case False
      then show ?thesis using 1(2)[OF _ refl False] run True by (auto simp: serve_attached.simps[of e s] Let_def)
    qed
  qed (auto simp: serve_attached.simps[of e s])
qed

lemma detach_frees:
  assumes "client_truthful s" "attached_port s = Some n"
  shows "unplugged (cl_id s) (cl_cm (detach_from_port e s))"
    "modes (cl_cm (detach_from_port e s)) k x = (if k = n \<and> x = cl_id s then None else modes (cl_cm s) k x)"
proof -
  let ?u = "s\<lparr>cl_ports := drop_port_client n (cl_id s) (cl_ports s)\<rparr>"
  let ?se = "se_env (ce_session e)"
  obtain r t where c: "call_cm e (disconnect_client_from_port ?se (cl_id s) n) ?u = (r, t)" by fastforce
  have ok: "cm_ok (cl_cm s)" "mapped_to (cl_cm s) (cl_id s) n" using assms by (simp_all add: client_truthful_def)
  have "disconnect_client_from_port ?se (cl_id s) n (cl_cm s) = (r, cl_cm t)" using call_cm_frame(1,2)[OF c] by simp
  note R = disconnect_result[OF this ok(1)]
  show "unplugged (cl_id s) (cl_cm (detach_from_port e s))"
    "modes (cl_cm (detach_from_port e s)) k x = (if k = n \<and> x = cl_id s then None else modes (cl_cm s) k x)"
    using R(1,3,4) ok(2) assms(2) c
    by (simp_all add: detach_from_port_def Let_def unplugged_def modes_eq unregister_client_channel_def)
qed

section \<open>What a client is told and what it holds\<close>

text \<open>C25: Whatever the client sends after it connected, a connection whose record says read-write holds the write
  slot of the port it is attached to.\<close>

theorem recorded_mode_is_held:
  assumes "cm_ok (cl_cm s)" "cs_port (cl_session s) = None" "client_run e s t"
    and "attached_port t = Some n" "cs_mode (cl_session t) = Some ReadWrite"
  shows "modes (cl_cm t) n (cl_id t) = Some ReadWrite"
proof -
  have "client_truthful s" using assms(1,2) by (simp add: client_truthful_def attached_port_def)
  from run_keeps_truth[OF assms(3) this] show ?thesis using assms(4,5) by (simp add: client_truthful_def)
qed

text \<open>However an attached connection came to where it is, its end frees the port: the client is mapped to no
  port and has no task and no mode there, and nobody else's mode changes.\<close>

theorem ending_frees_the_port:
  assumes "cm_ok (cl_cm s)" "cs_port (cl_session s) = None" "client_run e s t"
    and "attached_port t = Some n" "\<not> cs_teardown (cl_session t)"
  shows "unplugged (cl_id t) (cl_cm (end_session e t)) \<and> \<not> cs_connected (cl_session (end_session e t))
    \<and> modes (cl_cm (end_session e t)) k x = (if k = n \<and> x = cl_id t then None else modes (cl_cm t) k x)"
proof -
  have "client_truthful s" using assms(1,2) by (simp add: client_truthful_def attached_port_def)
  then have t: "client_truthful t" by (rule run_keeps_truth[OF assms(3)])
  let ?u = "on_session (cs_teardown_update (\<lambda>_. True)) t"
  have "client_truthful ?u" using t truthful_cong[of ?u t] by simp
  moreover have "attached_port ?u = Some n" using assms(4) by (simp add: attached_port_def)
  ultimately show ?thesis using detach_frees[of ?u n e] assms(5) by (simp add: end_session_def)
qed

end
