(* ===== verification/ClientLogin.thy ===== *)
theory ClientLogin
  imports ClientFacts
begin

text \<open>
  Both ends of a password login together: the lines the client program writes and the lines the listener
  answers, over streams that the network cuts as it likes.
\<close>

section \<open>Reading a line on either end\<close>

lemma ascii_decode: "\<forall>c \<in> set b. code c < 128 \<Longrightarrow> decode_text_ignore b = b"
  using decode_encode_text[of b] encode_ascii[of b] by simp

lemma rstrip_crlf_id: "CR \<notin> set l \<Longrightarrow> LF \<notin> set l \<Longrightarrow> rstrip_crlf l = l"
  by (cases l rule: rev_cases) (auto simp: rstrip_crlf_def)

lemma server_reads:
  assumes "cs_connected (cl_session s)" "[] \<notin> set (cl_in s)" "concat (cl_in s) = l @ LF # rest" "plain_line l" "length l \<le> 1024"
  shows "\<exists>segs. read_text_line s = (Some l, s\<lparr>cl_in := segs\<rparr>) \<and> concat segs = rest \<and> [] \<notin> set segs"
proof -
  have l: "LF \<notin> set l" "CR \<notin> set l" "\<forall>c \<in> set l. code c < 128" using assms(4) by (auto simp: plain_line_def)
  have f: "filter (\<lambda>c. c \<noteq> CR) l = l" using l(2) by (intro filter_True) auto
  have "fst (collect_line [] s) = Some l"
    using collect_gives[OF assms(1-3) l(1), of "[]"] assms(5) f rstrip_crlf_id[OF l(2,1)] ascii_decode[OF l(3)] by simp
  moreover have "\<exists>segs. snd (collect_line [] s) = s\<lparr>cl_in := segs\<rparr> \<and> concat segs = rest \<and> [] \<notin> set segs"
    using collect_gives[OF assms(1-3) l(1), of "[]"] assms(5) f by simp
  ultimately show ?thesis unfolding read_text_line_def by (metis prod.collapse)
qed

lemma next_line_gives:
  "concat segs = l @ LF # rest \<Longrightarrow> LF \<notin> set l \<Longrightarrow> \<exists>left. next_line segs = (l @ [LF], left) \<and> concat left = rest"
proof (induction segs arbitrary: l)
  case (Cons seg segs)
  show ?case
  proof (cases "find_byte LF seg")
    case None
    then have n: "LF \<notin> set seg" by (simp add: find_byte_def split: if_splits)
    then obtain k where k: "l = seg @ k" "concat segs = k @ LF # rest"
      using Cons.prems(1) by (auto simp: append_eq_append_conv2 append_eq_Cons_conv Cons_eq_append_conv)
    then obtain left where "next_line segs = (k @ [LF], left)" "concat left = rest" using Cons by auto
    then show ?thesis using None k(1) by simp
  next
    case (Some n)
    have "find_byte LF (seg @ concat segs) = Some (length l)"
      using Cons.prems by (simp add: find_byte_append find_byte_def[of LF l])
    then have n: "n = length l" using Some by (simp add: find_byte_append)
    have "n < length seg" by (rule find_byte_less[OF Some])
    then have "take (Suc n) seg = l @ [LF]" "drop (Suc n) seg @ concat segs = rest"
      using arg_cong[OF Cons.prems(1), of "take (Suc n)"] arg_cong[OF Cons.prems(1), of "drop (Suc n)"] n by auto
    then show ?thesis using Some by auto
  qed
qed simp

lemma client_reads:
  assumes "concat (ta_in c) = l @ LF # rest" "LF \<notin> set l"
  shows "\<exists>segs. readline c = (l @ [LF], c\<lparr>ta_in := segs\<rparr>) \<and> concat segs = rest"
  using next_line_gives[OF assms] by (auto simp: readline_def)

section \<open>The texts of the exchange\<close>

definition b64_char :: "char \<Rightarrow> bool" where
  "b64_char c \<longleftrightarrow> 42 < code c \<and> code c \<noteq> 58 \<and> code c < 128"

lemma b64_char_sextet: "n < 64 \<Longrightarrow> b64_char (sextet_char n)"
  by (auto simp: sextet_char_def b64_char_def)

lemma b64_chars: "\<forall>c \<in> set (b64encode bs). b64_char c"
proof (induction bs rule: b64encode.induct)
  case (2 a)
  then show ?case using byte_parts[of a] by (auto simp: Let_def b64_char_sextet b64_char_def[of "CHR ''=''"])
next
  case (3 a b)
  have "code a mod 4 * 16 + code b div 16 < 64" "code b mod 16 * 4 < 64" using byte_parts(2)[of b] by auto
  then show ?case using byte_parts(1)[of a] by (auto simp: Let_def b64_char_sextet b64_char_def[of "CHR ''=''"])
next
  case (4 a b c rest)
  have "code a mod 4 * 16 + code b div 16 < 64" "code b mod 16 * 4 + code c div 64 < 64"
    using byte_parts(2)[of b] byte_parts(3)[of c] by auto
  then show ?case using 4 byte_parts(1)[of a] by (simp add: Let_def b64_char_sextet)
qed simp

lemma b64_plain: "plain_line (b64encode bs)" "CHR '':'' \<notin> set (b64encode bs)" "\<forall>c \<in> set (b64encode bs). \<not> isspace c"
  using b64_chars[of bs] by (fastforce simp: b64_char_def plain_line_def CR_def LF_def isspace_def)+

lemma plain_append: "plain_line (a @ b) \<longleftrightarrow> plain_line a \<and> plain_line b"
  by (auto simp: plain_line_def)

definition hmac_init :: "string \<Rightarrow> bytes" where
  "hmac_init u = ''AUTH:USER:HMAC:'' @ u"

definition hmac_challenge :: "bytes \<Rightarrow> bytes" where
  "hmac_challenge nonce = ''AUTH:CHALLENGE:'' @ b64encode nonce"

definition hmac_response :: "client_env \<Rightarrow> string \<Rightarrow> bytes \<Rightarrow> bytes" where
  "hmac_response x p nonce = ''AUTH:RESPONSE:'' @ challenge_response x p nonce"

definition auth_welcome :: "string \<Rightarrow> bytes" where
  "auth_welcome u = ''AUTH:SUCCESS:Welcome '' @ u"

lemma split_tag: "CHR '':'' \<notin> set w \<Longrightarrow> split_on (CHR '':'') (w @ CHR '':'' # s) = w # split_on (CHR '':'') s"
  by (rule split_on_sep)

lemma split_texts:
  "CHR '':'' \<notin> set u \<Longrightarrow> split_on (CHR '':'') (hmac_init u) = [''AUTH'', ''USER'', ''HMAC'', u]"
  "split_on (CHR '':'') (hmac_challenge nonce) = [''AUTH'', ''CHALLENGE'', b64encode nonce]"
  "split_on (CHR '':'') (hmac_response x p nonce) = [''AUTH'', ''RESPONSE'', challenge_response x p nonce]"
  using b64_plain(2) split_on_no_sep[of "CHR '':''"]
  by (simp_all add: hmac_init_def hmac_challenge_def hmac_response_def challenge_response_def)

lemma plain_texts:
  "plain_line u \<Longrightarrow> plain_line (hmac_init u)" "plain_line (hmac_challenge nonce)" "plain_line (hmac_response x p nonce)"
  "plain_line u \<Longrightarrow> plain_line (auth_welcome u)"
proof -
  have t: "plain_line ''AUTH:USER:HMAC:''" "plain_line ''AUTH:CHALLENGE:''" "plain_line ''AUTH:RESPONSE:''"
    "plain_line ''AUTH:SUCCESS:Welcome ''"
    by code_simp+
  show "plain_line u \<Longrightarrow> plain_line (hmac_init u)" "plain_line (hmac_challenge nonce)" "plain_line (hmac_response x p nonce)"
    "plain_line u \<Longrightarrow> plain_line (auth_welcome u)"
    using t b64_plain(1) by (simp_all only: auth_welcome_def hmac_init_def hmac_challenge_def hmac_response_def challenge_response_def plain_append)
qed

lemma text_is_bytes: "plain_line l \<Longrightarrow> encode_text l = l"
  by (rule encode_ascii) (simp add: plain_line_def)

lemma line_text_plain: "plain_line l \<Longrightarrow> l \<noteq> [] \<Longrightarrow> \<forall>c \<in> set l. \<not> isspace c \<Longrightarrow> line_text (l @ [LF]) = l"
proof -
  assume a: "plain_line l" "l \<noteq> []" "\<forall>c \<in> set l. \<not> isspace c"
  have "decode_text_ignore (l @ [LF]) = l @ [LF]"
    using a(1) by (intro ascii_decode) (auto simp: plain_line_def LF_def)
  moreover have "lstrip (l @ [LF]) = l @ [LF]" using a(2,3) by (cases l) (auto simp: lstrip_def)
  moreover have "rstrip (l @ [LF]) = l"
    using a(3) dropWhile_no_space[of "rev l"] by (simp add: rstrip_def isspace_def LF_def)
  ultimately show ?thesis by (simp add: line_text_def strip_def)
qed

lemma challenge_text: "line_text (hmac_challenge nonce @ [LF]) = hmac_challenge nonce"
proof (rule line_text_plain)
  show "\<forall>c \<in> set (hmac_challenge nonce). \<not> isspace c" using b64_plain(3) by (auto simp: hmac_challenge_def isspace_def)
  show "plain_line (hmac_challenge nonce)" by (rule plain_texts(2))
  show "hmac_challenge nonce \<noteq> []" by (simp add: hmac_challenge_def)
qed

lemma text_lengths: "length (hmac_init u) = 15 + length u"
  "length (hmac_response x p nonce) = 14 + length (challenge_response x p nonce)"
  by (simp_all add: hmac_init_def hmac_response_def)

section \<open>A password login\<close>

lemma still_unlocked:
  assumes "is_user_locked now u ip a = (False, a1)" "am_fails b = am_fails a1" "now \<le> later" "0 \<le> later"
  shows "\<exists>b1. is_user_locked later u ip b = (False, b1)"
proof -
  have "\<not> fst (is_user_locked later u ip b)"
    using assms by (auto simp: is_user_locked_def Let_def split: option.splits if_splits)
  then show ?thesis by (metis prod.collapse)
qed

lemma send_line_works:
  "\<forall>k. ce_sendable e k \<Longrightarrow> send_line e l s = s\<lparr>cl_sends := Suc (cl_sends s), cl_out := cl_out s @ encode_text l @ [LF]\<rparr>"
  by (simp add: send_line_def send_raw_def Let_def)

lemma proof_verified:
  assumes "is_user_locked now u ip b = (False, b1)" "dict_get (am_pw_challenges b) u = Some \<lparr>pc_nonce = nonce, pc_expires = till, pc_hex = h\<rparr>"
    "now \<le> till" "h \<noteq> []" "unhex ae h = Some key" "unbase64 ae resp = Some (hmac_sha256 ae key nonce)"
  shows "\<exists>b2. verify_password_hmac ae now u resp ip b = (True, b2)"
proof -
  have "dict_get (am_pw_challenges b1) u = Some \<lparr>pc_nonce = nonce, pc_expires = till, pc_hex = h\<rparr>"
    using assms(2) locked_fields[OF assms(1)] by simp
  then show ?thesis using assms by (simp add: verify_password_hmac_def Let_def)
qed

text \<open>What holds on the server for the login to be the user's: the configured hash is the one of the password,
  the user is not locked out, the answer comes in time, and base64 is read back.\<close>

definition login_open :: "'d cl_env \<Rightarrow> client_env \<Rightarrow> string \<Rightarrow> string \<Rightarrow> 'd clstate \<Rightarrow> bool" where
  "login_open e x u p s \<longleftrightarrow>
     ce_auth e = Some (xe_auth x) \<and> (\<forall>k. ce_sendable e k) \<and> cs_connected (cl_session s)
     \<and> get_password_hash_hex u (cl_auth s) = Some (sha256_hex (xe_auth x) p) \<and> sha256_hex (xe_auth x) p \<noteq> []
     \<and> unhex (xe_auth x) (sha256_hex (xe_auth x) p) \<noteq> None
     \<and> (\<forall>bs. unbase64 (xe_auth x) (b64encode bs) = Some bs)
     \<and> \<not> fst (is_user_locked (ce_clock e 0) u (source_ip (cl_session s)) (cl_auth s))
     \<and> 0 \<le> ce_clock e 1 \<and> ce_clock e 0 \<le> ce_clock e 1 \<and> ce_clock e 1 \<le> ce_clock e 0 + 30"

definition login_name :: "string \<Rightarrow> bool" where
  "login_name u \<longleftrightarrow> plain_line u \<and> CHR '':'' \<notin> set u \<and> length u \<le> 1000"

definition client_lines :: "client_env \<Rightarrow> string \<Rightarrow> string \<Rightarrow> bytes \<Rightarrow> bytes" where
  "client_lines x u p nonce = hmac_init u @ [LF] @ hmac_response x p nonce @ [LF]"

lemma listener_accepts:
  assumes o: "login_open e x u p s" and u: "login_name u" and len: "length (challenge_response x p (ce_nonce e)) \<le> 1000"
    and wire: "[] \<notin> set (cl_in s)" "concat (cl_in s) = client_lines x u p (ce_nonce e) @ rest"
  shows "\<exists>t. authenticate_client e s = (True, t) \<and> cs_user (cl_session t) = Some u
    \<and> cl_out t = cl_out s @ hmac_challenge (ce_nonce e) @ [LF] \<and> concat (cl_in t) = rest"
proof -
  let ?ae = "xe_auth x" and ?n = "ce_nonce e" and ?ip = "source_ip (cl_session s)" and ?h = "sha256_hex (xe_auth x) p"
  obtain key where key: "unhex ?ae ?h = Some key" using o by (auto simp: login_open_def)
  obtain segs where i: "read_text_line s = (Some (hmac_init u), s\<lparr>cl_in := segs\<rparr>)"
    "concat segs = (hmac_response x p ?n @ [LF]) @ rest" "[] \<notin> set segs"
    using server_reads[of s "hmac_init u" "(hmac_response x p ?n @ [LF]) @ rest"] o u wire plain_texts(1)[of u]
    by (auto simp: client_lines_def login_open_def login_name_def text_lengths)
  let ?s1 = "s\<lparr>cl_in := segs\<rparr>"
  obtain a1 where l: "is_user_locked (ce_clock e 0) u ?ip (cl_auth s) = (False, a1)"
    using o by (cases "is_user_locked (ce_clock e 0) u ?ip (cl_auth s)") (simp add: login_open_def)
  let ?entry = "\<lparr>pc_nonce = ?n, pc_expires = ce_clock e 0 + 30, pc_hex = ?h\<rparr>"
  let ?a2 = "a1\<lparr>am_pw_challenges := dict_set u ?entry (am_pw_challenges a1)\<rparr>"
  have c: "start_password_hmac_challenge (ce_clock e 0) ?n u a1 = (Some ?n, ?a2)"
  proof -
    have "get_password_hash_hex u a1 = Some ?h" "?h \<noteq> []"
      using o locked_fields[OF l] by (auto simp: login_open_def get_password_hash_hex_def)
    then show ?thesis by (simp add: start_password_hmac_challenge_def)
  qed
  let ?s2 = "send_line e (hmac_challenge ?n) (?s1\<lparr>cl_auth := ?a2\<rparr>)"
  have s2: "?s2 = ?s1\<lparr>cl_auth := ?a2, cl_sends := Suc (cl_sends s), cl_out := cl_out s @ hmac_challenge ?n @ [LF]\<rparr>"
    using o send_line_works[of e] text_is_bytes[OF plain_texts(2), of ?n] by (simp add: login_open_def)
  obtain left where r: "read_text_line ?s2 = (Some (hmac_response x p ?n), ?s2\<lparr>cl_in := left\<rparr>)" "concat left = rest"
    using server_reads[of ?s2 "hmac_response x p ?n" rest] o i len plain_texts(3)[of x p ?n]
    by (auto simp: s2 login_open_def text_lengths)
  obtain b1 where l2: "is_user_locked (ce_clock e 1) u ?ip ?a2 = (False, b1)"
    using still_unlocked[OF l, of ?a2 "ce_clock e 1"] o by (auto simp: login_open_def)
  have ub: "unbase64 ?ae (challenge_response x p ?n) = Some (hmac_sha256 ?ae key ?n)"
    using o key by (simp add: challenge_response_def password_digest_def login_open_def)
  obtain b2 where v: "verify_password_hmac ?ae (ce_clock e 1) u (challenge_response x p ?n) ?ip ?a2 = (True, b2)"
  proof -
    have "dict_get (am_pw_challenges ?a2) u = Some ?entry" "ce_clock e 1 \<le> ce_clock e 0 + 30" "?h \<noteq> []"
      using o by (simp_all add: login_open_def)
    from proof_verified[OF l2 this key ub] that show ?thesis by blast
  qed
  have pre: "startswith ''AUTH:USER:HMAC:'' (hmac_init u)" "\<not> startswith ''AUTH:PK:INIT:'' (hmac_init u)"
    "startswith ''AUTH:RESPONSE:'' (hmac_response x p ?n)"
    by (simp_all add: startswith_def hmac_init_def hmac_response_def)
  have h: "''AUTH:CHALLENGE:'' @ b64encode n = hmac_challenge n" for n by (simp add: hmac_challenge_def)
  have sp: "split_on (CHR '':'') (hmac_init u) = [''AUTH'', ''USER'', ''HMAC'', u]"
    using u by (intro split_texts) (simp add: login_name_def)
  have "auth_hmac e ?ae (hmac_init u) ?s1 = (True, on_session (login_as u) (?s2\<lparr>cl_in := left, cl_auth := b2\<rparr>))"
    unfolding auth_hmac_def Let_def sp h
    using l c r v pre(3) by (simp add: call_auth_def s2 split_texts conclude_def)
  then show ?thesis using o i(1) pre(1,2) r(2) by (auto simp: authenticate_client_def login_open_def s2)
qed


end
