(* ===== verification/ClientKeys.thy ===== *)
theory ClientKeys
  imports ClientFacts SessionFacts
begin

text \<open>
  What of a client's typing reaches the port.  The split of the stream does not depend on what its frames do,
  so the frames of a read can be collected first and handled afterwards.
\<close>

section \<open>The frames of a read\<close>

abbreviation noting :: "bytes \<Rightarrow> bytes list \<Rightarrow> bytes \<times> bytes list" where
  "noting fr frs \<equiv> ([], frs @ [fr])"

definition frames_in :: "bytes \<Rightarrow> bytes \<times> bytes \<times> bytes list" where
  "frames_in d = split_frames noting d []"

lemma split_silent:
  "\<exists>out frag frs. \<forall>s acc. split_frames (\<lambda>fr t. ([], f fr t)) d s = (out, frag, fold f frs s)
     \<and> split_frames noting d acc = (out, frag, acc @ frs)"
proof (induction "length d" arbitrary: d rule: less_induct)
  case less
  show ?case
  proof (cases "find_sub CTRL_MARKER d")
    case None
    show ?thesis by (rule exI[of _ d], rule exI[of _ "[]"], rule exI[of _ "[]"]) (simp add: None split_frames.simps[of _ d])
  next
    case (Some k)
    note k = Some
    show ?thesis
    proof (cases "find_byte LF (drop k d)")
      case None
      show ?thesis
        by (rule exI[of _ "if length (drop k d) \<le> CTRL_FRAME_MAX then take k d else d"],
            rule exI[of _ "if length (drop k d) \<le> CTRL_FRAME_MAX then drop k d else []"], rule exI[of _ "[]"])
          (simp add: k None split_frames.simps[of _ d])
    next
      case (Some n)
      have "length (drop (Suc (k + n)) d) < length d" using find_marker_less[OF k] by simp
      from less[OF this] obtain out frag frs where r:
        "\<And>s acc. split_frames (\<lambda>fr t. ([], f fr t)) (drop (Suc (k + n)) d) s = (out, frag, fold f frs s)"
        "\<And>acc. split_frames noting (drop (Suc (k + n)) d) acc = (out, frag, acc @ frs)" by metis
      show ?thesis
        by (rule exI[of _ "take k d @ out"], rule exI[of _ frag], rule exI[of _ "take (Suc n) (drop k d) # frs"])
          (simp add: k Some r split_frames.simps[of _ d])
    qed
  qed
qed

lemma split_by_frames:
  "frames_in d = (out, frag, frs) \<Longrightarrow> split_frames (\<lambda>fr t. ([], f fr t)) d s = (out, frag, fold f frs s)"
  "frames_in d = (out, frag, frs) \<Longrightarrow> split_frames noting d acc = (out, frag, acc @ frs)"
  using split_silent[of f d] by (auto simp: frames_in_def)

fun all_frames :: "bytes \<Rightarrow> bytes list \<Rightarrow> bytes \<times> bytes \<times> bytes list" where
  "all_frames frag [] = ([], frag, [])"
| "all_frames frag (c # cs) =
     (case frames_in (frag @ c) of
        (out, frag1, frs) \<Rightarrow> (case all_frames frag1 cs of (rest, frag2, frs2) \<Rightarrow> (out @ rest, frag2, frs @ frs2)))"

lemma all_frames_taken:
  "all_frames frag cs = (out, frag2, frs) \<Longrightarrow> take_chunks noting frag cs acc = (out, frag2, acc @ frs)"
proof (induction cs arbitrary: frag acc out frag2 frs)
  case (Cons c cs)
  obtain o1 f1 r1 where c: "frames_in (frag @ c) = (o1, f1, r1)" by (metis prod_cases3)
  obtain o2 f2 r2 where a: "all_frames f1 cs = (o2, f2, r2)" by (metis prod_cases3)
  show ?case using Cons.prems c a Cons.IH[OF a, of "acc @ r1"] split_by_frames(2)[OF c, of acc] by (simp add: take_chunk_split)
qed simp

fun plain_of :: "item \<Rightarrow> bytes" where
  "plain_of (Stretch b) = b"
| "plain_of (Message body) = []"

fun frame_of :: "item \<Rightarrow> bytes list" where
  "frame_of (Stretch b) = []"
| "frame_of (Message body) = [item_bytes (Message body)]"

lemma run_noting: "run_items noting its acc = (concat (map plain_of its), acc @ concat (map frame_of its))"
proof (induction its arbitrary: acc)
  case (Cons it its)
  then show ?case by (cases it) simp_all
qed simp

lemma items_frames:
  assumes "list_all item_ok its" "concat cs = concat (map item_bytes its)" "clean_cuts [] cs"
  shows "all_frames [] cs = (concat (map plain_of its), [], concat (map frame_of its))"
proof -
  obtain out frag frs where a: "all_frames [] cs = (out, frag, frs)" by (metis prod_cases3)
  show ?thesis
    using any_segmentation[OF assms, of noting "[]"] all_frames_taken[OF a, of "[]"] a by (simp add: run_noting)
qed

section \<open>Typing\<close>

definition client_written :: "'d clstate \<Rightarrow> bytes" where
  "client_written s = written (port_name_of s) (cl_id s) (pm_events (cm_pm (cl_cm s)))"

text \<open>A frame that asks for the holders of the write slot, or one that cannot be read: neither changes who writes.\<close>

definition asks_only :: "'d cl_env \<Rightarrow> bytes \<Rightarrow> bool" where
  "asks_only e fr \<longleftrightarrow>
     (case ctrl_parse_request e fr of None \<Rightarrow> True | Some req \<Rightarrow> req_get req ''type'' = PStr ''query_rw_holders'')"

definition writing :: "'d clstate \<Rightarrow> bool" where
  "writing s \<longleftrightarrow> cs_connected (cl_session s) \<and>
     (\<exists>n. attached_port s = Some n \<and> modes (cl_cm s) n (cl_id s) = Some ReadWrite)"

definition same_typist :: "'d clstate \<Rightarrow> 'd clstate \<Rightarrow> bool" where
  "same_typist s t \<longleftrightarrow> cl_world t = cl_world s \<and> cl_in t = cl_in s \<and> cs_id (cl_session t) = cl_id s
     \<and> cs_port (cl_session t) = cs_port (cl_session s) \<and> cs_connected (cl_session t) = cs_connected (cl_session s)
     \<and> cs_frag (cl_session t) = cs_frag (cl_session s)"

lemma typist_keeps: "same_typist s t \<Longrightarrow> writing t = writing s \<and> client_written t = client_written s"
  by (simp add: same_typist_def writing_def client_written_def attached_port_def port_name_of_def)

lemma send_keeps_typist: "\<forall>k. ce_sendable e k \<Longrightarrow> same_typist s (send_raw e b s)"
  by (simp add: same_typist_def send_raw_def Let_def)

lemma asking_keeps_typist:
  assumes "\<forall>k. ce_sendable e k" "asks_only e fr"
  shows "same_typist s (handle_control_frame e fr s)"
proof (cases "ctrl_parse_request e fr")
  case (Some req)
  then have "req_get req ''type'' = PStr ''query_rw_holders''" using assms(2) by (simp add: asks_only_def)
  then have "handle_control_frame e fr s = ctrl_send_reply e (rw_holders_frame (se_env (ce_session e)) (cl_cm s) (port_name_of s)) s"
    using Some by (simp add: handle_control_frame_def ctrl_dispatch_def Let_def)
  moreover have "note_mode (rw_holders_frame (se_env (ce_session e)) (cl_cm s) (port_name_of s)) c = c" for c
    by (simp add: note_mode_def holders_frame_type)
  ultimately show ?thesis using send_keeps_typist[OF assms(1)] by (simp add: ctrl_send_reply_def)
qed (simp add: handle_control_frame_def same_typist_def)

lemma asking_all:
  assumes "\<forall>k. ce_sendable e k"
  shows "\<forall>fr \<in> set frs. asks_only e fr \<Longrightarrow> same_typist s (fold (handle_control_frame e) frs s)"
proof (induction frs arbitrary: s)
  case (Cons fr frs)
  have "same_typist s (handle_control_frame e fr s)" using asking_keeps_typist[OF assms] Cons.prems by simp
  moreover have "same_typist (handle_control_frame e fr s) (fold (handle_control_frame e) frs (handle_control_frame e fr s))"
    using Cons by simp
  ultimately show ?case by (simp add: same_typist_def)
qed (simp add: same_typist_def)

lemma chunk_written:
  assumes "\<forall>k. ce_sendable e k" "writing s"
  shows "writing (write_chunk e b s) \<and> client_written (write_chunk e b s) = client_written s @ b
    \<and> cl_in (write_chunk e b s) = cl_in s \<and> cs_frag (cl_session (write_chunk e b s)) = cs_frag (cl_session s)"
proof -
  obtain n where n: "attached_port s = Some n" "modes (cl_cm s) n (cl_id s) = Some ReadWrite" "cs_connected (cl_session s)"
    using assms(2) by (auto simp: writing_def)
  note nm = attached_name[OF n(1)]
  obtain ok c where w: "cm_write_to_port (se_dev (ce_session e)) n b (cl_id s) (cl_cm s) = (ok, c)" by fastforce
  let ?t = "s\<lparr>cl_world := (cl_world s)\<lparr>pw_cm := c\<rparr>\<rparr>"
  have p: "write_port e b s = (ok, ?t)" using nm w by (simp add: write_port_def)
  have "quiet (cl_cm s) c" using write_quiet[of "cl_cm s" "se_dev (ce_session e)" n b "cl_id s"] w by simp
  then have "writing ?t" using n nm by (simp add: writing_def attached_port_def quiet_def)
  moreover have "client_written ?t = client_written s @ b"
    using write_passed[of "cm_pm (cl_cm s)" n "cl_id s" "se_dev (ce_session e)" b] n(2) w nm
    by (auto simp: client_written_def port_name_of_def cm_write_to_port_def with_pm_Pair modes_eq split: prod.splits)
  moreover have "same_typist ?t (write_chunk e b s)"
    using assms(1) by (simp add: write_chunk_def p same_typist_def send_raw_def Let_def)
  ultimately show ?thesis using typist_keeps[of ?t "write_chunk e b s"] by (simp add: same_typist_def)
qed

lemma forwarded_chunk:
  assumes send: "\<forall>k. ce_sendable e k" and s: "writing s" and c: "frames_in (cs_frag (cl_session s) @ c) = (out, frag, frs)"
    and asks: "\<forall>fr \<in> set frs. asks_only e fr"
  shows "writing (forward_bytes_to_port e c s) \<and> client_written (forward_bytes_to_port e c s) = client_written s @ out
    \<and> cl_in (forward_bytes_to_port e c s) = cl_in s \<and> cs_frag (cl_session (forward_bytes_to_port e c s)) = frag"
proof -
  let ?u = "fold (handle_control_frame e) frs s"
  let ?v = "on_session (cs_frag_update (\<lambda>_. frag)) ?u"
  have k: "same_typist s ?u" by (rule asking_all[OF send asks])
  have v: "writing ?v" "client_written ?v = client_written s" "cl_in ?v = cl_in s"
    using typist_keeps[OF k] s k by (auto simp: writing_def client_written_def attached_port_def port_name_of_def same_typist_def)
  have a: "attached_port s \<noteq> None" using s by (auto simp: writing_def)
  show ?thesis
    using chunk_written[OF send v(1), of out] v split_by_frames(1)[OF c, of "handle_control_frame e" s] a
    by (auto simp: forward_bytes_to_port_def take_chunk_split Let_def)
qed

lemma typing_written:
  assumes send: "\<forall>k. ce_sendable e k"
  shows "writing s \<Longrightarrow> all_frames (cs_frag (cl_session s)) (cl_in s) = (out, frag, frs) \<Longrightarrow> \<forall>fr \<in> set frs. asks_only e fr \<Longrightarrow>
    \<forall>c \<in> set (cl_in s). c \<noteq> [] \<and> length c \<le> 4096 \<Longrightarrow> client_written (character_mode e s) = client_written s @ out"
proof (induction "length (cl_in s)" arbitrary: s out frs)
  case 0
  then have i: "cl_in s = []" by simp
  have "character_mode e s = on_session (cs_connected_update (\<lambda>_. False)) s"
    using 0 i by (auto simp: character_mode.simps[of e s] receive_bytes_def writing_def)
  then show ?case using 0 i by (simp add: client_written_def port_name_of_def)
next
  case (Suc k)
  then obtain c cs where i: "cl_in s = c # cs" by (cases "cl_in s") auto
  obtain o1 f1 r1 where f: "frames_in (cs_frag (cl_session s) @ c) = (o1, f1, r1)" by (metis prod_cases3)
  obtain o2 f2 r2 where a: "all_frames f1 cs = (o2, f2, r2)" by (metis prod_cases3)
  have e: "out = o1 @ o2" "frs = r1 @ r2" "f2 = frag" using Suc.prems(2) i f a by simp_all
  let ?t = "s\<lparr>cl_in := cs\<rparr>"
  have r: "receive_bytes 4096 s = (c, ?t)" using Suc.prems(4) i by (simp add: receive_bytes_def)
  have t: "writing ?t" "client_written ?t = client_written s" "cs_frag (cl_session ?t) = cs_frag (cl_session s)"
    using Suc.prems(1) by (simp_all add: writing_def client_written_def attached_port_def port_name_of_def)
  note F = forwarded_chunk[OF send t(1), of c o1 f1 r1, unfolded t(3), OF f]
  have "character_mode e s = character_mode e (forward_bytes_to_port e c ?t)"
    using Suc.prems(1,4) i r by (auto simp: character_mode.simps[of e s] writing_def)
  moreover have "client_written (character_mode e (forward_bytes_to_port e c ?t))
      = client_written (forward_bytes_to_port e c ?t) @ o2"
    by (rule Suc.hyps(1)) (use Suc F a i e in \<open>auto\<close>)
  ultimately show ?case using F Suc.prems(3) e t(2) by simp
qed


end
