(* ===== verification/ClientRegistry.thy ===== *)
theory ClientRegistry
  imports ClientFacts
begin

text \<open>
  The listener of \<^verbatim>\<open>openmux/server/adapters/client_listener.py\<close> as a whole: its registry of sessions and of
  the clients of each port, what it writes to which socket, notices, teardown, and the reload of its
  configuration.  \<open>up\<close> says of a client whether a write to its socket succeeds.
\<close>

section \<open>State\<close>

record 'd listener_state =
  rg_clients :: "(string, csession) pydict"
  rg_ports :: "(string, string list) pydict"
  rg_world :: "'d power_world"
  rg_sent :: "(string \<times> bytes) list"
  rg_running :: bool
  rg_listening :: bool
  rg_enabled :: bool
  rg_host :: string
  rg_port :: int
  rg_limits :: "(string, pyval) pydict"

abbreviation rg_cm :: "'d listener_state \<Rightarrow> cm" where
  "rg_cm s \<equiv> pw_cm (rg_world s)"

definition on_client :: "string \<Rightarrow> (csession \<Rightarrow> csession) \<Rightarrow> 'd listener_state \<Rightarrow> 'd listener_state" where
  "on_client cid f s =
     (case dict_get (rg_clients s) cid of None \<Rightarrow> s | Some c \<Rightarrow> s\<lparr>rg_clients := dict_set cid (f c) (rg_clients s)\<rparr>)"

section \<open>Writing to clients\<close>

text \<open>A write that fails ends the connection and is not reported to the caller.\<close>

definition write_client :: "(string \<Rightarrow> bool) \<Rightarrow> string \<Rightarrow> bytes \<Rightarrow> 'd listener_state \<Rightarrow> 'd listener_state" where
  "write_client up cid data s =
     (if \<not> dict_has (rg_clients s) cid then s
      else if up cid then s\<lparr>rg_sent := rg_sent s @ [(cid, data)]\<rparr>
      else on_client cid (cs_connected_update (\<lambda>_. False)) s)"

definition send_data_to_session :: "(string \<Rightarrow> bool) \<Rightarrow> string \<Rightarrow> bytes \<Rightarrow> 'd listener_state \<Rightarrow> bool \<times> 'd listener_state" where
  "send_data_to_session up cid data s =
     (if dict_has (rg_clients s) cid then (True, write_client up cid data s) else (False, s))"

definition send_frame_to_session ::
  "(pyfloat \<Rightarrow> string) \<Rightarrow> (string \<Rightarrow> bool) \<Rightarrow> string \<Rightarrow> (string \<times> pyval) list \<Rightarrow> 'd listener_state \<Rightarrow> bool \<times> 'd listener_state" where
  "send_frame_to_session fr up cid p s =
     (if dict_has (rg_clients s) cid
      then (True, on_client cid (note_mode p) (write_client up cid (control_frame fr p) s)) else (False, s))"

text \<open>A call of the console manager; the frames it sends to clients of this listener are written to their sockets.\<close>

definition call_manager :: "'d cl_env \<Rightarrow> (string \<Rightarrow> bool) \<Rightarrow> (cm \<Rightarrow> 'a \<times> cm) \<Rightarrow> 'd listener_state \<Rightarrow> 'a \<times> 'd listener_state" where
  "call_manager e up f s =
     (case f (rg_cm s) of
        (r, c) \<Rightarrow>
          (r, fold (\<lambda>(cid, fr) t. snd (send_frame_to_session (ce_float_text e) up cid (frame_payload fr) t))
                (drop (length (cm_sent (rg_cm s))) (cm_sent c)) (s\<lparr>rg_world := (rg_world s)\<lparr>pw_cm := c\<rparr>\<rparr>)))"

section \<open>Detach and teardown\<close>

definition session_port :: "csession \<Rightarrow> string option" where
  "session_port c = (case cs_port c of None \<Rightarrow> None | Some n \<Rightarrow> if n = [] then None else Some n)"

definition detach_session :: "'d cl_env \<Rightarrow> (string \<Rightarrow> bool) \<Rightarrow> string \<Rightarrow> 'd listener_state \<Rightarrow> 'd listener_state" where
  "detach_session e up cid s =
     (case dict_get (rg_clients s) cid of
        None \<Rightarrow> s
      | Some c \<Rightarrow>
          (case session_port c of
             None \<Rightarrow> s
           | Some n \<Rightarrow>
               (let s1 = s\<lparr>rg_ports := drop_port_client n cid (rg_ports s)\<rparr>;
                    s2 = snd (call_manager e up (disconnect_client_from_port (se_env (ce_session e)) cid n) s1);
                    s3 = s2\<lparr>rg_world := (rg_world s2)\<lparr>pw_cm := unregister_client_channel cid (rg_cm s2)\<rparr>\<rparr>
                in on_client cid (cs_port_update (\<lambda>_. None)) s3)))"

definition teardown_client :: "'d cl_env \<Rightarrow> (string \<Rightarrow> bool) \<Rightarrow> string \<Rightarrow> 'd listener_state \<Rightarrow> 'd listener_state" where
  "teardown_client e up cid s =
     (case dict_get (rg_clients s) cid of
        None \<Rightarrow> s
      | Some c \<Rightarrow>
          if cs_teardown c then s
          else
            (let s1 = detach_session e up cid (on_client cid (cs_teardown_update (\<lambda>_. True)) s)
             in s1\<lparr>rg_clients := dict_del cid (rg_clients s1)\<rparr>))"

definition SHUTDOWN_LINE :: bytes where
  "SHUTDOWN_LINE = ''SERVER:SHUTDOWN:Server going down'' @ [LF]"

definition broadcast_shutdown :: "(string \<Rightarrow> bool) \<Rightarrow> 'd listener_state \<Rightarrow> 'd listener_state" where
  "broadcast_shutdown up s =
     fold (\<lambda>(cid, c) t. if cs_connected c then write_client up cid SHUTDOWN_LINE t else t) (rg_clients s) s"

definition stop_listener :: "'d cl_env \<Rightarrow> (string \<Rightarrow> bool) \<Rightarrow> 'd listener_state \<Rightarrow> 'd listener_state" where
  "stop_listener e up s =
     (let s1 = broadcast_shutdown up (s\<lparr>rg_running := False\<rparr>);
          s2 = fold (teardown_client e up) (map fst (rg_clients s1)) s1
      in s2\<lparr>rg_listening := False\<rparr>)"

definition destroy_port :: "'d cl_env \<Rightarrow> (string \<Rightarrow> bool) \<Rightarrow> string \<Rightarrow> 'd listener_state \<Rightarrow> 'd listener_state" where
  "destroy_port e up n s =
     (case dict_get (rg_ports s) n of None \<Rightarrow> s | Some cids \<Rightarrow> fold (detach_session e up) cids s)"

section \<open>Notices\<close>

definition emit_notice_to_port_clients :: "(string \<Rightarrow> bool) \<Rightarrow> string \<Rightarrow> string \<Rightarrow> 'd listener_state \<Rightarrow> 'd listener_state" where
  "emit_notice_to_port_clients up n message s =
     fold (\<lambda>cid t. write_client up cid (encode_text message) t)
       (case dict_get (rg_ports s) n of None \<Rightarrow> [] | Some cids \<Rightarrow> cids) s"

definition DOWN_NOTICE :: string where
  "DOWN_NOTICE = CRLF @ ''[Port disconnected on server]'' @ CRLF"

definition RECONNECTED_NOTICE :: string where
  "RECONNECTED_NOTICE = CRLF @ ''[Reconnected]'' @ CRLF"

definition UP_EVENTS :: "string list" where
  "UP_EVENTS = [''federated_port_registered'', ''client_connected'', ''port_registered'', ''serial_connected'',
     ''tcp_connected'', ''command_connected'']"

text \<open>\<open>show\<close> is \<open>str\<close> of a value that is not a string.\<close>

definition relay_power_outlet_change ::
  "(pyval \<Rightarrow> string) \<Rightarrow> (string \<Rightarrow> bool) \<Rightarrow> string \<Rightarrow> request \<Rightarrow> 'd listener_state \<Rightarrow> 'd listener_state" where
  "relay_power_outlet_change show up n changes s =
     (let outlet = (case req_get changes ''outlet'' of PStr t \<Rightarrow> t | v \<Rightarrow> show v)
      in emit_notice_to_port_clients up n
           (format_power_notice outlet (req_bool changes ''on'') (truthy (req_get changes ''all_power_lost''))) s)"

definition went_down :: "request \<Rightarrow> bool" where
  "went_down changes \<longleftrightarrow>
     req_get changes ''event'' \<in> {PStr ''federated_disconnected'', PStr ''federated_cached_offline''}
     \<or> (dict_has changes (PStr ''connected'') \<and> \<not> truthy (req_get changes ''connected''))"

definition came_up :: "request \<Rightarrow> bool" where
  "came_up changes \<longleftrightarrow>
     (case req_get changes ''event'' of PStr ev \<Rightarrow> ev \<in> set UP_EVENTS | _ \<Rightarrow> False)
     \<or> req_get changes ''connected'' = PBool True"

definition on_port_meta_update ::
  "'d cl_env \<Rightarrow> (pyval \<Rightarrow> string) \<Rightarrow> (string \<Rightarrow> bool) \<Rightarrow> string \<Rightarrow> request option \<Rightarrow> 'd listener_state \<Rightarrow> 'd listener_state" where
  "on_port_meta_update e show up n changes s =
     (if n = [] \<or> \<not> dict_has (rg_ports s) n then s
      else
        (case changes of
           None \<Rightarrow> s
         | Some d \<Rightarrow>
             if req_get d ''event'' = PStr ''power_outlet_changed'' then relay_power_outlet_change show up n d s
             else if went_down d then emit_notice_to_port_clients up n DOWN_NOTICE s
             else if fst (get_port n (cm_pm (rg_cm s))) \<noteq> None \<and> connected_state e n (rg_cm s) \<noteq> Some False \<and> came_up d
             then emit_notice_to_port_clients up n RECONNECTED_NOTICE s
             else s))"

section \<open>Configuration\<close>

text \<open>The settings are the dictionary of the section.  \<open>str_of\<close> and \<open>int_of\<close> are \<open>str\<close> and \<open>int\<close> of a value
  (\<open>None\<close> when \<open>int\<close> raises), \<open>binds\<close> says whether the socket can be bound.\<close>

datatype reconcile_status = Unchanged | Updated | Restarted | Stopped | ReconcileError string

record reconcile_summary =
  rs_status :: reconcile_status
  rs_changed :: "string list"
  rs_unchanged :: "string list"

definition valid_listener_config :: "(pyval \<Rightarrow> int option) \<Rightarrow> pyval \<Rightarrow> bool" where
  "valid_listener_config int_of config =
     (case config of
        PDict d \<Rightarrow>
          (case req_get d ''client_listener'' of
             PDict c \<Rightarrow>
               (case req_get c ''host'' of PNone \<Rightarrow> True | PStr h \<Rightarrow> strip h \<noteq> [] | _ \<Rightarrow> False)
               \<and> (case req_get c ''port'' of
                    PNone \<Rightarrow> True
                  | v \<Rightarrow> (case int_of v of None \<Rightarrow> False | Some i \<Rightarrow> 1 \<le> i \<and> i \<le> 65535))
           | _ \<Rightarrow> False)
      | _ \<Rightarrow> False)"

definition start_listener :: "(string \<Rightarrow> int \<Rightarrow> bool) \<Rightarrow> 'd listener_state \<Rightarrow> bool \<times> 'd listener_state" where
  "start_listener binds s =
     (if \<not> rg_enabled s then (True, s\<lparr>rg_running := True\<rparr>)
      else if binds (rg_host s) (rg_port s) then (True, s\<lparr>rg_listening := True, rg_running := True\<rparr>)
      else (False, s\<lparr>rg_running := False\<rparr>))"

definition setting :: "request \<Rightarrow> string \<Rightarrow> pyval \<Rightarrow> pyval" where
  "setting d k dflt = (case dict_get d (PStr k) of None \<Rightarrow> dflt | Some v \<Rightarrow> v)"

definition update_limit :: "request \<Rightarrow> string \<Rightarrow> 'd listener_state \<times> string list \<times> string list \<Rightarrow> 'd listener_state \<times> string list \<times> string list" where
  "update_limit d k st =
     (case st of
        (s, changed, same) \<Rightarrow>
          (case dict_get d (PStr k) of
             None \<Rightarrow> (s, changed, same @ [k])
           | Some v \<Rightarrow>
               if dict_get (rg_limits s) k \<noteq> Some v
               then (s\<lparr>rg_limits := dict_set k v (rg_limits s)\<rparr>, changed @ [k], same)
               else (s, changed, same @ [k])))"

definition reconcile_listener ::
  "'d cl_env \<Rightarrow> (string \<Rightarrow> bool) \<Rightarrow> (string \<Rightarrow> int \<Rightarrow> bool) \<Rightarrow> (pyval \<Rightarrow> string) \<Rightarrow> (pyval \<Rightarrow> int option) \<Rightarrow> pyval \<Rightarrow>
     'd listener_state \<Rightarrow> reconcile_summary \<times> 'd listener_state" where
  "reconcile_listener e up binds str_of int_of config s =
     (let d = (case config of
                 PDict c \<Rightarrow> (case req_get c ''client_listener'' of PDict n \<Rightarrow> n | _ \<Rightarrow> c)
               | _ \<Rightarrow> []);
          enabled = truthy (setting d ''enabled'' (PBool True));
          host = str_of (setting d ''host'' (PStr (rg_host s)));
          port = (case int_of (setting d ''port'' (PInt (rg_port s))) of None \<Rightarrow> rg_port s | Some i \<Rightarrow> i)
      in if port < 1 \<or> port > 65535
         then (\<lparr>rs_status = ReconcileError (''invalid port '' @ int_str port), rs_changed = [], rs_unchanged = []\<rparr>, s)
         else if (rg_enabled s, rg_host s, rg_port s) \<noteq> (enabled, host, port) then
           (let s1 = (stop_listener e up s)\<lparr>rg_enabled := enabled, rg_host := host, rg_port := port\<rparr>;
                (ok, s2) = (if enabled then start_listener binds s1 else (True, s1))
            in (\<lparr>rs_status = (if \<not> ok then ReconcileError (''rebind to '' @ host @ '':'' @ int_str port @ '' failed'')
                              else if enabled then Restarted else Stopped),
                 rs_changed = [''enabled'', ''host'', ''port''], rs_unchanged = []\<rparr>, s2))
         else
           (case fold (update_limit d) [''max_connections'', ''connection_timeout''] (s, [], []) of
              (s1, changed, same) \<Rightarrow>
                (\<lparr>rs_status = (if changed = [] then Unchanged else Updated), rs_changed = changed, rs_unchanged = same\<rparr>, s1)))"

definition listener_status :: "'d listener_state \<Rightarrow> string" where
  "listener_status s = (if rg_running s \<and> rg_enabled s then ''running'' else if rg_running s then ''disabled'' else ''stopped'')"

end
