(* ===== verification/ClientTeardown.thy ===== *)
theory ClientTeardown
  imports ClientRegistry
begin

text \<open>
  The registry of the client listener keeps its two tables in step, a stop takes every client off its port,
  and what a reload of the configuration touches.
\<close>

section \<open>What of a session the tables depend on\<close>

definition view :: "'d listener_state \<Rightarrow> string \<Rightarrow> (string option \<times> bool) option" where
  "view s cid = map_option (\<lambda>c. (session_port c, cs_teardown c)) (dict_get (rg_clients s) cid)"

lemma view_has: "dict_has (rg_clients s) cid \<longleftrightarrow> view s cid \<noteq> None"
  by (simp add: view_def dict_has_def)

lemma view_on_client:
  "view (on_client cid f s) x =
     (if x = cid then map_option (\<lambda>c. (session_port (f c), cs_teardown (f c))) (dict_get (rg_clients s) cid) else view s x)"
  by (auto simp: view_def on_client_def split: option.split)

lemma view_same_client:
  "(\<And>c. session_port (f c) = session_port c \<and> cs_teardown (f c) = cs_teardown c) \<Longrightarrow> view (on_client cid f s) = view s"
  by (rule ext) (simp add: view_on_client, simp add: view_def)

lemma on_client_frame [simp]:
  "rg_ports (on_client cid f s) = rg_ports s" "rg_world (on_client cid f s) = rg_world s"
  "rg_enabled (on_client cid f s) = rg_enabled s" "rg_host (on_client cid f s) = rg_host s"
  "rg_port (on_client cid f s) = rg_port s" "rg_running (on_client cid f s) = rg_running s"
  by (simp_all add: on_client_def split: option.split)

lemma note_mode_teardown [simp]: "cs_teardown (note_mode p c) = cs_teardown c"
  by (simp add: note_mode_def)

definition same_tables :: "'d listener_state \<Rightarrow> 'd listener_state \<Rightarrow> bool" where
  "same_tables s t \<longleftrightarrow> view t = view s \<and> rg_ports t = rg_ports s \<and> rg_world t = rg_world s"

lemma same_tables_trans: "same_tables s t \<Longrightarrow> same_tables t u \<Longrightarrow> same_tables s u"
  by (simp add: same_tables_def)

lemma tables_write: "same_tables s (write_client up cid b s)"
proof -
  have "view (on_client cid (cs_connected_update (\<lambda>_. False)) s) = view s"
    by (rule view_same_client) (simp add: session_port_def)
  moreover have "view (s\<lparr>rg_sent := x\<rparr>) = view s" for x by (simp add: view_def fun_eq_iff)
  ultimately show ?thesis by (simp add: write_client_def same_tables_def)
qed

lemma tables_frame: "same_tables s (snd (send_frame_to_session fr up cid p s))"
proof -
  have "view (on_client cid (note_mode p) t) = view t" for t :: "'d listener_state"
    by (rule view_same_client) (simp add: session_port_def)
  then have "same_tables (write_client up cid (control_frame fr p) s) (on_client cid (note_mode p) (write_client up cid (control_frame fr p) s))"
    by (simp add: same_tables_def)
  then show ?thesis using tables_write[of s up cid "control_frame fr p"]
    by (simp add: send_frame_to_session_def same_tables_def)
qed

lemma tables_fold: "(\<And>x t. same_tables t (f x t)) \<Longrightarrow> same_tables s (fold f xs s)"
  by (induction xs arbitrary: s) (auto simp: same_tables_def)

lemma call_manager_frame:
  assumes "call_manager e up f s = (r, t)"
  shows "r = fst (f (rg_cm s))" "rg_cm t = snd (f (rg_cm s))" "view t = view s" "rg_ports t = rg_ports s"
proof -
  let ?u = "s\<lparr>rg_world := (rg_world s)\<lparr>pw_cm := snd (f (rg_cm s))\<rparr>\<rparr>"
  let ?g = "\<lambda>(cid, fr) t. snd (send_frame_to_session (ce_float_text e) up cid (frame_payload fr) t)"
  let ?xs = "drop (length (cm_sent (rg_cm s))) (cm_sent (snd (f (rg_cm s))))"
  have t: "t = fold ?g ?xs ?u" "r = fst (f (rg_cm s))" using assms by (auto simp: call_manager_def split: prod.splits)
  have "same_tables ?u (fold ?g ?xs ?u)" by (rule tables_fold) (simp add: split_beta tables_frame)
  then have "same_tables ?u t" by (simp only: t(1))
  moreover have "view ?u = view s" by (simp add: view_def fun_eq_iff)
  ultimately show "rg_cm t = snd (f (rg_cm s))" "view t = view s" "rg_ports t = rg_ports s"
    by (simp_all add: same_tables_def)
  show "r = fst (f (rg_cm s))" by (rule t(2))
qed

section \<open>The tables in step\<close>

definition attached_at :: "'d listener_state \<Rightarrow> string \<Rightarrow> string \<Rightarrow> bool" where
  "attached_at s cid n \<longleftrightarrow> (case view s cid of Some (p, td) \<Rightarrow> p = Some n | None \<Rightarrow> False)"

definition listed_at :: "'d listener_state \<Rightarrow> string \<Rightarrow> string \<Rightarrow> bool" where
  "listed_at s cid n \<longleftrightarrow> (case dict_get (rg_ports s) n of None \<Rightarrow> False | Some cids \<Rightarrow> cid \<in> set cids)"

definition lists_ok :: "(string, string list) pydict \<Rightarrow> bool" where
  "lists_ok d \<longleftrightarrow> (\<forall>n cids. dict_get d n = Some cids \<longrightarrow> cids \<noteq> [] \<and> distinct cids)"

definition tables_ok :: "'d listener_state \<Rightarrow> bool" where
  "tables_ok s \<longleftrightarrow> cm_ok (rg_cm s) \<and> lists_ok (rg_ports s)
     \<and> (\<forall>cid n. attached_at s cid n \<longleftrightarrow> listed_at s cid n)
     \<and> (\<forall>cid n. attached_at s cid n \<longrightarrow> mapped_to (rg_cm s) cid n)"

lemma attached_once: "attached_at s cid n \<Longrightarrow> attached_at s cid m \<Longrightarrow> n = m"
  by (auto simp: attached_at_def split: option.splits)

lemma drop_port_get:
  "dict_get (drop_port_client n cid d) m =
     (if m = n then (case dict_get d n of None \<Rightarrow> None | Some cids \<Rightarrow> if remove1 cid cids = [] then None else Some (remove1 cid cids))
      else dict_get d m)"
  by (auto simp: drop_port_client_def Let_def split: option.split)

lemma detach_session_result:
  assumes "tables_ok s" "view s cid = Some (Some n, td)" "t = detach_session e up cid s"
  shows "view t = (view s)(cid \<mapsto> (None, td))" "rg_ports t = drop_port_client n cid (rg_ports s)"
    "cm_ok (rg_cm t)" "unplugged cid (rg_cm t)"
    "modes (rg_cm t) k x = (if k = n \<and> x = cid then None else modes (rg_cm s) k x)"
    "x \<noteq> cid \<Longrightarrow> dict_get (client_port_map (rg_cm t)) x = dict_get (client_port_map (rg_cm s)) x"
    "x \<noteq> cid \<Longrightarrow> dict_get (forwarding_tasks (rg_cm t)) x = dict_get (forwarding_tasks (rg_cm s)) x"
proof -
  let ?se = "se_env (ce_session e)"
  obtain c where c: "dict_get (rg_clients s) cid = Some c" "session_port c = Some n" "cs_teardown c = td"
    using assms(2) by (auto simp: view_def)
  let ?s1 = "s\<lparr>rg_ports := drop_port_client n cid (rg_ports s)\<rparr>"
  obtain r s2 where k: "call_manager e up (disconnect_client_from_port ?se cid n) ?s1 = (r, s2)" by fastforce
  note F = call_manager_frame[OF k]
  let ?s3 = "s2\<lparr>rg_world := (rg_world s2)\<lparr>pw_cm := unregister_client_channel cid (rg_cm s2)\<rparr>\<rparr>"
  have t: "t = on_client cid (cs_port_update (\<lambda>_. None)) ?s3"
    using c k by (simp add: assms(3) detach_session_def Let_def)
  have v: "view ?s3 = view s" using F(3) by (simp add: view_def fun_eq_iff)
  have "map_option (\<lambda>c. (session_port (cs_port_update (\<lambda>_. None) c), cs_teardown (cs_port_update (\<lambda>_. None) c)))
      (dict_get (rg_clients ?s3) cid) = map_option (\<lambda>(p, b). (None, b)) (view ?s3 cid)"
    by (simp add: view_def option.map_comp comp_def session_port_def)
  then show "view t = (view s)(cid \<mapsto> (None, td))"
    using v assms(2) by (auto simp: t view_on_client)
  show "rg_ports t = drop_port_client n cid (rg_ports s)" using F(4) by (simp add: t)
  have ok: "cm_ok (rg_cm s)" "mapped_to (rg_cm s) cid n" using assms(1,2) by (simp_all add: tables_ok_def attached_at_def)
  have "disconnect_client_from_port ?se cid n (rg_cm s) = (r, rg_cm s2)" using F(1,2) by simp
  note R = disconnect_result[OF this ok(1)]
  have cm: "rg_cm t = unregister_client_channel cid (rg_cm s2)" by (simp add: t)
  show "cm_ok (rg_cm t)" using R(2) by (simp add: cm)
  show "unplugged cid (rg_cm t)"
    "modes (rg_cm t) k x = (if k = n \<and> x = cid then None else modes (rg_cm s) k x)"
    using R(1,3,4) ok(2) by (simp_all add: cm unplugged_def modes_eq unregister_client_channel_def)
  show "x \<noteq> cid \<Longrightarrow> dict_get (client_port_map (rg_cm t)) x = dict_get (client_port_map (rg_cm s)) x"
    "x \<noteq> cid \<Longrightarrow> dict_get (forwarding_tasks (rg_cm t)) x = dict_get (forwarding_tasks (rg_cm s)) x"
    using R(5,6) by (simp_all add: cm)
qed

lemma drop_listed:
  assumes "lists_ok (rg_ports s)" "rg_ports t = drop_port_client n cid (rg_ports s)"
  shows "lists_ok (rg_ports t)" "listed_at t x m \<longleftrightarrow> listed_at s x m \<and> (x \<noteq> cid \<or> m \<noteq> n)"
proof -
  have d: "cids \<noteq> [] \<and> distinct cids" if "dict_get (rg_ports s) k = Some cids" for k cids
    using assms(1) that unfolding lists_ok_def by blast
  show "lists_ok (rg_ports t)"
    unfolding lists_ok_def
  proof (intro allI impI)
    fix k cids assume k: "dict_get (rg_ports t) k = Some cids"
    show "cids \<noteq> [] \<and> distinct cids"
    proof (cases "k = n")
      case True
      then obtain old where o: "dict_get (rg_ports s) n = Some old" "cids = remove1 cid old" "cids \<noteq> []"
        using k by (simp add: assms(2) drop_port_get split: option.splits if_splits)
      then show ?thesis using d[OF o(1)] by (simp add: distinct_remove1)
    next
      case False
      then have "dict_get (rg_ports s) k = Some cids" using k by (simp add: assms(2) drop_port_get)
      then show ?thesis by (rule d)
    qed
  qed
  show "listed_at t x m \<longleftrightarrow> listed_at s x m \<and> (x \<noteq> cid \<or> m \<noteq> n)"
  proof (cases "m = n")
    case True
    show ?thesis
    proof (cases "dict_get (rg_ports s) n")
      case (Some cids)
      define left where "left = remove1 cid cids"
      have l: "x \<in> set left \<longleftrightarrow> x \<in> set cids \<and> x \<noteq> cid"
        using d[OF Some] by (auto simp: left_def set_remove1_eq)
      have "dict_get (rg_ports t) n = (if left = [] then None else Some left)"
        by (simp add: assms(2) drop_port_get Some left_def)
      then show ?thesis using True Some l by (cases "left = []") (simp_all add: listed_at_def)
    qed (simp add: True listed_at_def assms(2) drop_port_get)
  qed (simp add: listed_at_def assms(2) drop_port_get)
qed

lemma tables_without:
  assumes ok: "tables_ok s" and v: "attached_at s cid n"
    and t: "\<And>x m. attached_at t x m \<longleftrightarrow> attached_at s x m \<and> x \<noteq> cid"
    and p: "rg_ports t = drop_port_client n cid (rg_ports s)"
    and c: "cm_ok (rg_cm t)" "\<And>x. x \<noteq> cid \<Longrightarrow> dict_get (client_port_map (rg_cm t)) x = dict_get (client_port_map (rg_cm s)) x"
  shows "tables_ok t"
proof -
  have s: "lists_ok (rg_ports s)" "\<And>x m. attached_at s x m \<longleftrightarrow> listed_at s x m" "\<And>x m. attached_at s x m \<Longrightarrow> mapped_to (rg_cm s) x m"
    using ok by (simp_all add: tables_ok_def)
  note L = drop_listed[OF s(1) p]
  have "attached_at t x m \<longleftrightarrow> listed_at t x m" for x m
    using t L(2) s(2) v attached_once[of s cid n m] by blast
  moreover have "mapped_to (rg_cm t) x m" if "attached_at t x m" for x m
    using that t s(3) c(2)[of x] by (simp add: mapped_to_def)
  ultimately show ?thesis using c(1) L(1) by (simp add: tables_ok_def)
qed

lemma tables_cong:
  "(\<And>x m. attached_at t x m \<longleftrightarrow> attached_at s x m) \<Longrightarrow> rg_ports t = rg_ports s \<Longrightarrow> rg_cm t = rg_cm s \<Longrightarrow> tables_ok t = tables_ok s"
  by (simp add: tables_ok_def listed_at_def)

section \<open>Stopping\<close>

lemma nobody_left: "(\<And>k. dict_get d k = None) \<Longrightarrow> d = []"
proof (cases d)
  case (Cons p ps)
  assume "\<And>k. dict_get d k = None"
  then have "dict_get d (fst p) = None" .
  then show ?thesis using Cons by (cases p) simp
qed

lemma disconnected_client:
  assumes "tables_ok s" "view s cid = Some (p, False)" "t = teardown_client e up cid s"
  shows "tables_ok t \<and> view t = (view s)(cid := None) \<and> (p = Some n \<longrightarrow> unplugged cid (rg_cm t))
    \<and> modes (rg_cm t) k x = (if p = Some k \<and> x = cid then None else modes (rg_cm s) k x)
    \<and> (x \<noteq> cid \<longrightarrow> unplugged x (rg_cm s) \<longrightarrow> unplugged x (rg_cm t))"
proof -
  obtain c where c: "dict_get (rg_clients s) cid = Some c" "session_port c = p" "\<not> cs_teardown c"
    using assms(2) by (auto simp: view_def)
  let ?s = "on_client cid (cs_teardown_update (\<lambda>_. True)) s"
  let ?d = "detach_session e up cid ?s"
  have t: "t = ?d\<lparr>rg_clients := dict_del cid (rg_clients ?d)\<rparr>"
    using c by (simp add: assms(3) teardown_client_def Let_def)
  have vs: "view ?s = (view s)(cid \<mapsto> (p, True))"
    using c by (auto simp: view_on_client session_port_def fun_eq_iff)
  have as: "attached_at ?s y m \<longleftrightarrow> attached_at s y m" for y m
    using vs assms(2) by (simp add: attached_at_def)
  have ok: "tables_ok ?s" using assms(1) tables_cong[of ?s s] as by simp
  have vt: "view t = (view ?d)(cid := None)" by (auto simp: t view_def fun_eq_iff)
  show ?thesis
  proof (cases p)
    case None
    then have d: "?d = ?s" using c by (simp add: detach_session_def on_client_def session_port_def)
    then have "view t = (view s)(cid := None)" using vt vs by simp
    moreover have "tables_ok t"
      using ok tables_cong[of t ?s] vt vs d None by (simp add: t attached_at_def)
    moreover have "rg_cm t = rg_cm s" by (simp add: t d)
    ultimately show ?thesis using None by simp
  next
    case (Some m)
    note R = detach_session_result[OF ok, of cid m True ?d e up, OF _ refl]
    have v: "view ?s cid = Some (Some m, True)" using vs Some by simp
    have "tables_ok t"
    proof (rule tables_without[OF ok, of cid m])
      show "attached_at ?s cid m" using v by (simp add: attached_at_def)
      show "attached_at t y k \<longleftrightarrow> attached_at ?s y k \<and> y \<noteq> cid" for y k
        using R(1)[OF v] vt by (auto simp: attached_at_def)
      show "rg_ports t = drop_port_client m cid (rg_ports ?s)" "cm_ok (rg_cm t)" using R(2,3)[OF v] by (simp_all add: t)
      show "dict_get (client_port_map (rg_cm t)) y = dict_get (client_port_map (rg_cm ?s)) y" if "y \<noteq> cid" for y
        using R(6)[OF v that] by (simp add: t)
    qed
    moreover have "view t = (view s)(cid := None)" using R(1)[OF v] vt vs by (simp add: fun_eq_iff)
    moreover have "unplugged cid (rg_cm t)" using R(4)[OF v] by (simp add: t)
    moreover have "modes (rg_cm t) k x = (if p = Some k \<and> x = cid then None else modes (rg_cm s) k x)"
      using R(5)[OF v, of k x] Some by (auto simp: t)
    moreover have "x \<noteq> cid \<longrightarrow> unplugged x (rg_cm s) \<longrightarrow> unplugged x (rg_cm t)"
      using R(6,7)[OF v, of x] by (simp add: t unplugged_def)
    ultimately show ?thesis by simp
  qed
qed

text \<open>What a teardown of some clients has done to one of them, and what it leaves of the others.\<close>

definition torn_down :: "'d listener_state \<Rightarrow> string set \<Rightarrow> 'd listener_state \<Rightarrow> bool" where
  "torn_down s gone t \<longleftrightarrow> tables_ok t \<and> (\<forall>x. view t x = (if x \<in> gone then None else view s x))
     \<and> (\<forall>x n. attached_at s x n \<longrightarrow> x \<in> gone \<longrightarrow> unplugged x (rg_cm t) \<and> modes (rg_cm t) n x = None)
     \<and> (\<forall>x k. x \<notin> gone \<longrightarrow> modes (rg_cm t) k x = modes (rg_cm s) k x)"

lemma torn_down_one_more:
  assumes t: "torn_down s gone t" and no: "\<And>x p td. view s x = Some (p, td) \<Longrightarrow> \<not> td"
  shows "torn_down s (insert cid gone) (teardown_client e up cid t)"
proof (cases "view t cid")
  case None
  then have "teardown_client e up cid t = t" by (simp add: teardown_client_def view_def)
  moreover have "view s cid = None \<or> cid \<in> gone" using t None by (auto simp: torn_down_def split: if_splits)
  moreover have "\<not> attached_at s cid n" if "view s cid = None" for n using that by (simp add: attached_at_def)
  ultimately show ?thesis using t unfolding torn_down_def by auto
next
  case (Some v)
  then have g: "cid \<notin> gone" "view s cid = Some v" using t by (auto simp: torn_down_def split: if_splits)
  obtain p td where v: "v = (p, td)" by fastforce
  then have td: "td = False" using no g(2) by blast
  note D = disconnected_client[of t cid p "teardown_client e up cid t" e up, OF _ _ refl]
  have ok: "tables_ok t" using t by (simp add: torn_down_def)
  have vt: "view t cid = Some (p, False)" using Some v td by simp
  note D = D[OF ok vt]
  show ?thesis
    unfolding torn_down_def
  proof (intro conjI allI impI)
    fix x n k
    show "tables_ok (teardown_client e up cid t)" using D by blast
    show "view (teardown_client e up cid t) x = (if x \<in> insert cid gone then None else view s x)"
      using D t by (auto simp: torn_down_def)
    show "modes (rg_cm (teardown_client e up cid t)) k x = modes (rg_cm s) k x" if "x \<notin> insert cid gone"
      using D[of n k x] t that by (auto simp: torn_down_def)
    assume a: "attached_at s x n" "x \<in> insert cid gone"
    show "unplugged x (rg_cm (teardown_client e up cid t))" "modes (rg_cm (teardown_client e up cid t)) n x = None"
      using D[of n n x] t a g v by (auto simp: torn_down_def attached_at_def)
  qed
qed

lemma torn_down_all:
  "torn_down s gone t \<Longrightarrow> (\<And>x p td. view s x = Some (p, td) \<Longrightarrow> \<not> td) \<Longrightarrow>
     torn_down s (gone \<union> set cids) (fold (teardown_client e up) cids t)"
proof (induction cids arbitrary: t gone)
  case (Cons cid cids)
  have "torn_down s (insert cid gone) (teardown_client e up cid t)" by (rule torn_down_one_more[OF Cons.prems])
  from Cons.IH[OF this Cons.prems(2)] show ?case by simp
qed simp

definition settled :: "'d listener_state \<Rightarrow> bool" where
  "settled s \<longleftrightarrow> tables_ok s \<and> (\<forall>x p td. view s x = Some (p, td) \<longrightarrow> \<not> td)"

lemma torn_down_start: "tables_ok s \<Longrightarrow> torn_down s {} s"
  by (simp add: torn_down_def)

lemma broadcast_tables: "same_tables s (broadcast_shutdown up s)"
  unfolding broadcast_shutdown_def by (rule tables_fold) (auto simp: split_beta tables_write, simp add: same_tables_def)

lemma view_None: "view s x = None \<longleftrightarrow> x \<notin> dict_keys (rg_clients s)"
  by (simp add: view_def dict_keys_def map_of_eq_None_iff)

lemma unlisted:
  assumes "lists_ok (rg_ports t)" "\<And>x m. \<not> listed_at t x m"
  shows "rg_ports t = []"
proof (rule nobody_left)
  show "dict_get (rg_ports t) m = None" for m
  proof (cases "dict_get (rg_ports t) m")
    case (Some cids)
    then have "cids \<noteq> []" using assms(1) unfolding lists_ok_def by blast
    then have "listed_at t (hd cids) m" using Some by (simp add: listed_at_def)
    then show ?thesis using assms(2) by blast
  qed
qed

text \<open>C30: Stopping the listener, unless a teardown is under way, leaves no session, no port with clients and no socket,
  and takes every client off its port: no mapping, no task and no mode is left of it.\<close>

theorem stopping_frees_every_client:
  assumes "settled s" "attached_at s cid n"
  shows "let t = stop_listener e up s in rg_clients t = [] \<and> rg_ports t = [] \<and> \<not> rg_listening t
    \<and> unplugged cid (rg_cm t) \<and> modes (rg_cm t) n cid = None"
proof -
  let ?s0 = "s\<lparr>rg_running := False\<rparr>"
  let ?s1 = "broadcast_shutdown up ?s0"
  let ?s2 = "fold (teardown_client e up) (map fst (rg_clients ?s1)) ?s1"
  have v: "view ?s0 = view s" by (simp add: view_def fun_eq_iff)
  have b: "view ?s1 = view s" "rg_ports ?s1 = rg_ports s" "rg_cm ?s1 = rg_cm s"
    using broadcast_tables[of ?s0 up] v by (simp_all add: same_tables_def)
  have at: "attached_at ?s1 x m = attached_at s x m" for x m by (simp add: attached_at_def b)
  have ok1: "tables_ok ?s1" using assms(1) tables_cong[of ?s1 s, OF at b(2,3)] by (simp add: settled_def)
  have no1: "\<not> td" if "view ?s1 x = Some (p, td)" for x p td using assms(1) that unfolding b(1) settled_def by blast
  have t: "torn_down ?s1 (set (map fst (rg_clients ?s1))) ?s2"
    using torn_down_all[OF torn_down_start[OF ok1] no1, where cids = "map fst (rg_clients ?s1)" and e = e and up = up] by simp
  have none: "view ?s2 x = None" for x
    using t view_None[of ?s1 x] by (auto simp: torn_down_def dict_keys_def)
  then have c: "rg_clients ?s2 = []" by (intro nobody_left) (simp add: view_def)
  have ok: "tables_ok ?s2" using t by (simp add: torn_down_def)
  have "\<not> attached_at ?s2 x m" for x m by (simp add: attached_at_def none)
  then have p: "rg_ports ?s2 = []" using unlisted[of ?s2] ok by (simp add: tables_ok_def)
  have "cid \<in> set (map fst (rg_clients ?s1))"
  proof -
    have "view ?s1 cid \<noteq> None" using assms(2) by (auto simp: attached_at_def b split: option.splits)
    then show ?thesis by (simp add: view_None dict_keys_def)
  qed
  then have "unplugged cid (rg_cm ?s2) \<and> modes (rg_cm ?s2) n cid = None"
    using t at[of cid n] assms(2) unfolding torn_down_def by blast
  then show ?thesis using c p by (simp add: stop_listener_def Let_def)
qed

section \<open>Reload and notices\<close>

lemma limit_keeps:
  assumes "update_limit d k (s, ch, sm) = (t, ch2, sm2)"
  shows "rg_clients t = rg_clients s \<and> rg_ports t = rg_ports s \<and> rg_world t = rg_world s \<and> rg_sent t = rg_sent s
    \<and> rg_listening t = rg_listening s"
  using assms by (auto simp: update_limit_def split: option.splits if_splits)

text \<open>A reload that is answered with \<open>unchanged\<close> or \<open>updated\<close> costs nobody the session.\<close>

lemma reload_in_place:
  assumes "reconcile_listener e up binds str_of int_of config s = (r, t)" "rs_status r = Unchanged \<or> rs_status r = Updated"
  shows "rg_clients t = rg_clients s \<and> rg_ports t = rg_ports s \<and> rg_world t = rg_world s \<and> rg_sent t = rg_sent s
    \<and> rg_listening t = rg_listening s"
proof -
  obtain d where r: "fold (update_limit d) [''max_connections'', ''connection_timeout''] (s, [], []) = (t, rs_changed r, rs_unchanged r)"
    using assms by (auto simp: reconcile_listener_def Let_def split: if_splits prod.splits)
  obtain u c m where u: "update_limit d ''max_connections'' (s, [], []) = (u, c, m)" by (metis prod_cases3)
  then have "update_limit d ''connection_timeout'' (u, c, m) = (t, rs_changed r, rs_unchanged r)" using r by simp
  from limit_keeps[OF u] limit_keeps[OF this] show ?thesis by simp
qed

text \<open>A client that attaches to a port is announced to the ones already there as a reconnection of the port.\<close>

lemma attach_is_announced_as_reconnection:
  assumes "n \<noteq> []" "dict_get (rg_ports s) n = Some [cid]" "dict_has (rg_clients s) cid" "up cid"
    and "fst (get_port n (cm_pm (rg_cm s))) \<noteq> None" "connected_state e n (rg_cm s) \<noteq> Some False"
  shows "rg_sent (on_port_meta_update e show up n
      (Some [(PStr ''event'', PStr ''client_connected''), (PStr ''client_id'', PStr other)]) s)
    = rg_sent s @ [(cid, encode_text RECONNECTED_NOTICE)]"
  using assms
  by (auto simp: on_port_meta_update_def req_get_def went_down_def came_up_def UP_EVENTS_def dict_has_def
      emit_notice_to_port_clients_def write_client_def)

text \<open>A write that fails is reported to the caller as sent.\<close>

lemma failed_write_counts_as_sent:
  "dict_has (rg_clients s) cid \<Longrightarrow> \<not> up cid \<Longrightarrow>
     fst (send_data_to_session up cid b s) \<and> rg_sent (snd (send_data_to_session up cid b s)) = rg_sent s"
  by (auto simp: send_data_to_session_def write_client_def on_client_def split: option.split)

end
