(* ===== verification/ClientCases.thy ===== *)
theory ClientCases
  imports ClientLogin ClientKeys ClientTeardown SessionCases
begin

text \<open>Connections of the command line client on a one-writer port: the witnesses of the client theories, and
  what a user meets whose bytes the network cuts in the wrong place.\<close>

definition case_auth :: auth_env where
  "case_auth = plain_env\<lparr>unbase64 := b64decode\<rparr>"

definition case_client :: client_env where
  "case_client = \<lparr>xe_auth = case_auth, xe_private = (\<lambda>_. None), xe_text_float = (\<lambda>_. Finite 0),
     xe_float_text = (\<lambda>_. ''0.0''), xe_show = (\<lambda>_. [])\<rparr>"

definition case_cl_env :: "dummy_driver cl_env" where
  "case_cl_env = \<lparr>ce_session = line_env, ce_auth = Some case_auth, ce_clock = (\<lambda>_. 5), ce_nonce = ''n'',
     ce_float_text = (\<lambda>_. ''0.0''), ce_text_float = (\<lambda>_. Finite 0), ce_sendable = (\<lambda>_. True),
     ce_local_up = (\<lambda>_. Some True), ce_status = (\<lambda>_. []), ce_info = (\<lambda>_. []), ce_list_tail = []\<rparr>"

definition arriving :: "cm \<Rightarrow> bytes list \<Rightarrow> dummy_driver clstate" where
  "arriving c segs = \<lparr>cl_session = new_session ''alice'' ''10.0.0.1'', cl_world = \<lparr>pw_cm = c, pw_adapter = None\<rparr>,
     cl_ports = [], cl_auth = one_user, cl_in = segs, cl_out = [], cl_sends = 0\<rparr>"

definition at_once :: "bytes list \<Rightarrow> dummy_driver clstate" where
  "at_once segs = on_session (login_as ''alice'') (arriving (empty_cm one_port) segs)"

definition connecting :: "dummy_driver clstate" where
  "connecting = connect_request case_cl_env ''p'' (at_once [])"

definition attached_with :: "bytes list \<Rightarrow> dummy_driver clstate" where
  "attached_with segs = connecting\<lparr>cl_in := segs, cl_out := []\<rparr>"

lemma attached_writer: "attached_port (attached_with segs) = Some ''p''" "modes (cl_cm (attached_with segs)) ''p'' ''alice'' = Some ReadWrite"
  "cs_connected (cl_session (attached_with segs))" "cl_id (attached_with segs) = ''alice''"
  by code_simp+

section \<open>Where the network cuts\<close>

definition query_frame :: bytes where
  "query_frame = control_frame (\<lambda>_. ''0.0'') query_rw_holders"

definition detach_frame :: bytes where
  "detach_frame = control_frame (\<lambda>_. ''0.0'') detach_request"

definition typed_to_port :: "bytes list \<Rightarrow> bytes" where
  "typed_to_port segs =
     written ''p'' ''alice'' (pm_events (cm_pm (cl_cm (fold (forward_bytes_to_port case_cl_env) segs (attached_with [])))))"

text \<open>A request that is cut inside its marker is typed into the port.\<close>

lemma cut_request_is_typed: "typed_to_port [take 3 query_frame, drop 3 query_frame] = query_frame"
  by code_simp

text \<open>What was typed before a detach in the same read never reaches the port, and the client is told that it may
  not write; in a read of its own it arrives.\<close>

lemma keys_lost_with_a_detach:
  "typed_to_port [''ok'' @ detach_frame] = []" "typed_to_port [''ok'', detach_frame] = ''ok''"
  "contains_sub WRITE_BLOCKED_READ_ONLY (cl_out (forward_bytes_to_port case_cl_env (''ok'' @ detach_frame) (attached_with [])))"
  by code_simp+

section \<open>Witnesses\<close>

definition after_connect :: "dummy_driver clstate" where
  "after_connect = command_phase case_cl_env (at_once [''CONNECT:'', ''p'' @ [LF]])"

lemma after_connect_facts: "attached_port after_connect = Some ''p''" "cs_mode (cl_session after_connect) = Some ReadWrite"
  "cl_id after_connect = ''alice''" "\<not> cs_teardown (cl_session after_connect)"
proof -
  have "(attached_port after_connect, cs_mode (cl_session after_connect), cl_id after_connect, cs_teardown (cl_session after_connect))
      = (Some ''p'', Some ReadWrite, ''alice'', False)"
    by code_simp
  then show "attached_port after_connect = Some ''p''" "cs_mode (cl_session after_connect) = Some ReadWrite"
    "cl_id after_connect = ''alice''" "\<not> cs_teardown (cl_session after_connect)" by simp_all
qed

lemma after_connect_run: "client_run case_cl_env (at_once [''CONNECT:'', ''p'' @ [LF]]) after_connect"
  unfolding after_connect_def by (rule command_phase_runs)

lemma starts_detached: "cm_ok (cl_cm (at_once segs))" "cs_port (cl_session (at_once segs)) = None"
  by (simp_all add: at_once_def arriving_def new_session_def login_as_def empty_cm_ok)

theorem recorded_mode_is_held_witness: "modes (cl_cm after_connect) ''p'' ''alice'' = Some ReadWrite"
  using recorded_mode_is_held[OF starts_detached after_connect_run after_connect_facts(1,2)] after_connect_facts(3) by simp

theorem ending_frees_the_port_witness:
  "modes (cl_cm (end_session case_cl_env after_connect)) ''p'' ''alice'' = None"
  using ending_frees_the_port[OF starts_detached after_connect_run after_connect_facts(1,4), of "''p''" "''alice''"] after_connect_facts(3) by simp


text \<open>The client program against the listener: the user of \<open>one_user\<close>, whose hash is the password's.\<close>

definition program :: tcp_client where
  "program = fresh_client\<lparr>ta_open := True, ta_connected := True, ta_in := [hmac_challenge ''n'' @ [LF], auth_welcome ''alice'' @ [LF]]\<rparr>"

definition login_wire :: bytes where
  "login_wire = client_lines case_client ''alice'' ''x:y'' ''n''"

definition logging_in :: "dummy_driver clstate" where
  "logging_in = arriving (empty_cm one_port) [take 7 login_wire, drop 7 login_wire]"

lemma login_case:
  "login_open case_cl_env case_client ''alice'' ''x:y'' logging_in"
proof -
  have "\<not> fst (is_user_locked (ce_clock case_cl_env 0) ''alice'' (source_ip (cl_session logging_in)) (cl_auth logging_in))"
    "get_password_hash_hex ''alice'' (cl_auth logging_in) = Some (sha256_hex (xe_auth case_client) ''x:y'')"
    "cs_connected (cl_session logging_in)" "sha256_hex (xe_auth case_client) ''x:y'' = ''x:y''"
    by code_simp+
  then show ?thesis by (simp add: login_open_def case_cl_env_def case_client_def case_auth_def plain_env_def)
qed



section \<open>The listener as a whole\<close>

definition serving :: "dummy_driver listener_state" where
  "serving = \<lparr>rg_clients = [(''alice'', cl_session connecting)], rg_ports = [(''p'', [''alice''])], rg_world = cl_world connecting,
     rg_sent = [], rg_running = True, rg_listening = True, rg_enabled = True, rg_host = ''127.0.0.1'', rg_port = 8023,
     rg_limits = []\<rparr>"

lemma serving_view: "view serving x = (if x = ''alice'' then Some (Some ''p'', False) else None)"
proof -
  have "(session_port (cl_session connecting), cs_teardown (cl_session connecting)) = (Some ''p'', False)" by code_simp
  then show ?thesis by (simp add: view_def serving_def)
qed

lemma serving_ok: "tables_ok serving"
proof -
  have "client_truthful connecting"
    unfolding connecting_def
    by (rule connect_keeps_truth) (use starts_detached[of "[]"] in \<open>simp_all add: attached_port_def\<close>)
  moreover have "attached_port connecting = Some ''p''" "cl_id connecting = ''alice''" by code_simp+
  ultimately have c: "cm_ok (cl_cm connecting)" "mapped_to (cl_cm connecting) ''alice'' ''p''" by (simp_all add: client_truthful_def)
  have "attached_at serving x n \<longleftrightarrow> x = ''alice'' \<and> n = ''p''" for x n by (auto simp: attached_at_def serving_view)
  moreover have "listed_at serving x n \<longleftrightarrow> x = ''alice'' \<and> n = ''p''" for x n by (simp add: listed_at_def serving_def)
  moreover have "lists_ok (rg_ports serving)" by (simp add: lists_ok_def serving_def)
  ultimately show ?thesis using c by (simp add: tables_ok_def serving_def)
qed

theorem stopping_frees_every_client_witness:
  "rg_clients (stop_listener case_cl_env (\<lambda>_. True) serving) = [] \<and> modes (rg_cm (stop_listener case_cl_env (\<lambda>_. True) serving)) ''p'' ''alice'' = None"
proof -
  have "attached_at serving ''alice'' ''p''" by (simp add: attached_at_def serving_view)
  moreover have "settled serving" using serving_ok by (simp add: settled_def serving_view)
  ultimately show ?thesis
    using stopping_frees_every_client[of serving "''alice''" "''p''" case_cl_env "\<lambda>_. True"] by (simp add: Let_def)
qed

end
