(* ===== verification/Spec2Isabelle.thy ===== *)
theory Spec2Isabelle
  imports SlotRaces MuxRestart Federation LoginFacts SessionCases PowerFacts MuxCases StreamCases ClientCases
begin

text \<open>
  A verification library for the OpenMux server: a console server that shares serial and other ports among
  many users and among servers.  It models the parts that decide who reads and writes a port, how bytes
  travel, and what a server believes of its peers.  Paths below are under \<^verbatim>\<open>src/openmux/\<close>.

  \<^bold>\<open>The program and its parts.\<close>  A \<^emph>\<open>port manager\<close> owns the ports, the clients attached to each, the write slot
  and the queues of device data.  The \<^emph>\<open>console manager\<close> above it attaches users, decides their access,
  moves the write slot and forwards data.  \<^emph>\<open>Listeners\<close> (telnet here) log a user in and run a \<^emph>\<open>session\<close>
  over one connection, whose keystrokes become writes, menu commands, power commands or takeovers.  The
  \<^emph>\<open>authentication manager\<close> answers the login.  \<^emph>\<open>MuxCon\<close> joins servers: connections carry frames,
  connections of one peer form a group of paths, data is numbered per peer and retransmitted, streams tie
  a client of one server to a port of another, and a \<^emph>\<open>proxy\<close> stands for a remote port in the port manager.
  \<^emph>\<open>Power control\<close> switches the outlets that feed the ports.

  \<^bold>\<open>Theories and sources.\<close>
  \<^item> \<^verbatim>\<open>Prelude\<close>, \<^verbatim>\<open>PyText\<close>, \<^verbatim>\<open>PyFormat\<close>, \<^verbatim>\<open>Utf8\<close>, \<^verbatim>\<open>Base64\<close>: the Python values, dictionaries, string methods, formats and
    encodings the source uses.  A dictionary is an association list in insertion order, a byte a character
    below 256, an error a constructor of \<open>py_error\<close> in a sum.
  \<^item> \<^verbatim>\<open>AccessControl\<close>, \<^verbatim>\<open>AccessDecision\<close>, \<^verbatim>\<open>AccessFacts\<close>: \<^verbatim>\<open>server/access_control.py\<close>, \<^verbatim>\<open>server/access_decision.py\<close>,
    \<^verbatim>\<open>common/access_wire.py\<close>: write modes, the table of outcomes, its wording and frames.
  \<^item> \<^verbatim>\<open>DeliveryQueue\<close>, \<^verbatim>\<open>PortManager\<close>, \<^verbatim>\<open>PortInvariant\<close>, \<^verbatim>\<open>DataPath\<close>, \<^verbatim>\<open>PortNames\<close>: \<^verbatim>\<open>server/port_manager.py\<close>.  \<open>pm\<close> is the manager,
    \<open>port\<close> a \<open>UnifiedPortWrapper\<close> over a local port or a proxy.  \<open>pm_ok\<close> is its invariant; the locale
    \<open>write_slots\<close> is the contract of promotion and demotion, interpreted on the port manager.
  \<^item> \<^verbatim>\<open>ConsoleAccess\<close>, \<^verbatim>\<open>ConsoleManager\<close>, \<^verbatim>\<open>ConsoleFacts\<close>, \<^verbatim>\<open>Takeover\<close>, \<^verbatim>\<open>Attach\<close>, \<^verbatim>\<open>ConsoleSteps\<close>, \<^verbatim>\<open>SlotRaces\<close>:
    \<^verbatim>\<open>server/console_manager.py\<close>.  \<open>cm\<close> is the manager; \<open>console_step\<close> is one whole operation, and \<open>SlotRaces\<close>
    interleaves takeovers that are suspended at their \<open>await\<close>s with all other operations.
  \<^item> \<^verbatim>\<open>PortProperties\<close>: the locale \<open>kept_by_ports\<close>: what every operation on the ports keeps, every operation of the
    console manager keeps; interpreted on \<open>pm_ok\<close> and on \<open>ports_kept\<close>.
  \<^item> \<^verbatim>\<open>AuthManager\<close>: \<^verbatim>\<open>server/auth_manager.py\<close>; \<^verbatim>\<open>ListenerTransport\<close>, \<^verbatim>\<open>AuthLines\<close>, \<^verbatim>\<open>TelnetLogin\<close>, \<^verbatim>\<open>LoginFacts\<close>:
    \<^verbatim>\<open>server/adapters/telnet_listener.py\<close>, \<^verbatim>\<open>listener_common.py\<close>; \<^verbatim>\<open>ListenerSession\<close>, \<^verbatim>\<open>ListenerPump\<close>, \<^verbatim>\<open>SessionLife\<close>,
    \<^verbatim>\<open>SessionFacts\<close>, \<^verbatim>\<open>SessionCases\<close>: \<^verbatim>\<open>server/listener_session.py\<close>; \<^verbatim>\<open>ByteMachine\<close>: the telnet stripper and the codecs of
    \<^verbatim>\<open>server/adapters/protocols/\<close>.
  \<^item> \<^verbatim>\<open>PowerOutlets\<close>, \<^verbatim>\<open>PowerControl\<close>, \<^verbatim>\<open>PowerMenu\<close>, \<^verbatim>\<open>PowerFacts\<close>: \<^verbatim>\<open>server/adapters/pdu.py\<close>, \<^verbatim>\<open>power_command.py\<close>,
    \<^verbatim>\<open>power_drivers/\<close>.
  \<^item> \<^verbatim>\<open>MuxFrames\<close>, \<^verbatim>\<open>MuxTransport\<close>, \<^verbatim>\<open>MuxRestart\<close>, \<^verbatim>\<open>Federation\<close>: \<^verbatim>\<open>server/muxcon_protocol.py\<close>,
    \<^verbatim>\<open>common/federation_types.py\<close> and, in \<^verbatim>\<open>server/adapters/muxcon.py\<close>, the frames, the numbered transport over
    a lossy network, the restart of a peer, and the advertisement of a port.
  \<^item> \<^verbatim>\<open>MuxHello\<close>, \<^verbatim>\<open>MuxPaths\<close>, \<^verbatim>\<open>MuxLinks\<close>, \<^verbatim>\<open>MuxBeat\<close>: in \<^verbatim>\<open>muxcon.py\<close>, the connections of a server: handshake,
    authentication, path groups, the dispatch of every frame, heartbeats and failover.  \<open>mux\<close> is the state
    (\<open>connections\<close>, \<open>_mpath_groups\<close>, \<open>_hb_state\<close>, \<open>_wire_state\<close> and the per-peer tables), \<open>mux_do\<close> in \<^verbatim>\<open>MuxRun\<close> one
    operation, \<open>mux_run\<close> any sequence of them; \<^verbatim>\<open>MuxAuth\<close>, \<^verbatim>\<open>MuxFacts\<close>, \<^verbatim>\<open>MuxCases\<close> hold the proofs.
  \<^item> \<^verbatim>\<open>MuxFilters\<close>, \<^verbatim>\<open>MuxStreams\<close>, \<^verbatim>\<open>MuxProxies\<close>, \<^verbatim>\<open>MuxServe\<close>: in \<^verbatim>\<open>muxcon.py\<close>, the port filters, the streams on the
    side of the port and on the side of the proxy (\<open>RemotePortProxy\<close>), and the step of a whole server, which
    joins \<open>mux\<close> and \<open>cm\<close> in \<open>fed\<close>: frames pass the gates of \<^verbatim>\<open>MuxLinks\<close>, which list in \<open>mx_events\<close> what they ask of
    the parts above, and \<open>serve_event\<close> does it.  \<^verbatim>\<open>FedRun\<close> has the runs (\<open>fed_run\<close>) and their invariant,
    \<^verbatim>\<open>StreamFacts\<close> and \<^verbatim>\<open>StreamCases\<close> the properties and the cases they apply to.
  \<^item> \<^verbatim>\<open>Json\<close>, \<^verbatim>\<open>ControlFrames\<close>: the JSON text of the library and the frames that share a stream with what is typed.
  \<^item> \<^verbatim>\<open>ClientListener\<close>, \<^verbatim>\<open>ClientPhases\<close>, \<^verbatim>\<open>ClientRegistry\<close>: \<^verbatim>\<open>server/adapters/client_listener.py\<close>.  \<open>clstate\<close> is one
    connection (its \<open>ClientSession\<close>, the segments it has still to read, what was written to its socket) with the console
    manager, the power adapter and the authentication it shares; \<open>handle_client_connection\<close> is its whole life.
    \<open>listener_state\<close> is the listener: \<open>clients\<close>, \<open>port_clients\<close>, teardown, notices, reload.
  \<^item> \<^verbatim>\<open>ClientAdapter\<close>: the other end, \<^verbatim>\<open>client/adapters/tcp_adapter.py\<close> and \<^verbatim>\<open>rw_control.py\<close>; \<^verbatim>\<open>ClientFacts\<close>, \<^verbatim>\<open>ClientKeys\<close>,
    \<^verbatim>\<open>ClientLogin\<close>, \<^verbatim>\<open>ClientTeardown\<close>, \<^verbatim>\<open>ClientCases\<close>: what holds of either end and of both together.  \<open>client_step\<close> is one
    read and what follows from it, \<open>client_run\<close> any number of them, and every phase of a connection is such a run.

  \<^bold>\<open>What is shown.\<close>  The write slot: no port has more writers than its capacity, on any run of the consoles, on any
  interleaving, and on any run of a server with hostile or honest peers; a client writes only after a grant
  made to it, and a grant needs an entitlement; a takeover moves exactly one slot or nothing.  Data: what a
  client is sent is what the port received, in order, except counted drops; typed bytes reach the port in
  any segmentation; frames survive loss, duplication and reordering.  Login and power: lockout, the cache,
  authorization of switches, the truth of the preview.  Connections: authentication needs a signature of the
  connection's own challenge, nothing of an unauthenticated one is handed up, path groups stay well-formed,
  the selected path is live.  Streams: one pump per stream, nothing is left of a lost peer, proxies pass the
  filters.  The command line client: its login needs a proof, the mode on record is held, its keystrokes reach the
  port around the control frames, both ends agree on a password login and on what a decision says, and a stop
  takes everybody off the ports.  Some theorems state where the code falls short of what its comments say; they are exact, on the
  same definitions.

  \<^bold>\<open>Bounds and termination.\<close>  No fuel is used except where the environment may answer for ever: loops are
  structural or have a measure (the session pump: the reads left; the seed of a stream: its bytes; the phases of a
  client's connection: the bytes left to read).
  Python integers are \<open>int\<close>; the frame counter of a connection, which the code wraps below \<open>2^63\<close>, is wrapped as
  written.  A clock reading is an integer, and a comparison with one and a half or two and a half
  heartbeats is doubled on both sides.

  \<^bold>\<open>Parameters.\<close>  Signatures, password hashes, the external helper, the float, JSON and address parsers, what a
  device answers to a write, what a peer answers to a request and the drivers of power units are arguments of
  the definitions.  The hypothesis \<open>int_capacities\<close> says that a peer advertises a capacity as an integer, as
  the comment on the wire field does.

  \<^bold>\<open>Not modelled.\<close>  Sockets, TLS, task scheduling, log lines and byte counters; the reading and reconciling of the
  configuration; the relays of viewer presence, port status and power between servers and the file that
  caches proxies; the web console, the server's start-up (\<^verbatim>\<open>main.py\<close>), the terminal loop and the WebSocket adapter
  of the client program, the serial, command and ssh adapters, which are device and socket code.  A text is a sequence of Latin-1 characters where it
  is not encoded.  \<open>await\<close>s outside takeovers are points where no other step comes between.
\<close>

section \<open>Runs of the console manager\<close>

text \<open>C1: On every run of console requests, device data and writes, from any well-formed state, no port
  ever has more read-write clients than its write capacity: a \<open>none\<close> port has no writer, a \<open>one\<close>
  port at most one.\<close>

theorem writers_never_exceed_capacity:
  assumes "cm_ok s" "console_run e dev s ls t"
  shows "enat (pm_writers (cm_pm t) n) \<le> pm_capacity (cm_pm t) n"
  using run_keeps_ok[OF assms(2,1)] by (rule ok_bounded)

lemma run_one: "console_step e dev s l t \<Longrightarrow> console_run e dev s [l] t"
  using console_run.step[OF console_run.start, of e dev s l t] by simp

lemma promote_run:
  "console_run e dev s [Promote c n (fst (promote_client_to_read_write e c n s))]
     (snd (promote_client_to_read_write e c n s))"
  by (rule run_one) (simp add: console_step_simps)

theorem writers_never_exceed_capacity_witness:
  "enat (pm_writers (cm_pm (snd (promote_client_to_read_write race_env ''bob'' ''p'' race_start))) ''p'')
     \<le> pm_capacity (cm_pm (snd (promote_client_to_read_write race_env ''bob'' ''p'' race_start))) ''p''"
  by (rule writers_never_exceed_capacity[OF race_start_ok promote_run])

text \<open>C5: A client gets write access only by a grant made to that very client: if it writes at the end of
  a run and did not at the start, some request of the run by that client on that port was answered
  with a granting decision.\<close>

theorem write_access_needs_grant:
  assumes "cm_ok s" "console_run e dev s ls t" "modes t n c = Some ReadWrite"
    and "modes s n c \<noteq> Some ReadWrite"
  shows "\<exists>l \<in> set ls. grants l n c"
  using assms(2,1,3,4) by (rule run_grants)

lemma race_late_modes:
  "modes race_mid ''p'' ''carol'' = Some ReadOnly" "modes race_late ''p'' ''carol'' = Some ReadWrite"
  by code_simp+

lemma race_mid_ok: "cm_ok race_mid"
  by (simp add: race_mid_def demote_cm_ok race_start_ok)

theorem write_access_needs_grant_witness:
  "\<exists>l \<in> set [Promote ''carol'' ''p'' (fst (promote_client_to_read_write race_env ''carol'' ''p'' race_mid))].
     grants l ''p'' ''carol''"
  by (rule write_access_needs_grant[OF race_mid_ok promote_run, folded race_late_def])
    (simp_all add: race_late_modes flip: race_late_def)

section \<open>Takeover\<close>


lemma carol_take_refused:
  "\<not> d_ok (fst (take_write_slot race_env ''bob'' ''p'' (Some ''nobody'') race_start))"
  by code_simp


text \<open>C3: A takeover that can start goes through and moves exactly one slot: for an entitled read-only
  client of a local one-writer port, the holder that \<open>resolve_take_target\<close> picks loses write, the
  taker gets it, nobody else changes, the number of writers stays, and the decision names the victim.\<close>

theorem take_transfers_the_slot:
  assumes "cm_ok s" "take_starts e taker n target s v" "modes s n taker = Some ReadOnly"
    and "mapped_to s (cr_client_id v) n" "take_write_slot e taker n target s = (d, t)"
  shows "d_ok d \<and> d_code d = Granted \<and> map_option h_client_id (d_victim d) = Some (cr_client_id v)
    \<and> take_effect s t n taker (Some (cr_client_id v)) \<and> pm_writers (cm_pm t) n = pm_writers (cm_pm s) n"
proof -
  obtain q where q: "cm_port s n = Some q" "\<not> is_remote q" "wire_to_mode (p_max_rw q) = ModeOne"
    "may_drive (request_entitlement e s q taker)" "fst (resolve_take_target q taker target) = Some v"
    "mapped_to s taker n"
    using assms(2) by (auto simp: take_starts_def split: option.splits)
  then have "resolve_take_target q taker target = (Some v, snd (resolve_take_target q taker target))"
    by (metis prod.collapse)
  from take_write_slot_completes[OF cm_okD[OF assms(1)] q(1-3,6) assms(3) q(4) this assms(4,5)]
  show ?thesis by blast
qed

lemma race_mapped: "mapped_to race_start ''alice'' ''p''"
  by code_simp

theorem take_transfers_the_slot_witness:
  "modes (snd (take_write_slot race_env ''bob'' ''p'' None race_start)) ''p'' ''bob'' = Some ReadWrite
   \<and> modes (snd (take_write_slot race_env ''bob'' ''p'' None race_start)) ''p'' ''alice'' = Some ReadOnly"
proof -
  have b: "modes race_start ''p'' ''bob'' = Some ReadOnly" using race_modes(1) by simp
  have a: "mapped_to race_start (cr_client_id alice_rec) ''p''" using race_mapped by (simp add: alice_rec_def)
  show ?thesis
    using take_transfers_the_slot[OF race_start_ok race_parts(1) b a surjective_pairing]
    by (simp add: take_effect_def alice_rec_def)
qed

text \<open>C6: No request ever promotes a client the access ladder does not entitle: a granted promotion or
  takeover was asked by a client attached to the port, with its own recorded user's role and groups
  entitling it to drive that port.\<close>

theorem grant_needs_entitlement:
  assumes "cm_ok s"
    and "promote_client_to_read_write e c n s = (d, t) \<or> take_write_slot e c n target s = (d, t)"
    and "d_ok d"
  shows "mapped_to s c n \<and> (\<exists>q. fst (get_port n (cm_pm s)) = Some q
    \<and> may_drive (request_entitlement e s q c))"
  using assms(2)
proof
  assume "promote_client_to_read_write e c n s = (d, t)"
  from promote_result(6)[OF this cm_okD[OF assms(1)]] show ?thesis using assms(3) by blast
next
  assume "take_write_slot e c n target s = (d, t)"
  from take_needs_entitlement[OF this assms(3)] show ?thesis .
qed

theorem grant_needs_entitlement_witness:
  "mapped_to race_mid ''carol'' ''p'' \<and> (\<exists>q. fst (get_port ''p'' (cm_pm race_mid)) = Some q
    \<and> may_drive (request_entitlement race_env race_mid q ''carol''))"
proof -
  have "d_ok (fst (promote_client_to_read_write race_env ''carol'' ''p'' race_mid))" by code_simp
  from grant_needs_entitlement[OF race_mid_ok disjI1[OF surjective_pairing] this] show ?thesis .
qed

section \<open>Attaching and leaving\<close>

text \<open>C4: What an attach answers is what holds afterwards.  A granted attach leaves the client mapped to
  the port, with a forwarding task for it and a record in exactly the mode the decision states; a
  refused one leaves it on no port at all and without a task; no other client is touched either way;
  and the code \<open>attached\<close> is used exactly for read-write seats.\<close>

theorem attach_answers_truthfully:
  assumes "cm_ok s" "connect_client_to_port e c n u s = (d, t)"
  shows "cm_ok t
    \<and> (if d_ok d
       then mapped_to t c n \<and> modes t n c = Some (d_mode d) \<and> dict_get (forwarding_tasks t) c = Some n
       else unplugged c t \<and> d_mode d = ReadOnly)
    \<and> (\<forall>x k. modes t k x = modes s k x \<or> x = c)
    \<and> (d_mode d = ReadWrite \<longleftrightarrow> d_code d = Attached)"
  using connect_result[OF assms(2,1)] unfolding connect_sound_def by simp metis

theorem attach_answers_truthfully_witness:
  "unplugged ''bob'' (snd (connect_client_to_port race_env ''bob'' ''nowhere'' ''bob'' race_start))"
proof -
  have "\<not> d_ok (fst (connect_client_to_port race_env ''bob'' ''nowhere'' ''bob'' race_start))" by code_simp
  with attach_answers_truthfully[OF race_start_ok surjective_pairing, of race_env "''bob''" "''nowhere''" "''bob''"]
  show ?thesis by simp
qed

text \<open>A read-write attach needs a role and an entitlement: the server knows the user's permissions
  and the ladder (admin, then groups, then the access default, then the role) lets that user drive
  the port it found.\<close>

theorem attach_write_is_entitled:
  assumes "cm_ok s" "connect_client_to_port e c n u s = (d, t)" "d_mode d = ReadWrite"
  shows "\<exists>perms q. user_permissions e u = Some perms
    \<and> fst (get_port n (cm_pm (left_old e c s))) = Some q
    \<and> may_drive (taker_entitled e (Some q) (Some perms) u)"
  using connect_result[OF assms(2,1)] assms(3) by (simp add: connect_sound_def)

theorem attach_write_is_entitled_witness:
  "\<exists>perms q. user_permissions race_env ''alice'' = Some perms
    \<and> fst (get_port ''p'' (cm_pm (left_old race_env ''alice'' (empty_cm one_port)))) = Some q
    \<and> may_drive (taker_entitled race_env (Some q) (Some perms) ''alice'')"
proof -
  have "d_mode (fst (connect_client_to_port race_env ''alice'' ''p'' ''alice'' (empty_cm one_port))) = ReadWrite"
    by code_simp
  from attach_write_is_entitled[OF empty_cm_ok surjective_pairing this] show ?thesis .
qed

text \<open>Leaving is complete: a disconnect succeeds exactly for the port the client is on; it then has
  no record there, no mapping and no forwarding task, and no other client's mode changes.\<close>

theorem detach_leaves_nothing:
  assumes "cm_ok s" "disconnect_client_from_port e c n s = (r, t)"
  shows "r = mapped_to s c n \<and> cm_ok t \<and> (if r then unplugged c t else t = s)
    \<and> modes t k x = (if r \<and> k = n \<and> x = c then None else modes s k x)"
  using disconnect_result[OF assms(2,1)] assms(2)
  by (auto simp: disconnect_client_from_port_def split: if_splits)

theorem detach_leaves_nothing_witness:
  "unplugged ''alice'' (snd (disconnect_client_from_port race_env ''alice'' ''p'' race_start))"
proof -
  have "fst (disconnect_client_from_port race_env ''alice'' ''p'' race_start)"
    using race_mapped by (simp add: disconnect_client_from_port_def Let_def)
  with detach_leaves_nothing[OF race_start_ok surjective_pairing, of race_env "''alice''" "''p''"]
  show ?thesis by simp
qed

text \<open>A release is honest both ways: it is granted exactly to an attached client with a record, which
  is read-only afterwards; when it fails nothing changes and the decision keeps read-write, so that
  the console does not drop keystrokes of a client that is still the writer.\<close>

theorem release_answers_truthfully:
  assumes "cm_ok s" "demote_client_to_read_only e c n b s = (d, t)"
  shows "d_ok d = mapped_to s c n
    \<and> d_mode d = (if d_ok d then ReadOnly else ReadWrite)
    \<and> modes t k x = (if k = n \<and> x = c \<and> d_ok d then Some ReadOnly else modes s k x)"
  using demote_effect(2,3)[OF assms(2)] demote_modes_result[OF assms(2), of k x] assms(1)
  by (auto simp: cm_ok_def)

theorem release_answers_truthfully_witness:
  "modes race_mid ''p'' ''alice'' = Some ReadOnly"
  using release_answers_truthfully[OF race_start_ok surjective_pairing, of race_env "''alice''" "''p''" True "''p''" "''alice''"]
    race_mapped by (simp add: race_mid_def)

section \<open>Interleaved takeovers\<close>

text \<open>C8: The bound survives interleaving: with takeovers suspended between the demotion of the victim
  and the promotion of the taker, and any other operations and takeovers in between, no port ever has
  more writers than its capacity.\<close>

theorem races_never_exceed_capacity:
  assumes "cm_ok s" "race_run e dev (s, k) (t, k')"
  shows "enat (pm_writers (cm_pm t) n) \<le> pm_capacity (cm_pm t) n"
  using race_run_ok[OF assms(2)] assms(1) by (simp add: ok_bounded)

lemma race_steps:
  "race_step race_env dev (race_start, []) (race_mid, [(''bob'', ''p'', alice_rec)])"
  "race_step race_env dev (race_mid, k) (race_late, k)"
  "race_step race_env dev (race_late, [(''bob'', ''p'', alice_rec)]) (race_lost, [])"
proof -
  have dem: "demote_client_to_read_only race_env (cr_client_id alice_rec) ''p'' True race_start =
      (fst (demote_client_to_read_only race_env ''alice'' ''p'' True race_start), race_mid)"
    by (simp add: race_mid_def alice_rec_def)
  show "race_step race_env dev (race_start, []) (race_mid, [(''bob'', ''p'', alice_rec)])"
    using race_step.begin_take[OF race_parts(1) _ dem race_parts(2), of "[]" dev] by simp
  have "console_step race_env dev race_mid
      (Promote ''carol'' ''p'' (fst (promote_client_to_read_write race_env ''carol'' ''p'' race_mid))) race_late"
    by (simp add: console_step_simps race_late_def)
  then show "race_step race_env dev (race_mid, k) (race_late, k)" by (rule race_step.other)
  have "race_step race_env dev (race_late, [(''bob'', ''p'', alice_rec)])
      (snd (with_pm (promote_client ''p'' (cr_client_id alice_rec))
        (snd (promote_client_to_read_write race_env ''bob'' ''p'' race_late))),
       dict_del ''bob'' [(''bob'', ''p'', alice_rec)])"
    by (rule race_step.lost[OF _ surjective_pairing race_parts(3)]) simp
  then show "race_step race_env dev (race_late, [(''bob'', ''p'', alice_rec)]) (race_lost, [])"
    by (simp add: race_lost_def alice_rec_def)
qed

lemma race_to_lost: "race_run race_env dev (race_start, []) (race_lost, [])"
  using race_steps by (meson rtranclp.rtrancl_into_rtrancl rtranclp.rtrancl_refl)

theorem races_never_exceed_capacity_witness:
  "enat (pm_writers (cm_pm race_lost) ''p'') \<le> pm_capacity (cm_pm race_lost) ''p''"
  by (rule races_never_exceed_capacity[OF race_start_ok race_to_lost])

text \<open>A port that had a writer to take is never left without one: when an interleaved takeover ends in
  a refusal, the port has a writer again unless its victim has left the port in between.\<close>

theorem lost_take_leaves_a_writer:
  assumes "cm_ok s" "promote_client_to_read_write e taker n s = (pro, t)" "\<not> d_ok pro"
    and "modes s n (cr_client_id v) \<noteq> None" "pm_capacity (cm_pm t) n \<noteq> 0"
  shows "0 < pm_writers (cm_pm (snd (with_pm (promote_client n (cr_client_id v)) t))) n"
proof -
  have "pm_ok (cm_pm t)" using promote_keeps[OF cm_okD[OF assms(1)], of e taker n] assms(2) by simp
  moreover have "modes t = modes s"
    using promote_result(7)[OF assms(2) cm_okD[OF assms(1)] assms(3)] by (simp add: untouched_def)
  ultimately show ?thesis
    using promotion_leaves_writer[of "cm_pm t" n "cr_client_id v"] assms(4,5) by (simp add: modes_eq)
qed

lemma race_late_ok: "cm_ok race_late"
  by (simp add: race_late_def promote_cm_ok race_mid_ok)

theorem lost_take_leaves_a_writer_witness: "0 < pm_writers (cm_pm race_lost) ''p''"
proof -
  have "modes race_late ''p'' (cr_client_id alice_rec) \<noteq> None"
    "pm_capacity (cm_pm (snd (promote_client_to_read_write race_env ''bob'' ''p'' race_late))) ''p'' \<noteq> 0"
    by code_simp+
  from lost_take_leaves_a_writer[OF race_late_ok surjective_pairing race_parts(3) this]
  show ?thesis by (simp add: race_lost_def alice_rec_def)
qed

text \<open>The victim of a refused takeover is not always restored: there is a run in which the taker is
  refused, and the victim, a writer before, is read-only afterwards, because a third client was promoted
  into the slot while the takeover was suspended.\<close>

theorem victim_may_lose_slot_to_third_client:
  "race_run race_env dev (race_start, []) (race_late, [(''bob'', ''p'', alice_rec)])
   \<and> race_step race_env dev (race_late, [(''bob'', ''p'', alice_rec)]) (race_lost, [])
   \<and> \<not> d_ok (fst (promote_client_to_read_write race_env ''bob'' ''p'' race_late))
   \<and> map (modes race_start ''p'') [''alice'', ''bob'', ''carol''] = [Some ReadWrite, Some ReadOnly, Some ReadOnly]
   \<and> map (modes race_lost ''p'') [''alice'', ''bob'', ''carol''] = [Some ReadOnly, Some ReadOnly, Some ReadWrite]"
  using race_steps race_parts(3) race_modes
  by (meson rtranclp.rtrancl_into_rtrancl rtranclp.rtrancl_refl)

section \<open>Device data\<close>

text \<open>C7: A client is sent what the port received, in order: over any interleaving of incoming chunks and
  sends, what was sent to a client followed by what its queue still holds is a subsequence of what it
  had pending followed by what came in, and when the port counted no dropped chunk it is exactly that.\<close>

theorem delivery_in_order:
  assumes "lookup_port s n = Some p" "dict_get (p_queues p) c = Some q" "deliver n c rc es s = (out, t)"
  shows "subseq (out @ pending t n c) (pending s n c @ received es) \<and> dropped s n \<le> dropped t n
    \<and> (dropped t n = dropped s n \<longrightarrow> out @ pending t n c = pending s n c @ received es)"
  using assms by (rule deliver_stream)

definition feed_start :: pm where
  "feed_start = snd (add_client_to_port ''p'' ''alice'' ''alice'' ReadWrite (cm_pm (empty_cm one_port)))"

theorem delivery_in_order_witness:
  "fst (deliver ''p'' ''alice'' None [Received ''ab'', Received ''c'', Sent, Sent] feed_start) = [''ab'', ''c'']"
proof -
  let ?es = "[Received ''ab'', Received ''c'', Sent, Sent]"
  obtain out t where r: "deliver ''p'' ''alice'' None ?es feed_start = (out, t)" by fastforce
  have p: "lookup_port feed_start ''p'' \<noteq> None"
    "dict_get (p_queues (the (lookup_port feed_start ''p''))) ''alice'' \<noteq> None"
    "dropped (snd (deliver ''p'' ''alice'' None ?es feed_start)) ''p'' = dropped feed_start ''p''"
    "pending (snd (deliver ''p'' ''alice'' None ?es feed_start)) ''p'' ''alice'' = []"
    "pending feed_start ''p'' ''alice'' = []"
    by code_simp+
  then obtain q cq where "lookup_port feed_start ''p'' = Some q" "dict_get (p_queues q) ''alice'' = Some cq" by auto
  from delivery_in_order[OF this r] p r show ?thesis by simp
qed

text \<open>The buffers hold the newest data: after any chunks, the scrollback of a port is the last
  \<open>scrollback_size\<close> bytes of everything it received, and each client's queue the last 100 chunks.\<close>

theorem buffers_hold_newest:
  assumes "pm_ok s" "lookup_port s n = Some p" "dict_get (p_queues p) c = Some q"
  shows "get_scrollback n (feed n rc ds s) = newest (nat (sb_size (p_scroll p))) (sb_bytes (p_scroll p) @ concat ds)
    \<and> pending (feed n rc ds s) n c = newest 100 (q_items q @ ds)"
proof -
  have ok: "scroll_ok (p_scroll p)" "q_max q = 100 \<and> bounded_ok q"
    using pm_okD[OF assms(1,2)] assms(3) by (auto simp: port_ok_def queues_ok_def dest: dict_all_get)
  have "concat (map (\<lambda>c. [c]) ds) = ds" by (induction ds) simp_all
  then show ?thesis
    using ok scrollback.content_fold[OF ok(1), of ds] delivery.content_fold[of q ds]
      feed_lookup[OF assms(2), of rc ds] assms(3)
    by (simp add: get_scrollback_def pending_def fold_scroll fold_queue)
qed

lemma feed_start_ok: "pm_ok feed_start"
  using empty_cm_ok[of one_port] by (simp add: feed_start_def add_client_ok cm_okD)

theorem buffers_hold_newest_witness:
  "get_scrollback ''p'' (feed ''p'' None [''hello '', ''wide world''] feed_start) = ''wide world''"
proof -
  have p: "lookup_port feed_start ''p'' \<noteq> None"
    "dict_get (p_queues (the (lookup_port feed_start ''p''))) ''alice'' \<noteq> None"
    "newest (nat (sb_size (p_scroll (the (lookup_port feed_start ''p'')))))
       (sb_bytes (p_scroll (the (lookup_port feed_start ''p''))) @ concat [''hello '', ''wide world'']) = ''wide world''"
    by code_simp+
  then obtain q cq where q: "lookup_port feed_start ''p'' = Some q" "dict_get (p_queues q) ''alice'' = Some cq" by auto
  from buffers_hold_newest[OF feed_start_ok q, of None "[''hello '', ''wide world'']"] p(3) q show ?thesis by simp
qed

text \<open>Only a read-write client reaches the device: a write by anybody else is refused and leaves no
  trace in the event log, a write by a read-write client is logged exactly once before it is handed to
  the device.\<close>

theorem write_gate:
  "if pm_mode s n c = Some ReadWrite
   then pm_events (snd (write_to_port dev n data c s)) = pm_events s @ [EvData n ''out'' (Some c) data]
   else \<not> fst (write_to_port dev n data c s) \<and> pm_events (snd (write_to_port dev n data c s)) = pm_events s"
  using write_blocked[of s n c dev data] write_passed[of s n c dev data] by simp

end
